(* ===== verification/Prelude.thy ===== *)
theory Prelude
  imports Main "HOL-Library.Word" "HOL-Library.AList" "HOL-Library.Multiset" "HOL-Library.Sublist"
begin

text \<open>
  The shared layer of the smppd development: names for the machine types of the Rust source, the
  clock a handler reads, results of fallible calls, and the operations of
  \<^verbatim>\<open>std::collections::HashMap\<close> and \<^verbatim>\<open>Vec\<close> the components use, with the lemmas
  that carry the component proofs.

  A hash map is an association list with distinct keys.  Iterating over it visits the entries in
  list order; the theorems about iterating operations quantify over every such list, so they hold
  for every order a hash map may present.  A \<^verbatim>\<open>String\<close> is the list of its UTF-8 bytes
  (\<^typ>\<open>char\<close> has eight bits), so \<^const>\<open>length\<close> is Rust's \<^verbatim>\<open>len()\<close>.
\<close>

section \<open>Machine types, time and results\<close>

type_synonym u8 = "8 word"
type_synonym u16 = "16 word"
type_synonym u32 = "32 word"
type_synonym u64 = "64 word"
type_synonym i64 = "64 word"
type_synonym usize = "64 word"

text \<open>Instants (monotonic, wall-clock and UTC) are nanoseconds on an integer time line; durations
  are non-negative numbers of nanoseconds.\<close>

type_synonym instant = int
type_synonym duration = nat

record clock =
  ck_now :: instant
  ck_wall :: instant

abbreviation nanos_per_sec :: nat where
  "nanos_per_sec \<equiv> 1000000000"

definition from_secs :: "nat \<Rightarrow> duration" where
  "from_secs s = s * nanos_per_sec"

definition from_millis :: "nat \<Rightarrow> duration" where
  "from_millis m = m * 1000000"

definition as_millis :: "duration \<Rightarrow> nat" where
  "as_millis d = d div 1000000"

definition as_micros :: "duration \<Rightarrow> nat" where
  "as_micros d = d div 1000"

text \<open>\<^verbatim>\<open>Instant::elapsed\<close> saturates at zero when the instant lies in the future.\<close>

definition elapsed :: "instant \<Rightarrow> instant \<Rightarrow> duration" where
  "elapsed now t = nat (now - t)"

lemma elapsed_gt_iff: "d < elapsed now t \<longleftrightarrow> t + int d < now"
  by (auto simp: elapsed_def)

lemma elapsed_ge_iff: "0 < d \<Longrightarrow> d \<le> elapsed now t \<longleftrightarrow> t + int d \<le> now"
  by (auto simp: elapsed_def)

lemma elapsed_mono: "now \<le> now' \<Longrightarrow> elapsed now t \<le> elapsed now' t"
  by (auto simp: elapsed_def)

definition is_ok :: "'e + 'a \<Rightarrow> bool" where
  "is_ok r = (case r of Inl _ \<Rightarrow> False | Inr _ \<Rightarrow> True)"

lemma is_ok_simps [simp]: "\<not> is_ok (Inl e)" "is_ok (Inr a)"
  by (simp_all add: is_ok_def)

section \<open>Machine arithmetic\<close>

definition saturating_sub :: "'a::len word \<Rightarrow> 'a word \<Rightarrow> 'a word" where
  "saturating_sub a b = (if b \<le> a then a - b else 0)"

lemma unat_saturating_sub: "unat (saturating_sub a b) = unat a - unat b"
  by (auto simp: saturating_sub_def unat_sub word_le_nat_alt)

lemma saturating_sub_le: "saturating_sub a b \<le> a"
  by (simp add: word_le_nat_alt unat_saturating_sub)

lemma unat_of_nat_small:
  assumes "n < 2 ^ LENGTH('a::len)"
  shows "unat (of_nat n :: 'a word) = n"
  using assms by (simp add: unsigned_of_nat take_bit_nat_eq_self)

lemma unat_Suc_below:
  assumes "unat (x :: 'a::len word) < unat (y :: 'a word)"
  shows "unat (x + 1) = Suc (unat x)"
proof -
  have "Suc (unat x) < 2 ^ LENGTH('a)"
    using assms unsigned_less [of y, where 'a = nat] by (rule le_less_trans [OF Suc_leI])
  then show ?thesis using unat_add_lem [of x 1] by simp
qed

text \<open>Adding and then subtracting the same amounts on an unsigned counter cancels, whatever the
  order and however often the counter wraps.\<close>

lemma of_nat_word_diff:
  "b \<le> a \<Longrightarrow> (of_nat (a - b) :: 'a::len word) = of_nat a - of_nat b"
  by (simp add: of_nat_diff)

section \<open>Strings\<close>

definition starts_with :: "string \<Rightarrow> string \<Rightarrow> bool" where
  "starts_with s p = prefix p s"

lemma starts_with_Nil [simp]: "starts_with s []"
  by (simp add: starts_with_def)

lemma starts_with_code [code]: "starts_with s p = (take (length p) s = p)"
  by (metis append_take_drop_id append_eq_conv_conj prefix_def starts_with_def)

definition ends_with :: "string \<Rightarrow> string \<Rightarrow> bool" where
  "ends_with s p = suffix p s"

lemma ends_with_code [code]: "ends_with s p = (length p \<le> length s \<and> drop (length s - length p) s = p)"
  unfolding ends_with_def
  by (metis append_take_drop_id suffix_def suffix_length_le append_eq_append_conv
      append_take_drop_id diff_diff_cancel length_drop)

fun contains_str :: "string \<Rightarrow> string \<Rightarrow> bool" where
  "contains_str [] p = (p = [])"
| "contains_str (c # s) p = (starts_with (c # s) p \<or> contains_str s p)"

lemma contains_str_iff: "contains_str s p \<longleftrightarrow> sublist p s"
  by (induction s) (auto simp: starts_with_def sublist_Cons_right)

definition to_ascii_lower :: "char \<Rightarrow> char" where
  "to_ascii_lower c = (let n = of_char c :: nat in if 65 \<le> n \<and> n \<le> 90 then char_of (n + 32) else c)"

section \<open>Hash maps as association lists\<close>

named_theorems alist_laws

type_synonym ('k, 'v) alist = "('k \<times> 'v) list"

abbreviation distinct_keys :: "('k \<times> 'v) list \<Rightarrow> bool" where
  "distinct_keys m \<equiv> distinct (map fst m)"

abbreviation map_values :: "('k \<times> 'v) list \<Rightarrow> 'v list" where
  "map_values m \<equiv> map snd m"

text \<open>\<^verbatim>\<open>get_mut\<close> followed by an in-place change; an absent key changes nothing.\<close>

fun alist_modify :: "'k \<Rightarrow> ('v \<Rightarrow> 'v) \<Rightarrow> ('k \<times> 'v) list \<Rightarrow> ('k \<times> 'v) list" where
  "alist_modify k f [] = []"
| "alist_modify k f (e # m) = (if fst e = k then (k, f (snd e)) # m else e # alist_modify k f m)"

text \<open>\<^verbatim>\<open>entry(k).or_default()\<close> followed by an in-place change.\<close>

definition alist_upsert :: "'k \<Rightarrow> 'v \<Rightarrow> ('v \<Rightarrow> 'v) \<Rightarrow> ('k \<times> 'v) list \<Rightarrow> ('k \<times> 'v) list" where
  "alist_upsert k d f m = AList.update k (f (case map_of m k of None \<Rightarrow> d | Some v \<Rightarrow> v)) m"

text \<open>Removing a list of keys, one \<^verbatim>\<open>remove\<close> after another.\<close>

definition alist_remove_all :: "'k list \<Rightarrow> ('k \<times> 'v) list \<Rightarrow> ('k \<times> 'v) list" where
  "alist_remove_all ks m = fold AList.delete ks m"

lemma keys_modify [simp]: "map fst (alist_modify k f m) = map fst m"
  by (induction m) auto

lemma map_of_modify [alist_laws]:
  "map_of (alist_modify k f m) x = (if x = k then map_option f (map_of m k) else map_of m x)"
  by (induction m) auto

lemma length_modify [simp]: "length (alist_modify k f m) = length m"
  by (induction m) auto

lemma modify_absent: "map_of m k = None \<Longrightarrow> alist_modify k f m = m"
  by (induction m) (auto split: if_splits)

lemma set_modify:
  "distinct_keys m \<Longrightarrow> map_of m k = Some v \<Longrightarrow>
   set (alist_modify k f m) = insert (k, f v) (set m - {(k, v)})"
proof (induction m)
  case (Cons e m)
  then show ?case
    by (cases e) (force split: if_splits dest: map_of_SomeD)
qed simp

lemma map_of_update [alist_laws]:
  "map_of (AList.update k v m) x = (if x = k then Some v else map_of m x)"
  by (simp add: update_conv')

lemma map_of_delete [alist_laws]:
  "map_of (AList.delete k m) x = (if x = k then None else map_of m x)"
  by (simp add: delete_conv')

lemma map_of_upsert [alist_laws]:
  "map_of (alist_upsert k d f m) x =
     (if x = k then Some (f (case map_of m k of None \<Rightarrow> d | Some v \<Rightarrow> v)) else map_of m x)"
  by (simp add: alist_upsert_def map_of_update)

lemma upsert_None_iff:
  "map_of (alist_upsert k d f m) x = None \<longleftrightarrow> x \<noteq> k \<and> map_of m x = None"
  by (simp add: map_of_upsert)

lemma map_of_remove_all [alist_laws]:
  "map_of (alist_remove_all ks m) x = (if x \<in> set ks then None else map_of m x)"
  unfolding alist_remove_all_def
  by (induction ks arbitrary: m) (auto simp: map_of_delete)

lemma delete_is_filter: "AList.delete k m = filter (\<lambda>e. fst e \<noteq> k) m"
  by (induction m) (auto simp: AList.delete_eq)

lemma remove_all_is_filter: "alist_remove_all ks m = filter (\<lambda>e. fst e \<notin> set ks) m"
  unfolding alist_remove_all_def
proof (induction ks arbitrary: m)
  case (Cons k ks)
  then show ?case by (auto simp: delete_is_filter intro!: filter_cong)
qed simp

lemma distinct_keys_update [intro]: "distinct_keys m \<Longrightarrow> distinct_keys (AList.update k v m)"
  by (rule distinct_update)

lemma distinct_keys_filter [intro]: "distinct_keys m \<Longrightarrow> distinct_keys (filter P m)"
  by (induction m) auto

lemma distinct_keys_delete [intro]: "distinct_keys m \<Longrightarrow> distinct_keys (AList.delete k m)"
  by (simp add: delete_is_filter distinct_keys_filter)

lemma distinct_keys_remove_all [intro]:
  "distinct_keys m \<Longrightarrow> distinct_keys (alist_remove_all ks m)"
  by (simp add: remove_all_is_filter distinct_keys_filter)

lemma distinct_keys_modify [intro]: "distinct_keys m \<Longrightarrow> distinct_keys (alist_modify k f m)"
  by simp

lemma distinct_keys_upsert [intro]: "distinct_keys m \<Longrightarrow> distinct_keys (alist_upsert k d f m)"
  by (simp add: alist_upsert_def distinct_keys_update)

lemma set_alist_update: "set (AList.update k v m) \<subseteq> insert (k, v) (set m)"
  by (induction m) auto

lemma length_update_le: "length (AList.update k v m) \<le> Suc (length m)"
  by (induction m) auto

lemma update_absent: "map_of m k = None \<Longrightarrow> AList.update k v m = m @ [(k, v)]"
  by (induction m) (auto split: if_splits)

lemma in_set_map_of_eq: "distinct_keys m \<Longrightarrow> (k, v) \<in> set m \<longleftrightarrow> map_of m k = Some v"
  by (auto intro: map_of_is_SomeI map_of_SomeD)

section \<open>Paths\<close>

text \<open>\<^verbatim>\<open>Path::is_absolute\<close> and \<^verbatim>\<open>Path::join\<close> on Unix.\<close>

definition path_is_absolute :: "string \<Rightarrow> bool" where
  "path_is_absolute p = (p \<noteq> [] \<and> hd p = CHR ''/'')"

definition path_join :: "string \<Rightarrow> string \<Rightarrow> string" where
  "path_join a b =
     (if path_is_absolute b then b
      else if a = [] \<or> last a = CHR ''/'' then a @ b
      else a @ ''/'' @ b)"

section \<open>Sums over stores, sorting\<close>

lemma sum_list_filter_split:
  "sum_list (map f (filter P xs)) + sum_list (map f (filter (\<lambda>x. \<not> P x) xs)) =
     (sum_list (map f xs) :: nat)"
  by (induction xs) auto

text \<open>Sorting after every insertion is sorting once: both are the stable sort of the same list.\<close>

lemma sort_key_append_sorted: "sort_key f (sort_key f xs @ ys) = sort_key f (xs @ ys)"
proof (rule properties_for_sort_key)
  show "mset (sort_key f (xs @ ys)) = mset (sort_key f xs @ ys)" by simp
  fix k
  show "filter (\<lambda>x. f k = f x) (sort_key f (xs @ ys)) = filter (\<lambda>x. f k = f x) (sort_key f xs @ ys)"
    using sort_key_stable [of f "f k"] by (simp add: eq_commute [of "f k"])
qed simp

lemma mem_take_sort_key_least:
  assumes "x \<in> set (take n (sort_key f xs))" "y \<in> set (drop n (sort_key f xs))"
  shows "f x \<le> f y"
proof -
  obtain i where i: "i < n" "i < length xs" "x = sort_key f xs ! i"
    using assms(1) by (auto simp: in_set_conv_nth)
  obtain j where j: "n \<le> j" "j < length xs" "y = sort_key f xs ! j"
    using assms(2) by (auto simp: in_set_conv_nth) (metis le_add1 less_diff_conv add.commute)
  have "sorted (map f (sort_key f xs))" by simp
  then have "map f (sort_key f xs) ! i \<le> map f (sort_key f xs) ! j"
    using i j by (intro sorted_nth_mono) auto
  then show ?thesis using i j by simp
qed

lemma map_filter_all:
  "(\<And>x. x \<in> set xs \<Longrightarrow> f x = Some (g x)) \<Longrightarrow> List.map_filter f xs = map g xs"
  by (induction xs) (simp_all add: List.map_filter_def)

lemma length_filter_count: "length (filter P xs) = size (filter_mset P (mset xs))"
  by (metis mset_filter size_mset)

end
