(* ===== verification/Decimal.thy ===== *)
theory Decimal
  imports Prelude
begin

text \<open>
  Decimal numbers and byte strings of the standard library: \<^verbatim>\<open>Display\<close> and
  \<^verbatim>\<open>str::parse\<close> of unsigned integers, \<^verbatim>\<open>to_be_bytes\<close> and
  \<^verbatim>\<open>from_be_bytes\<close>, with the round trips the storage keys depend on.
\<close>

unbundle bit_operations_syntax

section \<open>Printing and parsing\<close>

fun show_nat :: "nat \<Rightarrow> string" where
  "show_nat n = (if n < 10 then [char_of (48 + n)] else show_nat (n div 10) @ [char_of (48 + n mod 10)])"

declare show_nat.simps [simp del]

definition digit_value :: "char \<Rightarrow> nat option" where
  "digit_value c = (let n = of_char c in if 48 \<le> n \<and> n \<le> (57::nat) then Some (n - 48) else None)"

fun parse_digits :: "nat \<Rightarrow> nat \<Rightarrow> string \<Rightarrow> nat option" where
  "parse_digits lim acc [] = Some acc"
| "parse_digits lim acc (c # cs) =
     (case digit_value c of
        None \<Rightarrow> None
      | Some d \<Rightarrow> if lim < acc * 10 + d then None else parse_digits lim (acc * 10 + d) cs)"

text \<open>\<^verbatim>\<open>str::parse\<close> for an unsigned type: an optional plus sign, at least one digit, no overflow.\<close>

definition parse_unsigned :: "nat \<Rightarrow> string \<Rightarrow> nat option" where
  "parse_unsigned lim s =
     (let ds = (case s of c # cs \<Rightarrow> if c = CHR ''+'' then cs else s | [] \<Rightarrow> s)
      in if ds = [] then None else parse_digits lim 0 ds)"

definition parse_u32 :: "string \<Rightarrow> u32 option" where
  "parse_u32 s = map_option of_nat (parse_unsigned (2 ^ 32 - 1) s)"

definition parse_u64 :: "string \<Rightarrow> u64 option" where
  "parse_u64 s = map_option of_nat (parse_unsigned (2 ^ 64 - 1) s)"

lemma digit_value_digit: "d < 10 \<Longrightarrow> digit_value (char_of (48 + d)) = Some d"
  by (simp add: digit_value_def)

lemma digit_value_plus [simp]: "digit_value CHR ''+'' = None"
  by (simp add: digit_value_def)

lemma digit_value_underscore [simp]: "digit_value CHR ''_'' = None"
  by (simp add: digit_value_def)

lemma show_nat_nonempty [simp]: "show_nat n \<noteq> []"
  by (subst show_nat.simps) simp

lemma show_nat_digits: "c \<in> set (show_nat n) \<Longrightarrow> digit_value c \<noteq> None"
proof (induction n rule: show_nat.induct)
  case (1 n)
  show ?case
  proof (cases "n < 10")
    case True
    with 1(2) show ?thesis by (simp add: show_nat.simps [of n] digit_value_digit)
  next
    case False
    then have "c \<in> set (show_nat (n div 10)) \<or> c = char_of (48 + n mod 10)"
      using 1(2) by (auto simp: show_nat.simps [of n])
    with 1(1) False show ?thesis by (auto simp: digit_value_digit)
  qed
qed

lemma parse_digits_append:
  "parse_digits lim acc (xs @ ys) =
     (case parse_digits lim acc xs of None \<Rightarrow> None | Some a \<Rightarrow> parse_digits lim a ys)"
  by (induction lim acc xs rule: parse_digits.induct) (auto split: option.splits)

lemma parse_digits_show: "n \<le> lim \<Longrightarrow> parse_digits lim 0 (show_nat n) = Some n"
proof (induction n rule: show_nat.induct)
  case (1 n)
  show ?case
  proof (cases "n < 10")
    case True
    with 1(2) show ?thesis by (simp add: show_nat.simps [of n] digit_value_digit)
  next
    case False
    then have "parse_digits lim 0 (show_nat (n div 10)) = Some (n div 10)"
      using 1 by simp
    moreover have "n div 10 * 10 + n mod 10 = n" by simp
    ultimately show ?thesis
      using False 1(2) by (simp add: show_nat.simps [of n] parse_digits_append digit_value_digit del: div_mult_mod_eq)
  qed
qed

theorem parse_show_nat:
  assumes "n \<le> lim"
  shows "parse_unsigned lim (show_nat n) = Some n"
proof (cases "show_nat n")
  case (Cons c cs)
  then have "c \<noteq> CHR ''+''" using show_nat_digits [of c n] by auto
  with Cons show ?thesis
    using parse_digits_show [OF assms] by (simp add: parse_unsigned_def del: parse_digits.simps)
qed simp

lemma show_nat_inject [simp]: "show_nat a = show_nat b \<longleftrightarrow> a = b"
  by (metis parse_digits_show max.cobounded1 max.cobounded2 option.inject)

lemma show_nat_no_underscore: "CHR ''_'' \<notin> set (show_nat n)"
  using show_nat_digits by fastforce

text \<open>Two numbers separated by an underscore can be told apart.\<close>

lemma append_separator_inject:
  "c \<notin> set xs \<Longrightarrow> c \<notin> set ys \<Longrightarrow> xs @ c # zs = ys @ c # us \<longleftrightarrow> xs = ys \<and> zs = us"
proof (induction xs arbitrary: ys)
  case Nil
  then show ?case by (cases ys) auto
next
  case (Cons x xs)
  then show ?case by (cases ys) auto
qed

lemma parse_u64_show: "parse_u64 (show_nat (unat (w :: u64))) = Some w"
proof -
  have "unat w \<le> 2 ^ 64 - 1" using unsigned_less [of w, where 'a = nat] by simp
  then show ?thesis by (simp add: parse_u64_def parse_show_nat)
qed

section \<open>Big-endian bytes\<close>

definition to_be_bytes :: "u64 \<Rightarrow> u8 list" where
  "to_be_bytes w = map (\<lambda>i. ucast (drop_bit (8 * i) w)) (rev [0..<8])"

definition from_be_bytes :: "u8 list \<Rightarrow> u64" where
  "from_be_bytes bs = foldl (\<lambda>acc b. push_bit 8 acc OR ucast b) 0 bs"

lemma length_to_be_bytes [simp]: "length (to_be_bytes w) = 8"
  by (simp add: to_be_bytes_def)

text \<open>The bytes are the digits of the number in base 256.\<close>

lemma ucast_byte: "(ucast (ucast (x :: u64) :: u8) :: u64) = take_bit 8 x"
  by (rule bit_word_eqI) (auto simp: bit_simps)

lemma be_accumulate:
  "push_bit 8 (drop_bit (8 * Suc n) w) OR take_bit 8 (drop_bit (8 * n) w) = drop_bit (8 * n) (w :: u64)"
  by (rule bit_word_eqI) (auto simp: bit_simps)

lemma foldl_be_bytes:
  "foldl (\<lambda>acc b. push_bit 8 acc OR ucast b) (drop_bit (8 * n) w)
     (map (\<lambda>i. ucast (drop_bit (8 * i) (w :: u64)) :: u8) (rev [0..<n])) = w"
  by (induction n) (use be_accumulate in \<open>simp_all add: ucast_byte\<close>)

lemma from_to_be_bytes [simp]: "from_be_bytes (to_be_bytes w) = w"
proof -
  have "drop_bit (8 * 8) w = 0" by (rule bit_word_eqI) (simp add: bit_simps)
  then show ?thesis
    using foldl_be_bytes [of 8 w] by (simp only: from_be_bytes_def to_be_bytes_def)
qed

lemma to_be_bytes_inject [simp]: "to_be_bytes a = to_be_bytes b \<longleftrightarrow> a = b"
  by (metis from_to_be_bytes)

end
