(* ===== verification/LoadBalancer.thy ===== *)
theory LoadBalancer
  imports Decimal
begin

unbundle bit_operations_syntax

text \<open>
  The load-balancing strategies of \<^verbatim>\<open>src/src/cluster/lb.rs\<close>.  A strategy is its private state and a
  \<^verbatim>\<open>select\<close> function; the endpoints are abstract, with an accessor for their active connections,
  and the atomic counter is threaded explicitly.  The locale \<open>balancer\<close> is the contract of the trait
  \<^verbatim>\<open>LoadBalancer\<close> the cluster relies on: nothing is selected from an empty list, a member is
  selected from a non-empty one.  It is interpreted on every built-in strategy.
\<close>

section \<open>Strategies\<close>

type_synonym 'e conns = "'e \<Rightarrow> usize"

definition round_robin_select :: "'e conns \<Rightarrow> 'e list \<Rightarrow> usize \<Rightarrow> 'e option \<times> usize" where
  "round_robin_select active eps counter =
     (if eps = [] then (None, counter)
      else (Some (eps ! (unat counter mod length eps)), counter + 1))"

record weighted =
  w_weights :: "u32 list"
  w_total_weight :: u32
  w_counter :: usize

definition weighted_new :: "u32 list \<Rightarrow> weighted" where
  "weighted_new ws = \<lparr> w_weights = ws, w_total_weight = sum_list ws, w_counter = 0 \<rparr>"

text \<open>The accumulating loop of \<^verbatim>\<open>Weighted::select\<close>; \<open>i\<close> is the loop index.\<close>

fun weighted_scan :: "u32 list \<Rightarrow> u32 \<Rightarrow> nat \<Rightarrow> u32 \<Rightarrow> 'e list \<Rightarrow> 'e option" where
  "weighted_scan ws target i acc [] = None"
| "weighted_scan ws target i acc (e # eps) =
     (let acc' = acc + (if i < length ws then ws ! i else 1)
      in if target < acc' then Some e else weighted_scan ws target (Suc i) acc' eps)"

definition weighted_select :: "'e conns \<Rightarrow> 'e list \<Rightarrow> weighted \<Rightarrow> 'e option \<times> weighted" where
  "weighted_select active eps w =
     (if eps = [] \<or> w_total_weight w = 0 then (None, w)
      else
        let target = (ucast (w_counter w) :: u32) mod w_total_weight w;
            w' = w \<lparr> w_counter := w_counter w + 1 \<rparr>
        in case weighted_scan (w_weights w) target 0 0 eps of
             Some e \<Rightarrow> (Some e, w')
           | None \<Rightarrow> (Some (hd eps), w'))"

text \<open>\<^verbatim>\<open>Iterator::min_by\<close> keeps the first of several minimal elements; \<open>gt a b\<close> says that the
  comparison of \<open>a\<close> with \<open>b\<close> is \<^verbatim>\<open>Greater\<close>.\<close>

fun min_by :: "('a \<Rightarrow> 'a \<Rightarrow> bool) \<Rightarrow> 'a list \<Rightarrow> 'a option" where
  "min_by gt [] = None"
| "min_by gt (x # xs) = Some (fold (\<lambda>y best. if gt best y then y else best) xs x)"

definition least_connections_select :: "'e conns \<Rightarrow> 'e list \<Rightarrow> unit \<Rightarrow> 'e option \<times> unit" where
  "least_connections_select active eps u =
     (if eps = [] then (None, u) else (min_by (\<lambda>a b. active a > active b) eps, u))"

definition xorshift :: "usize \<Rightarrow> usize" where
  "xorshift s0 =
     (let s = (if s0 = 0 then 1 else s0);
          s = s XOR push_bit 13 s;
          s = s XOR drop_bit 7 s
      in s XOR push_bit 17 s)"

definition random_select :: "'e conns \<Rightarrow> 'e list \<Rightarrow> usize \<Rightarrow> 'e option \<times> usize" where
  "random_select active eps counter =
     (if eps = [] then (None, counter)
      else let s = xorshift counter in (Some (eps ! (unat s mod length eps)), s))"

definition fnv_hash :: "string \<Rightarrow> u64" where
  "fnv_hash key =
     fold (\<lambda>c h. (h XOR of_nat (of_char c)) * 1099511628211) key 14695981039346656037"

record consistent_hash =
  ch_ring :: "(u64 \<times> nat) list"
  ch_replicas :: nat
  ch_counter :: usize

definition consistent_hash_new :: "string list \<Rightarrow> nat \<Rightarrow> consistent_hash" where
  "consistent_hash_new addresses replicas0 =
     (let replicas = (if replicas0 = 0 then 100 else replicas0)
      in \<lparr> ch_ring = sort_key fst
             (concat (map (\<lambda>(idx, address).
                 map (\<lambda>i. (fnv_hash (address @ '':'' @ show_nat i), idx)) [0..<replicas])
               (enumerate 0 addresses))),
           ch_replicas = replicas, ch_counter = 0 \<rparr>)"

text \<open>The first node at or after the hash of the key, wrapping to the start of the ring (the position
  a binary search over the sorted ring yields; two nodes with the same 64-bit hash are resolved to
  the first of them).\<close>

definition select_by_key :: "string \<Rightarrow> consistent_hash \<Rightarrow> nat option" where
  "select_by_key key ch =
     (if ch_ring ch = [] then None
      else
        let h = fnv_hash key;
            idx = length (takeWhile (\<lambda>n. fst n < h) (ch_ring ch));
            idx = (if length (ch_ring ch) \<le> idx then 0 else idx)
        in Some (snd (ch_ring ch ! idx)))"

definition consistent_hash_select :: "'e conns \<Rightarrow> 'e list \<Rightarrow> consistent_hash \<Rightarrow> 'e option \<times> consistent_hash" where
  "consistent_hash_select active eps ch =
     (if eps = [] then (None, ch)
      else
        let idx = unat (ch_counter ch) mod length eps;
            ch' = ch \<lparr> ch_counter := ch_counter ch + 1 \<rparr>
        in if ch_ring ch = [] then (Some (eps ! idx), ch') else (Some (eps ! idx), ch'))"

definition weighted_least_conn_new :: "u32 list \<Rightarrow> u32 list" where
  "weighted_least_conn_new ws = map (\<lambda>w. max w 1) ws"

definition weight_at :: "u32 list \<Rightarrow> nat \<Rightarrow> usize" where
  "weight_at ws i = (if i < length ws then ucast (ws ! i) else 1)"

definition wlc_greater :: "'e conns \<Rightarrow> u32 list \<Rightarrow> nat \<times> 'e \<Rightarrow> nat \<times> 'e \<Rightarrow> bool" where
  "wlc_greater active ws a b =
     (active (snd a) * weight_at ws (fst b) > active (snd b) * weight_at ws (fst a))"

definition weighted_least_conn_select :: "'e conns \<Rightarrow> 'e list \<Rightarrow> u32 list \<Rightarrow> 'e option \<times> u32 list" where
  "weighted_least_conn_select active eps ws =
     (if eps = [] then (None, ws)
      else (map_option snd (min_by (wlc_greater active ws) (enumerate 0 eps)), ws))"

definition p2c_choices :: "nat \<Rightarrow> usize \<Rightarrow> nat \<times> nat \<times> usize" where
  "p2c_choices n counter =
     (let s1 = xorshift counter; i = unat s1 mod n;
          s2 = xorshift s1; j = (unat s2 mod (n - 1) + i + 1) mod n
      in (i, j, s2))"

definition p2c_select :: "'e conns \<Rightarrow> 'e list \<Rightarrow> usize \<Rightarrow> 'e option \<times> usize" where
  "p2c_select active eps counter =
     (if length eps = 0 then (None, counter)
      else if length eps = 1 then (Some (eps ! 0), counter)
      else
        let (i, j, counter') = p2c_choices (length eps) counter;
            a = eps ! i; b = eps ! j
        in (Some (if active a \<le> active b then a else b), counter'))"

section \<open>The contract of a load balancer\<close>

locale balancer =
  fixes sel :: "'e conns \<Rightarrow> 'e list \<Rightarrow> 's \<Rightarrow> 'e option \<times> 's"
    and ready :: "'s \<Rightarrow> bool"
  assumes sel_empty: "sel active [] s = (None, s)"
    and sel_member: "ready s \<Longrightarrow> eps \<noteq> [] \<Longrightarrow> \<exists>e \<in> set eps. fst (sel active eps s) = Some e"
    and sel_ready: "ready s \<Longrightarrow> ready (snd (sel active eps s))"
begin

lemma sel_sound: "ready s \<Longrightarrow> fst (sel active eps s) = Some e \<Longrightarrow> e \<in> set eps"
  using sel_empty [of active s] sel_member [of s eps active] by (cases eps) auto

lemma sel_none_iff: "ready s \<Longrightarrow> fst (sel active eps s) = None \<longleftrightarrow> eps = []"
  using sel_empty [of active s] sel_member [of s eps active] by (cases "eps = []") auto

text \<open>A run of selections, threading the state; every selection from a non-empty list succeeds and
  yields a member of the list it was offered.\<close>

lemma run_members:
  assumes "ready s" "\<forall>eps \<in> set rounds. eps \<noteq> []"
  shows "list_all2 (\<lambda>r eps. \<exists>e \<in> set eps. r = Some e)
    (snd (fold (\<lambda>eps (t, rs). (snd (sel active eps t), rs @ [fst (sel active eps t)])) rounds (s, []))) rounds"
proof -
  have "ready t \<Longrightarrow> \<forall>eps \<in> set rounds. eps \<noteq> [] \<Longrightarrow>
    \<exists>out. snd (fold (\<lambda>eps (t, rs). (snd (sel active eps t), rs @ [fst (sel active eps t)])) rounds (t, acc)) =
            acc @ out \<and> list_all2 (\<lambda>r eps. \<exists>e \<in> set eps. r = Some e) out rounds" for t acc
  proof (induction rounds arbitrary: t acc)
    case (Cons eps rounds)
    from Cons.IH [OF sel_ready [OF Cons.prems(1), of active eps],
        of "acc @ [fst (sel active eps t)]"] Cons.prems
    obtain out where out: "snd (fold (\<lambda>eps (t, rs). (snd (sel active eps t), rs @ [fst (sel active eps t)]))
        rounds (snd (sel active eps t), acc @ [fst (sel active eps t)])) =
          (acc @ [fst (sel active eps t)]) @ out"
      "list_all2 (\<lambda>r eps. \<exists>e \<in> set eps. r = Some e) out rounds" by auto
    with sel_member [OF Cons.prems(1), of eps active] Cons.prems(2) show ?case
      by (intro exI [of _ "fst (sel active eps t) # out"]) simp
  qed simp
  from this [OF assms(1,2), of "[]"] show ?thesis by auto
qed

end

lemma mod_length_mem: "eps \<noteq> [] \<Longrightarrow> eps ! (n mod length eps) \<in> set eps"
  by simp

lemma min_by_mem: "min_by gt xs = Some x \<Longrightarrow> x \<in> set xs"
proof (cases xs)
  case (Cons a ys)
  have "fold (\<lambda>y best. if gt best y then y else best) ys b \<in> insert b (set ys)" for b
    by (induction ys arbitrary: b) auto
  then show "min_by gt xs = Some x \<Longrightarrow> x \<in> set xs" using Cons by auto
qed simp

lemma min_by_some: "xs \<noteq> [] \<Longrightarrow> \<exists>x \<in> set xs. min_by gt xs = Some x"
  using min_by_mem [of gt xs] by (cases xs) auto

lemma weighted_scan_mem: "weighted_scan ws t i acc eps = Some e \<Longrightarrow> e \<in> set eps"
  by (induction ws t i acc eps rule: weighted_scan.induct) (auto simp: Let_def split: if_splits)

interpretation rr: balancer round_robin_select "\<lambda>_. True"
  by unfold_locales (auto simp: round_robin_select_def)

interpretation wt: balancer weighted_select "\<lambda>w. w_total_weight w \<noteq> 0"
  by unfold_locales
     (auto simp: weighted_select_def Let_def dest: weighted_scan_mem split: option.splits)

interpretation lc: balancer least_connections_select "\<lambda>_. True"
  by unfold_locales (auto simp: least_connections_select_def min_by_some)

interpretation rnd: balancer random_select "\<lambda>_. True"
  by unfold_locales (auto simp: random_select_def Let_def)

interpretation chash: balancer consistent_hash_select "\<lambda>_. True"
  by unfold_locales (auto simp: consistent_hash_select_def Let_def)

lemma enumerate_min_some:
  assumes "eps \<noteq> []"
  shows "\<exists>e \<in> set eps. map_option snd (min_by gt (enumerate n eps)) = Some e"
proof -
  have "enumerate n eps \<noteq> []" using assms by (metis length_enumerate length_0_conv)
  then obtain x where x: "x \<in> set (enumerate n eps)" "min_by gt (enumerate n eps) = Some x"
    using min_by_some by blast
  then have "snd x \<in> set eps" by (metis map_snd_enumerate image_eqI list.set_map)
  with x(2) show ?thesis by simp
qed

interpretation wlc: balancer weighted_least_conn_select "\<lambda>_. True"
  by unfold_locales (simp_all add: weighted_least_conn_select_def enumerate_min_some del: map_option_eq_Some)

lemma p2c_bounds:
  assumes "1 < n" "p2c_choices n c = (i, j, c')"
  shows "i < n" "j < n"
  using assms by (auto simp: p2c_choices_def Let_def)

lemma p2c_member:
  assumes "eps \<noteq> []"
  shows "\<exists>e \<in> set eps. fst (p2c_select active eps c) = Some e"
proof (cases "length eps = 1")
  case False
  obtain i j c' where ij: "p2c_choices (length eps) c = (i, j, c')" by (metis prod_cases3)
  have "1 < length eps" using False assms by (cases eps) auto
  from p2c_bounds [OF this ij] have "eps ! i \<in> set eps" "eps ! j \<in> set eps" by simp_all
  with False assms ij show ?thesis by (simp add: p2c_select_def Let_def)
qed (use assms in \<open>simp add: p2c_select_def\<close>)

interpretation p2c: balancer p2c_select "\<lambda>_. True"
  by unfold_locales (auto simp: p2c_member, simp add: p2c_select_def)

section \<open>Quality of the strategies\<close>

lemma rotate_map: "map (\<lambda>k. xs ! ((m + k) mod length xs)) [0..<length xs] = rotate m xs"
  by (rule nth_equalityI) (simp_all add: nth_rotate add.commute)

lemma mset_rotate_eq: "mset (rotate m xs) = mset xs"
  by (metis append_take_drop_id mset_append rotate_drop_take union_commute)

text \<open>round robin is fair.  As long as the counter does not wrap, any \<open>n\<close> consecutive selections
  from a fixed list of \<open>n\<close> endpoints pick each endpoint exactly once.\<close>

theorem round_robin_fair:
  assumes "eps \<noteq> []" "unat c + length eps \<le> 2 ^ 64"
  shows "mset (map (\<lambda>k. the (fst (round_robin_select active eps (c + of_nat k)))) [0..<length eps]) = mset eps"
proof -
  have "unat (c + of_nat k) = unat c + k" if "k < length eps" for k
  proof -
    have "unat (of_nat k :: usize) = k" using that assms(2) by (intro unat_of_nat_small) simp
    with that assms(2) show ?thesis using unat_add_lem [of c "of_nat k"] by simp
  qed
  then have "map (\<lambda>k. the (fst (round_robin_select active eps (c + of_nat k)))) [0..<length eps] =
      rotate (unat c) eps"
    unfolding rotate_map [symmetric] using assms(1) by (simp add: round_robin_select_def)
  then show ?thesis by (simp add: mset_rotate_eq)
qed

theorem round_robin_fair_witness:
  "mset (map (\<lambda>k. the (fst (round_robin_select (\<lambda>_. 0) [10, 20, 30 :: nat] (7 + of_nat k)))) [0..<3]) =
     {#10, 20, 30#}"
  using round_robin_fair [of "[10, 20, 30 :: nat]" 7 "\<lambda>_. 0"] by (simp add: numeral_3_eq_3)

text \<open>The weighted scan on natural numbers: the index of the first prefix sum above the target.\<close>

fun weight_index :: "nat list \<Rightarrow> nat \<Rightarrow> nat" where
  "weight_index [] t = 0"
| "weight_index (w # ws) t = (if t < w then 0 else Suc (weight_index ws (t - w)))"

lemma weight_index_bound: "t < sum_list ws \<Longrightarrow> weight_index ws t < length ws"
  by (induction ws t rule: weight_index.induct) auto

lemma weight_index_card:
  "i < length ws \<Longrightarrow> card {t. t < sum_list ws \<and> weight_index ws t = i} = ws ! i"
proof (induction ws arbitrary: i)
  case (Cons w ws)
  show ?case
  proof (cases i)
    case 0
    have "{t. t < sum_list (w # ws) \<and> weight_index (w # ws) t = 0} = {..<w}" by auto
    then show ?thesis using 0 by simp
  next
    case (Suc k)
    have "{t. t < sum_list (w # ws) \<and> weight_index (w # ws) t = Suc k} =
        (\<lambda>t. w + t) ` {t. t < sum_list ws \<and> weight_index ws t = k}" (is "?L = ?R")
    proof (rule set_eqI, rule iffI)
      fix t assume "t \<in> ?L"
      then have "t = w + (t - w)" "t - w < sum_list ws" "weight_index ws (t - w) = k"
        by (auto split: if_splits)
      then show "t \<in> ?R" by blast
    qed auto
    then show ?thesis using Suc Cons by (simp add: card_image)
  qed
qed simp

lemma weighted_scan_index:
  assumes "i + length eps = length ws"
    and "unat acc + sum_list (map unat (drop i ws)) < 2 ^ 32"
    and "unat acc \<le> unat t" "unat t < unat acc + sum_list (map unat (drop i ws))"
  shows "weighted_scan ws t i acc eps = Some (eps ! weight_index (map unat (drop i ws)) (unat t - unat acc))"
  using assms
proof (induction eps arbitrary: i acc)
  case (Cons e eps)
  have d: "drop i ws = ws ! i # drop (Suc i) ws"
    using Cons.prems(1) by (simp add: Cons_nth_drop_Suc)
  have u: "unat (acc + ws ! i) = unat acc + unat (ws ! i)"
    using Cons.prems(2) unat_add_lem [of acc "ws ! i"] by (simp add: d)
  have lt: "(t < acc + ws ! i) = (unat t - unat acc < unat (ws ! i))"
    using Cons.prems(3) by (auto simp: word_less_nat_alt u)
  show ?case
  proof (cases "t < acc + ws ! i")
    case True
    then show ?thesis using Cons.prems(1) lt by (simp add: d)
  next
    case False
    have "weighted_scan ws t (Suc i) (acc + ws ! i) eps =
        Some (eps ! weight_index (map unat (drop (Suc i) ws)) (unat t - unat (acc + ws ! i)))"
      using Cons.prems False lt by (intro Cons.IH) (auto simp: d u word_less_nat_alt)
    then show ?thesis using Cons.prems(1) False lt by (simp add: d u diff_diff_add)
  qed
qed simp

text \<open>weighted round robin gives each endpoint exactly its share.  When all configured endpoints are
  offered and the weights sum to \<open>W\<close> below \<open>2^32\<close>, exactly \<open>w\<^sub>i\<close> of the \<open>W\<close> counter values of one
  cycle select endpoint \<open>i\<close>.\<close>

theorem weighted_exact_share:
  assumes "length eps = length ws" "distinct eps" "i < length eps"
    and "sum_list (map unat ws) < 2 ^ 32"
  shows "card {c. c < sum_list (map unat ws) \<and>
           fst (weighted_select active eps (weighted_new ws \<lparr> w_counter := of_nat c \<rparr>)) = Some (eps ! i)} =
         unat (ws ! i)"
proof -
  let ?W = "sum_list (map unat ws)"
  have tot: "sum_list ws = (of_nat ?W :: u32)" by (induction ws) simp_all
  have sel: "fst (weighted_select active eps (weighted_new ws \<lparr> w_counter := of_nat c \<rparr>)) =
      Some (eps ! weight_index (map unat ws) c)" if c: "c < ?W" for c
  proof -
    have W: "unat (of_nat ?W :: u32) = ?W" using assms(4) by (intro unat_of_nat_small) simp
    have nz: "(of_nat ?W :: u32) \<noteq> 0" using W c by (metis less_nat_zero_code unat_0)
    have "unat (of_nat c :: u32) = c" using c assms(4) by (intro unat_of_nat_small) simp
    then have t: "unat ((of_nat c :: u32) mod of_nat ?W) = c"
      using c by (simp add: unat_mod W)
    have "eps \<noteq> []" using assms(3) by auto
    moreover have "weighted_scan ws ((of_nat c :: u32) mod of_nat ?W) 0 0 eps =
        Some (eps ! weight_index (map unat ws) c)"
      using weighted_scan_index [of 0 eps ws 0 "(of_nat c :: u32) mod of_nat ?W"] assms(1,4) c by (simp add: t)
    moreover have "take_bit 64 c = c"
      using c assms(4) by (intro take_bit_nat_eq_self) simp
    ultimately show ?thesis
      using nz by (simp add: weighted_select_def weighted_new_def Let_def tot unsigned_of_nat)
  qed
  have "{c. c < ?W \<and> fst (weighted_select active eps (weighted_new ws \<lparr> w_counter := of_nat c \<rparr>)) = Some (eps ! i)} =
      {c. c < ?W \<and> weight_index (map unat ws) c = i}"
  proof (intro Collect_cong conj_cong refl)
    fix c assume c: "c < ?W"
    then have "weight_index (map unat ws) c < length eps"
      using weight_index_bound [of c "map unat ws"] assms(1) by simp
    then show "(fst (weighted_select active eps (weighted_new ws \<lparr> w_counter := of_nat c \<rparr>)) = Some (eps ! i)) =
        (weight_index (map unat ws) c = i)"
      using assms(2,3) by (simp add: sel [OF c] nth_eq_iff_index_eq)
  qed
  then show ?thesis using weight_index_card [of i "map unat ws"] assms(1,3) by simp
qed

theorem weighted_exact_share_witness:
  "card {c. c < sum_list (map unat [3, 1 :: u32]) \<and>
      fst (weighted_select (\<lambda>_. 0) [''a'', ''b''] (weighted_new [3, 1] \<lparr> w_counter := of_nat c \<rparr>)) =
        Some ([''a'', ''b''] ! 0)} = unat ([3, 1 :: u32] ! 0)"
  by (rule weighted_exact_share) simp_all

text \<open>the weights are looked up by position in the list of healthy endpoints, not by endpoint.  With
  configured weights 1, 9 and 0 for \<open>a\<close>, \<open>b\<close> and \<open>c\<close> and \<open>a\<close> down, \<open>c\<close> (configured to get no traffic)
  receives nine of ten requests.\<close>

theorem weighted_misattributes_weights:
  "card {c. c < 10 \<and> fst (weighted_select (\<lambda>_. 0) [''b'', ''c''] (weighted_new [1, 9, 0] \<lparr> w_counter := of_nat c \<rparr>)) =
      Some ''c''} = 9"
proof -
  let ?sel = "\<lambda>c. fst (weighted_select (\<lambda>_. 0) [''b'', ''c''] (weighted_new [1, 9, 0] \<lparr> w_counter := of_nat c \<rparr>))"
  have s: "?sel c = Some (if c = 0 then ''b'' else ''c'')" if "c < 10" for c
  proof -
    have "c \<in> {0, 1, 2, 3, 4, 5, 6, 7, 8, 9}" using that by auto
    then show ?thesis
      by (elim insertE emptyE) (simp_all add: weighted_select_def weighted_new_def Let_def word_less_nat_alt unat_mod)
  qed
  have "{c. c < 10 \<and> ?sel c = Some ''c''} = {1..<10}"
    using s by (auto split: if_splits)
  then show ?thesis by simp
qed

lemma fold_min_key:
  fixes f :: "'a \<Rightarrow> 'b::linorder"
  shows "f (fold (\<lambda>y best. if f best > f y then y else best) xs x) \<le> f x \<and>
    (\<forall>y \<in> set xs. f (fold (\<lambda>y best. if f best > f y then y else best) xs x) \<le> f y)"
proof (induction xs arbitrary: x)
  case (Cons a xs)
  show ?case
    using Cons.IH [of a] Cons.IH [of x] by (cases "f a < f x") (auto simp: not_less intro: order.trans)
qed simp

text \<open>least connections selects a member with the fewest active connections.\<close>

theorem least_connections_minimal:
  assumes "fst (least_connections_select active eps ()) = Some e"
  shows "e \<in> set eps \<and> (\<forall>e' \<in> set eps. active e \<le> active e')"
proof (cases eps)
  case (Cons a ys)
  with assms have "e = fold (\<lambda>y best. if active best > active y then y else best) ys a"
    by (simp add: least_connections_select_def)
  with Cons fold_min_key [of active ys a] lc.sel_sound [OF _ assms] show ?thesis by simp
qed (use assms in \<open>simp add: least_connections_select_def\<close>)

theorem least_connections_minimal_witness:
  "\<forall>e' \<in> set [5, 3, 4 :: usize]. 3 \<le> e'"
proof -
  have "fst (least_connections_select (\<lambda>x. x) [5, 3, 4 :: usize] ()) = Some 3"
    by (simp add: least_connections_select_def word_less_nat_alt)
  from least_connections_minimal [OF this] show ?thesis by simp
qed

text \<open>power of two choices compares two different endpoints, and selects the less loaded of the two.\<close>

theorem p2c_two_distinct_choices:
  assumes "1 < length eps" "p2c_choices (length eps) c = (i, j, c')"
  shows "i \<noteq> j \<and> i < length eps \<and> j < length eps \<and>
    p2c_select active eps c =
      (Some (if active (eps ! i) \<le> active (eps ! j) then eps ! i else eps ! j), c')"
proof -
  let ?n = "length eps"
  define r where "r = unat (xorshift (xorshift c))"
  define d where "d = r mod (?n - 1)"
  have j: "j = (d + i + 1) mod ?n"
    using assms by (auto simp: p2c_choices_def Let_def r_def d_def)
  have i: "i < ?n" using p2c_bounds [OF assms] by simp
  have d: "d < ?n - 1" using assms(1) by (simp add: d_def)
  have "i \<noteq> j"
  proof (cases "d + i + 1 < ?n")
    case True
    then show ?thesis using j by simp
  next
    case False
    then have "j = d + i + 1 - ?n" unfolding j using d i by (subst le_mod_geq) simp_all
    then show ?thesis using d False by linarith
  qed
  with assms p2c_bounds [OF assms] show ?thesis by (auto simp: p2c_select_def Let_def)
qed

theorem p2c_two_distinct_choices_witness:
  "\<exists>i j c'. p2c_choices (length [7, 9 :: nat]) 42 = (i, j, c') \<and> i \<noteq> j \<and> i < 2 \<and> j < 2"
proof -
  obtain i j c' where c: "p2c_choices (length [7, 9 :: nat]) 42 = (i, j, c')" by (metis prod_cases3)
  from p2c_two_distinct_choices [OF _ c, of "\<lambda>_. 0"]
  have "i \<noteq> j \<and> i < 2 \<and> j < 2" by (simp add: numeral_2_eq_2)
  with c show ?thesis by blast
qed

end
