(* ===== verification/Router.thy ===== *)
theory Router
  imports LoadBalancer
begin

text \<open>
  Routing (\<^verbatim>\<open>src/src/router/matcher.rs\<close>, \<^verbatim>\<open>src/src/router/router.rs\<close> and the route part of
  \<^verbatim>\<open>src/src/config/types.rs\<close>).  Regular expressions (crate \<^verbatim>\<open>regex\<close>) and time zones
  (crates \<^verbatim>\<open>chrono\<close>, \<^verbatim>\<open>chrono-tz\<close>) are parameters: a record with what the code calls.
  The traffic-split counters live in the router, so routing returns the router with its counters.
\<close>

section \<open>Parameters: regular expressions and local time\<close>

record regex_engine =
  re_valid :: "string \<Rightarrow> bool"
  re_is_match :: "string \<Rightarrow> string \<Rightarrow> bool"

datatype weekday = Mon | Tue | Wed | Thu | Fri | Sat | Sun

record local_time =
  lt_weekday :: weekday
  lt_hour :: u32
  lt_minute :: u32

text \<open>\<open>tz_known\<close> says which names parse as a time zone; \<open>tz_local\<close> is the present moment there.\<close>

record tz_database =
  tz_known :: "string \<Rightarrow> bool"
  tz_local :: "string \<Rightarrow> local_time"

section \<open>Parsing helpers of the standard library\<close>

fun split_on :: "char \<Rightarrow> string \<Rightarrow> string list" where
  "split_on c [] = [[]]"
| "split_on c (x # xs) =
     (if x = c then [] # split_on c xs
      else case split_on c xs of [] \<Rightarrow> [[x]] | p # ps \<Rightarrow> (x # p) # ps)"

section \<open>Matchers (router/matcher.rs)\<close>

datatype matcher_kind = MAny | MPrefix string | MRegex string | MExact string

record match_condition =
  mcd_prefix :: "string option"
  mcd_regex :: "string option"
  mcd_exact :: "string option"
  mcd_any :: "bool option"

definition kind_from_condition :: "match_condition \<Rightarrow> matcher_kind option" where
  "kind_from_condition c =
     (if mcd_any c = Some True then Some MAny
      else case mcd_exact c of
        Some e \<Rightarrow> Some (MExact e)
      | None \<Rightarrow>
          (case mcd_regex c of
             Some r \<Rightarrow> Some (MRegex r)
           | None \<Rightarrow>
               (case mcd_prefix c of
                  Some p \<Rightarrow> if p = [] then Some MAny else Some (MPrefix p)
                | None \<Rightarrow> None)))"

text \<open>\<^verbatim>\<open>CompiledMatcher::new\<close> fails only on an invalid pattern; the compiled matcher is its kind,
  a regex kind being present only with a valid pattern.\<close>

definition compiled_matcher_new :: "regex_engine \<Rightarrow> matcher_kind \<Rightarrow> matcher_kind option" where
  "compiled_matcher_new R kind =
     (case kind of MRegex p \<Rightarrow> if re_valid R p then Some kind else None | _ \<Rightarrow> Some kind)"

fun compiled_matches :: "regex_engine \<Rightarrow> matcher_kind \<Rightarrow> string \<Rightarrow> bool" where
  "compiled_matches R MAny v = True"
| "compiled_matches R (MPrefix p) v = starts_with v p"
| "compiled_matches R (MRegex p) v = re_is_match R p v"
| "compiled_matches R (MExact e) v = (v = e)"

record match_context =
  mx_destination :: string
  mx_source :: "string option"
  mx_sender_id :: "string option"
  mx_system_id :: "string option"
  mx_service_type :: "string option"
  mx_esm_class :: "u8 option"
  mx_data_coding :: "u8 option"

definition match_context_new :: "string \<Rightarrow> match_context" where
  "match_context_new d =
     \<lparr> mx_destination = d, mx_source = None, mx_sender_id = None, mx_system_id = None,
       mx_service_type = None, mx_esm_class = None, mx_data_coding = None \<rparr>"

record time_window =
  tw_start :: string
  tw_end :: string
  tw_days :: "string list"
  tw_timezone :: string

record matcher =
  ma_destination :: "matcher_kind option"
  ma_source :: "matcher_kind option"
  ma_sender_id :: "matcher_kind option"
  ma_system_id :: "string option"
  ma_service_type :: "string option"
  ma_esm_class :: "u8 option"
  ma_data_coding :: "u8 list option"
  ma_time_window :: "time_window option"

fun day_name :: "weekday \<Rightarrow> string" where
  "day_name Mon = ''Mon''" | "day_name Tue = ''Tue''" | "day_name Wed = ''Wed''"
| "day_name Thu = ''Thu''" | "day_name Fri = ''Fri''" | "day_name Sat = ''Sat''"
| "day_name Sun = ''Sun''"

definition eq_ignore_ascii_case :: "string \<Rightarrow> string \<Rightarrow> bool" where
  "eq_ignore_ascii_case a b = (map to_ascii_lower a = map to_ascii_lower b)"

definition parse_hm :: "string \<Rightarrow> (u32 \<times> u32) option" where
  "parse_hm s =
     (case split_on CHR '':'' s of
        [h, m] \<Rightarrow>
          (case parse_u32 h of
             None \<Rightarrow> None
           | Some hh \<Rightarrow> (case parse_u32 m of None \<Rightarrow> None | Some mm \<Rightarrow> Some (hh, mm)))
      | _ \<Rightarrow> None)"

definition in_window :: "u32 \<Rightarrow> u32 \<Rightarrow> u32 \<Rightarrow> bool" where
  "in_window cur s e = (if s \<le> e then s \<le> cur \<and> cur < e else s \<le> cur \<or> cur < e)"

definition time_window_matches :: "tz_database \<Rightarrow> time_window \<Rightarrow> bool" where
  "time_window_matches tz w =
     (let now = tz_local tz (if tz_known tz (tw_timezone w) then tw_timezone w else ''UTC'')
      in if \<not> list_ex (\<lambda>d. eq_ignore_ascii_case d (day_name (lt_weekday now))) (tw_days w) then False
         else case parse_hm (tw_start w) of
           None \<Rightarrow> False
         | Some (sh, sm) \<Rightarrow>
             (case parse_hm (tw_end w) of
                None \<Rightarrow> False
              | Some (eh, em) \<Rightarrow>
                  in_window (lt_hour now * 60 + lt_minute now) (sh * 60 + sm) (eh * 60 + em)))"

text \<open>A condition on an optional field: no condition always holds; a condition on an absent field
  never does.\<close>

definition opt_check :: "'c option \<Rightarrow> ('c \<Rightarrow> 'a \<Rightarrow> bool) \<Rightarrow> 'a option \<Rightarrow> bool" where
  "opt_check cond P v =
     (case cond of None \<Rightarrow> True | Some c \<Rightarrow> (case v of None \<Rightarrow> False | Some x \<Rightarrow> P c x))"

definition matches_context :: "regex_engine \<Rightarrow> tz_database \<Rightarrow> matcher \<Rightarrow> match_context \<Rightarrow> bool" where
  "matches_context R tz m ctx =
     ((case ma_destination m of None \<Rightarrow> True | Some k \<Rightarrow> compiled_matches R k (mx_destination ctx)) \<and>
      opt_check (ma_source m) (compiled_matches R) (mx_source ctx) \<and>
      opt_check (ma_sender_id m) (compiled_matches R) (mx_sender_id ctx) \<and>
      opt_check (ma_system_id m) (=) (mx_system_id ctx) \<and>
      opt_check (ma_service_type m) (=) (mx_service_type ctx) \<and>
      opt_check (ma_esm_class m) (=) (mx_esm_class ctx) \<and>
      opt_check (ma_data_coding m) (\<lambda>allowed dc. dc \<in> set allowed) (mx_data_coding ctx) \<and>
      (case ma_time_window m of None \<Rightarrow> True | Some w \<Rightarrow> time_window_matches tz w))"

section \<open>Routes (router/router.rs)\<close>

record route_result =
  rr_route_name :: string
  rr_cluster_name :: string
  rr_fallback :: "string list"

record weighted_split =
  ws_clusters :: "(string \<times> u32) list"
  ws_total_weight :: u32
  ws_counter :: usize

fun cumulate :: "u32 \<Rightarrow> (string \<times> u32) list \<Rightarrow> (string \<times> u32) list \<times> u32" where
  "cumulate acc [] = ([], acc)"
| "cumulate acc ((c, w) # rest) =
     (let (cs, total) = cumulate (acc + w) rest in ((c, acc + w) # cs, total))"

definition weighted_split_new :: "(string \<times> u32) list \<Rightarrow> weighted_split" where
  "weighted_split_new splits =
     (let (cs, total) = cumulate 0 splits
      in \<lparr> ws_clusters = cs, ws_total_weight = total, ws_counter = 0 \<rparr>)"

definition split_select :: "weighted_split \<Rightarrow> string option \<times> weighted_split" where
  "split_select s =
     (if ws_clusters s = [] \<or> ws_total_weight s = 0 then (None, s)
      else
        let point = (ucast (ws_counter s) :: u32) mod ws_total_weight s;
            s' = s \<lparr> ws_counter := ws_counter s + 1 \<rparr>
        in case find (\<lambda>(c, cum). point < cum) (ws_clusters s) of
             Some (c, _) \<Rightarrow> (Some c, s')
           | None \<Rightarrow> (Some (fst (last (ws_clusters s))), s'))"

datatype route_target = Single string | Split weighted_split

record route =
  ro_name :: string
  ro_matcher :: matcher
  ro_target :: route_target
  ro_fallback :: "string list"
  ro_priority :: int

record route_match =
  rm_destination :: "match_condition option"
  rm_source :: "match_condition option"
  rm_sender_id :: "match_condition option"
  rm_system_id :: "string option"
  rm_service_type :: "string option"
  rm_esm_class :: "u8 option"
  rm_data_coding :: "u8 list option"
  rm_time_window :: "time_window option"
  rm_prefix :: "string option"
  rm_regex :: "string option"

record route_config =
  rc_name :: string
  rc_match :: route_match
  rc_cluster :: "string option"
  rc_split :: "(string \<times> u32) list option"
  rc_fallback :: "string list option"
  rc_priority :: int

datatype router_error = InvalidRegex string | UnknownCluster string string | InvalidRoute string string

text \<open>The builder call of a condition: no kind leaves the field unset, an invalid pattern fails.\<close>

definition build_kind :: "regex_engine \<Rightarrow> matcher_kind option \<Rightarrow> router_error + matcher_kind option" where
  "build_kind R k =
     (case k of
        None \<Rightarrow> Inr None
      | Some kind \<Rightarrow>
          (case compiled_matcher_new R kind of
             Some c \<Rightarrow> Inr (Some c)
           | None \<Rightarrow> Inl (InvalidRegex (case kind of MRegex p \<Rightarrow> p | _ \<Rightarrow> []))))"

definition destination_kind :: "route_match \<Rightarrow> matcher_kind option" where
  "destination_kind m =
     (case rm_destination m of
        Some c \<Rightarrow> kind_from_condition c
      | None \<Rightarrow>
          (case rm_prefix m of
             Some p \<Rightarrow> Some (if p = [] then MAny else MPrefix p)
           | None \<Rightarrow> map_option MRegex (rm_regex m)))"

definition compile_route :: "regex_engine \<Rightarrow> route_config \<Rightarrow> router_error + route" where
  "compile_route R c =
     (case build_kind R (destination_kind (rc_match c)) of
        Inl e \<Rightarrow> Inl e
      | Inr dest \<Rightarrow>
     (case build_kind R (Option.bind (rm_source (rc_match c)) kind_from_condition) of
        Inl e \<Rightarrow> Inl e
      | Inr src \<Rightarrow>
     (case build_kind R (Option.bind (rm_sender_id (rc_match c)) kind_from_condition) of
        Inl e \<Rightarrow> Inl e
      | Inr snd_id \<Rightarrow>
          (let mk = (\<lambda>t. \<lparr> ro_name = rc_name c,
                 ro_matcher = \<lparr> ma_destination = dest, ma_source = src, ma_sender_id = snd_id,
                   ma_system_id = rm_system_id (rc_match c),
                   ma_service_type = rm_service_type (rc_match c),
                   ma_esm_class = rm_esm_class (rc_match c),
                   ma_data_coding = rm_data_coding (rc_match c),
                   ma_time_window = rm_time_window (rc_match c) \<rparr>,
                 ro_target = t,
                 ro_fallback = (case rc_fallback c of None \<Rightarrow> [] | Some f \<Rightarrow> f),
                 ro_priority = rc_priority c \<rparr>)
           in case rc_split c of
                Some splits \<Rightarrow> Inr (mk (Split (weighted_split_new splits)))
              | None \<Rightarrow>
                  (case rc_cluster c of
                     Some cl \<Rightarrow> Inr (mk (Single cl))
                   | None \<Rightarrow> Inl (InvalidRoute (rc_name c)
                       ''route must have either 'cluster' or 'split' target''))))))"

fun compile_routes :: "regex_engine \<Rightarrow> route_config list \<Rightarrow> router_error + route list" where
  "compile_routes R [] = Inr []"
| "compile_routes R (c # cs) =
     (case compile_route R c of
        Inl e \<Rightarrow> Inl e
      | Inr r \<Rightarrow> (case compile_routes R cs of Inl e \<Rightarrow> Inl e | Inr rs \<Rightarrow> Inr (r # rs)))"

definition router_new :: "regex_engine \<Rightarrow> route_config list \<Rightarrow> router_error + route list" where
  "router_new R cs =
     (case compile_routes R cs of Inl e \<Rightarrow> Inl e | Inr rs \<Rightarrow> Inr (sort_key ro_priority rs))"

definition target_select :: "route_target \<Rightarrow> string option \<times> route_target" where
  "target_select t =
     (case t of
        Single c \<Rightarrow> (Some c, t)
      | Split s \<Rightarrow> (case split_select s of (r, s') \<Rightarrow> (r, Split s')))"

fun route_context ::
  "regex_engine \<Rightarrow> tz_database \<Rightarrow> match_context \<Rightarrow> route list \<Rightarrow> route_result option \<times> route list" where
  "route_context R tz ctx [] = (None, [])"
| "route_context R tz ctx (r # rs) =
     (if matches_context R tz (ro_matcher r) ctx then
        (case target_select (ro_target r) of
           (None, t) \<Rightarrow> (None, r \<lparr> ro_target := t \<rparr> # rs)
         | (Some c, t) \<Rightarrow>
             (Some \<lparr> rr_route_name = ro_name r, rr_cluster_name = c, rr_fallback = ro_fallback r \<rparr>,
              r \<lparr> ro_target := t \<rparr> # rs))
      else
        (case route_context R tz ctx rs of (res, rs') \<Rightarrow> (res, r # rs')))"

definition route_message ::
  "regex_engine \<Rightarrow> tz_database \<Rightarrow> string \<Rightarrow> string option \<Rightarrow> string option \<Rightarrow> route list \<Rightarrow>
   route_result option \<times> route list" where
  "route_message R tz destination source sender_id rs =
     route_context R tz ((match_context_new destination) \<lparr> mx_source := source, mx_sender_id := sender_id \<rparr>) rs"

text \<open>\<^verbatim>\<open>route_context_to_cluster\<close>: the routed cluster must exist.\<close>

definition route_context_to_cluster ::
  "regex_engine \<Rightarrow> tz_database \<Rightarrow> (string \<Rightarrow> 'c option) \<Rightarrow> match_context \<Rightarrow> route list \<Rightarrow>
   (route_result \<times> 'c) option \<times> route list" where
  "route_context_to_cluster R tz clusters ctx rs =
     (case route_context R tz ctx rs of
        (None, rs') \<Rightarrow> (None, rs')
      | (Some res, rs') \<Rightarrow> (map_option (\<lambda>c. (res, c)) (clusters (rr_cluster_name res)), rs'))"

section \<open>Splitting text\<close>

lemma split_on_not_Nil [simp]: "split_on c s \<noteq> []"
  by (cases s) (auto split: list.split)

lemma split_on_other:
  assumes "x \<noteq> c"
  shows "split_on c (x # s) = p # ps \<longleftrightarrow> (\<exists>q. p = x # q \<and> split_on c s = q # ps)"
  using assms split_on_not_Nil [of c s] by (cases "split_on c s") auto

lemma split_on_single: "split_on c s = [p] \<longleftrightarrow> p = s \<and> c \<notin> set s"
proof (induction s arbitrary: p)
  case (Cons x s)
  show ?case
  proof (cases "x = c")
    case False
    then show ?thesis using Cons.IH by (auto simp: split_on_other simp del: split_on.simps)
  qed simp
qed auto

lemma split_on_pair: "split_on c s = [h, m] \<longleftrightarrow> s = h @ c # m \<and> c \<notin> set h \<union> set m"
proof (induction s arbitrary: h)
  case (Cons x s)
  show ?case
  proof (cases "x = c")
    case True
    then show ?thesis by (cases h) (auto simp: split_on_single)
  next
    case False
    then show ?thesis using Cons.IH by (cases h) (auto simp: split_on_other simp del: split_on.simps)
  qed
qed simp

lemma split_on_sep: "split_on c (xs @ c # ys) = split_on c xs @ split_on c ys"
proof (induction xs)
  case (Cons x xs)
  then show ?case by (cases "split_on c xs") (auto split: list.splits)
qed simp

lemma split_on_last: "c \<notin> set ys \<Longrightarrow> last (split_on c (xs @ c # ys)) = ys"
proof -
  assume "c \<notin> set ys"
  then have "split_on c ys = [ys]" by (simp add: split_on_single)
  then show ?thesis by (simp add: split_on_sep)
qed

lemma split_on_append:
  "c \<notin> set ys \<Longrightarrow> split_on c (xs @ ys) = butlast (split_on c xs) @ [last (split_on c xs) @ ys]"
proof (induction xs)
  case Nil
  then show ?case by (simp add: split_on_single)
next
  case (Cons x xs)
  then show ?case by (cases "split_on c xs") (auto split: list.splits)
qed

section \<open>First match by priority\<close>

lemma route_context_hit:
  assumes "route_context R tz ctx rs = (Some res, rs')"
  shows "\<exists>pre r post t. rs = pre @ r # post \<and> (\<forall>x \<in> set pre. \<not> matches_context R tz (ro_matcher x) ctx) \<and>
    matches_context R tz (ro_matcher r) ctx \<and> rr_route_name res = ro_name r \<and>
    rr_fallback res = ro_fallback r \<and> target_select (ro_target r) = (Some (rr_cluster_name res), t) \<and>
    rs' = pre @ r \<lparr> ro_target := t \<rparr> # post"
  using assms
proof (induction rs arbitrary: rs')
  case (Cons r rs)
  show ?case
  proof (cases "matches_context R tz (ro_matcher r) ctx")
    case True
    with Cons.prems show ?thesis
      by (intro exI [of _ "[]"] exI [of _ r] exI [of _ rs]) (auto split: prod.splits option.splits)
  next
    case False
    with Cons.prems obtain rs1 where rs1: "route_context R tz ctx rs = (Some res, rs1)" "rs' = r # rs1"
      by (auto split: prod.splits)
    from Cons.IH [OF rs1(1)] obtain pre r1 post t where
      "rs = pre @ r1 # post" "\<forall>x \<in> set pre. \<not> matches_context R tz (ro_matcher x) ctx"
      "matches_context R tz (ro_matcher r1) ctx" "rr_route_name res = ro_name r1"
      "rr_fallback res = ro_fallback r1" "target_select (ro_target r1) = (Some (rr_cluster_name res), t)"
      "rs1 = pre @ r1 \<lparr> ro_target := t \<rparr> # post" by blast
    with False rs1(2) show ?thesis
      by (intro exI [of _ "r # pre"] exI [of _ r1] exI [of _ post] exI [of _ t]) simp
  qed
qed simp

text \<open>What routing never changes: everything of a route but its split counter.\<close>

definition route_static :: "route \<Rightarrow> string \<times> matcher \<times> string list \<times> int" where
  "route_static r = (ro_name r, ro_matcher r, ro_fallback r, ro_priority r)"

lemma route_context_static:
  "map route_static (snd (route_context R tz ctx rs)) = map route_static rs"
  by (induction rs) (auto simp: route_static_def split: prod.splits option.splits)

text \<open>A router after any number of earlier routing decisions.\<close>

inductive router_run :: "regex_engine \<Rightarrow> tz_database \<Rightarrow> route list \<Rightarrow> route list \<Rightarrow> bool" for R tz where
  run_start: "router_run R tz rs rs"
| run_route: "router_run R tz rs0 rs \<Longrightarrow> router_run R tz rs0 (snd (route_context R tz ctx rs))"

lemma router_run_static: "router_run R tz rs0 rs \<Longrightarrow> map route_static rs = map route_static rs0"
  by (induction rule: router_run.induct) (simp_all add: route_context_static)

lemma compile_routes_ok:
  "compile_routes R cs = Inr rs \<Longrightarrow> list_all2 (\<lambda>c r. compile_route R c = Inr r) cs rs"
  by (induction cs arbitrary: rs) (auto split: sum.splits)

lemma compile_route_fields:
  assumes "compile_route R c = Inr r"
  shows "ro_name r = rc_name c" "ro_priority r = rc_priority c"
    "ro_fallback r = (case rc_fallback c of None \<Rightarrow> [] | Some f \<Rightarrow> f)"
  using assms by (auto simp: compile_route_def Let_def split: sum.splits option.splits)

lemma router_new_mem:
  assumes "router_new R cs = Inr rs"
  shows "set rs = {r. \<exists>c \<in> set cs. compile_route R c = Inr r}" "sorted (map ro_priority rs)"
proof -
  obtain rs1 where rs1: "compile_routes R cs = Inr rs1" "rs = sort_key ro_priority rs1"
    using assms by (auto simp: router_new_def split: sum.splits)
  have all: "list_all2 (\<lambda>c r. compile_route R c = Inr r) cs rs1" by (rule compile_routes_ok [OF rs1(1)])
  then have "set rs1 = {r. \<exists>c \<in> set cs. compile_route R c = Inr r}"
    by (induction rule: list_all2_induct) auto
  then show "set rs = {r. \<exists>c \<in> set cs. compile_route R c = Inr r}" using rs1(2) by simp
  show "sorted (map ro_priority rs)" using rs1(2) by simp
qed

lemma sorted_split_le:
  "sorted (map f (pre @ x # post)) \<Longrightarrow> y \<in> set (x # post) \<Longrightarrow> f x \<le> f y"
  by (auto simp: sorted_append)

text \<open>C8: routing obeys priorities.  After any earlier routing, the route that is chosen comes from a
  configured route that matches the message, with its name and fallback list, and no configured
  route that matches has a smaller priority number (a higher priority).\<close>

theorem routing_obeys_priority:
  assumes new: "router_new R cs = Inr rs0" and run: "router_run R tz rs0 rs"
    and hit: "fst (route_context R tz ctx rs) = Some res"
  shows "\<exists>c \<in> set cs. \<exists>r. compile_route R c = Inr r \<and> matches_context R tz (ro_matcher r) ctx \<and>
     rr_route_name res = rc_name c \<and>
     rr_fallback res = (case rc_fallback c of None \<Rightarrow> [] | Some f \<Rightarrow> f) \<and>
     (\<forall>c' \<in> set cs. \<forall>r'. compile_route R c' = Inr r' \<and> matches_context R tz (ro_matcher r') ctx \<longrightarrow>
        rc_priority c \<le> rc_priority c')"
proof -
  obtain pre r post where rs: "rs = pre @ r # post" "\<forall>x \<in> set pre. \<not> matches_context R tz (ro_matcher x) ctx"
    "matches_context R tz (ro_matcher r) ctx" "rr_route_name res = ro_name r" "rr_fallback res = ro_fallback r"
    using route_context_hit hit by (metis prod.collapse)
  have st: "map route_static rs = map route_static rs0" by (rule router_run_static [OF run])
  have "map ro_priority rs = map (\<lambda>s. snd (snd (snd s))) (map route_static rs)"
    by (simp add: route_static_def)
  also have "\<dots> = map ro_priority rs0" by (simp add: st [simplified] route_static_def o_def)
  finally have srt: "sorted (map ro_priority rs)" using router_new_mem(2) [OF new] by simp
  have stat: "route_static ` set rs = route_static ` set rs0" using st by (metis list.set_map)
  then obtain r0 where r0: "r0 \<in> set rs0" "route_static r0 = route_static r"
    using rs(1) by (metis image_iff in_set_conv_decomp)
  then obtain c where c: "c \<in> set cs" "compile_route R c = Inr r0"
    using router_new_mem(1) [OF new] by blast
  have best: "rc_priority c \<le> rc_priority c'"
    if c': "c' \<in> set cs" "compile_route R c' = Inr r'" "matches_context R tz (ro_matcher r') ctx" for c' r'
  proof -
    have "r' \<in> set rs0" using c' router_new_mem(1) [OF new] by blast
    then obtain r1 where r1: "r1 \<in> set rs" "route_static r1 = route_static r'"
      using stat by (metis image_iff)
    then have "r1 \<in> set (r # post)" using rs(1,2) c'(3) by (auto simp: route_static_def)
    then have "ro_priority r \<le> ro_priority r1" using srt rs(1) sorted_split_le by metis
    then show ?thesis
      using r0(2) r1(2) compile_route_fields(2) [OF c(2)] compile_route_fields(2) [OF c'(2)]
      by (simp add: route_static_def)
  qed
  with c r0 rs compile_route_fields [OF c(2)] show ?thesis
    by (intro bexI [of _ c] exI [of _ r0]) (auto simp: route_static_def)
qed

definition sample_route :: "string \<Rightarrow> string \<Rightarrow> string \<Rightarrow> int \<Rightarrow> route_config" where
  "sample_route name pre cluster pri =
     \<lparr> rc_name = name,
       rc_match = \<lparr> rm_destination = None, rm_source = None, rm_sender_id = None, rm_system_id = None,
         rm_service_type = None, rm_esm_class = None, rm_data_coding = None, rm_time_window = None,
         rm_prefix = Some pre, rm_regex = None \<rparr>,
       rc_cluster = Some cluster, rc_split = None, rc_fallback = None, rc_priority = pri \<rparr>"

theorem routing_obeys_priority_witness:
  "let R = \<lparr> re_valid = \<lambda>_. True, re_is_match = \<lambda>_ _. False \<rparr>;
       tz = \<lparr> tz_known = \<lambda>_. True, tz_local = \<lambda>_. \<lparr> lt_weekday = Mon, lt_hour = 0, lt_minute = 0 \<rparr> \<rparr>;
       cs = [sample_route ''wide'' ''2'' ''c2'' 5, sample_route ''narrow'' ''25'' ''c1'' 1];
       ctx = match_context_new ''258''
   in \<exists>rs res. router_new R cs = Inr rs \<and> fst (route_context R tz ctx rs) = Some res \<and>
        rr_route_name res = ''narrow'' \<and> (\<exists>c \<in> set cs. rr_route_name res = rc_name c)"
proof -
  let ?R = "\<lparr> re_valid = \<lambda>_. True, re_is_match = \<lambda>_ _. False \<rparr>"
  let ?tz = "\<lparr> tz_known = \<lambda>_. True, tz_local = \<lambda>_. \<lparr> lt_weekday = Mon, lt_hour = 0, lt_minute = 0 \<rparr> \<rparr>"
  let ?cs = "[sample_route ''wide'' ''2'' ''c2'' 5, sample_route ''narrow'' ''25'' ''c1'' 1]"
  let ?ctx = "match_context_new ''258''"
  obtain rs where rs: "router_new ?R ?cs = Inr rs" "map ro_name rs = [''narrow'', ''wide'']"
    "fst (route_context ?R ?tz ?ctx rs) =
       Some \<lparr> rr_route_name = ''narrow'', rr_cluster_name = ''c1'', rr_fallback = [] \<rparr>"
    by (simp add: router_new_def sample_route_def compile_route_def destination_kind_def build_kind_def
        compiled_matcher_new_def matches_context_def opt_check_def match_context_new_def target_select_def
        starts_with_def)
  from routing_obeys_priority [OF rs(1) run_start rs(3)] rs show ?thesis
    unfolding Let_def by (metis route_result.select_convs(1))
qed

text \<open>routing fails only for a reason.  No route is returned exactly when no route matches or the
  first matching route is a traffic split without any weight; a later matching route is then not
  tried.\<close>

theorem routing_none_iff:
  "fst (route_context R tz ctx rs) = None \<longleftrightarrow>
     (case find (\<lambda>r. matches_context R tz (ro_matcher r) ctx) rs of
        None \<Rightarrow> True
      | Some r \<Rightarrow> (case ro_target r of
            Single _ \<Rightarrow> False
          | Split s \<Rightarrow> ws_clusters s = [] \<or> ws_total_weight s = 0))"
proof (induction rs)
  case (Cons r rs)
  then show ?case
    by (cases "ro_target r")
       (auto simp: target_select_def split_select_def Let_def split: prod.splits option.splits)
qed simp

section \<open>Traffic splits\<close>

lemma cumulate_total: "snd (cumulate acc splits) = acc + sum_list (map snd splits)"
  by (induction acc splits rule: cumulate.induct) (auto simp: case_prod_unfold Let_def)

lemma cumulate_length [simp]: "length (fst (cumulate acc splits)) = length splits"
  by (induction acc splits rule: cumulate.induct) (auto simp: case_prod_unfold Let_def)

lemma cumulate_find:
  assumes "unat acc + sum_list (map (unat \<circ> snd) splits) < 2 ^ 32"
    and "unat acc \<le> unat p" "unat p < unat acc + sum_list (map (unat \<circ> snd) splits)"
  shows "map_option fst (find (\<lambda>(c, cum). p < cum) (fst (cumulate acc splits))) =
    Some (fst (splits ! weight_index (map (unat \<circ> snd) splits) (unat p - unat acc)))"
  using assms
proof (induction splits arbitrary: acc)
  case (Cons cw splits)
  obtain c w where cw: "cw = (c, w)" by (cases cw)
  have u: "unat (acc + w) = unat acc + unat w"
    using Cons.prems(1) unat_add_lem [of acc w] by (simp add: cw)
  show ?case
  proof (cases "p < acc + w")
    case True
    then show ?thesis using Cons.prems(2) by (auto simp: cw case_prod_unfold Let_def word_less_nat_alt u)
  next
    case False
    then have ge: "unat (acc + w) \<le> unat p" by (simp add: word_less_nat_alt)
    have "map_option fst (find (\<lambda>(c, cum). p < cum) (fst (cumulate (acc + w) splits))) =
        Some (fst (splits ! weight_index (map (unat \<circ> snd) splits) (unat p - unat (acc + w))))"
      using Cons.prems ge by (intro Cons.IH) (auto simp: cw u)
    moreover have "\<not> unat p - unat acc < unat w" using ge u by linarith
    ultimately show ?thesis
      using False by (simp add: cw case_prod_unfold Let_def u diff_diff_add o_def)
  qed
qed simp

lemma sum_list_words: "sum_list (map snd splits) = (of_nat (sum_list (map (unat \<circ> snd) splits)) :: u32)"
  by (induction splits) simp_all

text \<open>a traffic split is exact.  Over one cycle of \<open>W\<close> counter values (the sum of the weights, below
  \<open>2^32\<close>) each cluster of the split is chosen exactly as often as its weight says.\<close>

theorem traffic_split_exact:
  assumes "distinct (map fst splits)" "i < length splits"
    and "sum_list (map (unat \<circ> snd) splits) < 2 ^ 32"
  shows "card {n. n < sum_list (map (unat \<circ> snd) splits) \<and>
           fst (split_select (weighted_split_new splits \<lparr> ws_counter := of_nat n \<rparr>)) = Some (fst (splits ! i))} =
         unat (snd (splits ! i))"
proof -
  let ?W = "sum_list (map (unat \<circ> snd) splits)" and ?idx = "weight_index (map (unat \<circ> snd) splits)"
  have sel: "fst (split_select (weighted_split_new splits \<lparr> ws_counter := of_nat n \<rparr>)) = Some (fst (splits ! ?idx n))"
    if n: "n < ?W" for n
  proof -
    have W: "unat (of_nat ?W :: u32) = ?W" using assms(3) by (intro unat_of_nat_small) simp
    have nz: "(of_nat ?W :: u32) \<noteq> 0" using W n by (metis less_nat_zero_code unat_0)
    have "unat (of_nat n :: u32) = n" using n assms(3) by (intro unat_of_nat_small) simp
    then have p: "unat ((of_nat n :: u32) mod of_nat ?W) = n" using n by (simp add: unat_mod W)
    have tb: "take_bit 64 n = n" using n assms(3) by (intro take_bit_nat_eq_self) simp
    have "map_option fst (find (\<lambda>(c, cum). (of_nat n :: u32) mod of_nat ?W < cum) (fst (cumulate 0 splits))) =
        Some (fst (splits ! ?idx n))"
      using cumulate_find [of 0 splits "(of_nat n :: u32) mod of_nat ?W"] assms(3) n by (simp add: p)
    moreover have "fst (cumulate 0 splits) \<noteq> []" using assms(2) cumulate_length [of 0 splits] by fastforce
    ultimately show ?thesis using nz
      by (auto simp: split_select_def weighted_split_new_def case_prod_unfold Let_def cumulate_total
          sum_list_words unsigned_of_nat tb split: option.splits)
  qed
  have "{n. n < ?W \<and> fst (split_select (weighted_split_new splits \<lparr> ws_counter := of_nat n \<rparr>)) =
      Some (fst (splits ! i))} = {n. n < ?W \<and> ?idx n = i}"
  proof (intro Collect_cong conj_cong refl)
    fix n assume n: "n < ?W"
    then have "?idx n < length splits" using weight_index_bound [of n "map (unat \<circ> snd) splits"] by simp
    then show "(fst (split_select (weighted_split_new splits \<lparr> ws_counter := of_nat n \<rparr>)) =
        Some (fst (splits ! i))) = (?idx n = i)"
      using assms(1,2) nth_eq_iff_index_eq [of "map fst splits" "?idx n" i] by (simp add: sel [OF n])
  qed
  then show ?thesis using weight_index_card [of i "map (unat \<circ> snd) splits"] assms(2) by simp
qed

theorem traffic_split_exact_witness:
  "card {n. n < sum_list (map (unat \<circ> snd) [(''a'', 9 :: u32), (''b'', 1)]) \<and>
      fst (split_select (weighted_split_new [(''a'', 9), (''b'', 1)] \<lparr> ws_counter := of_nat n \<rparr>)) =
        Some (fst ([(''a'', 9 :: u32), (''b'', 1)] ! 0))} = unat (snd ([(''a'', 9 :: u32), (''b'', 1)] ! 0))"
  by (rule traffic_split_exact) simp_all

lemma in_window_reverse: "s \<noteq> e \<Longrightarrow> in_window cur e s = (\<not> in_window cur s e)"
  by (auto simp: in_window_def)

end
