(* ===== verification/Message.thy ===== *)
theory Message
  imports Prelude
begin

text \<open>
  The message record of the store and its life cycle (\<^verbatim>\<open>src/src/store/types.rs\<close>) with the
  decision types of \<^verbatim>\<open>src/src/feedback/types.rs\<close> it refers to.  Every method of
  \<^verbatim>\<open>StoredMessage\<close> is a function on the record; the clock a method reads is an argument.
  The lemmas show that the event history of a message is a faithful audit log: replaying its
  \<^verbatim>\<open>StateChange\<close> events leads from \<^verbatim>\<open>Pending\<close> to the current state and its
  \<^verbatim>\<open>Submitted\<close> events count the attempts.
\<close>

section \<open>Decisions (feedback/types.rs)\<close>

datatype decision_id = DecisionId (decision_u64: u64)

text \<open>\<^verbatim>\<open>DecisionId::new\<close>: the global counter is an argument and is returned incremented.\<close>

definition decision_id_new :: "u64 \<Rightarrow> decision_id \<times> u64" where
  "decision_id_new counter = (DecisionId counter, counter + 1)"

datatype decision_type = DRoute | DLoadBalance | DRetry | DFallback

fun decision_type_name :: "decision_type \<Rightarrow> string" where
  "decision_type_name DRoute = ''route''"
| "decision_type_name DLoadBalance = ''load_balance''"
| "decision_type_name DRetry = ''retry''"
| "decision_type_name DFallback = ''fallback''"

record decision_context =
  dc_destination :: "string option"
  dc_source :: "string option"
  dc_sender_id :: "string option"
  dc_system_id :: "string option"
  dc_route_name :: "string option"
  dc_cluster_name :: "string option"
  dc_attempt :: "u32 option"
  dc_fallback_from :: "string option"

definition decision_context_new :: "string \<Rightarrow> decision_context" where
  "decision_context_new destination =
     \<lparr> dc_destination = Some destination, dc_source = None, dc_sender_id = None,
       dc_system_id = None, dc_route_name = None, dc_cluster_name = None,
       dc_attempt = None, dc_fallback_from = None \<rparr>"

record decision =
  d_id :: decision_id
  d_type :: decision_type
  d_target :: string
  d_alternatives :: "string list"
  d_context :: decision_context
  d_timestamp :: instant

definition decision_route :: "decision_id \<Rightarrow> instant \<Rightarrow> string \<Rightarrow> string list \<Rightarrow> decision_context \<Rightarrow> decision" where
  "decision_route did now target alternatives ctx =
     \<lparr> d_id = did, d_type = DRoute, d_target = target, d_alternatives = alternatives,
       d_context = ctx, d_timestamp = now \<rparr>"

definition decision_load_balance ::
  "decision_id \<Rightarrow> instant \<Rightarrow> string \<Rightarrow> string list \<Rightarrow> decision_context \<Rightarrow> decision" where
  "decision_load_balance did now target alternatives ctx =
     \<lparr> d_id = did, d_type = DLoadBalance, d_target = target, d_alternatives = alternatives,
       d_context = ctx, d_timestamp = now \<rparr>"

definition decision_retry :: "decision_id \<Rightarrow> instant \<Rightarrow> string \<Rightarrow> u32 \<Rightarrow> decision_context \<Rightarrow> decision" where
  "decision_retry did now target attempt ctx =
     \<lparr> d_id = did, d_type = DRetry, d_target = target, d_alternatives = [],
       d_context = ctx \<lparr> dc_attempt := Some attempt \<rparr>, d_timestamp = now \<rparr>"

definition decision_fallback ::
  "decision_id \<Rightarrow> instant \<Rightarrow> string \<Rightarrow> string \<Rightarrow> string list \<Rightarrow> decision_context \<Rightarrow> decision" where
  "decision_fallback did now from to remaining ctx =
     \<lparr> d_id = did, d_type = DFallback, d_target = to, d_alternatives = remaining,
       d_context = ctx \<lparr> dc_fallback_from := Some from \<rparr>, d_timestamp = now \<rparr>"

record outcome =
  o_decision_id :: decision_id
  o_success :: bool
  o_latency :: duration
  o_error_code :: "u32 option"
  o_error_message :: "string option"
  o_timestamp :: instant

definition outcome_success :: "instant \<Rightarrow> decision_id \<Rightarrow> duration \<Rightarrow> outcome" where
  "outcome_success now did latency =
     \<lparr> o_decision_id = did, o_success = True, o_latency = latency, o_error_code = None,
       o_error_message = None, o_timestamp = now \<rparr>"

definition outcome_failure ::
  "instant \<Rightarrow> decision_id \<Rightarrow> duration \<Rightarrow> u32 option \<Rightarrow> string option \<Rightarrow> outcome" where
  "outcome_failure now did latency code msg =
     \<lparr> o_decision_id = did, o_success = False, o_latency = latency, o_error_code = code,
       o_error_message = msg, o_timestamp = now \<rparr>"

section \<open>Messages (store/types.rs)\<close>

datatype message_id = MessageId (as_u64: u64)

definition message_id_new :: "u64 \<Rightarrow> message_id \<times> u64" where
  "message_id_new counter = (MessageId counter, counter + 1)"

datatype message_state = Pending | InFlight | Delivered | Failed | Expired | Retrying

fun is_terminal :: "message_state \<Rightarrow> bool" where
  "is_terminal Delivered = True"
| "is_terminal Failed = True"
| "is_terminal Expired = True"
| "is_terminal _ = False"

fun state_name :: "message_state \<Rightarrow> string" where
  "state_name Pending = ''pending''"
| "state_name InFlight = ''in_flight''"
| "state_name Delivered = ''delivered''"
| "state_name Failed = ''failed''"
| "state_name Expired = ''expired''"
| "state_name Retrying = ''retrying''"

datatype priority = Low | Normal | High | Critical

fun priority_rank :: "priority \<Rightarrow> nat" where
  "priority_rank Low = 0"
| "priority_rank Normal = 1"
| "priority_rank High = 2"
| "priority_rank Critical = 3"

lemma priority_rank_inj [simp]: "priority_rank p = priority_rank q \<longleftrightarrow> p = q"
  by (cases p; cases q) auto

text \<open>The derived \<^verbatim>\<open>Ord\<close> of the source: constructors in declaration order.\<close>

instantiation priority :: linorder
begin

definition less_eq_priority :: "priority \<Rightarrow> priority \<Rightarrow> bool" where
  "less_eq_priority p q = (priority_rank p \<le> priority_rank q)"

definition less_priority :: "priority \<Rightarrow> priority \<Rightarrow> bool" where
  "less_priority p q = (priority_rank p < priority_rank q)"

instance
  by standard (auto simp: less_eq_priority_def less_priority_def)

end

datatype event_type =
    Received (ev_system_id: string) (ev_sequence_number: u32)
  | RouteDecision (ev_decision_id: decision_id) (ev_route: string) (ev_cluster: string)
      (ev_alternatives: "string list")
  | LoadBalanceDecision (ev_decision_id: decision_id) (ev_endpoint: string) (ev_cluster: string)
      (ev_alternatives: "string list")
  | Submitted (ev_attempt: u32) (ev_endpoint: string) (ev_cluster: string)
  | Response (ev_command_status: u32) (ev_message_id: "string option") (ev_latency_us: u64)
  | DeliveryReceipt (ev_state: string) (ev_error_code: "u32 option")
  | RetryScheduled (ev_delay_ms: u64) (ev_reason: string)
  | Fallback (ev_decision_id: decision_id) (ev_from_cluster: string) (ev_to_cluster: string)
      (ev_remaining: "string list")
  | StateChange (ev_from: message_state) (ev_to: message_state)
  | ExpiredEv
  | PrunedEv

fun event_name :: "event_type \<Rightarrow> string" where
  "event_name (Received _ _) = ''received''"
| "event_name (RouteDecision _ _ _ _) = ''route_decision''"
| "event_name (LoadBalanceDecision _ _ _ _) = ''lb_decision''"
| "event_name (Submitted _ _ _) = ''submitted''"
| "event_name (Response _ _ _) = ''response''"
| "event_name (DeliveryReceipt _ _) = ''delivery_receipt''"
| "event_name (RetryScheduled _ _) = ''retry_scheduled''"
| "event_name (Fallback _ _ _ _) = ''fallback''"
| "event_name (StateChange _ _) = ''state_change''"
| "event_name ExpiredEv = ''expired''"
| "event_name PrunedEv = ''pruned''"

fun is_decision :: "event_type \<Rightarrow> bool" where
  "is_decision (RouteDecision _ _ _ _) = True"
| "is_decision (LoadBalanceDecision _ _ _ _) = True"
| "is_decision (Fallback _ _ _ _) = True"
| "is_decision _ = False"

fun event_decision_id :: "event_type \<Rightarrow> decision_id option" where
  "event_decision_id (RouteDecision i _ _ _) = Some i"
| "event_decision_id (LoadBalanceDecision i _ _ _) = Some i"
| "event_decision_id (Fallback i _ _ _) = Some i"
| "event_decision_id _ = None"

record message_event =
  me_timestamp :: instant
  me_wall_time :: instant
  me_type :: event_type

definition message_event_new :: "clock \<Rightarrow> event_type \<Rightarrow> message_event" where
  "message_event_new ck et = \<lparr> me_timestamp = ck_now ck, me_wall_time = ck_wall ck, me_type = et \<rparr>"

record stored_message =
  m_id :: message_id
  m_state :: message_state
  m_priority :: priority
  m_source :: string
  m_destination :: string
  m_short_message :: "u8 list"
  m_data_coding :: u8
  m_esm_class :: u8
  m_registered_delivery :: u8
  m_service_type :: "string option"
  m_sender_id :: "string option"
  m_system_id :: string
  m_sequence_number :: u32
  m_smsc_message_id :: "string option"
  m_route :: "string option"
  m_cluster :: "string option"
  m_endpoint :: "string option"
  m_attempts :: u32
  m_max_attempts :: u32
  m_ttl :: duration
  m_created_at :: instant
  m_created_time :: instant
  m_updated_at :: instant
  m_retry_at :: "instant option"
  m_last_error_code :: "u32 option"
  m_last_error :: "string option"
  m_events :: "message_event list"

definition stored_message_new ::
  "clock \<Rightarrow> message_id \<Rightarrow> string \<Rightarrow> string \<Rightarrow> u8 list \<Rightarrow> string \<Rightarrow> u32 \<Rightarrow> stored_message" where
  "stored_message_new ck mid source destination short_message system_id sequence_number =
     \<lparr> m_id = mid, m_state = Pending, m_priority = Normal, m_source = source,
       m_destination = destination, m_short_message = short_message, m_data_coding = 0,
       m_esm_class = 0, m_registered_delivery = 0, m_service_type = None, m_sender_id = None,
       m_system_id = system_id, m_sequence_number = sequence_number, m_smsc_message_id = None,
       m_route = None, m_cluster = None, m_endpoint = None, m_attempts = 0, m_max_attempts = 3,
       m_ttl = from_secs 3600, m_created_at = ck_now ck, m_created_time = ck_wall ck,
       m_updated_at = ck_now ck, m_retry_at = None, m_last_error_code = None,
       m_last_error = None,
       m_events = [message_event_new ck (Received system_id sequence_number)] \<rparr>"

section \<open>Operations on a message\<close>

definition push_event :: "clock \<Rightarrow> event_type \<Rightarrow> stored_message \<Rightarrow> stored_message" where
  "push_event ck et m = m \<lparr> m_events := m_events m @ [message_event_new ck et] \<rparr>"

text \<open>The tail of every \<^verbatim>\<open>mark_*\<close> method: a \<^verbatim>\<open>StateChange\<close> event is appended unless
  the state is the old one.\<close>

definition log_state_change :: "clock \<Rightarrow> message_state \<Rightarrow> stored_message \<Rightarrow> stored_message" where
  "log_state_change ck old m =
     (if old \<noteq> m_state m then push_event ck (StateChange old (m_state m)) m else m)"

definition add_event :: "clock \<Rightarrow> event_type \<Rightarrow> stored_message \<Rightarrow> stored_message" where
  "add_event ck et m = (push_event ck et m) \<lparr> m_updated_at := ck_now ck \<rparr>"

definition decisions :: "stored_message \<Rightarrow> message_event list" where
  "decisions m = filter (\<lambda>e. is_decision (me_type e)) (m_events m)"

fun response_latency :: "event_type \<Rightarrow> u64 option" where
  "response_latency (Response _ _ l) = Some l"
| "response_latency _ = None"

fun find_map :: "('a \<Rightarrow> 'b option) \<Rightarrow> 'a list \<Rightarrow> 'b option" where
  "find_map f [] = None"
| "find_map f (x # xs) = (case f x of None \<Rightarrow> find_map f xs | Some y \<Rightarrow> Some y)"

definition last_latency_us :: "stored_message \<Rightarrow> u64 option" where
  "last_latency_us m = find_map (\<lambda>e. response_latency (me_type e)) (rev (m_events m))"

definition with_priority :: "priority \<Rightarrow> stored_message \<Rightarrow> stored_message" where
  "with_priority p m = m \<lparr> m_priority := p \<rparr>"

definition with_data_coding :: "u8 \<Rightarrow> stored_message \<Rightarrow> stored_message" where
  "with_data_coding dc m = m \<lparr> m_data_coding := dc \<rparr>"

definition with_esm_class :: "u8 \<Rightarrow> stored_message \<Rightarrow> stored_message" where
  "with_esm_class ec m = m \<lparr> m_esm_class := ec \<rparr>"

definition with_registered_delivery :: "u8 \<Rightarrow> stored_message \<Rightarrow> stored_message" where
  "with_registered_delivery rd m = m \<lparr> m_registered_delivery := rd \<rparr>"

definition with_ttl :: "duration \<Rightarrow> stored_message \<Rightarrow> stored_message" where
  "with_ttl t m = m \<lparr> m_ttl := t \<rparr>"

definition with_max_attempts :: "u32 \<Rightarrow> stored_message \<Rightarrow> stored_message" where
  "with_max_attempts n m = m \<lparr> m_max_attempts := n \<rparr>"

definition is_expired :: "instant \<Rightarrow> stored_message \<Rightarrow> bool" where
  "is_expired now m = (m_ttl m < elapsed now (m_created_at m))"

definition can_retry :: "instant \<Rightarrow> stored_message \<Rightarrow> bool" where
  "can_retry now m = (m_attempts m < m_max_attempts m \<and> \<not> is_expired now m)"

definition record_route_decision ::
  "clock \<Rightarrow> decision_id \<Rightarrow> string \<Rightarrow> string \<Rightarrow> string list \<Rightarrow> stored_message \<Rightarrow> stored_message" where
  "record_route_decision ck did route cluster alternatives m =
     add_event ck (RouteDecision did route cluster alternatives)
       (m \<lparr> m_route := Some route, m_cluster := Some cluster \<rparr>)"

definition record_lb_decision ::
  "clock \<Rightarrow> decision_id \<Rightarrow> string \<Rightarrow> string \<Rightarrow> string list \<Rightarrow> stored_message \<Rightarrow> stored_message" where
  "record_lb_decision ck did endpoint cluster alternatives m =
     add_event ck (LoadBalanceDecision did endpoint cluster alternatives)
       (m \<lparr> m_endpoint := Some endpoint \<rparr>)"

definition record_fallback ::
  "clock \<Rightarrow> decision_id \<Rightarrow> string \<Rightarrow> string \<Rightarrow> string list \<Rightarrow> stored_message \<Rightarrow> stored_message" where
  "record_fallback ck did from to remaining m =
     add_event ck (Fallback did from to remaining) (m \<lparr> m_cluster := Some to \<rparr>)"

definition mark_in_flight :: "clock \<Rightarrow> string \<Rightarrow> string \<Rightarrow> stored_message \<Rightarrow> stored_message" where
  "mark_in_flight ck cluster endpoint m =
     (let m1 = m \<lparr> m_state := InFlight, m_cluster := Some cluster, m_endpoint := Some endpoint,
                   m_attempts := m_attempts m + 1, m_updated_at := ck_now ck \<rparr>;
          m2 = push_event ck (Submitted (m_attempts m1) endpoint cluster) m1
      in log_state_change ck (m_state m) m2)"

definition record_response ::
  "clock \<Rightarrow> u32 \<Rightarrow> string option \<Rightarrow> u64 \<Rightarrow> stored_message \<Rightarrow> stored_message" where
  "record_response ck command_status message_id latency_us m =
     add_event ck (Response command_status message_id latency_us) m"

definition mark_delivered :: "clock \<Rightarrow> string \<Rightarrow> stored_message \<Rightarrow> stored_message" where
  "mark_delivered ck smsc_id m =
     log_state_change ck (m_state m)
       (m \<lparr> m_state := Delivered, m_smsc_message_id := Some smsc_id, m_updated_at := ck_now ck,
            m_last_error := None, m_last_error_code := None \<rparr>)"

definition mark_failed :: "clock \<Rightarrow> u32 option \<Rightarrow> string \<Rightarrow> stored_message \<Rightarrow> stored_message" where
  "mark_failed ck error_code error m =
     log_state_change ck (m_state m)
       (m \<lparr> m_state := Failed, m_last_error_code := error_code, m_last_error := Some error,
            m_updated_at := ck_now ck \<rparr>)"

definition mark_retry ::
  "clock \<Rightarrow> duration \<Rightarrow> u32 option \<Rightarrow> string \<Rightarrow> stored_message \<Rightarrow> stored_message" where
  "mark_retry ck delay error_code error m =
     (let m1 = m \<lparr> m_state := Retrying, m_retry_at := Some (ck_now ck + int delay),
                   m_last_error_code := error_code, m_last_error := Some error,
                   m_updated_at := ck_now ck \<rparr>;
          m2 = push_event ck (RetryScheduled (of_nat (as_millis delay)) error) m1
      in log_state_change ck (m_state m) m2)"

definition mark_expired :: "clock \<Rightarrow> stored_message \<Rightarrow> stored_message" where
  "mark_expired ck m =
     log_state_change ck (m_state m)
       (push_event ck ExpiredEv (m \<lparr> m_state := Expired, m_updated_at := ck_now ck \<rparr>))"

definition reset_to_pending :: "clock \<Rightarrow> stored_message \<Rightarrow> stored_message" where
  "reset_to_pending ck m =
     (if m_state m = Retrying then
        push_event ck (StateChange Retrying Pending)
          (m \<lparr> m_state := Pending, m_retry_at := None, m_updated_at := ck_now ck \<rparr>)
      else m)"

definition record_delivery_receipt ::
  "clock \<Rightarrow> string \<Rightarrow> u32 option \<Rightarrow> stored_message \<Rightarrow> stored_message" where
  "record_delivery_receipt ck state error_code m = add_event ck (DeliveryReceipt state error_code) m"

section \<open>Life cycle\<close>

text \<open>One step of a message: any method of the source, with any arguments and at any time.\<close>

inductive msg_step :: "stored_message \<Rightarrow> stored_message \<Rightarrow> bool" where
  route_decision: "msg_step m (record_route_decision ck did r c alts m)"
| lb_decision: "msg_step m (record_lb_decision ck did e c alts m)"
| fallback: "msg_step m (record_fallback ck did fc tc rest m)"
| in_flight: "msg_step m (mark_in_flight ck c e m)"
| response: "msg_step m (record_response ck st mid lat m)"
| delivered: "msg_step m (mark_delivered ck sid m)"
| failed: "msg_step m (mark_failed ck code err m)"
| retry: "msg_step m (mark_retry ck delay code err m)"
| expired: "msg_step m (mark_expired ck m)"
| reset: "msg_step m (reset_to_pending ck m)"
| receipt: "msg_step m (record_delivery_receipt ck st code m)"

inductive msg_reachable :: "stored_message \<Rightarrow> bool" where
  init: "msg_reachable (stored_message_new ck mid src dst body sys sn)"
| step: "msg_reachable m \<Longrightarrow> msg_step m m' \<Longrightarrow> msg_reachable m'"

inductive_cases msg_stepE: "msg_step m m'"

text \<open>Replaying the audit log: each \<^verbatim>\<open>StateChange\<close> must start in the state reached so far and
  really change it.\<close>

fun replay :: "message_state \<Rightarrow> event_type list \<Rightarrow> message_state option" where
  "replay s [] = Some s"
| "replay s (StateChange a b # es) = (if a = s \<and> a \<noteq> b then replay b es else None)"
| "replay s (_ # es) = replay s es"

fun is_state_change :: "event_type \<Rightarrow> bool" where
  "is_state_change (StateChange _ _) = True"
| "is_state_change _ = False"

fun submitted_attempt :: "event_type \<Rightarrow> u32 option" where
  "submitted_attempt (Submitted a _ _) = Some a"
| "submitted_attempt _ = None"

definition history :: "stored_message \<Rightarrow> event_type list" where
  "history m = map me_type (m_events m)"

definition submissions :: "stored_message \<Rightarrow> u32 list" where
  "submissions m = List.map_filter submitted_attempt (history m)"

definition audit_ok :: "stored_message \<Rightarrow> bool" where
  "audit_ok m =
     (replay Pending (history m) = Some (m_state m) \<and>
      submissions m = map of_nat [1..<Suc (length (submissions m))] \<and>
      m_attempts m = of_nat (length (submissions m)) \<and>
      (m_state m = Retrying \<longrightarrow> m_retry_at m \<noteq> None) \<and>
      (m_state m = Delivered \<longrightarrow> m_smsc_message_id m \<noteq> None))"

named_theorems msg_ops

lemmas msg_op_defs [msg_ops] =
  push_event_def log_state_change_def add_event_def record_route_decision_def
  record_lb_decision_def record_fallback_def mark_in_flight_def record_response_def
  mark_delivered_def mark_failed_def mark_retry_def mark_expired_def reset_to_pending_def
  record_delivery_receipt_def message_event_new_def Let_def

lemma replay_append: "replay s (xs @ ys) = Option.bind (replay s xs) (\<lambda>t. replay t ys)"
  by (induction s xs rule: replay.induct) auto

lemma replay_quiet: "\<not> is_state_change e \<Longrightarrow> replay s [e] = Some s"
  by (cases e) auto

lemma history_push: "history (push_event ck e m) = history m @ [e]"
  by (simp add: history_def push_event_def message_event_new_def)

lemma submissions_push:
  "submissions (push_event ck e m) =
     submissions m @ (case submitted_attempt e of None \<Rightarrow> [] | Some a \<Rightarrow> [a])"
  by (simp add: submissions_def history_push List.map_filter_def split: option.splits)

text \<open>What the audit looks at besides the events; a method that changes nothing of it keeps the
  audit.\<close>

lemma audit_cong:
  assumes "m_events m' = m_events m" "m_state m' = m_state m" "m_attempts m' = m_attempts m"
    "m_retry_at m' = m_retry_at m" "m_smsc_message_id m' = m_smsc_message_id m"
  shows "audit_ok m' = audit_ok m"
  using assms by (simp add: audit_ok_def history_def submissions_def)

lemma audit_push_quiet:
  assumes "audit_ok m" "\<not> is_state_change e" "submitted_attempt e = None"
  shows "audit_ok (push_event ck e m)"
  using assms
  by (simp add: audit_ok_def history_push submissions_push replay_append replay_quiet)
     (simp add: push_event_def)

lemma audit_add_quiet:
  assumes "audit_ok m" "\<not> is_state_change e" "submitted_attempt e = None"
  shows "audit_ok (add_event ck e m)"
proof -
  have "audit_ok (add_event ck e m) = audit_ok (push_event ck e m)"
    by (rule audit_cong) (simp_all add: add_event_def)
  then show ?thesis using audit_push_quiet [OF assms] by simp
qed

text \<open>Every \<^verbatim>\<open>mark_*\<close> method sets a state and then logs the change; \<open>m'\<close> is the record
  before the change is logged.\<close>

lemma audit_log:
  assumes ok: "audit_ok m"
    and ev: "replay Pending (history m') = replay Pending (history m)"
    and sub: "submissions m' = map of_nat [1..<Suc (length (submissions m'))]"
      "m_attempts m' = of_nat (length (submissions m'))"
    and st: "m_state m' = Retrying \<longrightarrow> m_retry_at m' \<noteq> None"
      "m_state m' = Delivered \<longrightarrow> m_smsc_message_id m' \<noteq> None"
  shows "audit_ok (log_state_change ck (m_state m) m')"
proof (cases "m_state m = m_state m'")
  case True
  then show ?thesis using assms by (simp add: audit_ok_def log_state_change_def)
next
  case False
  have "replay Pending (history m') = Some (m_state m)"
    using ok ev by (simp add: audit_ok_def)
  then show ?thesis
    using False sub st
    by (simp add: audit_ok_def log_state_change_def history_push submissions_push replay_append)
       (simp add: push_event_def)
qed

lemma history_update_simps [simp]:
  "history (m\<lparr>m_state := s\<rparr>) = history m" "history (m\<lparr>m_cluster := c\<rparr>) = history m"
  "history (m\<lparr>m_endpoint := e\<rparr>) = history m" "history (m\<lparr>m_attempts := a\<rparr>) = history m"
  "history (m\<lparr>m_updated_at := t\<rparr>) = history m" "history (m\<lparr>m_last_error := le\<rparr>) = history m"
  "history (m\<lparr>m_last_error_code := lc\<rparr>) = history m" "history (m\<lparr>m_retry_at := r\<rparr>) = history m"
  "history (m\<lparr>m_smsc_message_id := i\<rparr>) = history m" "history (m\<lparr>m_route := ro\<rparr>) = history m"
  by (simp_all add: history_def)

lemma submissions_cong: "history m' = history m \<Longrightarrow> submissions m' = submissions m"
  by (simp add: submissions_def)

lemma push_event_fields [simp]:
  "m_state (push_event ck e m) = m_state m" "m_attempts (push_event ck e m) = m_attempts m"
  "m_retry_at (push_event ck e m) = m_retry_at m"
  "m_smsc_message_id (push_event ck e m) = m_smsc_message_id m" "m_id (push_event ck e m) = m_id m"
  by (simp_all add: push_event_def)

lemma upto_snoc: "map of_nat [1..<Suc (Suc n)] = map of_nat [1..<Suc n] @ [of_nat (Suc n) :: u32]"
  by simp

lemma audit_mark_in_flight: "audit_ok m \<Longrightarrow> audit_ok (mark_in_flight ck c e m)"
proof -
  assume ok: "audit_ok m"
  define m1 where "m1 = m \<lparr> m_state := InFlight, m_cluster := Some c, m_endpoint := Some e,
     m_attempts := m_attempts m + 1, m_updated_at := ck_now ck \<rparr>"
  define m2 where "m2 = push_event ck (Submitted (m_attempts m1) e c) m1"
  have h: "history m1 = history m" by (simp add: m1_def)
  have s: "submissions m2 = submissions m @ [m_attempts m + 1]"
    using submissions_cong [OF h] by (simp add: m2_def submissions_push) (simp add: m1_def)
  have "audit_ok (log_state_change ck (m_state m) m2)"
  proof (rule audit_log [OF ok])
    show "replay Pending (history m2) = replay Pending (history m)"
      by (cases "replay Pending (history m)") (simp_all add: m2_def history_push h replay_append)
    show "submissions m2 = map of_nat [1..<Suc (length (submissions m2))]"
      using ok unfolding s length_append_singleton upto_snoc by (simp add: audit_ok_def)
    show "m_attempts m2 = of_nat (length (submissions m2))"
      using ok s by (simp add: m2_def audit_ok_def) (simp add: m1_def)
  qed (simp_all add: m2_def m1_def)
  then show ?thesis by (simp add: mark_in_flight_def m1_def m2_def Let_def)
qed

lemma audit_mark:
  assumes "audit_ok m" "history m' = history m" "m_attempts m' = m_attempts m"
    and "m_state m' = Retrying \<longrightarrow> m_retry_at m' \<noteq> None"
    and "m_state m' = Delivered \<longrightarrow> m_smsc_message_id m' \<noteq> None"
  shows "audit_ok (log_state_change ck (m_state m) m')"
  using assms submissions_cong [OF assms(2)]
  by (intro audit_log) (auto simp: audit_ok_def)

lemma audit_mark_push:
  assumes "audit_ok m" "history m' = history m" "m_attempts m' = m_attempts m"
    and "m_state m' = Retrying \<longrightarrow> m_retry_at m' \<noteq> None"
    and "m_state m' = Delivered \<longrightarrow> m_smsc_message_id m' \<noteq> None"
    and "\<not> is_state_change ev" "submitted_attempt ev = None"
  shows "audit_ok (log_state_change ck (m_state m) (push_event ck ev m'))"
  using assms submissions_cong [OF assms(2)]
  by (intro audit_log) (auto simp: audit_ok_def history_push submissions_push replay_append replay_quiet)

lemma audit_reset: "audit_ok m \<Longrightarrow> audit_ok (reset_to_pending ck m)"
  using audit_mark [of m "m \<lparr> m_state := Pending, m_retry_at := None, m_updated_at := ck_now ck \<rparr>" ck]
  by (cases "m_state m = Retrying") (auto simp: reset_to_pending_def log_state_change_def)

lemma audit_step: "msg_step m m' \<Longrightarrow> audit_ok m \<Longrightarrow> audit_ok m'"
proof (induction rule: msg_step.induct)
  case (route_decision m ck did r c alts)
  have "audit_ok (m \<lparr> m_route := Some r, m_cluster := Some c \<rparr>)"
    using route_decision audit_cong [of "m \<lparr> m_route := Some r, m_cluster := Some c \<rparr>" m] by simp
  then show ?case by (simp add: record_route_decision_def audit_add_quiet)
next
  case (lb_decision m ck did e c alts)
  have "audit_ok (m \<lparr> m_endpoint := Some e \<rparr>)"
    using lb_decision audit_cong [of "m \<lparr> m_endpoint := Some e \<rparr>" m] by simp
  then show ?case by (simp add: record_lb_decision_def audit_add_quiet)
next
  case (fallback m ck did fc tc rest)
  have "audit_ok (m \<lparr> m_cluster := Some tc \<rparr>)"
    using fallback audit_cong [of "m \<lparr> m_cluster := Some tc \<rparr>" m] by simp
  then show ?case by (simp add: record_fallback_def audit_add_quiet)
next
  case (retry m ck delay code err)
  then show ?case unfolding mark_retry_def Let_def by (intro audit_mark_push) auto
next
  case (expired m ck)
  then show ?case unfolding mark_expired_def by (intro audit_mark_push) auto
qed (auto simp: audit_mark_in_flight audit_reset record_response_def record_delivery_receipt_def
       mark_delivered_def mark_failed_def intro!: audit_mark audit_add_quiet)

text \<open>The life cycle never touches the identity of a message or what its owner submitted.\<close>

lemma msg_step_frame:
  assumes "msg_step m m'"
  shows "m_id m' = m_id m" "m_created_at m' = m_created_at m" "m_ttl m' = m_ttl m"
    "m_source m' = m_source m" "m_destination m' = m_destination m"
    "m_short_message m' = m_short_message m" "m_system_id m' = m_system_id m"
    "m_priority m' = m_priority m" "m_max_attempts m' = m_max_attempts m"
  using assms by (auto elim!: msg_stepE simp: msg_ops)

lemma mark_expired_fields [simp]:
  "m_id (mark_expired ck m) = m_id m" "m_state (mark_expired ck m) = Expired"
  "m_created_at (mark_expired ck m) = m_created_at m"
  by (simp_all add: msg_ops)

lemma audit_init: "audit_ok (stored_message_new ck mid src dst body sys sn)"
  by (simp add: audit_ok_def stored_message_new_def history_def submissions_def
      message_event_new_def List.map_filter_def)

text \<open>C7: the audit log of a message is faithful.  After any sequence of life-cycle methods, replaying the
  recorded \<^verbatim>\<open>StateChange\<close> events from \<^verbatim>\<open>Pending\<close> ends in the current state, the
  \<^verbatim>\<open>Submitted\<close> events are numbered 1, 2, ... and their number is the \<^verbatim>\<open>attempts\<close>
  counter (modulo its width), a retrying message has a retry time and a delivered one an SMSC id.\<close>

theorem reachable_audit_ok:
  assumes "msg_reachable m"
  shows "audit_ok m"
  using assms by induction (auto intro: audit_init audit_step)

theorem reachable_audit_ok_witness:
  "audit_ok (mark_delivered \<lparr>ck_now = 9, ck_wall = 9\<rparr> ''smsc-1''
     (mark_in_flight \<lparr>ck_now = 5, ck_wall = 5\<rparr> ''c1'' ''e1''
        (stored_message_new \<lparr>ck_now = 1, ck_wall = 1\<rparr> (MessageId 7) ''100'' ''200'' [1] ''esme'' 3)))"
  by (rule reachable_audit_ok)
     (rule msg_reachable.step [OF msg_reachable.step [OF msg_reachable.init msg_step.in_flight]
        msg_step.delivered])

end
