(* ===== verification/Smpp.thy ===== *)
theory Smpp
  imports Message
begin

text \<open>
  The protocol data the components exchange.  PDUs, headers and status codes come from the crate
  \<^verbatim>\<open>smpp\<close>; their types list the constructors and fields the repository reads or writes, and
  the functions of that crate (\<^verbatim>\<open>Status::from_u32\<close>, \<^verbatim>\<open>PduFrame::is_response\<close>) are
  arguments of the definitions that call them.  The envelopes of the event bus
  (\<^verbatim>\<open>src/src/bootstrap/events.rs\<close>) and the request and response of the filter chain
  (\<^verbatim>\<open>src/src/filter/request.rs\<close>) belong to the repository.
\<close>

section \<open>PDUs\<close>

datatype status =
    StOk | SystemError | InvalidDestAddress | InvalidSourceAddress | BindFailed | InvalidBindStatus
  | InvalidPassword | InvalidMessageLength | InvalidCommandId | StOther u32

record submit_sm =
  sm_service_type :: string
  sm_source_addr :: string
  sm_dest_addr :: string
  sm_source_addr_ton :: u8
  sm_source_addr_npi :: u8
  sm_dest_addr_ton :: u8
  sm_dest_addr_npi :: u8
  sm_esm_class :: u8
  sm_protocol_id :: u8
  sm_priority_flag :: u8
  sm_schedule_delivery_time :: string
  sm_validity_period :: string
  sm_registered_delivery :: u8
  sm_replace_if_present_flag :: u8
  sm_data_coding :: u8
  sm_default_msg_id :: u8
  sm_short_message :: "u8 list"
  sm_tlvs :: "(u16, u8 list) alist"

record bind_fields =
  bf_system_id :: string
  bf_password :: string

datatype command =
    CBindTransmitter | CBindReceiver | CBindTransceiver
  | CBindTransmitterResp | CBindReceiverResp | CBindTransceiverResp
  | CUnbind | CUnbindResp | CEnquireLink | CEnquireLinkResp
  | CSubmitSm | CSubmitSmResp | CDeliverSm | CDeliverSmResp | CGenericNack | COther u32

datatype pdu =
    BindTransmitter bind_fields | BindReceiver bind_fields | BindTransceiver bind_fields
  | BindTransmitterResp string | BindReceiverResp string | BindTransceiverResp string
  | Unbind | UnbindResp | EnquireLink | EnquireLinkResp
  | SubmitSm submit_sm | SubmitSmResp string | DeliverSm | DeliverSmResp | GenericNack | OtherPdu

record header =
  hd_command :: command
  hd_status :: status
  hd_sequence :: u32

type_synonym frame = "header \<times> pdu"

section \<open>Envelopes (bootstrap/events.rs)\<close>

datatype session_id = SessionId (session_u64: u64)

definition session_id_new :: "u64 \<Rightarrow> session_id \<times> u64" where
  "session_id_new counter = (SessionId counter, counter + 1)"

record message_envelope =
  en_message_id :: message_id
  en_session_id :: session_id
  en_sequence_number :: u32
  en_system_id :: string
  en_submit_sm :: submit_sm
  en_received_at :: instant

text \<open>\<open>counter\<close> is the global message counter \<^verbatim>\<open>MessageId::new\<close> draws from.\<close>

definition envelope_new ::
  "instant \<Rightarrow> u64 \<Rightarrow> session_id \<Rightarrow> u32 \<Rightarrow> string \<Rightarrow> submit_sm \<Rightarrow> message_envelope \<times> u64" where
  "envelope_new now counter sid sn sys sm =
     (let (mid, counter') = message_id_new counter
      in (\<lparr> en_message_id = mid, en_session_id = sid, en_sequence_number = sn, en_system_id = sys,
            en_submit_sm = sm, en_received_at = now \<rparr>, counter'))"

record response_envelope =
  re_session_id :: session_id
  re_sequence_number :: u32
  re_message_id :: string
  re_command_status :: u32

definition response_success :: "session_id \<Rightarrow> u32 \<Rightarrow> string \<Rightarrow> response_envelope" where
  "response_success sid sn mid =
     \<lparr> re_session_id = sid, re_sequence_number = sn, re_message_id = mid, re_command_status = 0 \<rparr>"

definition response_error :: "session_id \<Rightarrow> u32 \<Rightarrow> string \<Rightarrow> u32 \<Rightarrow> response_envelope" where
  "response_error sid sn mid st =
     \<lparr> re_session_id = sid, re_sequence_number = sn, re_message_id = mid, re_command_status = st \<rparr>"

section \<open>Filter requests and responses (filter/request.rs)\<close>

record request_meta =
  qm_start_time :: "instant option"
  qm_system_id :: "string option"
  qm_source_addr :: "string option"
  qm_attributes :: "(string, string) alist"

record smpp_request =
  rq_pdu :: pdu
  rq_sequence :: u32
  rq_meta :: request_meta

definition request_new :: "instant \<Rightarrow> pdu \<Rightarrow> u32 \<Rightarrow> smpp_request" where
  "request_new now p sn =
     \<lparr> rq_pdu = p, rq_sequence = sn,
       rq_meta = \<lparr> qm_start_time = Some now, qm_system_id = None, qm_source_addr = None, qm_attributes = [] \<rparr> \<rparr>"

definition request_destination :: "smpp_request \<Rightarrow> string option" where
  "request_destination r = (case rq_pdu r of SubmitSm sm \<Rightarrow> Some (sm_dest_addr sm) | _ \<Rightarrow> None)"

definition request_source :: "smpp_request \<Rightarrow> string option" where
  "request_source r = (case rq_pdu r of SubmitSm sm \<Rightarrow> Some (sm_source_addr sm) | _ \<Rightarrow> None)"

definition request_message :: "smpp_request \<Rightarrow> u8 list option" where
  "request_message r = (case rq_pdu r of SubmitSm sm \<Rightarrow> Some (sm_short_message sm) | _ \<Rightarrow> None)"

datatype smpp_response =
    Continue smpp_request
  | Reject (rj_sequence: u32) (rj_status: status) (rj_reason: "string option")
  | Success (sc_sequence: u32) (sc_pdu: pdu)

definition reject :: "u32 \<Rightarrow> status \<Rightarrow> smpp_response" where
  "reject sn st = Reject sn st None"

definition reject_with_reason :: "u32 \<Rightarrow> status \<Rightarrow> string \<Rightarrow> smpp_response" where
  "reject_with_reason sn st reason = Reject sn st (Some reason)"

fun is_continue :: "smpp_response \<Rightarrow> bool" where
  "is_continue (Continue _) = True"
| "is_continue _ = False"

fun is_reject :: "smpp_response \<Rightarrow> bool" where
  "is_reject (Reject _ _ _) = True"
| "is_reject _ = False"

end
