(* ===== verification/Auth.thy ===== *)
theory Auth
  imports Smpp
begin

text \<open>
  Client credentials, the credential stores and the authentication filter
  (\<^verbatim>\<open>src/src/filter/auth.rs\<close>, \<^verbatim>\<open>ClientConfig\<close> of \<^verbatim>\<open>src/src/config/types.rs\<close>).  IP
  networks are handled by the crate \<^verbatim>\<open>ipnet\<close>: the predicates \<open>net_valid\<close> (the text parses as
  a network) and \<open>net_contains\<close> are arguments.  The locale \<open>credential_store\<close> is the contract of the
  trait \<^verbatim>\<open>CredentialStore\<close>, interpreted on the three stores of the source.
\<close>

section \<open>Credentials\<close>

datatype bind_type = Transmitter | Receiver | Transceiver

type_synonym ip = string
type_synonym ip_net = string

record credentials =
  cr_system_id :: string
  cr_password :: string
  cr_allowed_bind_types :: "bind_type list"
  cr_allowed_sources :: "string list option"
  cr_allowed_ips :: "ip_net list"
  cr_max_connections :: "nat option"
  cr_rate_limit :: "u32 option"
  cr_enabled :: bool

definition credentials_new :: "string \<Rightarrow> string \<Rightarrow> credentials" where
  "credentials_new sys pw =
     \<lparr> cr_system_id = sys, cr_password = pw, cr_allowed_bind_types = [], cr_allowed_sources = None,
       cr_allowed_ips = [], cr_max_connections = None, cr_rate_limit = None, cr_enabled = True \<rparr>"

definition is_bind_allowed :: "bind_type \<Rightarrow> credentials \<Rightarrow> bool" where
  "is_bind_allowed t c = (cr_allowed_bind_types c = [] \<or> t \<in> set (cr_allowed_bind_types c))"

definition is_ip_allowed :: "(ip_net \<Rightarrow> ip \<Rightarrow> bool) \<Rightarrow> ip \<Rightarrow> credentials \<Rightarrow> bool" where
  "is_ip_allowed net_contains a c =
     (if cr_allowed_ips c = [] then True else list_ex (\<lambda>n. net_contains n a) (cr_allowed_ips c))"

definition is_source_allowed :: "string \<Rightarrow> credentials \<Rightarrow> bool" where
  "is_source_allowed source c =
     (case cr_allowed_sources c of
        None \<Rightarrow> True
      | Some ss \<Rightarrow> list_ex (\<lambda>s. s = source \<or> starts_with source s) ss)"

record client_config =
  cl_system_id :: string
  cl_password :: string
  cl_system_type :: "string option"
  cl_allowed_bind_types :: "bind_type list"
  cl_allowed_sources :: "string list"
  cl_allowed_ips :: "string list"
  cl_max_connections :: "nat option"
  cl_rate_limit :: "u32 option"
  cl_enabled :: bool

definition credentials_from :: "(string \<Rightarrow> bool) \<Rightarrow> client_config \<Rightarrow> credentials" where
  "credentials_from net_valid c =
     \<lparr> cr_system_id = cl_system_id c, cr_password = cl_password c,
       cr_allowed_bind_types = cl_allowed_bind_types c,
       cr_allowed_sources = (if cl_allowed_sources c = [] then None else Some (cl_allowed_sources c)),
       cr_allowed_ips = filter net_valid (cl_allowed_ips c),
       cr_max_connections = cl_max_connections c, cr_rate_limit = cl_rate_limit c,
       cr_enabled = cl_enabled c \<rparr>"

section \<open>Stores\<close>

type_synonym credential_map = "(string, credentials) alist"

text \<open>\<^verbatim>\<open>collect\<close> into a hash map: a later client with the same system id replaces an earlier one.\<close>

definition from_config :: "(string \<Rightarrow> bool) \<Rightarrow> client_config list \<Rightarrow> credential_map" where
  "from_config net_valid clients =
     fold (\<lambda>c m. AList.update (cl_system_id c) (credentials_from net_valid c) m) (filter cl_enabled clients) []"

definition config_validate :: "credential_map \<Rightarrow> string \<Rightarrow> string \<Rightarrow> credentials option" where
  "config_validate st sys pw =
     (case map_of st sys of
        None \<Rightarrow> None
      | Some c \<Rightarrow> if cr_password c = pw \<and> cr_enabled c then Some c else None)"

definition credential_get :: "credential_map \<Rightarrow> string \<Rightarrow> credentials option" where
  "credential_get st sys = map_of st sys"

definition memory_add :: "credentials \<Rightarrow> credential_map \<Rightarrow> credential_map" where
  "memory_add c st = AList.update (cr_system_id c) c st"

definition memory_validate :: "credential_map \<Rightarrow> string \<Rightarrow> string \<Rightarrow> credentials option" where
  "memory_validate st sys pw =
     (case map_of st sys of
        None \<Rightarrow> None
      | Some c \<Rightarrow> if cr_password c = pw then Some c else None)"

definition open_validate :: "string \<Rightarrow> string \<Rightarrow> credentials option" where
  "open_validate sys pw = Some (credentials_new sys '''')"

definition open_get :: "string \<Rightarrow> credentials option" where
  "open_get sys = Some (credentials_new sys '''')"

section \<open>The authentication filter\<close>

text \<open>\<^verbatim>\<open>AuthFilter::call\<close> with the inner service as an argument: only the presence of a system id
  is checked.\<close>

definition auth_filter_call :: "(smpp_request \<Rightarrow> smpp_response) \<Rightarrow> smpp_request \<Rightarrow> smpp_response" where
  "auth_filter_call inner r =
     (case qm_system_id (rq_meta r) of
        None \<Rightarrow> reject (rq_sequence r) InvalidBindStatus
      | Some _ \<Rightarrow> inner r)"

section \<open>The contract of a credential store\<close>

locale credential_store =
  fixes validate :: "string \<Rightarrow> string \<Rightarrow> credentials option"
    and look :: "string \<Rightarrow> credentials option"
  assumes validate_look: "validate sys pw = Some c \<Longrightarrow> look sys = Some c"
    and look_id: "look sys = Some c \<Longrightarrow> cr_system_id c = sys"
begin

lemma validate_id: "validate sys pw = Some c \<Longrightarrow> cr_system_id c = sys"
  using validate_look look_id by blast

lemma validate_unknown: "look sys = None \<Longrightarrow> validate sys pw = None"
  using validate_look by (cases "validate sys pw") auto

lemma validate_unique: "validate sys pw = Some c \<Longrightarrow> validate sys pw' = Some c' \<Longrightarrow> c = c'"
  using validate_look by (metis option.inject)

end

lemma from_config_lookup:
  "map_of (from_config nv clients) sys = Some c \<Longrightarrow>
     \<exists>k \<in> set clients. cl_enabled k \<and> cl_system_id k = sys \<and> c = credentials_from nv k"
proof -
  have "map_of (fold (\<lambda>c m. AList.update (cl_system_id c) (credentials_from nv c) m) cs m) sys = Some c \<Longrightarrow>
      map_of m sys = Some c \<or> (\<exists>k \<in> set cs. cl_system_id k = sys \<and> c = credentials_from nv k)" for cs m
    by (induction cs arbitrary: m) (fastforce simp: map_of_update split: if_splits)+
  from this [of "filter cl_enabled clients" "[]"]
  show "map_of (from_config nv clients) sys = Some c \<Longrightarrow> ?thesis" by (auto simp: from_config_def)
qed

lemma memory_lookup: "map_of (fold memory_add cs []) sys = Some c \<Longrightarrow> cr_system_id c = sys"
proof -
  have "map_of (fold memory_add cs m) sys = Some c \<Longrightarrow> map_of m sys = Some c \<or> cr_system_id c = sys" for m
    by (induction cs arbitrary: m) (fastforce simp: memory_add_def map_of_update split: if_splits)+
  from this [of "[]"] show "map_of (fold memory_add cs []) sys = Some c \<Longrightarrow> ?thesis" by simp
qed

interpretation cfg: credential_store "config_validate (from_config nv clients)" "credential_get (from_config nv clients)"
  for nv clients
  by unfold_locales
     (auto simp: config_validate_def credential_get_def credentials_from_def dest!: from_config_lookup
       split: option.splits if_splits)

interpretation memc: credential_store "memory_validate (fold memory_add cs [])" "credential_get (fold memory_add cs [])"
  for cs
  by unfold_locales
     (auto simp: memory_validate_def credential_get_def dest: memory_lookup split: option.splits if_splits)

interpretation opn: credential_store open_validate open_get
  by unfold_locales (auto simp: open_validate_def open_get_def credentials_new_def)

text \<open>the configured store authenticates exactly its enabled clients: a validated system id belongs to
  an enabled client of the configuration with that password, and the credentials carry that client's
  restrictions.\<close>

theorem config_store_sound:
  assumes "config_validate (from_config nv clients) sys pw = Some c"
  shows "\<exists>k \<in> set clients. cl_enabled k \<and> cl_system_id k = sys \<and> cl_password k = pw \<and>
           c = credentials_from nv k"
proof -
  have "map_of (from_config nv clients) sys = Some c" "cr_password c = pw"
    using assms by (auto simp: config_validate_def split: option.splits if_splits)
  with from_config_lookup [OF this(1)] show ?thesis by (auto simp: credentials_from_def)
qed

definition sample_client :: client_config where
  "sample_client =
     \<lparr> cl_system_id = ''esme1'', cl_password = ''pw'', cl_system_type = None, cl_allowed_bind_types = [Transmitter],
       cl_allowed_sources = [], cl_allowed_ips = [''10.0.0.300''], cl_max_connections = None,
       cl_rate_limit = None, cl_enabled = True \<rparr>"

theorem config_store_sound_witness:
  "\<exists>k \<in> set [sample_client]. cl_system_id k = ''esme1'' \<and> cl_password k = ''pw''"
proof -
  have "config_validate (from_config (\<lambda>_. False) [sample_client]) ''esme1'' ''pw'' =
      Some (credentials_from (\<lambda>_. False) sample_client)"
    by (simp add: config_validate_def from_config_def sample_client_def credentials_from_def)
  from config_store_sound [OF this] show ?thesis by blast
qed

text \<open>the IP restriction fails open.  Entries of \<^verbatim>\<open>allowed_ips\<close> that do not parse are dropped, and an
  empty list allows everyone: a client restricted only by mistyped networks may bind from any
  address.\<close>

theorem unparsable_ip_restriction_fails_open:
  assumes "\<forall>n \<in> set (cl_allowed_ips k). \<not> nv n"
  shows "is_ip_allowed net_contains a (credentials_from nv k)"
  using assms by (simp add: is_ip_allowed_def credentials_from_def filter_empty_conv)

theorem unparsable_ip_restriction_fails_open_witness:
  "cl_allowed_ips sample_client \<noteq> [] \<and>
   is_ip_allowed (\<lambda>_ _. False) ''203.0.113.9'' (credentials_from (\<lambda>_. False) sample_client)"
  using unparsable_ip_restriction_fails_open [of sample_client "\<lambda>_. False" "\<lambda>_ _. False" "''203.0.113.9''"]
  by (simp add: sample_client_def)

end
