(* ===== verification/FirewallEngine.thy ===== *)
theory FirewallEngine
  imports Router Auth
begin

text \<open>
  The standalone rule engine of the firewall (\<^verbatim>\<open>src/src/firewall/types.rs\<close>,
  \<^verbatim>\<open>src/src/firewall/context.rs\<close>, \<^verbatim>\<open>src/src/firewall/engine.rs\<close>): configured
  chains are compiled, sorted by priority and evaluated against a message.  Regular expressions,
  Unicode lower case, IP addresses and networks are the fields of \<open>engine_lib\<close>.  An evaluation
  reads the clocks several times; the model reads them once, as a \<open>moment\<close>.

  The theorems relate the compiled engine to a direct interpretation of the configuration,
  characterise when compilation succeeds, and bound the rate conditions.
\<close>

unbundle bit_operations_syntax

section \<open>Configuration (firewall/types.rs)\<close>

datatype policy = PAccept | PDrop | PReject

datatype chain_type = ChainInput | ChainOutput | ChainForward

datatype rate_key = KeySystemId | KeySource | KeyDestination | KeyClientIp | KeySenderId

datatype string_match_type = SmExact | SmPrefix | SmSuffix | SmContains | SmRegex | SmList

record string_matcher_config =
  smc_match_type :: string_match_type
  smc_value :: "string option"
  smc_pattern :: "string option"
  smc_list :: "string option"
  smc_negate :: bool

datatype content_match_type = CmContains | CmExact | CmRegex | CmKeywords

record content_matcher_config =
  cmc_match_type :: content_match_type
  cmc_value :: "string option"
  cmc_pattern :: "string option"
  cmc_list :: "string option"
  cmc_case_insensitive :: bool
  cmc_negate :: bool

datatype ip_match_type = ImExact | ImCidr | ImList

record ip_matcher_config =
  imc_match_type :: ip_match_type
  imc_value :: "string option"
  imc_list :: "string option"
  imc_negate :: bool

datatype condition_config =
    CfSource string_matcher_config | CfDestination string_matcher_config | CfSenderId string_matcher_config
  | CfSystemId string_matcher_config | CfContent content_matcher_config
  | CfContentLength "nat option" "nat option" bool | CfEsmClass u8 "u8 option" | CfProtocolId u8 | CfDataCoding u8
  | CfClientIp ip_matcher_config | CfTlsEnabled bool | CfRate rate_key duration u64
  | CfTime string string "string option" | CfDayOfWeek "u8 list"
  | CfNot condition_config | CfAnd "condition_config list" | CfOr "condition_config list" | CfPlugin string

datatype log_level = LTrace | LDebug | LInfo | LWarn | LError

datatype action_config =
    AcAccept | AcDrop | AcReject u32 "string option" | AcLog log_level "string option" "action_config option"
  | AcRateLimit rate_key duration u64 u32
  | AcModify "string option" "string option" "string option" "string option" "string option"
  | AcJump string | AcReturn | AcQuarantine | AcDelay duration | AcMark string string | AcPlugin string string

record rule_config =
  rc_name :: "string option"
  rc_enabled :: bool
  rc_conditions :: "condition_config list"
  rc_action :: action_config

record chain_config =
  cc_name :: string
  cc_chain_type :: chain_type
  cc_priority :: int
  cc_policy :: policy
  cc_rules :: "rule_config list"

datatype list_type = ListFile | ListHttp | ListRedis

record external_list_config =
  xl_list_type :: list_type
  xl_path :: "string option"
  xl_url :: "string option"
  xl_reload_interval :: "duration option"

record firewall_config =
  fg_enabled :: bool
  fg_default_policy :: policy
  fg_lists :: "(string, external_list_config) alist"
  fg_chains :: "chain_config list"

datatype firewall_error =
    ConfigError string | EvaluationError string | ListNotFound string | InvalidCondition string
  | ChainNotFound string | RegexError string | FirewallIoError string

section \<open>Context and result (firewall/context.rs)\<close>

record evaluation_context =
  ec_source :: string
  ec_destination :: string
  ec_sender_id :: "string option"
  ec_system_id :: string
  ec_content :: string
  ec_content_length :: nat
  ec_esm_class :: u8
  ec_protocol_id :: u8
  ec_data_coding :: u8
  ec_client_ip :: "ip option"
  ec_tls_enabled :: bool
  ec_service_type :: "string option"
  ec_priority :: int
  ec_metadata :: "(string, string) alist"
  ec_timestamp :: instant

definition evaluation_context_new :: "instant \<Rightarrow> string \<Rightarrow> string \<Rightarrow> string \<Rightarrow> string \<Rightarrow> evaluation_context" where
  "evaluation_context_new now source destination system_id content =
     \<lparr> ec_source = source, ec_destination = destination, ec_sender_id = None, ec_system_id = system_id,
       ec_content = content, ec_content_length = length content, ec_esm_class = 0, ec_protocol_id = 0,
       ec_data_coding = 0, ec_client_ip = None, ec_tls_enabled = False, ec_service_type = None, ec_priority = 0,
       ec_metadata = [], ec_timestamp = now \<rparr>"

definition with_sender_id :: "string \<Rightarrow> evaluation_context \<Rightarrow> evaluation_context" where
  "with_sender_id s ctx = ctx \<lparr> ec_sender_id := Some s \<rparr>"

definition with_esm_class :: "u8 \<Rightarrow> evaluation_context \<Rightarrow> evaluation_context" where
  "with_esm_class v ctx = ctx \<lparr> ec_esm_class := v \<rparr>"

definition with_protocol_id :: "u8 \<Rightarrow> evaluation_context \<Rightarrow> evaluation_context" where
  "with_protocol_id v ctx = ctx \<lparr> ec_protocol_id := v \<rparr>"

definition with_data_coding :: "u8 \<Rightarrow> evaluation_context \<Rightarrow> evaluation_context" where
  "with_data_coding v ctx = ctx \<lparr> ec_data_coding := v \<rparr>"

definition with_client_ip :: "ip \<Rightarrow> evaluation_context \<Rightarrow> evaluation_context" where
  "with_client_ip a ctx = ctx \<lparr> ec_client_ip := Some a \<rparr>"

definition with_tls :: "bool \<Rightarrow> evaluation_context \<Rightarrow> evaluation_context" where
  "with_tls v ctx = ctx \<lparr> ec_tls_enabled := v \<rparr>"

definition with_service_type :: "string \<Rightarrow> evaluation_context \<Rightarrow> evaluation_context" where
  "with_service_type s ctx = ctx \<lparr> ec_service_type := Some s \<rparr>"

definition with_priority :: "int \<Rightarrow> evaluation_context \<Rightarrow> evaluation_context" where
  "with_priority p ctx = ctx \<lparr> ec_priority := p \<rparr>"

definition with_metadata :: "string \<Rightarrow> string \<Rightarrow> evaluation_context \<Rightarrow> evaluation_context" where
  "with_metadata k v ctx = ctx \<lparr> ec_metadata := AList.update k v (ec_metadata ctx) \<rparr>"

fun get_rate_key :: "evaluation_context \<Rightarrow> rate_key \<Rightarrow> string" where
  "get_rate_key ctx KeySystemId = ec_system_id ctx"
| "get_rate_key ctx KeySource = ec_source ctx"
| "get_rate_key ctx KeyDestination = ec_destination ctx"
| "get_rate_key ctx KeyClientIp = (case ec_client_ip ctx of None \<Rightarrow> [] | Some a \<Rightarrow> a)"
| "get_rate_key ctx KeySenderId = (case ec_sender_id ctx of None \<Rightarrow> ec_source ctx | Some s \<Rightarrow> s)"

datatype evaluation_result =
    EvAccept | EvDrop | EvReject u32 "string option" | EvQuarantine
  | EvModify "string option" "string option" "string option" | EvContinue

fun result_is_terminal :: "evaluation_result \<Rightarrow> bool" where
  "result_is_terminal EvContinue = False"
| "result_is_terminal (EvModify _ _ _) = False"
| "result_is_terminal _ = True"

section \<open>Compilation (firewall/engine.rs)\<close>

record engine_lib =
  el_regex :: regex_engine
  el_lower :: "string \<Rightarrow> string"
  el_parse_ip :: "string \<Rightarrow> ip option"
  el_parse_net :: "string \<Rightarrow> ip_net option"
  el_net_contains :: "ip_net \<Rightarrow> ip \<Rightarrow> bool"

datatype string_matcher =
    SExact string bool | SPrefix string bool | SSuffix string bool | SContains string bool
  | SRegex string bool | SList string bool

datatype content_matcher =
    CContains string bool bool | CExact string bool bool | CRegex string bool | CKeywords string bool bool

datatype ip_matcher = IExact ip bool | ICidr ip_net bool | IList string bool

datatype compiled_condition =
    CoSource string_matcher | CoDestination string_matcher | CoSenderId string_matcher | CoSystemId string_matcher
  | CoContent content_matcher | CoContentLength "nat option" "nat option" bool | CoEsmClass u8 "u8 option"
  | CoProtocolId u8 | CoDataCoding u8 | CoClientIp ip_matcher | CoTlsEnabled bool | CoRate rate_key duration u64
  | CoTime u32 u32 u32 u32 "string option" | CoDayOfWeek "u8 list"
  | CoNot compiled_condition | CoAnd "compiled_condition list" | CoOr "compiled_condition list"

definition require :: "string \<Rightarrow> 'a option \<Rightarrow> firewall_error + 'a" where
  "require msg x = (case x of None \<Rightarrow> Inl (InvalidCondition msg) | Some v \<Rightarrow> Inr v)"

definition and_then :: "'e + 'a \<Rightarrow> ('a \<Rightarrow> 'e + 'b) \<Rightarrow> 'e + 'b" where
  "and_then r f = (case r of Inl e \<Rightarrow> Inl e | Inr v \<Rightarrow> f v)"

definition regex_new :: "engine_lib \<Rightarrow> string \<Rightarrow> firewall_error + string" where
  "regex_new L pat = (if re_valid (el_regex L) pat then Inr pat else Inl (RegexError pat))"

definition compile_string_matcher :: "engine_lib \<Rightarrow> string_matcher_config \<Rightarrow> firewall_error + string_matcher" where
  "compile_string_matcher L c =
     (let n = smc_negate c in
      case smc_match_type c of
        SmExact \<Rightarrow> and_then (require ''exact match requires value'' (smc_value c)) (\<lambda>v. Inr (SExact v n))
      | SmPrefix \<Rightarrow> and_then (require ''prefix match requires value'' (smc_value c)) (\<lambda>v. Inr (SPrefix v n))
      | SmSuffix \<Rightarrow> and_then (require ''suffix match requires value'' (smc_value c)) (\<lambda>v. Inr (SSuffix v n))
      | SmContains \<Rightarrow> and_then (require ''contains match requires value'' (smc_value c)) (\<lambda>v. Inr (SContains v n))
      | SmRegex \<Rightarrow> and_then (require ''regex match requires pattern'' (smc_pattern c))
          (\<lambda>p. and_then (regex_new L p) (\<lambda>r. Inr (SRegex r n)))
      | SmList \<Rightarrow> and_then (require ''list match requires list name'' (smc_list c)) (\<lambda>l. Inr (SList l n)))"

definition compile_content_matcher :: "engine_lib \<Rightarrow> content_matcher_config \<Rightarrow> firewall_error + content_matcher" where
  "compile_content_matcher L c =
     (let n = cmc_negate c; ci = cmc_case_insensitive c in
      case cmc_match_type c of
        CmContains \<Rightarrow> and_then (require ''contains match requires value'' (cmc_value c)) (\<lambda>v. Inr (CContains v ci n))
      | CmExact \<Rightarrow> and_then (require ''exact match requires value'' (cmc_value c)) (\<lambda>v. Inr (CExact v ci n))
      | CmRegex \<Rightarrow> and_then (require ''regex match requires pattern'' (cmc_pattern c))
          (\<lambda>p. and_then (regex_new L (if ci then ''(?i)'' @ p else p)) (\<lambda>r. Inr (CRegex r n)))
      | CmKeywords \<Rightarrow> and_then (require ''keywords match requires list name'' (cmc_list c)) (\<lambda>l. Inr (CKeywords l ci n)))"

definition compile_ip_matcher :: "engine_lib \<Rightarrow> ip_matcher_config \<Rightarrow> firewall_error + ip_matcher" where
  "compile_ip_matcher L c =
     (let n = imc_negate c in
      case imc_match_type c of
        ImExact \<Rightarrow> and_then (require ''exact IP match requires value'' (imc_value c))
          (\<lambda>v. and_then (require (''invalid IP address: '' @ v) (el_parse_ip L v)) (\<lambda>a. Inr (IExact a n)))
      | ImCidr \<Rightarrow> and_then (require ''CIDR match requires value'' (imc_value c))
          (\<lambda>v. and_then (require (''invalid CIDR: '' @ v) (el_parse_net L v)) (\<lambda>a. Inr (ICidr a n)))
      | ImList \<Rightarrow> and_then (require ''list IP match requires list name'' (imc_list c)) (\<lambda>l. Inr (IList l n)))"

definition parse_time :: "string \<Rightarrow> firewall_error + u32 \<times> u32" where
  "parse_time s =
     (case split_on CHR '':'' s of
        [h, m] \<Rightarrow>
          and_then (require (''invalid hour: '' @ h) (parse_u32 h))
            (\<lambda>hh. and_then (require (''invalid minute: '' @ m) (parse_u32 m)) (\<lambda>mm. Inr (hh, mm)))
      | _ \<Rightarrow> Inl (InvalidCondition (''invalid time format: '' @ s)))"

fun compile_condition :: "engine_lib \<Rightarrow> condition_config \<Rightarrow> firewall_error + compiled_condition"
  and compile_conditions :: "engine_lib \<Rightarrow> condition_config list \<Rightarrow> firewall_error + compiled_condition list" where
  "compile_condition L (CfSource m) = and_then (compile_string_matcher L m) (\<lambda>x. Inr (CoSource x))"
| "compile_condition L (CfDestination m) = and_then (compile_string_matcher L m) (\<lambda>x. Inr (CoDestination x))"
| "compile_condition L (CfSenderId m) = and_then (compile_string_matcher L m) (\<lambda>x. Inr (CoSenderId x))"
| "compile_condition L (CfSystemId m) = and_then (compile_string_matcher L m) (\<lambda>x. Inr (CoSystemId x))"
| "compile_condition L (CfContent m) = and_then (compile_content_matcher L m) (\<lambda>x. Inr (CoContent x))"
| "compile_condition L (CfContentLength mn mx n) = Inr (CoContentLength mn mx n)"
| "compile_condition L (CfEsmClass v msk) = Inr (CoEsmClass v msk)"
| "compile_condition L (CfProtocolId v) = Inr (CoProtocolId v)"
| "compile_condition L (CfDataCoding v) = Inr (CoDataCoding v)"
| "compile_condition L (CfClientIp m) = and_then (compile_ip_matcher L m) (\<lambda>x. Inr (CoClientIp x))"
| "compile_condition L (CfTlsEnabled v) = Inr (CoTlsEnabled v)"
| "compile_condition L (CfRate k w t) = Inr (CoRate k w t)"
| "compile_condition L (CfTime st en tz) =
     and_then (parse_time st) (\<lambda>(sh, sm). and_then (parse_time en) (\<lambda>(eh, em). Inr (CoTime sh sm eh em tz)))"
| "compile_condition L (CfDayOfWeek ds) = Inr (CoDayOfWeek ds)"
| "compile_condition L (CfNot c) = and_then (compile_condition L c) (\<lambda>x. Inr (CoNot x))"
| "compile_condition L (CfAnd cs) = and_then (compile_conditions L cs) (\<lambda>xs. Inr (CoAnd xs))"
| "compile_condition L (CfOr cs) = and_then (compile_conditions L cs) (\<lambda>xs. Inr (CoOr xs))"
| "compile_condition L (CfPlugin p) = Inl (InvalidCondition ''plugin conditions not yet supported'')"
| "compile_conditions L [] = Inr []"
| "compile_conditions L (c # cs) =
     and_then (compile_condition L c) (\<lambda>x. and_then (compile_conditions L cs) (\<lambda>xs. Inr (x # xs)))"

record compiled_rule =
  ur_name :: "string option"
  ur_enabled :: bool
  ur_conditions :: "compiled_condition list"
  ur_action :: action_config
  ur_counter :: u64

record compiled_chain =
  uc_name :: string
  uc_chain_type :: chain_type
  uc_priority :: int
  uc_policy :: policy
  uc_rules :: "compiled_rule list"

record rate_limit_state =
  rs_count :: u64
  rs_window_start :: instant

type_synonym rate_map = "(string, rate_limit_state) alist"
type_synonym list_map = "(string, string list) alist"

record compiled_firewall =
  uf_enabled :: bool
  uf_default_policy :: policy
  uf_chains :: "compiled_chain list"
  uf_lists :: list_map
  uf_rate_limits :: rate_map
  uf_rule_counters :: "(string, u64) alist"

definition compile_rule :: "engine_lib \<Rightarrow> rule_config \<Rightarrow> firewall_error + compiled_rule" where
  "compile_rule L r =
     and_then (compile_conditions L (rc_conditions r))
       (\<lambda>cs. Inr \<lparr> ur_name = rc_name r, ur_enabled = rc_enabled r, ur_conditions = cs, ur_action = rc_action r,
                    ur_counter = 0 \<rparr>)"

text \<open>A loop that stops at the first error.\<close>

fun try_map :: "('a \<Rightarrow> 'e + 'b) \<Rightarrow> 'a list \<Rightarrow> 'e + 'b list" where
  "try_map f [] = Inr []"
| "try_map f (x # xs) = and_then (f x) (\<lambda>y. and_then (try_map f xs) (\<lambda>ys. Inr (y # ys)))"

definition compile_chain :: "engine_lib \<Rightarrow> chain_config \<Rightarrow> firewall_error + compiled_chain" where
  "compile_chain L c =
     and_then (try_map (compile_rule L) (cc_rules c))
       (\<lambda>rs. Inr \<lparr> uc_name = cc_name c, uc_chain_type = cc_chain_type c, uc_priority = cc_priority c,
                    uc_policy = cc_policy c, uc_rules = rs \<rparr>)"

definition firewall_from_config :: "engine_lib \<Rightarrow> firewall_config \<Rightarrow> firewall_error + compiled_firewall" where
  "firewall_from_config L cfg =
     and_then (try_map (compile_chain L) (fg_chains cfg))
       (\<lambda>cs. Inr \<lparr> uf_enabled = fg_enabled cfg, uf_default_policy = fg_default_policy cfg,
                    uf_chains = sort_key uc_priority cs, uf_lists = [], uf_rate_limits = [],
                    uf_rule_counters = [] \<rparr>)"

definition load_list :: "string \<Rightarrow> string list \<Rightarrow> compiled_firewall \<Rightarrow> compiled_firewall" where
  "load_list name entries fw = fw \<lparr> uf_lists := AList.update name entries (uf_lists fw) \<rparr>"

section \<open>Evaluation\<close>

definition apply_negate :: "bool \<Rightarrow> bool \<Rightarrow> bool" where
  "apply_negate n b = (if n then \<not> b else b)"

definition in_list :: "list_map \<Rightarrow> string \<Rightarrow> string \<Rightarrow> bool" where
  "in_list ls name v = (case map_of ls name of None \<Rightarrow> False | Some es \<Rightarrow> list_ex (\<lambda>e. e = v) es)"

fun match_string :: "engine_lib \<Rightarrow> list_map \<Rightarrow> string_matcher \<Rightarrow> string \<Rightarrow> bool" where
  "match_string L ls (SExact p n) v = apply_negate n (v = p)"
| "match_string L ls (SPrefix p n) v = apply_negate n (starts_with v p)"
| "match_string L ls (SSuffix p n) v = apply_negate n (ends_with v p)"
| "match_string L ls (SContains p n) v = apply_negate n (contains_str v p)"
| "match_string L ls (SRegex p n) v = apply_negate n (re_is_match (el_regex L) p v)"
| "match_string L ls (SList name n) v = apply_negate n (in_list ls name v)"

fun match_content :: "engine_lib \<Rightarrow> list_map \<Rightarrow> content_matcher \<Rightarrow> string \<Rightarrow> bool" where
  "match_content L ls (CContains p ci n) v =
     apply_negate n (if ci then contains_str (el_lower L v) (el_lower L p) else contains_str v p)"
| "match_content L ls (CExact p ci n) v =
     apply_negate n (if ci then el_lower L v = el_lower L p else v = p)"
| "match_content L ls (CRegex p n) v = apply_negate n (re_is_match (el_regex L) p v)"
| "match_content L ls (CKeywords name ci n) v =
     apply_negate n
       (case map_of ls name of
          None \<Rightarrow> False
        | Some kws \<Rightarrow>
            list_ex (\<lambda>kw. contains_str (if ci then el_lower L v else v) (if ci then el_lower L kw else kw)) kws)"

fun match_ip :: "engine_lib \<Rightarrow> list_map \<Rightarrow> ip_matcher \<Rightarrow> ip \<Rightarrow> bool" where
  "match_ip L ls (IExact a n) v = apply_negate n (v = a)"
| "match_ip L ls (ICidr net n) v = apply_negate n (el_net_contains L net v)"
| "match_ip L ls (IList name n) v = apply_negate n (in_list ls name v)"

record moment =
  mo_now :: instant
  mo_weekday :: u8
  mo_hour :: u32
  mo_minute :: u32

fun rate_key_name :: "rate_key \<Rightarrow> string" where
  "rate_key_name KeySystemId = ''SystemId''"
| "rate_key_name KeySource = ''Source''"
| "rate_key_name KeyDestination = ''Destination''"
| "rate_key_name KeyClientIp = ''ClientIp''"
| "rate_key_name KeySenderId = ''SenderId''"

definition count_hit :: "instant \<Rightarrow> duration \<Rightarrow> rate_limit_state \<Rightarrow> rate_limit_state" where
  "count_hit now window st =
     (let st1 = (if window \<le> elapsed now (rs_window_start st) then \<lparr> rs_count = 0, rs_window_start = now \<rparr> else st)
      in st1 \<lparr> rs_count := rs_count st1 + 1 \<rparr>)"

definition check_rate_limit ::
  "instant \<Rightarrow> rate_key \<Rightarrow> duration \<Rightarrow> u64 \<Rightarrow> evaluation_context \<Rightarrow> rate_map \<Rightarrow> bool \<times> rate_map" where
  "check_rate_limit now key window threshold ctx rl =
     (let k = rate_key_name key @ '':'' @ get_rate_key ctx key;
          st = count_hit now window
                 (case map_of rl k of None \<Rightarrow> \<lparr> rs_count = 0, rs_window_start = now \<rparr> | Some s \<Rightarrow> s)
      in (threshold < rs_count st, AList.update k st rl))"

definition check_time :: "moment \<Rightarrow> u32 \<Rightarrow> u32 \<Rightarrow> u32 \<Rightarrow> u32 \<Rightarrow> bool" where
  "check_time mo sh sm eh em =
     (let cur = mo_hour mo * 60 + mo_minute mo; st = sh * 60 + sm; en = eh * 60 + em
      in if st \<le> en then st \<le> cur \<and> cur \<le> en else st \<le> cur \<or> cur \<le> en)"

definition length_in_range :: "nat option \<Rightarrow> nat option \<Rightarrow> nat \<Rightarrow> bool" where
  "length_in_range mn mx len =
     ((case mn of None \<Rightarrow> True | Some m \<Rightarrow> m \<le> len) \<and> (case mx of None \<Rightarrow> True | Some m \<Rightarrow> len \<le> m))"

definition esm_class_matches :: "u8 \<Rightarrow> u8 option \<Rightarrow> u8 \<Rightarrow> bool" where
  "esm_class_matches v msk actual = (case msk of Some m \<Rightarrow> actual AND m = v AND m | None \<Rightarrow> actual = v)"

text \<open>Conditions without a rate limit read the state only.\<close>

fun evaluate_condition ::
    "engine_lib \<Rightarrow> moment \<Rightarrow> list_map \<Rightarrow> evaluation_context \<Rightarrow> compiled_condition \<Rightarrow> rate_map \<Rightarrow> bool \<times> rate_map"
  and evaluate_conditions ::
    "engine_lib \<Rightarrow> moment \<Rightarrow> list_map \<Rightarrow> evaluation_context \<Rightarrow> compiled_condition list \<Rightarrow> rate_map \<Rightarrow> bool \<times> rate_map"
  and evaluate_any ::
    "engine_lib \<Rightarrow> moment \<Rightarrow> list_map \<Rightarrow> evaluation_context \<Rightarrow> compiled_condition list \<Rightarrow> rate_map \<Rightarrow> bool \<times> rate_map"
  where
  "evaluate_condition L mo ls ctx (CoSource m) rl = (match_string L ls m (ec_source ctx), rl)"
| "evaluate_condition L mo ls ctx (CoDestination m) rl = (match_string L ls m (ec_destination ctx), rl)"
| "evaluate_condition L mo ls ctx (CoSenderId m) rl =
     ((case ec_sender_id ctx of None \<Rightarrow> False | Some s \<Rightarrow> match_string L ls m s), rl)"
| "evaluate_condition L mo ls ctx (CoSystemId m) rl = (match_string L ls m (ec_system_id ctx), rl)"
| "evaluate_condition L mo ls ctx (CoContent m) rl = (match_content L ls m (ec_content ctx), rl)"
| "evaluate_condition L mo ls ctx (CoContentLength mn mx n) rl =
     (apply_negate n (length_in_range mn mx (ec_content_length ctx)), rl)"
| "evaluate_condition L mo ls ctx (CoEsmClass v msk) rl = (esm_class_matches v msk (ec_esm_class ctx), rl)"
| "evaluate_condition L mo ls ctx (CoProtocolId v) rl = (ec_protocol_id ctx = v, rl)"
| "evaluate_condition L mo ls ctx (CoDataCoding v) rl = (ec_data_coding ctx = v, rl)"
| "evaluate_condition L mo ls ctx (CoClientIp m) rl =
     ((case ec_client_ip ctx of None \<Rightarrow> False | Some a \<Rightarrow> match_ip L ls m a), rl)"
| "evaluate_condition L mo ls ctx (CoTlsEnabled v) rl = (ec_tls_enabled ctx = v, rl)"
| "evaluate_condition L mo ls ctx (CoRate k w t) rl = check_rate_limit (mo_now mo) k w t ctx rl"
| "evaluate_condition L mo ls ctx (CoTime sh sm eh em tz) rl = (check_time mo sh sm eh em, rl)"
| "evaluate_condition L mo ls ctx (CoDayOfWeek ds) rl = (mo_weekday mo \<in> set ds, rl)"
| "evaluate_condition L mo ls ctx (CoNot c) rl =
     (case evaluate_condition L mo ls ctx c rl of (b, rl1) \<Rightarrow> (\<not> b, rl1))"
| "evaluate_condition L mo ls ctx (CoAnd cs) rl = evaluate_conditions L mo ls ctx cs rl"
| "evaluate_condition L mo ls ctx (CoOr cs) rl = evaluate_any L mo ls ctx cs rl"
| "evaluate_conditions L mo ls ctx [] rl = (True, rl)"
| "evaluate_conditions L mo ls ctx (c # cs) rl =
     (case evaluate_condition L mo ls ctx c rl of
        (False, rl1) \<Rightarrow> (False, rl1)
      | (True, rl1) \<Rightarrow> evaluate_conditions L mo ls ctx cs rl1)"
| "evaluate_any L mo ls ctx [] rl = (False, rl)"
| "evaluate_any L mo ls ctx (c # cs) rl =
     (case evaluate_condition L mo ls ctx c rl of
        (True, rl1) \<Rightarrow> (True, rl1)
      | (False, rl1) \<Rightarrow> evaluate_any L mo ls ctx cs rl1)"

fun execute_action :: "action_config \<Rightarrow> evaluation_result" where
  "execute_action AcAccept = EvAccept"
| "execute_action AcDrop = EvDrop"
| "execute_action (AcReject st reason) = EvReject st reason"
| "execute_action (AcLog lvl msg None) = EvContinue"
| "execute_action (AcLog lvl msg (Some a)) = execute_action a"
| "execute_action AcQuarantine = EvQuarantine"
| "execute_action (AcModify src dst cont pre app) = EvModify src dst cont"
| "execute_action (AcMark k v) = EvContinue"
| "execute_action _ = EvContinue"

fun policy_result :: "policy \<Rightarrow> evaluation_result" where
  "policy_result PAccept = EvAccept"
| "policy_result PDrop = EvDrop"
| "policy_result PReject = EvReject 8 None"

text \<open>The rules of a chain up to the first match, with its counter incremented.\<close>

fun evaluate_rules ::
  "engine_lib \<Rightarrow> moment \<Rightarrow> list_map \<Rightarrow> evaluation_context \<Rightarrow> compiled_rule list \<Rightarrow> rate_map \<Rightarrow>
   evaluation_result option \<times> compiled_rule list \<times> rate_map" where
  "evaluate_rules L mo ls ctx [] rl = (None, [], rl)"
| "evaluate_rules L mo ls ctx (r # rs) rl =
     (if \<not> ur_enabled r then (case evaluate_rules L mo ls ctx rs rl of (x, rs', rl') \<Rightarrow> (x, r # rs', rl'))
      else
        case evaluate_conditions L mo ls ctx (ur_conditions r) rl of
          (True, rl1) \<Rightarrow> (Some (execute_action (ur_action r)), r \<lparr> ur_counter := ur_counter r + 1 \<rparr> # rs, rl1)
        | (False, rl1) \<Rightarrow> (case evaluate_rules L mo ls ctx rs rl1 of (x, rs', rl') \<Rightarrow> (x, r # rs', rl')))"

definition evaluate_chain ::
  "engine_lib \<Rightarrow> moment \<Rightarrow> list_map \<Rightarrow> evaluation_context \<Rightarrow> compiled_chain \<Rightarrow> rate_map \<Rightarrow>
   evaluation_result \<times> compiled_chain \<times> rate_map" where
  "evaluate_chain L mo ls ctx c rl =
     (case evaluate_rules L mo ls ctx (uc_rules c) rl of
        (x, rs, rl') \<Rightarrow> ((case x of Some r \<Rightarrow> r | None \<Rightarrow> policy_result (uc_policy c)), c \<lparr> uc_rules := rs \<rparr>, rl'))"

fun evaluate_chains ::
  "engine_lib \<Rightarrow> moment \<Rightarrow> list_map \<Rightarrow> evaluation_context \<Rightarrow> compiled_chain list \<Rightarrow> rate_map \<Rightarrow>
   evaluation_result option \<times> compiled_chain list \<times> rate_map" where
  "evaluate_chains L mo ls ctx [] rl = (None, [], rl)"
| "evaluate_chains L mo ls ctx (c # cs) rl =
     (if uc_chain_type c \<noteq> ChainInput
      then (case evaluate_chains L mo ls ctx cs rl of (x, cs', rl') \<Rightarrow> (x, c # cs', rl'))
      else
        case evaluate_chain L mo ls ctx c rl of
          (r, c', rl1) \<Rightarrow>
            if result_is_terminal r then (Some r, c' # cs, rl1)
            else (case evaluate_chains L mo ls ctx cs rl1 of (x, cs', rl') \<Rightarrow> (x, c' # cs', rl')))"

definition firewall_evaluate ::
  "engine_lib \<Rightarrow> moment \<Rightarrow> evaluation_context \<Rightarrow> compiled_firewall \<Rightarrow> evaluation_result \<times> compiled_firewall" where
  "firewall_evaluate L mo ctx fw =
     (if \<not> uf_enabled fw then (EvAccept, fw)
      else
        case evaluate_chains L mo (uf_lists fw) ctx (uf_chains fw) (uf_rate_limits fw) of
          (x, cs, rl) \<Rightarrow>
            ((case x of Some r \<Rightarrow> r | None \<Rightarrow> policy_result (uf_default_policy fw)),
             fw \<lparr> uf_chains := cs, uf_rate_limits := rl \<rparr>))"

record firewall_stats =
  us_enabled :: bool
  us_chains :: nat
  us_rules :: nat
  us_lists :: nat
  us_rule_hits :: "(string, u64) alist"

definition get_stats :: "compiled_firewall \<Rightarrow> firewall_stats" where
  "get_stats fw =
     \<lparr> us_enabled = uf_enabled fw, us_chains = length (uf_chains fw),
       us_rules = sum_list (map (\<lambda>c. length (uc_rules c)) (uf_chains fw)), us_lists = length (uf_lists fw),
       us_rule_hits = fold (\<lambda>r m. case ur_name r of None \<Rightarrow> m | Some n \<Rightarrow> AList.update n (ur_counter r) m)
         (concat (map uc_rules (uf_chains fw))) [] \<rparr>"

section \<open>Direct interpretation of the configuration\<close>

text \<open>What a configured condition means, without compiling it; rate conditions, which count, and plugin
  conditions, which do not compile, are left out.\<close>

definition opt_holds :: "('a \<Rightarrow> bool) \<Rightarrow> 'a option \<Rightarrow> bool" where
  "opt_holds P x = (case x of None \<Rightarrow> False | Some v \<Rightarrow> P v)"

definition string_holds :: "engine_lib \<Rightarrow> list_map \<Rightarrow> string_matcher_config \<Rightarrow> string \<Rightarrow> bool" where
  "string_holds L ls c v =
     apply_negate (smc_negate c)
       (case smc_match_type c of
          SmExact \<Rightarrow> opt_holds (\<lambda>p. v = p) (smc_value c)
        | SmPrefix \<Rightarrow> opt_holds (starts_with v) (smc_value c)
        | SmSuffix \<Rightarrow> opt_holds (ends_with v) (smc_value c)
        | SmContains \<Rightarrow> opt_holds (contains_str v) (smc_value c)
        | SmRegex \<Rightarrow> opt_holds (\<lambda>p. re_is_match (el_regex L) p v) (smc_pattern c)
        | SmList \<Rightarrow> opt_holds (\<lambda>l. in_list ls l v) (smc_list c))"

definition content_holds :: "engine_lib \<Rightarrow> list_map \<Rightarrow> content_matcher_config \<Rightarrow> string \<Rightarrow> bool" where
  "content_holds L ls c v =
     (let fold_case = (if cmc_case_insensitive c then el_lower L else (\<lambda>x. x)) in
      apply_negate (cmc_negate c)
        (case cmc_match_type c of
           CmContains \<Rightarrow> opt_holds (\<lambda>p. contains_str (fold_case v) (fold_case p)) (cmc_value c)
         | CmExact \<Rightarrow> opt_holds (\<lambda>p. fold_case v = fold_case p) (cmc_value c)
         | CmRegex \<Rightarrow> opt_holds
             (\<lambda>p. re_is_match (el_regex L) (if cmc_case_insensitive c then ''(?i)'' @ p else p) v) (cmc_pattern c)
         | CmKeywords \<Rightarrow> opt_holds
             (\<lambda>l. opt_holds (list_ex (\<lambda>kw. contains_str (fold_case v) (fold_case kw))) (map_of ls l)) (cmc_list c)))"

definition ip_holds :: "engine_lib \<Rightarrow> list_map \<Rightarrow> ip_matcher_config \<Rightarrow> ip \<Rightarrow> bool" where
  "ip_holds L ls c v =
     apply_negate (imc_negate c)
       (case imc_match_type c of
          ImExact \<Rightarrow> opt_holds (\<lambda>t. opt_holds (\<lambda>a. v = a) (el_parse_ip L t)) (imc_value c)
        | ImCidr \<Rightarrow> opt_holds (\<lambda>t. opt_holds (\<lambda>net. el_net_contains L net v) (el_parse_net L t)) (imc_value c)
        | ImList \<Rightarrow> opt_holds (\<lambda>l. in_list ls l v) (imc_list c))"

fun condition_holds :: "engine_lib \<Rightarrow> moment \<Rightarrow> list_map \<Rightarrow> evaluation_context \<Rightarrow> condition_config \<Rightarrow> bool" where
  "condition_holds L mo ls ctx (CfSource m) = string_holds L ls m (ec_source ctx)"
| "condition_holds L mo ls ctx (CfDestination m) = string_holds L ls m (ec_destination ctx)"
| "condition_holds L mo ls ctx (CfSenderId m) = opt_holds (string_holds L ls m) (ec_sender_id ctx)"
| "condition_holds L mo ls ctx (CfSystemId m) = string_holds L ls m (ec_system_id ctx)"
| "condition_holds L mo ls ctx (CfContent m) = content_holds L ls m (ec_content ctx)"
| "condition_holds L mo ls ctx (CfContentLength mn mx n) = apply_negate n (length_in_range mn mx (ec_content_length ctx))"
| "condition_holds L mo ls ctx (CfEsmClass v msk) = esm_class_matches v msk (ec_esm_class ctx)"
| "condition_holds L mo ls ctx (CfProtocolId v) = (ec_protocol_id ctx = v)"
| "condition_holds L mo ls ctx (CfDataCoding v) = (ec_data_coding ctx = v)"
| "condition_holds L mo ls ctx (CfClientIp m) = opt_holds (ip_holds L ls m) (ec_client_ip ctx)"
| "condition_holds L mo ls ctx (CfTlsEnabled v) = (ec_tls_enabled ctx = v)"
| "condition_holds L mo ls ctx (CfRate k w t) = False"
| "condition_holds L mo ls ctx (CfTime st en tz) =
     (case (parse_time st, parse_time en) of
        (Inr (sh, sm), Inr (eh, em)) \<Rightarrow> check_time mo sh sm eh em
      | _ \<Rightarrow> False)"
| "condition_holds L mo ls ctx (CfDayOfWeek ds) = (mo_weekday mo \<in> set ds)"
| "condition_holds L mo ls ctx (CfNot c) = (\<not> condition_holds L mo ls ctx c)"
| "condition_holds L mo ls ctx (CfAnd cs) = list_all (condition_holds L mo ls ctx) cs"
| "condition_holds L mo ls ctx (CfOr cs) = list_ex (condition_holds L mo ls ctx) cs"
| "condition_holds L mo ls ctx (CfPlugin p) = False"

fun rate_free :: "condition_config \<Rightarrow> bool" where
  "rate_free (CfRate k w t) = False"
| "rate_free (CfNot c) = rate_free c"
| "rate_free (CfAnd cs) = list_all rate_free cs"
| "rate_free (CfOr cs) = list_all rate_free cs"
| "rate_free _ = True"

definition rule_fires :: "engine_lib \<Rightarrow> moment \<Rightarrow> list_map \<Rightarrow> evaluation_context \<Rightarrow> rule_config \<Rightarrow> bool" where
  "rule_fires L mo ls ctx r = (rc_enabled r \<and> list_all (condition_holds L mo ls ctx) (rc_conditions r))"

text \<open>A chain gives the action of its first rule that fires, else its policy; the verdict is the first
  decision among the input chains in order of priority, else the default policy.\<close>

definition chain_verdict :: "engine_lib \<Rightarrow> moment \<Rightarrow> list_map \<Rightarrow> evaluation_context \<Rightarrow> chain_config \<Rightarrow> evaluation_result" where
  "chain_verdict L mo ls ctx c =
     (case find (rule_fires L mo ls ctx) (cc_rules c) of
        Some r \<Rightarrow> execute_action (rc_action r)
      | None \<Rightarrow> policy_result (cc_policy c))"

definition config_verdict :: "engine_lib \<Rightarrow> moment \<Rightarrow> list_map \<Rightarrow> evaluation_context \<Rightarrow> firewall_config \<Rightarrow> evaluation_result" where
  "config_verdict L mo ls ctx cfg =
     (if \<not> fg_enabled cfg then EvAccept
      else
        case find result_is_terminal
               (map (chain_verdict L mo ls ctx)
                 (filter (\<lambda>c. cc_chain_type c = ChainInput) (sort_key cc_priority (fg_chains cfg)))) of
          Some r \<Rightarrow> r
        | None \<Rightarrow> policy_result (fg_default_policy cfg))"

definition config_rate_free :: "firewall_config \<Rightarrow> bool" where
  "config_rate_free cfg = (\<forall>c \<in> set (fg_chains cfg). \<forall>r \<in> set (cc_rules c). list_all rate_free (rc_conditions r))"

section \<open>Correctness of compilation\<close>

named_theorems fw_compile

lemma and_then_Inr [simp]: "and_then r f = Inr y \<longleftrightarrow> (\<exists>x. r = Inr x \<and> f x = Inr y)"
  by (cases r) (simp_all add: and_then_def)

lemma require_Inr [simp]: "require msg x = Inr v \<longleftrightarrow> x = Some v"
  by (cases x) (simp_all add: require_def)

lemma regex_new_Inr [simp]: "regex_new L p = Inr r \<longleftrightarrow> re_valid (el_regex L) p \<and> r = p"
  by (auto simp: regex_new_def)

lemma compiled_string [fw_compile]:
  "compile_string_matcher L m = Inr x \<Longrightarrow> match_string L ls x v = string_holds L ls m v"
  by (cases "smc_match_type m") (auto simp: compile_string_matcher_def string_holds_def opt_holds_def Let_def)

lemma compiled_content [fw_compile]:
  "compile_content_matcher L m = Inr x \<Longrightarrow> match_content L ls x v = content_holds L ls m v"
  by (cases "cmc_match_type m"; cases "cmc_case_insensitive m")
     (auto simp: compile_content_matcher_def content_holds_def opt_holds_def Let_def split: option.splits)

lemma compiled_ip [fw_compile]:
  "compile_ip_matcher L m = Inr x \<Longrightarrow> match_ip L ls x v = ip_holds L ls m v"
  by (cases "imc_match_type m") (auto simp: compile_ip_matcher_def ip_holds_def opt_holds_def Let_def)

lemma compiled_condition:
  "compile_condition L c = Inr x \<Longrightarrow> rate_free c \<Longrightarrow>
     evaluate_condition L mo ls ctx x rl = (condition_holds L mo ls ctx c, rl)"
  "compile_conditions L cs = Inr xs \<Longrightarrow> list_all rate_free cs \<Longrightarrow>
     evaluate_conditions L mo ls ctx xs rl = (list_all (condition_holds L mo ls ctx) cs, rl) \<and>
     evaluate_any L mo ls ctx xs rl = (list_ex (condition_holds L mo ls ctx) cs, rl)"
proof (induction L c and L cs arbitrary: x and xs rule: compile_condition_compile_conditions.induct)
qed (auto simp: fw_compile opt_holds_def split: option.splits bool.splits)

text \<open>The compiled chains stand for the configured ones; only the counters move.\<close>

definition rule_of :: "engine_lib \<Rightarrow> rule_config \<Rightarrow> compiled_rule \<Rightarrow> bool" where
  "rule_of L r u =
     (compile_conditions L (rc_conditions r) = Inr (ur_conditions u) \<and> ur_enabled u = rc_enabled r \<and> ur_action u = rc_action r)"

definition chain_of :: "engine_lib \<Rightarrow> chain_config \<Rightarrow> compiled_chain \<Rightarrow> bool" where
  "chain_of L c u =
     (uc_chain_type u = cc_chain_type c \<and> uc_priority u = cc_priority c \<and> uc_policy u = cc_policy c \<and>
      list_all2 (rule_of L) (cc_rules c) (uc_rules u))"

definition engine_of :: "engine_lib \<Rightarrow> firewall_config \<Rightarrow> compiled_firewall \<Rightarrow> bool" where
  "engine_of L cfg fw =
     (uf_enabled fw = fg_enabled cfg \<and> uf_default_policy fw = fg_default_policy cfg \<and>
      list_all2 (chain_of L) (sort_key cc_priority (fg_chains cfg)) (uf_chains fw))"

lemma try_map_Inr: "try_map f xs = Inr ys \<longleftrightarrow> list_all2 (\<lambda>x y. f x = Inr y) xs ys"
  by (induction xs arbitrary: ys) (auto simp: list_all2_Cons1)

lemma compile_rule_of: "compile_rule L r = Inr u \<Longrightarrow> rule_of L r u"
  by (auto simp: compile_rule_def rule_of_def)

lemma compile_chain_of: "compile_chain L c = Inr u \<Longrightarrow> chain_of L c u"
  by (auto simp: compile_chain_def chain_of_def try_map_Inr intro: list_all2_mono compile_rule_of)

lemma list_all2_insort:
  "list_all2 R xs ys \<Longrightarrow> R x y \<Longrightarrow> (\<And>a b. R a b \<Longrightarrow> f a = g b) \<Longrightarrow> list_all2 R (insort_key f x xs) (insort_key g y ys)"
  by (induction xs ys rule: list_all2_induct) auto

lemma list_all2_sort:
  "list_all2 R xs ys \<Longrightarrow> (\<And>a b. R a b \<Longrightarrow> f a = g b) \<Longrightarrow> list_all2 R (sort_key f xs) (sort_key g ys)"
  by (induction xs ys rule: list_all2_induct) (auto simp: sort_key_def intro: list_all2_insort)

lemma engine_of_compiled:
  assumes "firewall_from_config L cfg = Inr fw"
  shows "engine_of L cfg fw"
proof -
  obtain cs where cs: "list_all2 (\<lambda>x y. compile_chain L x = Inr y) (fg_chains cfg) cs"
    "uf_chains fw = sort_key uc_priority cs" "uf_enabled fw = fg_enabled cfg" "uf_default_policy fw = fg_default_policy cfg"
    using assms by (auto simp: firewall_from_config_def try_map_Inr)
  have "list_all2 (chain_of L) (fg_chains cfg) cs" using cs(1) by (rule list_all2_mono) (rule compile_chain_of)
  then have "list_all2 (chain_of L) (sort_key cc_priority (fg_chains cfg)) (uf_chains fw)"
    unfolding cs(2) by (rule list_all2_sort) (simp add: chain_of_def)
  with cs show ?thesis by (simp add: engine_of_def)
qed

text \<open>Evaluation and list loading keep the correspondence.\<close>

lemma evaluate_rules_of:
  assumes "list_all2 (rule_of L) rs us"
  shows "list_all2 (rule_of L) rs (fst (snd (evaluate_rules L mo ls ctx us rl)))"
  using assms
proof (induction rs us arbitrary: rl rule: list_all2_induct)
  case (Cons r rs u us)
  obtain b rl1 where e: "evaluate_conditions L mo ls ctx (ur_conditions u) rl = (b, rl1)" by (metis prod.exhaust)
  have "rule_of L r (u\<lparr>ur_counter := ur_counter u + 1\<rparr>)" using Cons(1) by (simp add: rule_of_def)
  then show ?case
    using Cons.IH [of rl] Cons.IH [of rl1] Cons(1,2) e by (cases b) (auto split: prod.splits)
qed simp

lemma evaluate_chain_of:
  "chain_of L c u \<Longrightarrow> chain_of L c (fst (snd (evaluate_chain L mo ls ctx u rl)))"
  using evaluate_rules_of [of L "cc_rules c" "uc_rules u" mo ls ctx rl]
  by (auto simp: chain_of_def evaluate_chain_def split: prod.splits)

lemma evaluate_chains_of:
  assumes "list_all2 (chain_of L) cs us"
  shows "list_all2 (chain_of L) cs (fst (snd (evaluate_chains L mo ls ctx us rl)))"
  using assms
proof (induction cs us arbitrary: rl rule: list_all2_induct)
  case (Cons c cs u us)
  obtain r u' rl1 where e: "evaluate_chain L mo ls ctx u rl = (r, u', rl1)" by (metis prod_cases3)
  have "chain_of L c u'" using evaluate_chain_of [OF Cons(1), of mo ls ctx rl] e by simp
  then show ?case using Cons.IH [of rl] Cons.IH [of rl1] Cons(1,2) e by (auto split: prod.splits)
qed simp

lemma firewall_evaluate_of: "engine_of L cfg fw \<Longrightarrow> engine_of L cfg (snd (firewall_evaluate L mo ctx fw))"
  using evaluate_chains_of [of L "sort_key cc_priority (fg_chains cfg)" "uf_chains fw" mo "uf_lists fw" ctx
    "uf_rate_limits fw"]
  by (auto simp: engine_of_def firewall_evaluate_def split: prod.splits)

lemma load_list_of: "engine_of L cfg fw \<Longrightarrow> engine_of L cfg (load_list name es fw)"
  by (simp add: engine_of_def load_list_def)

text \<open>The verdict of corresponding chains.\<close>

lemma evaluate_rules_verdict:
  assumes "list_all2 (rule_of L) rs us" "\<forall>r \<in> set rs. list_all rate_free (rc_conditions r)"
  shows "fst (evaluate_rules L mo ls ctx us rl) =
           map_option (\<lambda>r. execute_action (rc_action r)) (find (rule_fires L mo ls ctx) rs) \<and>
         snd (snd (evaluate_rules L mo ls ctx us rl)) = rl"
  using assms
proof (induction rs us rule: list_all2_induct)
  case (Cons r rs u us)
  then have c: "compile_conditions L (rc_conditions r) = Inr (ur_conditions u)" "list_all rate_free (rc_conditions r)"
    by (simp_all add: rule_of_def)
  show ?case
    using Cons compiled_condition(2) [OF c, of mo ls ctx rl]
    by (auto simp: rule_of_def rule_fires_def split: prod.splits bool.splits)
qed simp

lemma evaluate_chain_verdict:
  assumes "chain_of L c u" "\<forall>r \<in> set (cc_rules c). list_all rate_free (rc_conditions r)"
  shows "fst (evaluate_chain L mo ls ctx u rl) = chain_verdict L mo ls ctx c \<and>
         snd (snd (evaluate_chain L mo ls ctx u rl)) = rl"
  using evaluate_rules_verdict [of L "cc_rules c" "uc_rules u" mo ls ctx rl] assms
  by (auto simp: chain_of_def evaluate_chain_def chain_verdict_def split: prod.splits option.splits)

lemma evaluate_chains_verdict:
  assumes "list_all2 (chain_of L) cs us" "\<forall>c \<in> set cs. \<forall>r \<in> set (cc_rules c). list_all rate_free (rc_conditions r)"
  shows "fst (evaluate_chains L mo ls ctx us rl) =
           find result_is_terminal
             (map (chain_verdict L mo ls ctx) (filter (\<lambda>c. cc_chain_type c = ChainInput) cs))"
  using assms
proof (induction cs us rule: list_all2_induct)
  case (Cons c cs u us)
  have v: "fst (evaluate_chain L mo ls ctx u rl) = chain_verdict L mo ls ctx c"
    "snd (snd (evaluate_chain L mo ls ctx u rl)) = rl"
    using evaluate_chain_verdict [OF Cons(1), of mo ls ctx rl] Cons.prems by simp_all
  have "uc_chain_type u = cc_chain_type c" using Cons(1) by (simp add: chain_of_def)
  then show ?case using v Cons.IH Cons.prems by (auto split: prod.splits)
qed simp

text \<open>The engine as it runs: compiled once, then evaluations and list loads in any order.\<close>

inductive engine_reachable :: "engine_lib \<Rightarrow> firewall_config \<Rightarrow> compiled_firewall \<Rightarrow> bool" for L cfg where
  compiled: "firewall_from_config L cfg = Inr fw \<Longrightarrow> engine_reachable L cfg fw"
| evaluated: "engine_reachable L cfg fw \<Longrightarrow> engine_reachable L cfg (snd (firewall_evaluate L mo ctx fw))"
| loaded: "engine_reachable L cfg fw \<Longrightarrow> engine_reachable L cfg (load_list name es fw)"

lemma engine_of_reachable: "engine_reachable L cfg fw \<Longrightarrow> engine_of L cfg fw"
  by (induction rule: engine_reachable.induct) (auto intro: engine_of_compiled firewall_evaluate_of load_list_of)

lemma engine_verdict:
  assumes "engine_reachable L cfg fw" and "config_rate_free cfg"
  shows "fst (firewall_evaluate L mo ctx fw) = config_verdict L mo (uf_lists fw) ctx cfg"
proof -
  have e: "engine_of L cfg fw" using assms(1) by (rule engine_of_reachable)
  have "fst (evaluate_chains L mo (uf_lists fw) ctx (uf_chains fw) (uf_rate_limits fw)) =
          find result_is_terminal (map (chain_verdict L mo (uf_lists fw) ctx)
            (filter (\<lambda>c. cc_chain_type c = ChainInput) (sort_key cc_priority (fg_chains cfg))))"
    using e assms(2) by (intro evaluate_chains_verdict) (auto simp: engine_of_def config_rate_free_def)
  with e show ?thesis
    by (auto simp: engine_of_def config_verdict_def firewall_evaluate_def split: prod.splits option.splits)
qed


text \<open>A blacklist and a weekend rule; the library parses nothing and lower-cases nothing.\<close>

definition sample_lib :: engine_lib where
  "sample_lib = \<lparr> el_regex = \<lparr> re_valid = (\<lambda>_. False), re_is_match = (\<lambda>_ _. False) \<rparr>, el_lower = (\<lambda>s. s),
     el_parse_ip = (\<lambda>_. None), el_parse_net = (\<lambda>_. None), el_net_contains = (\<lambda>_ _. False) \<rparr>"

definition sample_config :: firewall_config where
  "sample_config = \<lparr> fg_enabled = True, fg_default_policy = PAccept, fg_lists = [], fg_chains =
     [\<lparr> cc_name = ''weekend'', cc_chain_type = ChainInput, cc_priority = 5, cc_policy = PAccept, cc_rules =
         [\<lparr> rc_name = None, rc_enabled = True, rc_conditions = [CfDayOfWeek [0, 6]], rc_action = AcDrop \<rparr>] \<rparr>,
      \<lparr> cc_name = ''lists'', cc_chain_type = ChainInput, cc_priority = 1, cc_policy = PReject, cc_rules =
         [\<lparr> rc_name = None, rc_enabled = True, rc_conditions =
              [CfSource \<lparr> smc_match_type = SmList, smc_value = None, smc_pattern = None, smc_list = Some ''bad'',
                         smc_negate = False \<rparr>], rc_action = AcQuarantine \<rparr>] \<rparr>] \<rparr>"

definition sample_context :: evaluation_context where
  "sample_context = evaluation_context_new 0 ''evil'' ''b'' ''c'' ''d''"

definition sample_moment :: moment where
  "sample_moment = \<lparr> mo_now = 0, mo_weekday = 0, mo_hour = 12, mo_minute = 0 \<rparr>"

lemma sample_reachable:
  "engine_reachable sample_lib sample_config
     (load_list ''bad'' [''evil''] (projr (firewall_from_config sample_lib sample_config)))"
proof -
  have "\<exists>fw. firewall_from_config sample_lib sample_config = Inr fw"
    by (simp add: firewall_from_config_def sample_config_def compile_chain_def compile_rule_def
      compile_string_matcher_def and_then_def require_def)
  then have "engine_reachable sample_lib sample_config (projr (firewall_from_config sample_lib sample_config))"
    by (auto intro: engine_reachable.compiled)
  then show ?thesis by (rule engine_reachable.loaded)
qed


section \<open>When a configuration compiles\<close>

definition time_ok :: "string \<Rightarrow> bool" where
  "time_ok s = (\<exists>h m. s = h @ '':'' @ m \<and> CHR '':'' \<notin> set h \<union> set m \<and> parse_u32 h \<noteq> None \<and> parse_u32 m \<noteq> None)"

definition string_matcher_ok :: "engine_lib \<Rightarrow> string_matcher_config \<Rightarrow> bool" where
  "string_matcher_ok L c =
     (if smc_match_type c = SmList then smc_list c \<noteq> None
      else if smc_match_type c = SmRegex then (\<exists>p. smc_pattern c = Some p \<and> re_valid (el_regex L) p)
      else smc_value c \<noteq> None)"

definition content_matcher_ok :: "engine_lib \<Rightarrow> content_matcher_config \<Rightarrow> bool" where
  "content_matcher_ok L c =
     (if cmc_match_type c = CmKeywords then cmc_list c \<noteq> None
      else if cmc_match_type c = CmRegex
      then (\<exists>p. cmc_pattern c = Some p \<and> re_valid (el_regex L) (if cmc_case_insensitive c then ''(?i)'' @ p else p))
      else cmc_value c \<noteq> None)"

definition ip_matcher_ok :: "engine_lib \<Rightarrow> ip_matcher_config \<Rightarrow> bool" where
  "ip_matcher_ok L c =
     (if imc_match_type c = ImList then imc_list c \<noteq> None
      else \<exists>t. imc_value c = Some t \<and>
             (if imc_match_type c = ImCidr then el_parse_net L t \<noteq> None else el_parse_ip L t \<noteq> None))"

fun condition_ok :: "engine_lib \<Rightarrow> condition_config \<Rightarrow> bool" where
  "condition_ok L (CfSource m) = string_matcher_ok L m"
| "condition_ok L (CfDestination m) = string_matcher_ok L m"
| "condition_ok L (CfSenderId m) = string_matcher_ok L m"
| "condition_ok L (CfSystemId m) = string_matcher_ok L m"
| "condition_ok L (CfContent m) = content_matcher_ok L m"
| "condition_ok L (CfClientIp m) = ip_matcher_ok L m"
| "condition_ok L (CfTime st en tz) = (time_ok st \<and> time_ok en)"
| "condition_ok L (CfNot c) = condition_ok L c"
| "condition_ok L (CfAnd cs) = list_all (condition_ok L) cs"
| "condition_ok L (CfOr cs) = list_all (condition_ok L) cs"
| "condition_ok L (CfPlugin p) = False"
| "condition_ok L _ = True"

definition compiles :: "'e + 'a \<Rightarrow> bool" where
  "compiles r = (\<exists>x. r = Inr x)"

lemma compiles_simps [simp]:
  "compiles (Inr x)" "\<not> compiles (Inl e)"
  "compiles (and_then r (\<lambda>x. Inr (f x))) \<longleftrightarrow> compiles r"
  "compiles (require msg v) \<longleftrightarrow> v \<noteq> None"
  "compiles (regex_new L p) \<longleftrightarrow> re_valid (el_regex L) p"
  by (auto simp: compiles_def)

lemma compiles_and_then: "compiles (and_then r f) \<longleftrightarrow> (\<exists>x. r = Inr x \<and> compiles (f x))"
  by (auto simp: compiles_def)

lemma compiles_matchers [simp]:
  "compiles (compile_string_matcher L s) \<longleftrightarrow> string_matcher_ok L s"
  "compiles (compile_content_matcher L c) \<longleftrightarrow> content_matcher_ok L c"
  "compiles (compile_ip_matcher L i) \<longleftrightarrow> ip_matcher_ok L i"
  subgoal by (cases "smc_match_type s")
      (auto simp: compile_string_matcher_def string_matcher_ok_def Let_def compiles_and_then)
  subgoal by (cases "cmc_match_type c")
      (auto simp: compile_content_matcher_def content_matcher_ok_def Let_def compiles_and_then)
  subgoal by (cases "imc_match_type i")
      (auto simp: compile_ip_matcher_def ip_matcher_ok_def Let_def compiles_and_then)
  done

lemma compiles_parse_time [simp]: "compiles (parse_time s) \<longleftrightarrow> time_ok s"
proof
  assume "compiles (parse_time s)"
  then obtain h m where "split_on CHR '':'' s = [h, m]" "parse_u32 h \<noteq> None" "parse_u32 m \<noteq> None"
    by (auto simp: parse_time_def compiles_and_then split: list.splits)
  then show "time_ok s" by (auto simp: split_on_pair time_ok_def)
next
  assume "time_ok s"
  then obtain h m where "split_on CHR '':'' s = [h, m]" "parse_u32 h \<noteq> None" "parse_u32 m \<noteq> None"
    by (auto simp: split_on_pair time_ok_def)
  then show "compiles (parse_time s)" by (auto simp: parse_time_def compiles_and_then)
qed

lemma compiles_condition [simp]:
  "compiles (compile_condition L c) \<longleftrightarrow> condition_ok L c"
  "compiles (compile_conditions L cs) \<longleftrightarrow> list_all (condition_ok L) cs"
proof (induction L c and L cs rule: compile_condition_compile_conditions.induct)
  case (13 L st en tz)
  have "compiles (parse_time st) \<longleftrightarrow> (\<exists>x. parse_time st = Inr x)" "compiles (parse_time en) \<longleftrightarrow> (\<exists>x. parse_time en = Inr x)"
    by (simp_all add: compiles_def)
  then show ?case by (simp add: compiles_and_then split_def flip: compiles_parse_time)
next
  case (20 L c cs)
  then show ?case by (cases "compile_condition L c") (simp_all add: compiles_and_then)
qed simp_all

lemma compiles_try_map [simp]: "compiles (try_map f xs) \<longleftrightarrow> list_all (\<lambda>x. compiles (f x)) xs"
  by (induction xs) (auto simp: compiles_and_then compiles_def)

definition config_ok :: "engine_lib \<Rightarrow> firewall_config \<Rightarrow> bool" where
  "config_ok L cfg = (\<forall>c \<in> set (fg_chains cfg). \<forall>r \<in> set (cc_rules c). \<forall>cond \<in> set (rc_conditions r). condition_ok L cond)"

text \<open>C32: A configuration compiles exactly when every condition of every rule is well formed, those of disabled
  rules and of chains that are never evaluated included: the matcher has the parameter its kind needs, regular
  expressions, addresses and times parse, and no plugin condition is used.\<close>

theorem compiles_iff_well_formed: "(\<exists>fw. firewall_from_config L cfg = Inr fw) = config_ok L cfg"
proof -
  have "compiles (firewall_from_config L cfg) = config_ok L cfg"
    by (simp add: firewall_from_config_def compile_chain_def compile_rule_def config_ok_def list_all_iff)
  then show ?thesis by (simp add: compiles_def)
qed

section \<open>Rate conditions and verdicts\<close>

text \<open>Successive checks of one key.\<close>

primrec rate_checks ::
  "instant list \<Rightarrow> rate_key \<Rightarrow> duration \<Rightarrow> u64 \<Rightarrow> evaluation_context \<Rightarrow> rate_map \<Rightarrow> bool list" where
  "rate_checks [] key w t ctx rl = []"
| "rate_checks (now # ts) key w t ctx rl =
     (case check_rate_limit now key w t ctx rl of (b, rl') \<Rightarrow> b # rate_checks ts key w t ctx rl')"

lemma rate_checks_counted:
  assumes "map_of rl (rate_key_name key @ '':'' @ get_rate_key ctx key) = Some st"
    and "\<forall>t \<in> set ts. elapsed t (rs_window_start st) < w"
    and "unat (rs_count st) + length ts < 2 ^ 64" and "i < length ts"
  shows "rate_checks ts key w thr ctx rl ! i \<longleftrightarrow> unat thr \<le> unat (rs_count st) + i"
  using assms
proof (induction ts arbitrary: rl st i)
  case (Cons t ts)
  define st' where "st' = st \<lparr>rs_count := rs_count st + 1\<rparr>"
  have u: "unat (rs_count st') = Suc (unat (rs_count st))"
    using Cons.prems(3) by (simp add: st'_def unat_word_ariths)
  have hit: "count_hit t w st = st'" using Cons.prems(2) by (simp add: count_hit_def st'_def)
  have step: "check_rate_limit t key w thr ctx rl =
      (thr < rs_count st', AList.update (rate_key_name key @ '':'' @ get_rate_key ctx key) st' rl)"
    using Cons.prems(1) hit by (simp add: check_rate_limit_def)
  show ?case
  proof (cases i)
    case 0
    then show ?thesis using u step by (simp add: word_less_nat_alt less_Suc_eq_le)
  next
    case (Suc j)
    have "rate_checks ts key w thr ctx (AList.update (rate_key_name key @ '':'' @ get_rate_key ctx key) st' rl) ! j
        \<longleftrightarrow> unat thr \<le> unat (rs_count st') + j"
      by (rule Cons.IH) (use Cons.prems Suc u in \<open>auto simp: update_conv' st'_def\<close>)
    then show ?thesis using Suc u step by simp
  qed
qed simp

text \<open>From the first check of a key on, the checks that fall into one window are limited exactly after the first
  \<open>threshold\<close> of them: the condition neither fires early nor lets one more pass.\<close>

theorem rate_condition_exact:
  assumes "map_of rl (rate_key_name key @ '':'' @ get_rate_key ctx key) = None"
    and "\<forall>t \<in> set ts. elapsed t t0 < w" and "length ts < 2 ^ 64 - 1" and "i < length (t0 # ts)"
  shows "rate_checks (t0 # ts) key w thr ctx rl ! i \<longleftrightarrow> unat thr \<le> i"
proof -
  define k where "k = rate_key_name key @ '':'' @ get_rate_key ctx key"
  have c: "check_rate_limit t0 key w thr ctx rl = (thr < 1, AList.update k \<lparr> rs_count = 1, rs_window_start = t0 \<rparr> rl)"
    using assms(1) by (simp add: check_rate_limit_def count_hit_def k_def Let_def word_less_nat_alt unat_eq_zero)
  show ?thesis
  proof (cases i)
    case 0
    then show ?thesis using c by (simp add: word_less_nat_alt)
  next
    case (Suc j)
    have "rate_checks ts key w thr ctx (AList.update k \<lparr> rs_count = 1, rs_window_start = t0 \<rparr> rl) ! j
        \<longleftrightarrow> unat thr \<le> unat (1 :: u64) + j"
      using assms Suc rate_checks_counted [of "AList.update k \<lparr> rs_count = 1, rs_window_start = t0 \<rparr> rl" key ctx
          "\<lparr> rs_count = 1, rs_window_start = t0 \<rparr>" ts w j thr]
      by (simp add: k_def update_conv')
    then show ?thesis using Suc c by simp
  qed
qed

theorem rate_condition_exact_witness:
  "rate_checks [0, 3, 9] KeySource 10 2 (evaluation_context_new 0 ''a'' ''b'' ''c'' ''d'') [] ! 2 \<longleftrightarrow> unat (2 :: u64) \<le> 2"
  by (rule rate_condition_exact) (simp_all add: elapsed_def)

text \<open>Every evaluation ends in a decision: accept, drop, reject or quarantine, never \<open>Continue\<close> or \<open>Modify\<close>.\<close>

lemma policy_result_terminal [simp]: "result_is_terminal (policy_result p)"
  by (cases p) simp_all

lemma evaluate_chains_terminal: "fst (evaluate_chains L mo ls ctx cs rl) = Some r \<Longrightarrow> result_is_terminal r"
proof (induction cs arbitrary: rl)
  case (Cons c cs)
  obtain x c' rl1 where e: "evaluate_chain L mo ls ctx c rl = (x, c', rl1)" by (metis prod_cases3)
  show ?case using Cons.prems Cons.IH [of rl] Cons.IH [of rl1] e by (auto split: if_splits prod.splits)
qed simp

theorem verdict_terminal: "result_is_terminal (fst (firewall_evaluate L mo ctx fw))"
  using evaluate_chains_terminal [of L mo "uf_lists fw" ctx "uf_chains fw" "uf_rate_limits fw"]
  by (auto simp: firewall_evaluate_def split: prod.splits option.splits)

text \<open>The first input chain always decides unless the rule that fires in it has a non-terminal action: its policy
  is terminal, so later chains and the default policy are reached only past such an action.\<close>

theorem first_input_chain_decides:
  assumes "engine_reachable L cfg fw" "config_rate_free cfg" "fg_enabled cfg"
    and "filter (\<lambda>c. cc_chain_type c = ChainInput) (sort_key cc_priority (fg_chains cfg)) = c # cs"
    and "\<forall>r \<in> set (cc_rules c). rule_fires L mo (uf_lists fw) ctx r \<longrightarrow> result_is_terminal (execute_action (rc_action r))"
  shows "fst (firewall_evaluate L mo ctx fw) = chain_verdict L mo (uf_lists fw) ctx c"
proof -
  have "result_is_terminal (chain_verdict L mo (uf_lists fw) ctx c)"
    using assms(5) by (auto simp: chain_verdict_def find_Some_iff split: option.splits)
  then show ?thesis using engine_verdict [OF assms(1,2), of mo ctx] assms(3,4) by (simp add: config_verdict_def)
qed

end
