(* ===== verification/Circuit.thy ===== *)
theory Circuit
  imports Prelude
begin

text \<open>
  The circuit breaker of an upstream endpoint (\<^verbatim>\<open>src/src/cluster/circuit_breaker.rs\<close>): its
  three states, the atomic counters at their width and every transition.  The lemmas show that the
  state, the opening time and the counters stay consistent, characterise exactly which sequences of
  results open the breaker, and that an open breaker blocks until its timeout.
\<close>

section \<open>State\<close>

datatype circuit_state = Closed | Open | HalfOpen

record circuit_breaker_config =
  cc_failure_threshold :: u32
  cc_success_threshold :: u32
  cc_open_timeout :: duration
  cc_window_size :: duration

definition circuit_breaker_config_default :: circuit_breaker_config where
  "circuit_breaker_config_default =
     \<lparr> cc_failure_threshold = 5, cc_success_threshold = 2,
       cc_open_timeout = from_secs 30, cc_window_size = from_secs 60 \<rparr>"

record circuit_breaker =
  cb_config :: circuit_breaker_config
  cb_state :: circuit_state
  cb_failures :: u32
  cb_successes :: u32
  cb_opened_at :: "instant option"
  cb_open_count :: u64

definition cb_with_config :: "circuit_breaker_config \<Rightarrow> circuit_breaker" where
  "cb_with_config cfg =
     \<lparr> cb_config = cfg, cb_state = Closed, cb_failures = 0, cb_successes = 0,
       cb_opened_at = None, cb_open_count = 0 \<rparr>"

definition cb_is_closed :: "circuit_breaker \<Rightarrow> bool" where
  "cb_is_closed b = (cb_state b = Closed)"

definition cb_is_open :: "circuit_breaker \<Rightarrow> bool" where
  "cb_is_open b = (cb_state b = Open)"

section \<open>Transitions\<close>

definition should_attempt_reset :: "instant \<Rightarrow> circuit_breaker \<Rightarrow> bool" where
  "should_attempt_reset now b =
     (case cb_opened_at b of
        None \<Rightarrow> False
      | Some t \<Rightarrow> cc_open_timeout (cb_config b) \<le> elapsed now t)"

definition transition_to_closed :: "circuit_breaker \<Rightarrow> circuit_breaker" where
  "transition_to_closed b =
     (if cb_state b \<noteq> Closed then
        b \<lparr> cb_state := Closed, cb_failures := 0, cb_successes := 0, cb_opened_at := None \<rparr>
      else b)"

definition transition_to_open :: "instant \<Rightarrow> circuit_breaker \<Rightarrow> circuit_breaker" where
  "transition_to_open now b =
     (if cb_state b \<noteq> Open then
        b \<lparr> cb_state := Open, cb_successes := 0, cb_opened_at := Some now,
            cb_open_count := cb_open_count b + 1 \<rparr>
      else b)"

definition transition_to_half_open :: "circuit_breaker \<Rightarrow> circuit_breaker" where
  "transition_to_half_open b =
     (if cb_state b = Open then b \<lparr> cb_state := HalfOpen, cb_successes := 0 \<rparr> else b)"

definition allow_request :: "instant \<Rightarrow> circuit_breaker \<Rightarrow> bool \<times> circuit_breaker" where
  "allow_request now b =
     (case cb_state b of
        Closed \<Rightarrow> (True, b)
      | HalfOpen \<Rightarrow> (True, b)
      | Open \<Rightarrow> if should_attempt_reset now b then (True, transition_to_half_open b) else (False, b))"

definition cb_record_success :: "circuit_breaker \<Rightarrow> circuit_breaker" where
  "cb_record_success b =
     (case cb_state b of
        Closed \<Rightarrow> b \<lparr> cb_failures := 0 \<rparr>
      | HalfOpen \<Rightarrow>
          (let n = cb_successes b + 1;
               b1 = b \<lparr> cb_successes := n \<rparr>
           in if cc_success_threshold (cb_config b) \<le> n then transition_to_closed b1 else b1)
      | Open \<Rightarrow> b)"

definition cb_record_failure :: "instant \<Rightarrow> circuit_breaker \<Rightarrow> circuit_breaker" where
  "cb_record_failure now b =
     (case cb_state b of
        Closed \<Rightarrow>
          (let n = cb_failures b + 1;
               b1 = b \<lparr> cb_failures := n \<rparr>
           in if cc_failure_threshold (cb_config b) \<le> n then transition_to_open now b1 else b1)
      | HalfOpen \<Rightarrow> transition_to_open now b
      | Open \<Rightarrow> b)"

section \<open>Consistency of the breaker\<close>

inductive cb_step :: "circuit_breaker \<Rightarrow> circuit_breaker \<Rightarrow> bool" where
  ask: "cb_step b (snd (allow_request now b))"
| succeed: "cb_step b (cb_record_success b)"
| fail: "cb_step b (cb_record_failure now b)"

inductive cb_reachable :: "circuit_breaker_config \<Rightarrow> circuit_breaker \<Rightarrow> bool" for cfg where
  cb_init: "cb_reachable cfg (cb_with_config cfg)"
| cb_next: "cb_reachable cfg b \<Longrightarrow> cb_step b b' \<Longrightarrow> cb_reachable cfg b'"

inductive_cases cb_stepE: "cb_step b b'"

definition cb_inv :: "circuit_breaker \<Rightarrow> bool" where
  "cb_inv b =
     ((cb_opened_at b = None) = (cb_state b = Closed) \<and>
      (cb_state b = Closed \<longrightarrow> cb_failures b = 0 \<or> cb_failures b < cc_failure_threshold (cb_config b)) \<and>
      (cb_state b = HalfOpen \<longrightarrow> cb_successes b = 0 \<or> cb_successes b < cc_success_threshold (cb_config b)) \<and>
      (cb_state b \<noteq> HalfOpen \<longrightarrow> cb_successes b = 0))"

named_theorems cb_ops

lemmas cb_op_defs [cb_ops] =
  allow_request_def cb_record_success_def cb_record_failure_def transition_to_closed_def
  transition_to_open_def transition_to_half_open_def Let_def

lemma cb_step_config: "cb_step b b' \<Longrightarrow> cb_config b' = cb_config b"
  by (auto elim!: cb_stepE simp: cb_ops split: circuit_state.splits if_splits)

lemma cb_step_inv:
  assumes "cb_step b b'" "cb_inv b"
  shows "cb_inv b'"
  using assms
  by (cases "cb_state b")
     (auto elim!: cb_stepE simp: cb_inv_def cb_ops not_le split: if_splits)

lemma cb_reachable_inv: "cb_reachable cfg b \<Longrightarrow> cb_inv b \<and> cb_config b = cfg"
proof (induction rule: cb_reachable.induct)
  case cb_init
  then show ?case by (simp add: cb_inv_def cb_with_config_def)
qed (auto simp: cb_step_inv cb_step_config)

text \<open>The only edges of the state machine are those of the diagram in the source.\<close>

definition cb_edge :: "circuit_state \<Rightarrow> circuit_state \<Rightarrow> bool" where
  "cb_edge a b = ((a, b) \<in> {(Closed, Closed), (Closed, Open), (Open, Open), (Open, HalfOpen),
                             (HalfOpen, HalfOpen), (HalfOpen, Open), (HalfOpen, Closed)})"

text \<open>C24: in every reachable state of the breaker an opening time is recorded exactly while it is not
  closed, the failure counter of a closed breaker is below its threshold, and the state only ever
  moves along the edges Closed to Open, Open to HalfOpen, HalfOpen to Closed or Open.\<close>

theorem breaker_invariant_and_edges:
  assumes "cb_reachable cfg b" "cb_step b b'"
  shows "cb_inv b' \<and> cb_config b' = cfg \<and> cb_edge (cb_state b) (cb_state b')"
proof -
  have "cb_edge (cb_state b) (cb_state b')"
    using assms(2)
    by (cases "cb_state b") (auto elim!: cb_stepE simp: cb_edge_def cb_ops split: if_splits)
  with assms cb_reachable_inv [OF assms(1)] show ?thesis by (simp add: cb_step_inv cb_step_config)
qed

theorem breaker_invariant_and_edges_witness:
  "cb_inv (cb_record_failure 3 (cb_with_config circuit_breaker_config_default)) \<and>
   cb_failures (cb_record_failure 3 (cb_with_config circuit_breaker_config_default)) = 1"
  using breaker_invariant_and_edges [OF cb_init [of circuit_breaker_config_default] cb_step.fail [of _ 3]]
  by (simp add: cb_record_failure_def cb_with_config_def circuit_breaker_config_default_def transition_to_open_def
      Let_def)

section \<open>When the breaker opens\<close>

text \<open>Feeding a list of results (\<^term>\<open>True\<close> for success) at given times.\<close>

definition feed :: "bool \<times> instant \<Rightarrow> circuit_breaker \<Rightarrow> circuit_breaker" where
  "feed r b = (if fst r then cb_record_success b else cb_record_failure (snd r) b)"

definition trailing_failures :: "bool list \<Rightarrow> nat" where
  "trailing_failures rs = length (takeWhile Not (rev rs))"

lemma trailing_failures_snoc [simp]:
  "trailing_failures (rs @ [r]) = (if r then 0 else Suc (trailing_failures rs))"
  by (simp add: trailing_failures_def)

lemma prefix_replicate_False: "prefix (replicate n False) xs \<longleftrightarrow> n \<le> length (takeWhile Not xs)"
proof (induction xs arbitrary: n)
  case (Cons x xs)
  then show ?case by (cases n) auto
qed (cases n; simp)

lemma suffix_replicate_False: "suffix (replicate n False) rs \<longleftrightarrow> n \<le> trailing_failures rs"
  by (simp add: suffix_to_prefix prefix_replicate_False trailing_failures_def)

lemma sublist_snoc:
  "sublist p (rs @ [r]) \<longleftrightarrow> sublist p rs \<or> suffix p (rs @ [r])"
proof -
  have "sublist p (rs @ [r]) \<longleftrightarrow> sublist (rev p) (r # rev rs)"
    by (metis rev.simps(2) rev_rev_ident sublist_rev)
  also have "\<dots> \<longleftrightarrow> prefix (rev p) (r # rev rs) \<or> sublist (rev p) (rev rs)"
    by (simp add: sublist_Cons_right)
  finally show ?thesis by (auto simp: suffix_to_prefix)
qed

definition opens :: "u32 \<Rightarrow> bool list \<Rightarrow> bool" where
  "opens thr rs = sublist (replicate (unat thr) False) rs"

lemma feed_inv:
  assumes "0 < cc_failure_threshold cfg"
  shows "let b = fold feed rs (cb_with_config cfg); thr = cc_failure_threshold cfg in
    cb_config b = cfg \<and>
    (if opens thr (map fst rs) then cb_state b = Open
     else cb_state b = Closed \<and> unat (cb_failures b) = trailing_failures (map fst rs) \<and>
          trailing_failures (map fst rs) < unat thr)"
proof (induction rs rule: rev_induct)
  case Nil
  have "0 < unat (cc_failure_threshold cfg)" using assms by (simp add: word_less_nat_alt)
  then show ?case by (simp add: opens_def cb_with_config_def trailing_failures_def)
next
  case (snoc r rs)
  define b where "b = fold feed rs (cb_with_config cfg)"
  have b1: "fold feed (rs @ [r]) (cb_with_config cfg) = feed r b" by (simp add: b_def)
  let ?thr = "cc_failure_threshold cfg" and ?k = "trailing_failures (map fst rs)"
  note IH = snoc.IH [folded b_def, unfolded Let_def]
  show ?case
  proof (cases "opens ?thr (map fst rs)")
    case True
    then have "cb_state b = Open" "opens ?thr (map fst (rs @ [r]))"
      using IH by (auto simp: opens_def sublist_snoc)
    then show ?thesis
      using IH unfolding b1 Let_def by (simp add: feed_def cb_record_success_def cb_record_failure_def)
  next
    case False
    have st: "cb_state b = Closed" "unat (cb_failures b) = ?k" "?k < unat ?thr" "cb_config b = cfg"
      using False IH by auto
    have o: "opens ?thr (map fst (rs @ [r])) = (\<not> fst r \<and> unat ?thr \<le> Suc ?k)"
      using False st(3)
      unfolding opens_def map_append list.map sublist_snoc suffix_replicate_False by auto
    have suc: "unat (cb_failures b + 1) = Suc ?k"
      using st(2,3) unat_Suc_below [of "cb_failures b" ?thr] by simp
    then have "(?thr \<le> cb_failures b + 1) = (unat ?thr \<le> Suc ?k)"
      by (simp add: word_le_nat_alt)
    with o st suc show ?thesis unfolding b1 Let_def
      by (cases "fst r")
         (simp_all add: feed_def cb_record_success_def cb_record_failure_def transition_to_open_def Let_def)
  qed
qed



section \<open>Blocking and recovery\<close>

text \<open>While the timeout runs, no sequence of calls lets a request through.\<close>

lemma open_blocks:
  assumes "cb_state b = Open" "cb_opened_at b = Some t" "elapsed now t < cc_open_timeout (cb_config b)"
  shows "allow_request now b = (False, b)"
  using assms by (auto simp: allow_request_def should_attempt_reset_def)

lemma half_open_success:
  assumes "cb_state b = HalfOpen"
  shows "cb_record_success b =
    (if cc_success_threshold (cb_config b) \<le> cb_successes b + 1
     then b \<lparr> cb_state := Closed, cb_failures := 0, cb_successes := 0, cb_opened_at := None \<rparr>
     else b \<lparr> cb_successes := cb_successes b + 1 \<rparr>)"
  using assms by (simp add: cb_record_success_def transition_to_closed_def Let_def)

lemma half_open_failure: "cb_state b = HalfOpen \<Longrightarrow> cb_state (cb_record_failure now b) = Open"
  by (simp add: cb_record_failure_def transition_to_open_def)

lemma half_open_successes:
  assumes "cb_state b = HalfOpen" "unat (cb_successes b) + n < unat (cc_success_threshold (cb_config b))"
  shows "cb_state ((cb_record_success ^^ n) b) = HalfOpen \<and>
    unat (cb_successes ((cb_record_success ^^ n) b)) = unat (cb_successes b) + n \<and>
    cb_config ((cb_record_success ^^ n) b) = cb_config b"
  using assms(2)
proof (induction n)
  case (Suc n)
  let ?c = "(cb_record_success ^^ n) b"
  have IH: "cb_state ?c = HalfOpen" "unat (cb_successes ?c) = unat (cb_successes b) + n"
    "cb_config ?c = cb_config b" using Suc by auto
  have s: "unat (cb_successes ?c + 1) = unat (cb_successes b) + Suc n"
    using IH(2) Suc.prems unat_Suc_below [of "cb_successes ?c" "cc_success_threshold (cb_config b)"] by simp
  then have "\<not> cc_success_threshold (cb_config b) \<le> cb_successes ?c + 1"
    using Suc.prems by (simp add: word_le_nat_alt)
  with IH s show ?case by (simp add: half_open_success)
qed (simp add: assms(1))

text \<open>recovery.  A reachable open breaker whose timeout has passed lets one request through and goes
  half-open; after \<^verbatim>\<open>success_threshold\<close> recorded successes it is closed again with all
  counters reset, and a failure at any earlier point reopens it.\<close>

theorem breaker_recovers:
  assumes "cb_reachable cfg b" "cb_state b = Open" "cb_opened_at b = Some t"
    and "0 < cc_open_timeout cfg" "t + int (cc_open_timeout cfg) \<le> now"
    and "0 < unat (cc_success_threshold cfg)"
  defines "b1 \<equiv> snd (allow_request now b)"
  shows "fst (allow_request now b) \<and> cb_state b1 = HalfOpen \<and>
    (let c = (cb_record_success ^^ unat (cc_success_threshold cfg)) b1 in
       cb_state c = Closed \<and> cb_failures c = 0 \<and> cb_successes c = 0 \<and> cb_opened_at c = None) \<and>
    (\<forall>n < unat (cc_success_threshold cfg).
       cb_state (cb_record_failure now' ((cb_record_success ^^ n) b1)) = Open)"
proof -
  have cfg: "cb_config b = cfg" using cb_reachable_inv [OF assms(1)] by simp
  have ar: "allow_request now b = (True, transition_to_half_open b)"
    using assms(2-5) cfg by (simp add: allow_request_def should_attempt_reset_def elapsed_ge_iff)
  then have b1: "cb_state b1 = HalfOpen" "cb_successes b1 = 0" "cb_config b1 = cfg"
    using assms(2) cfg by (simp_all add: b1_def transition_to_half_open_def)
  have half: "cb_state ((cb_record_success ^^ n) b1) = HalfOpen \<and>
      unat (cb_successes ((cb_record_success ^^ n) b1)) = n \<and> cb_config ((cb_record_success ^^ n) b1) = cfg"
    if "n < unat (cc_success_threshold cfg)" for n
    using half_open_successes [OF b1(1), of n] b1 that by simp
  obtain k where k: "unat (cc_success_threshold cfg) = Suc k" using assms(6) by (metis gr0_implies_Suc)
  let ?c = "(cb_record_success ^^ k) b1"
  have "unat (cb_successes ?c + 1) = Suc k"
    using half [of k] k unat_Suc_below [of "cb_successes ?c" "cc_success_threshold cfg"] by simp
  then have "cc_success_threshold cfg \<le> cb_successes ?c + 1" by (simp add: word_le_nat_alt k)
  with half [of k] k have c: "let c = cb_record_success ?c in
      cb_state c = Closed \<and> cb_failures c = 0 \<and> cb_successes c = 0 \<and> cb_opened_at c = None"
    by (simp add: half_open_success Let_def)
  have "cb_state (cb_record_failure now' ((cb_record_success ^^ n) b1)) = Open"
    if "n < unat (cc_success_threshold cfg)" for n
    using half [OF that] by (simp add: half_open_failure)
  with ar b1 c show ?thesis by (simp add: k)
qed

theorem breaker_recovers_witness:
  "cb_state (snd (allow_request 100 (cb_record_failure 3
     (cb_with_config \<lparr> cc_failure_threshold = 1, cc_success_threshold = 2, cc_open_timeout = 5,
                       cc_window_size = 9 \<rparr>)))) = HalfOpen"
proof -
  let ?cfg = "\<lparr> cc_failure_threshold = 1, cc_success_threshold = 2, cc_open_timeout = 5, cc_window_size = 9 \<rparr>"
  let ?b = "cb_record_failure 3 (cb_with_config ?cfg)"
  have r: "cb_reachable ?cfg ?b" by (rule cb_next [OF cb_init cb_step.fail])
  have "cb_state ?b = Open" "cb_opened_at ?b = Some 3"
    by (simp_all add: cb_record_failure_def cb_with_config_def transition_to_open_def Let_def)
  from breaker_recovers [OF r this, of 100] show ?thesis by simp
qed

end
