(* ===== verification/Endpoint.thy ===== *)
theory Endpoint
  imports Circuit
begin

text \<open>
  Upstream endpoints: health checking (\<^verbatim>\<open>src/src/cluster/health.rs\<close>), the connection pool
  (\<^verbatim>\<open>src/src/cluster/pool.rs\<close>) and the endpoint that combines them with the circuit breaker
  (\<^verbatim>\<open>src/src/cluster/endpoint.rs\<close>).  The SMPP client library is not part of the repository:
  the result of connecting is an argument of the operations that connect.
\<close>

section \<open>Health checks (cluster/health.rs)\<close>

datatype health_state = Healthy | Unhealthy string

record health_check_config =
  hc_interval :: duration
  hc_timeout :: duration
  hc_unhealthy_threshold :: u32
  hc_healthy_threshold :: u32

record health_checker =
  h_interval :: duration
  h_timeout :: duration
  h_unhealthy_threshold :: u32
  h_healthy_threshold :: u32
  h_consecutive_failures :: u32
  h_consecutive_successes :: u32

definition health_checker_new :: "health_check_config \<Rightarrow> health_checker" where
  "health_checker_new c =
     \<lparr> h_interval = hc_interval c, h_timeout = hc_timeout c,
       h_unhealthy_threshold = hc_unhealthy_threshold c,
       h_healthy_threshold = hc_healthy_threshold c,
       h_consecutive_failures = 0, h_consecutive_successes = 0 \<rparr>"

text \<open>What the SMPP client did within the timeout: \<open>None\<close> when the timeout struck, otherwise the
  error text or the connection state it reported and the outcome of closing it.\<close>

datatype client_probe = ConnectError string | NotConnected string | CloseError string | ProbeOk

definition health_check :: "client_probe option \<Rightarrow> health_state" where
  "health_check result =
     (case result of
        None \<Rightarrow> Unhealthy ''timeout''
      | Some ProbeOk \<Rightarrow> Healthy
      | Some (ConnectError e) \<Rightarrow> Unhealthy e
      | Some (NotConnected e) \<Rightarrow> Unhealthy e
      | Some (CloseError e) \<Rightarrow> Unhealthy e)"

definition health_record_success :: "health_checker \<Rightarrow> bool \<times> health_checker" where
  "health_record_success h =
     (let n = h_consecutive_successes h + 1
      in (h_healthy_threshold h \<le> n, h \<lparr> h_consecutive_failures := 0, h_consecutive_successes := n \<rparr>))"

definition health_record_failure :: "health_checker \<Rightarrow> bool \<times> health_checker" where
  "health_record_failure h =
     (let n = h_consecutive_failures h + 1
      in (h_unhealthy_threshold h \<le> n, h \<lparr> h_consecutive_successes := 0, h_consecutive_failures := n \<rparr>))"

section \<open>Connection pool (cluster/pool.rs)\<close>

text \<open>A client connection is identified by its creation number.  The semaphore is the number of free
  permits; \<^verbatim>\<open>acquire_owned\<close> with a timeout succeeds when a permit is free, and a release by
  another task while it waits is a release step before the acquisition.\<close>

type_synonym client = u64

record connection_pool =
  p_min_connections :: nat
  p_max_connections :: nat
  p_permits :: nat
  p_idle :: "client list"
  p_in_use :: nat
  p_created :: u64

definition pool_new :: "nat \<Rightarrow> nat \<Rightarrow> connection_pool" where
  "pool_new min_c max_c =
     \<lparr> p_min_connections = min_c, p_max_connections = max_c, p_permits = max_c, p_idle = [],
       p_in_use = 0, p_created = 0 \<rparr>"

text \<open>\<open>connect\<close> says whether \<^verbatim>\<open>Client::connect\<close> succeeds.\<close>

definition create_connection :: "bool \<Rightarrow> connection_pool \<Rightarrow> client option \<times> connection_pool" where
  "create_connection connect p =
     (if connect then (Some (p_created p), p \<lparr> p_created := p_created p + 1 \<rparr>) else (None, p))"

definition pool_get :: "bool \<Rightarrow> connection_pool \<Rightarrow> client option \<times> connection_pool" where
  "pool_get connect p =
     (if p_permits p = 0 then (None, p)
      else
        let p1 = p \<lparr> p_permits := p_permits p - 1 \<rparr> in
        case p_idle p1 of
          c # rest \<Rightarrow> (Some c, p1 \<lparr> p_idle := rest, p_in_use := p_in_use p1 + 1 \<rparr>)
        | [] \<Rightarrow>
            (case create_connection connect p1 of
               (Some c, p2) \<Rightarrow> (Some c, p2 \<lparr> p_in_use := p_in_use p2 + 1 \<rparr>)
             | (None, p2) \<Rightarrow> (None, p2 \<lparr> p_permits := p_permits p2 + 1 \<rparr>)))"

text \<open>Dropping a \<^verbatim>\<open>PooledConnection\<close>: the use counter goes down and the permit is released; the
  client itself is dropped with the guard.\<close>

definition pool_drop :: "connection_pool \<Rightarrow> connection_pool" where
  "pool_drop p = p \<lparr> p_in_use := p_in_use p - 1, p_permits := p_permits p + 1 \<rparr>"

definition pool_size :: "connection_pool \<Rightarrow> nat" where
  "pool_size p = p_max_connections p - p_permits p"

text \<open>\<^verbatim>\<open>warm\<close> creates up to \<open>min_connections\<close> idle clients and stops at the first failure; the
  list holds the outcomes of the connection attempts in order.\<close>

fun warm_loop :: "bool list \<Rightarrow> connection_pool \<Rightarrow> connection_pool" where
  "warm_loop [] p = p"
| "warm_loop (ok # oks) p =
     (case create_connection ok p of
        (Some c, p1) \<Rightarrow> warm_loop oks (p1 \<lparr> p_idle := p_idle p1 @ [c] \<rparr>)
      | (None, p1) \<Rightarrow> p1)"

definition pool_warm :: "bool list \<Rightarrow> connection_pool \<Rightarrow> connection_pool" where
  "pool_warm oks p = warm_loop (take (p_min_connections p) oks) p"

inductive pool_step :: "connection_pool \<Rightarrow> connection_pool \<Rightarrow> bool" where
  pget: "pool_step p (snd (pool_get connect p))"
| pdrop: "0 < p_in_use p \<Longrightarrow> pool_step p (pool_drop p)"
| pwarm: "pool_step p (pool_warm oks p)"

definition pool_inv :: "connection_pool \<Rightarrow> bool" where
  "pool_inv p = (p_permits p + p_in_use p = p_max_connections p)"

lemma warm_loop_frame:
  "p_permits (warm_loop oks p) = p_permits p \<and> p_in_use (warm_loop oks p) = p_in_use p \<and>
   p_max_connections (warm_loop oks p) = p_max_connections p"
  by (induction oks p rule: warm_loop.induct) (auto simp: create_connection_def)

lemma pool_step_inv: "pool_step p p' \<Longrightarrow> pool_inv p \<Longrightarrow> pool_inv p'"
proof (induction rule: pool_step.induct)
  case (pget p connect)
  then show ?case
    by (cases "p_idle p") (auto simp: pool_inv_def pool_get_def create_connection_def Let_def)
qed (auto simp: pool_inv_def pool_drop_def pool_warm_def warm_loop_frame)

lemma pool_step_max: "pool_step p p' \<Longrightarrow> p_max_connections p' = p_max_connections p"
proof (induction rule: pool_step.induct)
  case (pget p connect)
  then show ?case by (cases "p_idle p") (auto simp: pool_get_def create_connection_def Let_def)
qed (auto simp: pool_drop_def pool_warm_def warm_loop_frame)

text \<open>the pool never hands out more connections than configured.  In every state reached by
  acquisitions, drops and warming, the permits and the connections in use add up to
  \<^verbatim>\<open>max_connections\<close>, so \<^verbatim>\<open>size()\<close> is the number in use and an acquisition at the
  limit fails.\<close>

theorem pool_bounded:
  assumes "pool_step\<^sup>*\<^sup>* (pool_new min_c max_c) p"
  shows "p_in_use p \<le> max_c \<and> pool_size p = p_in_use p \<and>
         (p_in_use p = max_c \<longrightarrow> pool_get connect p = (None, p))"
proof -
  have "pool_inv p \<and> p_max_connections p = max_c"
    using assms
    by (induction rule: rtranclp_induct)
       (auto simp: pool_step_inv pool_step_max, auto simp: pool_inv_def pool_new_def)
  then show ?thesis by (auto simp: pool_inv_def pool_size_def pool_get_def)
qed

theorem pool_bounded_witness:
  "pool_get True (snd (pool_get True (pool_new 0 1))) = (None, snd (pool_get True (pool_new 0 1)))"
proof -
  have "pool_step\<^sup>*\<^sup>* (pool_new 0 1) (snd (pool_get True (pool_new 0 1)))"
    by (rule r_into_rtranclp, rule pget)
  from pool_bounded [OF this, of True] show ?thesis
    by (simp add: pool_get_def pool_new_def create_connection_def)
qed

text \<open>Acquisitions and drops only, without warming.\<close>

inductive unwarmed_step :: "connection_pool \<Rightarrow> connection_pool \<Rightarrow> bool" where
  uget: "unwarmed_step p (snd (pool_get connect p))"
| udrop: "0 < p_in_use p \<Longrightarrow> unwarmed_step p (pool_drop p)"

inductive_cases unwarmed_stepE: "unwarmed_step p p'"

lemma unwarmed_idle: "unwarmed_step\<^sup>*\<^sup>* (pool_new min_c max_c) p \<Longrightarrow> p_idle p = []"
proof (induction rule: rtranclp_induct)
  case (step p p')
  then show ?case
    by (auto elim!: unwarmed_stepE simp: pool_get_def pool_drop_def create_connection_def Let_def)
qed (simp add: pool_new_def)

text \<open>connections are not reused.  A pool that was not warmed has no idle client after any sequence
  of acquisitions and drops, so every successful acquisition opens a new upstream connection; the
  comment in \<^verbatim>\<open>Drop for PooledConnection\<close> promises the opposite.\<close>

theorem pool_never_reuses:
  assumes "unwarmed_step\<^sup>*\<^sup>* (pool_new min_c max_c) p" "pool_get connect p = (Some c, p')"
  shows "connect \<and> c = p_created p \<and> p_created p' = p_created p + 1"
  using unwarmed_idle [OF assms(1)] assms(2)
  by (auto simp: pool_get_def create_connection_def Let_def split: if_splits)

theorem pool_never_reuses_witness:
  "fst (pool_get True (pool_drop (snd (pool_get True (pool_new 0 1))))) = Some 1"
proof -
  let ?p1 = "snd (pool_get True (pool_new 0 1))" and ?p2 = "pool_drop (snd (pool_get True (pool_new 0 1)))"
  have u: "0 < p_in_use ?p1" by (simp add: pool_get_def pool_new_def create_connection_def)
  have "unwarmed_step\<^sup>*\<^sup>* (pool_new 0 1) ?p2"
    by (rule converse_rtranclp_into_rtranclp, rule uget, rule r_into_rtranclp, rule udrop, rule u)
  moreover have "pool_get True ?p2 = (Some 1, snd (pool_get True ?p2))"
    by (simp add: pool_get_def pool_new_def pool_drop_def create_connection_def)
  ultimately show ?thesis using pool_never_reuses by (metis fst_conv)
qed

section \<open>Endpoints (cluster/endpoint.rs)\<close>

datatype endpoint_state = EpHealthy | EpUnhealthy | EpDraining

record endpoint =
  ep_cluster :: string
  ep_index :: nat
  ep_address :: string
  ep_system_id :: string
  ep_password :: string
  ep_weight :: u32
  ep_pool :: connection_pool
  ep_health :: health_checker
  ep_breaker :: circuit_breaker
  ep_state :: endpoint_state
  ep_active_connections :: usize
  ep_total_requests :: usize
  ep_healthy :: bool

record tls_config =
  tl_cert :: string
  tl_key :: string
  tl_ca :: "string option"
  tl_require_client_cert :: bool

record endpoint_config =
  ec_address :: string
  ec_system_id :: string
  ec_password :: string
  ec_system_type :: string
  ec_weight :: u32
  ec_tls :: "tls_config option"

record pool_config =
  pc_min_connections :: nat
  pc_max_connections :: nat
  pc_acquire_timeout :: duration

definition endpoint_new ::
  "string \<Rightarrow> nat \<Rightarrow> endpoint_config \<Rightarrow> pool_config \<Rightarrow> health_check_config \<Rightarrow> endpoint" where
  "endpoint_new cluster index c pc hc =
     \<lparr> ep_cluster = cluster, ep_index = index, ep_address = ec_address c,
       ep_system_id = ec_system_id c, ep_password = ec_password c, ep_weight = ec_weight c,
       ep_pool = pool_new (pc_min_connections pc) (pc_max_connections pc), ep_health = health_checker_new hc,
       ep_breaker = cb_with_config circuit_breaker_config_default, ep_state = EpHealthy,
       ep_active_connections = 0, ep_total_requests = 0, ep_healthy = True \<rparr>"

definition is_healthy :: "endpoint \<Rightarrow> bool" where
  "is_healthy e = (ep_healthy e \<and> cb_is_closed (ep_breaker e))"

definition set_state :: "endpoint_state \<Rightarrow> endpoint \<Rightarrow> endpoint" where
  "set_state st e =
     (if ep_state e \<noteq> st then e \<lparr> ep_state := st, ep_healthy := (st = EpHealthy) \<rparr> else e)"

definition get_connection :: "instant \<Rightarrow> bool \<Rightarrow> endpoint \<Rightarrow> client option \<times> endpoint" where
  "get_connection now connect e =
     (if \<not> is_healthy e then (None, e)
      else
        case allow_request now (ep_breaker e) of
          (False, b) \<Rightarrow> (None, e \<lparr> ep_breaker := b \<rparr>)
        | (True, b) \<Rightarrow>
            (case pool_get connect (ep_pool e) of
               (Some c, p) \<Rightarrow>
                 (Some c, e \<lparr> ep_breaker := b, ep_pool := p,
                              ep_active_connections := ep_active_connections e + 1,
                              ep_total_requests := ep_total_requests e + 1 \<rparr>)
             | (None, p) \<Rightarrow>
                 (None, e \<lparr> ep_breaker := cb_record_failure now b, ep_pool := p \<rparr>)))"

definition return_connection :: "instant \<Rightarrow> bool \<Rightarrow> endpoint \<Rightarrow> endpoint" where
  "return_connection now success e =
     e \<lparr> ep_active_connections := ep_active_connections e - 1,
         ep_breaker := (if success then cb_record_success (ep_breaker e)
                        else cb_record_failure now (ep_breaker e)) \<rparr>"

definition perform_health_check :: "client_probe option \<Rightarrow> endpoint \<Rightarrow> endpoint" where
  "perform_health_check probe e =
     (case health_check probe of
        Healthy \<Rightarrow>
          (let (mark, h) = health_record_success (ep_health e);
               e1 = e \<lparr> ep_health := h \<rparr>
           in if mark then set_state EpHealthy e1 else e1)
      | Unhealthy _ \<Rightarrow>
          (let (mark, h) = health_record_failure (ep_health e);
               e1 = e \<lparr> ep_health := h \<rparr>
           in if mark then set_state EpUnhealthy e1 else e1))"

text \<open>Every way the program changes an endpoint: a connection request, a returned connection, a
  dropped guard, a health check.\<close>

inductive ep_step :: "endpoint \<Rightarrow> endpoint \<Rightarrow> bool" where
  ep_get: "ep_step e (snd (get_connection now connect e))"
| ep_return: "ep_step e (return_connection now ok e)"
| ep_drop: "0 < p_in_use (ep_pool e) \<Longrightarrow> ep_step e (e \<lparr> ep_pool := pool_drop (ep_pool e) \<rparr>)"
| ep_check: "ep_step e (perform_health_check probe e)"

inductive_cases ep_stepE: "ep_step e e'"

definition ep_flag_ok :: "endpoint \<Rightarrow> bool" where
  "ep_flag_ok e = (ep_healthy e = (ep_state e = EpHealthy))"

lemma breaker_set_state [simp]: "ep_breaker (set_state st e) = ep_breaker e"
  by (simp add: set_state_def)

lemma breaker_check [simp]: "ep_breaker (perform_health_check probe e) = ep_breaker e"
  by (simp add: perform_health_check_def Let_def case_prod_unfold split: health_state.splits)

lemma get_connection_unhealthy: "\<not> is_healthy e \<Longrightarrow> get_connection now connect e = (None, e)"
  by (simp add: get_connection_def)

lemma get_connection_frame [simp]:
  "ep_state (snd (get_connection now connect e)) = ep_state e"
  "ep_healthy (snd (get_connection now connect e)) = ep_healthy e"
  "ep_address (snd (get_connection now connect e)) = ep_address e"
  by (auto simp: get_connection_def split: bool.splits prod.splits option.splits)

lemma flag_set_state: "ep_flag_ok e \<Longrightarrow> ep_flag_ok (set_state st e)"
  by (simp add: ep_flag_ok_def set_state_def)

lemma flag_health: "ep_flag_ok (e \<lparr> ep_health := h \<rparr>) = ep_flag_ok e"
  by (simp add: ep_flag_ok_def)

lemma flag_step: "ep_step e e' \<Longrightarrow> ep_flag_ok e \<Longrightarrow> ep_flag_ok e'"
proof (induction rule: ep_step.induct)
  case (ep_check e probe)
  then show ?case
    by (simp add: perform_health_check_def Let_def case_prod_unfold flag_set_state flag_health
        split: health_state.splits)
qed (simp_all add: ep_flag_ok_def return_connection_def)

lemma open_unhealthy: "cb_state (ep_breaker e) = Open \<Longrightarrow> \<not> is_healthy e"
  by (simp add: is_healthy_def cb_is_closed_def)

lemma open_step:
  assumes "ep_step e e'" "cb_state (ep_breaker e) = Open"
  shows "cb_state (ep_breaker e') = Open"
  using assms open_unhealthy [OF assms(2)]
  by (auto elim!: ep_stepE simp: get_connection_unhealthy return_connection_def
      cb_record_success_def cb_record_failure_def)

text \<open>an open circuit breaker of an endpoint never closes again.  \<^verbatim>\<open>get_connection\<close> returns early
  because \<^verbatim>\<open>is_healthy\<close> demands a closed breaker, so \<^verbatim>\<open>allow_request\<close>, the only way to
  half-open, is never called: whatever happens afterwards (requests, returns, drops and successful
  health checks, at any time) the endpoint stays unhealthy and hands out no connection.\<close>

theorem open_breaker_is_permanent:
  assumes "cb_state (ep_breaker e) = Open" "ep_step\<^sup>*\<^sup>* e e'"
  shows "cb_state (ep_breaker e') = Open \<and> \<not> is_healthy e' \<and> get_connection now connect e' = (None, e')"
proof -
  have "cb_state (ep_breaker e') = Open"
    using assms(2,1) by (induction rule: rtranclp_induct) (auto intro: open_step)
  then show ?thesis by (simp add: open_unhealthy get_connection_unhealthy)
qed

definition sample_endpoint :: endpoint where
  "sample_endpoint =
     endpoint_new ''c1'' 0 \<lparr> ec_address = ''smsc:2775'', ec_system_id = ''u'', ec_password = ''p'',
         ec_system_type = [], ec_weight = 1, ec_tls = None \<rparr>
       \<lparr> pc_min_connections = 0, pc_max_connections = 4, pc_acquire_timeout = 1 \<rparr> \<lparr> hc_interval = 1, hc_timeout = 1, hc_unhealthy_threshold = 1, hc_healthy_threshold = 1 \<rparr>"

theorem open_breaker_is_permanent_witness:
  "let e = sample_endpoint \<lparr> ep_breaker := (cb_with_config circuit_breaker_config_default) \<lparr> cb_state := Open \<rparr> \<rparr>
   in fst (get_connection 100000000000000 True (perform_health_check (Some ProbeOk) e)) = None"
proof -
  let ?e = "sample_endpoint \<lparr> ep_breaker := (cb_with_config circuit_breaker_config_default) \<lparr> cb_state := Open \<rparr> \<rparr>"
  have "ep_step\<^sup>*\<^sup>* ?e (perform_health_check (Some ProbeOk) ?e)" by (rule r_into_rtranclp, rule ep_check)
  from open_breaker_is_permanent [OF _ this, of 100000000000000 True] show ?thesis by simp
qed

text \<open>health checking.  The fast health flag always mirrors the endpoint state, and a reachable
  endpoint reports itself healthy exactly when its last state is healthy and its breaker is closed.\<close>

theorem health_flag_mirrors_state:
  assumes "ep_step\<^sup>*\<^sup>* (endpoint_new cl i c pc hc) e"
  shows "is_healthy e \<longleftrightarrow> ep_state e = EpHealthy \<and> cb_state (ep_breaker e) = Closed"
proof -
  have "ep_flag_ok e"
    using assms
  proof (induction rule: rtranclp_induct)
    case base
    then show ?case by (simp add: ep_flag_ok_def endpoint_new_def)
  qed (rule flag_step)
  then show ?thesis by (simp add: ep_flag_ok_def is_healthy_def cb_is_closed_def)
qed

theorem health_flag_mirrors_state_witness:
  "\<not> is_healthy (perform_health_check None sample_endpoint)"
proof -
  have "ep_step\<^sup>*\<^sup>* sample_endpoint (perform_health_check None sample_endpoint)"
    by (rule r_into_rtranclp, rule ep_check)
  moreover have "ep_state (perform_health_check None sample_endpoint) = EpUnhealthy"
    by (simp add: sample_endpoint_def endpoint_new_def perform_health_check_def health_check_def
        health_record_failure_def health_checker_new_def set_state_def)
  ultimately show ?thesis using health_flag_mirrors_state unfolding sample_endpoint_def by fastforce
qed

end
