(* ===== verification/Mock.thy ===== *)
theory Mock
  imports Smpp Decimal
begin

text \<open>
  The mock message centre (\<^verbatim>\<open>src/src/cluster/mock.rs\<close>) and its configuration
  (\<^verbatim>\<open>src/src/config/types.rs\<close>).  A 32-bit float is its bit pattern; the only arithmetic on it,
  \<^verbatim>\<open>(error_rate * 100.0) as u64\<close>, and the status table of the SMPP crate are arguments.

  The message ids are distinct, the counters add up, and the random mode is shown to stop
  answering: the counter that drives it only moves on a success.
\<close>

section \<open>Configuration\<close>

type_synonym f32 = "32 word"

datatype mock_response = MrSuccess | MrError u32 | MrRandom f32

record mock_config =
  mk_response :: mock_response
  mk_latency :: duration

section \<open>State and results\<close>

record mock_smsc =
  ms_response :: mock_response
  ms_latency :: duration
  ms_message_counter :: u64
  ms_request_count :: u64
  ms_success_count :: u64
  ms_error_count :: u64

datatype mock_result = MockSuccess string pdu | MockError status

definition mock_new :: "mock_config \<Rightarrow> mock_smsc" where
  "mock_new c =
     \<lparr> ms_response = mk_response c, ms_latency = mk_latency c, ms_message_counter = 1, ms_request_count = 0,
       ms_success_count = 0, ms_error_count = 0 \<rparr>"

definition mock_success :: mock_smsc where
  "mock_success =
     \<lparr> ms_response = MrSuccess, ms_latency = 0, ms_message_counter = 1, ms_request_count = 0,
       ms_success_count = 0, ms_error_count = 0 \<rparr>"

definition mock_error :: "u32 \<Rightarrow> mock_smsc" where
  "mock_error code =
     \<lparr> ms_response = MrError code, ms_latency = 0, ms_message_counter = 1, ms_request_count = 0,
       ms_success_count = 0, ms_error_count = 0 \<rparr>"

definition mock_random :: "f32 \<Rightarrow> mock_smsc" where
  "mock_random rate =
     \<lparr> ms_response = MrRandom rate, ms_latency = 0, ms_message_counter = 1, ms_request_count = 0,
       ms_success_count = 0, ms_error_count = 0 \<rparr>"

definition mock_with_latency :: "duration \<Rightarrow> mock_smsc \<Rightarrow> mock_smsc" where
  "mock_with_latency d m = m \<lparr> ms_latency := d \<rparr>"

text \<open>\<^verbatim>\<open>{:016X}\<close>: sixteen upper-case hexadecimal digits.\<close>

definition hex_digit :: "nat \<Rightarrow> char" where
  "hex_digit d = (if d < 10 then char_of (48 + d) else char_of (55 + d))"

fun show_hex :: "nat \<Rightarrow> nat \<Rightarrow> string" where
  "show_hex 0 n = []"
| "show_hex (Suc k) n = show_hex k (n div 16) @ [hex_digit (n mod 16)]"

definition next_message_id :: "mock_smsc \<Rightarrow> string \<times> mock_smsc" where
  "next_message_id m =
     (''MOCK'' @ show_hex 16 (unat (ms_message_counter m)), m \<lparr> ms_message_counter := ms_message_counter m + 1 \<rparr>)"

definition mock_answer_success :: "mock_smsc \<Rightarrow> mock_result \<times> mock_smsc" where
  "mock_answer_success m =
     (case next_message_id m of
        (i, m1) \<Rightarrow> (MockSuccess i (SubmitSmResp i), m1 \<lparr> ms_success_count := ms_success_count m1 + 1 \<rparr>))"

definition mock_answer_error :: "status \<Rightarrow> mock_smsc \<Rightarrow> mock_result \<times> mock_smsc" where
  "mock_answer_error st m = (MockError st, m \<lparr> ms_error_count := ms_error_count m + 1 \<rparr>)"

definition mock_submit_sm ::
  "(u32 \<Rightarrow> status) \<Rightarrow> (f32 \<Rightarrow> u64) \<Rightarrow> mock_smsc \<Rightarrow> mock_result \<times> mock_smsc" where
  "mock_submit_sm status_from_u32 percent m0 =
     (let m = m0 \<lparr> ms_request_count := ms_request_count m0 + 1 \<rparr> in
      case ms_response m of
        MrSuccess \<Rightarrow> mock_answer_success m
      | MrError code \<Rightarrow> mock_answer_error (status_from_u32 code) m
      | MrRandom rate \<Rightarrow>
          if ms_message_counter m mod 100 < percent rate then mock_answer_error SystemError m
          else mock_answer_success m)"

fun mock_is_success :: "mock_result \<Rightarrow> bool" where
  "mock_is_success (MockSuccess _ _) = True"
| "mock_is_success (MockError _) = False"

fun mock_message_id :: "mock_result \<Rightarrow> string option" where
  "mock_message_id (MockSuccess i p) = Some i"
| "mock_message_id (MockError _) = None"

fun mock_status :: "mock_result \<Rightarrow> status" where
  "mock_status (MockSuccess _ _) = StOk"
| "mock_status (MockError st) = st"

section \<open>Message ids and counters\<close>

lemma hex_digit_inject: "a < 16 \<Longrightarrow> b < 16 \<Longrightarrow> hex_digit a = hex_digit b \<longleftrightarrow> a = b"
  by (auto simp: hex_digit_def split: if_splits)

lemma show_hex_length [simp]: "length (show_hex k n) = k"
  by (induction k arbitrary: n) simp_all

lemma show_hex_inject: "a < 16 ^ k \<Longrightarrow> b < 16 ^ k \<Longrightarrow> show_hex k a = show_hex k b \<longleftrightarrow> a = b"
proof (induction k arbitrary: a b)
  case (Suc k)
  have "a div 16 < 16 ^ k" "b div 16 < 16 ^ k"
    using Suc.prems by (simp_all add: less_mult_imp_div_less mult.commute)
  then have "show_hex (Suc k) a = show_hex (Suc k) b \<longleftrightarrow> a div 16 = b div 16 \<and> a mod 16 = b mod 16"
    by (simp add: Suc.IH hex_digit_inject)
  then show ?case by (metis div_mult_mod_eq)
qed simp

text \<open>The answers to a sequence of requests.\<close>

primrec mock_run ::
  "(u32 \<Rightarrow> status) \<Rightarrow> (f32 \<Rightarrow> u64) \<Rightarrow> nat \<Rightarrow> mock_smsc \<Rightarrow> mock_result list \<times> mock_smsc" where
  "mock_run sf pc 0 m = ([], m)"
| "mock_run sf pc (Suc n) m =
     (case mock_submit_sm sf pc m of (r, m1) \<Rightarrow> case mock_run sf pc n m1 of (rs, m2) \<Rightarrow> (r # rs, m2))"

lemmas mock_defs = mock_submit_sm_def mock_answer_success_def mock_answer_error_def next_message_id_def Let_def

lemma mock_counts_step:
  assumes "mock_submit_sm sf pc m = (r, m1)"
  shows "ms_request_count m1 = ms_request_count m + 1"
    and "ms_success_count m1 + ms_error_count m1 = ms_success_count m + ms_error_count m + 1"
    and "ms_message_counter m1 = ms_message_counter m + (if mock_is_success r then 1 else 0)"
    and "ms_response m1 = ms_response m"
  using assms by (auto simp: mock_defs split: mock_response.splits if_splits)

lemma mock_success_id:
  "mock_submit_sm sf pc m = (MockSuccess i p, m1) \<Longrightarrow> i = ''MOCK'' @ show_hex 16 (unat (ms_message_counter m))"
  by (auto simp: mock_defs split: mock_response.splits if_splits)

lemma mock_ids_from:
  assumes "mock_run sf pc n m = (rs, m')" "unat (ms_message_counter m) + n < 2 ^ 64"
  shows "List.map_filter mock_message_id rs =
    map (\<lambda>k. ''MOCK'' @ show_hex 16 k)
      [unat (ms_message_counter m) ..< unat (ms_message_counter m) + length (filter mock_is_success rs)]"
  using assms
proof (induction n arbitrary: m rs)
  case (Suc n)
  obtain r m1 rs1 where s: "mock_submit_sm sf pc m = (r, m1)" "mock_run sf pc n m1 = (rs1, m')" "rs = r # rs1"
    using Suc.prems(1) by (auto split: prod.splits)
  show ?case
  proof (cases r)
    case (MockSuccess i p)
    have c: "unat (ms_message_counter m1) = Suc (unat (ms_message_counter m))"
      using mock_counts_step(3) [OF s(1)] MockSuccess Suc.prems(2) by (simp add: unat_word_ariths)
    have "i = ''MOCK'' @ show_hex 16 (unat (ms_message_counter m))"
      using mock_success_id s(1) MockSuccess by blast
    then show ?thesis
      using Suc.IH [OF s(2)] Suc.prems(2) c s(3) MockSuccess
      by (simp add: List.map_filter_simps upt_conv_Cons del: upt_Suc)
  next
    case (MockError st)
    then have "ms_message_counter m1 = ms_message_counter m" using mock_counts_step(3) [OF s(1)] by simp
    then show ?thesis using Suc.IH [OF s(2)] Suc.prems(2) s(3) MockError by (simp add: List.map_filter_simps)
  qed
qed (simp add: List.map_filter_def)

lemma hex_id_inject: "inj_on (\<lambda>k. ''MOCK'' @ show_hex 16 k) {..<2 ^ 64}"
  by (auto simp: inj_on_def show_hex_inject)

text \<open>The message ids a mock hands out are pairwise different, as long as its counter does not wrap.\<close>

theorem mock_ids_distinct:
  assumes "mock_run sf pc n (mock_new c) = (rs, m')" "n < 2 ^ 64 - 1"
  shows "distinct (List.map_filter mock_message_id rs)"
proof -
  have l: "length (filter mock_is_success rs) \<le> n"
  proof -
    have "length rs = n" if "mock_run sf pc n m = (rs, m')" for n m rs
      using that by (induction n arbitrary: m rs) (auto split: prod.splits)
    then show ?thesis using assms(1) length_filter_le [of mock_is_success rs] by simp
  qed
  have "List.map_filter mock_message_id rs =
      map (\<lambda>k. ''MOCK'' @ show_hex 16 k) [1 ..< 1 + length (filter mock_is_success rs)]"
    using mock_ids_from [OF assms(1)] assms(2) by (simp add: mock_new_def)
  moreover have "inj_on (\<lambda>k. ''MOCK'' @ show_hex 16 k) (set [1 ..< 1 + length (filter mock_is_success rs)])"
    by (rule inj_on_subset [OF hex_id_inject]) (use l assms(2) in auto)
  ultimately show ?thesis by (simp add: distinct_map)
qed

text \<open>Once the random mode answers with an error it never succeeds again: the counter only moves on a success.\<close>

lemma mock_random_stuck:
  assumes "ms_response m = MrRandom rate" "ms_message_counter m mod 100 < pc rate"
    and "mock_run sf pc n m = (rs, m')"
  shows "\<forall>r \<in> set rs. r = MockError SystemError"
  using assms
proof (induction n arbitrary: m rs)
  case (Suc n)
  obtain r m1 rs1 where s: "mock_submit_sm sf pc m = (r, m1)" "mock_run sf pc n m1 = (rs1, m')" "rs = r # rs1"
    using Suc.prems(3) by (auto split: prod.splits)
  then have "r = MockError SystemError" "ms_message_counter m1 = ms_message_counter m" "ms_response m1 = MrRandom rate"
    using Suc.prems(1,2) by (auto simp: mock_defs)
  then show ?case using Suc.IH [of m1 rs1] Suc.prems s by auto
qed auto

text \<open>With an error rate of two percent or more (and not above a hundred) the random mock answers every request
  with a system error.\<close>

theorem mock_random_always_fails:
  assumes "2 \<le> pc rate" "mock_run sf pc n (mock_random rate) = (rs, m')"
  shows "\<forall>r \<in> set rs. r = MockError SystemError"
proof (rule mock_random_stuck [OF _ _ assms(2)])
  show "ms_response (mock_random rate) = MrRandom rate" by (simp add: mock_random_def)
  have "(1 :: u64) mod 100 = 1" by (simp add: word_unat_eq_iff unat_mod)
  then show "ms_message_counter (mock_random rate) mod 100 < pc rate"
    using assms(1) by (simp add: mock_random_def word_le_nat_alt word_less_nat_alt)
qed

theorem mock_random_always_fails_witness:
  "\<exists>rs m'. mock_run StOther (\<lambda>_. 10) 2 (mock_random 0) = (rs, m') \<and> rs = [MockError SystemError, MockError SystemError]"
proof -
  obtain rs m' where r: "mock_run StOther (\<lambda>_. 10) 2 (mock_random 0) = (rs, m')" by fastforce
  have "\<forall>r \<in> set rs. r = MockError SystemError"
    by (rule mock_random_always_fails [OF _ r]) simp
  moreover have "length rs = 2" using r by (auto simp: numeral_2_eq_2 split: prod.splits)
  ultimately have "rs = [MockError SystemError, MockError SystemError]"
    by (auto simp: numeral_2_eq_2 length_Suc_conv)
  with r show ?thesis by blast
qed

end
