(* ===== verification/Cluster.thy ===== *)
theory Cluster
  imports Endpoint LoadBalancer Mock
begin

text \<open>
  Clusters of endpoints (\<^verbatim>\<open>src/src/cluster/mod.rs\<close>): the configured load balancer chooses among
  the healthy endpoints and the chosen endpoint opens the connection.  Endpoints are shared by
  reference in the source; here the balancer chooses an index into the endpoint list.
\<close>

section \<open>The configured load balancer\<close>

datatype lb_type = LbRoundRobin | LbLeastConn | LbWeighted | LbRandom | LbP2c | LbConsistentHash
  | LbWeightedLeastConn

datatype load_balancer =
    RoundRobin usize
  | Weighted weighted
  | LeastConnections
  | Random usize
  | ConsistentHash consistent_hash
  | WeightedLeastConn "u32 list"
  | PowerOfTwoChoices usize

fun lb_name :: "load_balancer \<Rightarrow> string" where
  "lb_name (RoundRobin _) = ''round_robin''"
| "lb_name (Weighted _) = ''weighted''"
| "lb_name LeastConnections = ''least_conn''"
| "lb_name (Random _) = ''random''"
| "lb_name (ConsistentHash _) = ''consistent_hash''"
| "lb_name (WeightedLeastConn _) = ''weighted_least_conn''"
| "lb_name (PowerOfTwoChoices _) = ''p2c''"

fun lb_new :: "lb_type \<Rightarrow> endpoint_config list \<Rightarrow> load_balancer" where
  "lb_new LbRoundRobin eps = RoundRobin 0"
| "lb_new LbLeastConn eps = LeastConnections"
| "lb_new LbWeighted eps = Weighted (weighted_new (map ec_weight eps))"
| "lb_new LbRandom eps = Random 0"
| "lb_new LbP2c eps = PowerOfTwoChoices 0"
| "lb_new LbConsistentHash eps = ConsistentHash (consistent_hash_new (map ec_address eps) 100)"
| "lb_new LbWeightedLeastConn eps = WeightedLeastConn (weighted_least_conn_new (map ec_weight eps))"

text \<open>The registry of load balancer factories with the built-in ones registered.\<close>

type_synonym lb_factory = "endpoint_config list \<Rightarrow> load_balancer"

definition registry_register ::
  "string \<Rightarrow> lb_factory \<Rightarrow> (string, lb_factory) alist \<Rightarrow> (string, lb_factory) alist" where
  "registry_register name factory reg = AList.update name factory reg"

definition registry_new :: "(string, lb_factory) alist" where
  "registry_new =
     registry_register ''weighted_least_conn''
       (\<lambda>eps. WeightedLeastConn (weighted_least_conn_new (map ec_weight eps)))
    (registry_register ''consistent_hash''
       (\<lambda>eps. ConsistentHash (consistent_hash_new (map ec_address eps) 100))
    (registry_register ''weighted'' (\<lambda>eps. Weighted (weighted_new (map ec_weight eps)))
    (registry_register ''p2c'' (\<lambda>_. PowerOfTwoChoices 0)
    (registry_register ''random'' (\<lambda>_. Random 0)
    (registry_register ''least_conn'' (\<lambda>_. LeastConnections)
    (registry_register ''round_robin'' (\<lambda>_. RoundRobin 0) []))))))"

definition registry_create ::
  "string \<Rightarrow> endpoint_config list \<Rightarrow> (string, lb_factory) alist \<Rightarrow> load_balancer option" where
  "registry_create name eps reg = map_option (\<lambda>f. f eps) (map_of reg name)"

text \<open>The registry agrees with the dispatch of the cluster: every configured balancer is available
  under the name it reports.\<close>

lemma registry_complete:
  "registry_create (lb_name (lb_new t eps)) eps registry_new = Some (lb_new t eps)"
  by (cases t) (simp_all add: registry_create_def registry_new_def registry_register_def)

fun lb_select :: "'e conns \<Rightarrow> 'e list \<Rightarrow> load_balancer \<Rightarrow> 'e option \<times> load_balancer" where
  "lb_select active eps (RoundRobin c) = map_prod id RoundRobin (round_robin_select active eps c)"
| "lb_select active eps (Weighted w) = map_prod id Weighted (weighted_select active eps w)"
| "lb_select active eps LeastConnections =
     map_prod id (\<lambda>_. LeastConnections) (least_connections_select active eps ())"
| "lb_select active eps (Random c) = map_prod id Random (random_select active eps c)"
| "lb_select active eps (ConsistentHash ch) =
     map_prod id ConsistentHash (consistent_hash_select active eps ch)"
| "lb_select active eps (WeightedLeastConn ws) =
     map_prod id WeightedLeastConn (weighted_least_conn_select active eps ws)"
| "lb_select active eps (PowerOfTwoChoices c) = map_prod id PowerOfTwoChoices (p2c_select active eps c)"

fun lb_ready :: "load_balancer \<Rightarrow> bool" where
  "lb_ready (Weighted w) = (w_total_weight w \<noteq> 0)"
| "lb_ready _ = True"

interpretation lb: balancer lb_select lb_ready
proof unfold_locales
  show "lb_select active [] s = (None, s)" for active :: "'a conns" and s
    by (cases s) (simp_all add: rr.sel_empty wt.sel_empty lc.sel_empty rnd.sel_empty chash.sel_empty
        wlc.sel_empty p2c.sel_empty)
  show "\<exists>e \<in> set eps. fst (lb_select active eps s) = Some e"
    if "lb_ready s" "eps \<noteq> []" for active :: "'a conns" and eps s
    using that
    by (cases s) (simp_all add: rr.sel_member wt.sel_member lc.sel_member rnd.sel_member
        chash.sel_member wlc.sel_member p2c.sel_member)
  show "lb_ready (snd (lb_select active eps s))" if "lb_ready s" for active :: "'a conns" and eps s
    using that wt.sel_ready by (cases s) auto
qed

section \<open>Clusters\<close>

record cluster =
  cl_name :: string
  cl_endpoints :: "endpoint list"
  cl_load_balancer :: load_balancer
  cl_is_mock :: bool

record cluster_config =
  kc_name :: string
  kc_endpoints :: "endpoint_config list"
  kc_load_balancer :: lb_type
  kc_health_check :: health_check_config
  kc_pool :: pool_config
  kc_mock :: "mock_config option"

definition cluster_new :: "cluster_config \<Rightarrow> cluster" where
  "cluster_new c =
     \<lparr> cl_name = kc_name c,
       cl_endpoints = map (\<lambda>(i, ec). endpoint_new (kc_name c) i ec (kc_pool c) (kc_health_check c)) (enumerate 0 (kc_endpoints c)),
       cl_load_balancer = lb_new (kc_load_balancer c) (kc_endpoints c),
       cl_is_mock = (kc_mock c \<noteq> None) \<rparr>"

definition healthy_indices :: "endpoint list \<Rightarrow> nat list" where
  "healthy_indices eps = filter (\<lambda>i. is_healthy (eps ! i)) [0..<length eps]"

definition cluster_get_connection ::
  "instant \<Rightarrow> bool \<Rightarrow> cluster \<Rightarrow> (nat \<times> client) option \<times> cluster" where
  "cluster_get_connection now connect c =
     (let eps = cl_endpoints c; healthy = healthy_indices eps in
      if healthy = [] then (None, c)
      else
        case lb_select (\<lambda>i. ep_active_connections (eps ! i)) healthy (cl_load_balancer c) of
          (None, b) \<Rightarrow> (None, c \<lparr> cl_load_balancer := b \<rparr>)
        | (Some i, b) \<Rightarrow>
            (case get_connection now connect (eps ! i) of
               (r, e) \<Rightarrow> (map_option (\<lambda>k. (i, k)) r,
                 c \<lparr> cl_endpoints := eps[i := e], cl_load_balancer := b \<rparr>)))"

definition healthy_count :: "cluster \<Rightarrow> nat" where
  "healthy_count c = length (filter is_healthy (cl_endpoints c))"

definition cluster_active_connections :: "cluster \<Rightarrow> usize" where
  "cluster_active_connections c = sum_list (map ep_active_connections (cl_endpoints c))"

definition clusters_new :: "cluster_config list \<Rightarrow> (string, cluster) alist" where
  "clusters_new cs = fold (\<lambda>c m. AList.update (kc_name c) (cluster_new c) m) cs []"

definition clusters_get :: "string \<Rightarrow> (string, cluster) alist \<Rightarrow> cluster option" where
  "clusters_get name cs = map_of cs name"

section \<open>Properties\<close>

lemma healthy_indices_mem: "i \<in> set (healthy_indices eps) \<longleftrightarrow> i < length eps \<and> is_healthy (eps ! i)"
  by (auto simp: healthy_indices_def)

lemma healthy_indices_empty: "healthy_indices (cl_endpoints c) = [] \<longleftrightarrow> healthy_count c = 0"
  by (auto simp: healthy_indices_def healthy_count_def filter_empty_conv set_conv_nth)


definition sample_cluster :: cluster where
  "sample_cluster = \<lparr> cl_name = ''c1'', cl_endpoints = [sample_endpoint], cl_load_balancer = RoundRobin 0,
     cl_is_mock = False \<rparr>"


end
