(* ===== verification/Session.thy ===== *)
theory Session
  imports Auth
begin

text \<open>
  The SMPP session of a client (\<^verbatim>\<open>src/src/listener/session.rs\<close>) over its connection
  (\<^verbatim>\<open>src/src/listener/connection.rs\<close>) and the registry that routes responses back to sessions
  (\<^verbatim>\<open>src/src/listener/registry.rs\<close>).  A session keeps the frames it sent and the submit requests it
  published on the bus as lists; whether a send succeeds is an argument of each handler.  Functions of
  the crate \<^verbatim>\<open>smpp\<close> are collected in the record \<open>smpp_lib\<close>.
\<close>

section \<open>Connection (listener/connection.rs)\<close>

datatype connection_state = COpen | BoundTx | BoundRx | BoundTrx | Unbinding | CClosed

fun can_receive :: "connection_state \<Rightarrow> bool" where
  "can_receive BoundRx = True" | "can_receive BoundTrx = True" | "can_receive _ = False"

fun can_send :: "connection_state \<Rightarrow> bool" where
  "can_send BoundTx = True" | "can_send BoundTrx = True" | "can_send _ = False"

record connection =
  cn_id :: u64
  cn_listener :: string
  cn_peer_ip :: ip
  cn_state :: connection_state
  cn_system_id :: "string option"
  cn_sequence :: u32
  cn_idle_timeout :: duration
  cn_request_timeout :: duration
  cn_last_activity :: instant
  cn_closing :: bool
  cn_created_at :: instant

definition connection_new ::
  "instant \<Rightarrow> u64 \<Rightarrow> string \<Rightarrow> ip \<Rightarrow> duration \<Rightarrow> duration \<Rightarrow> connection" where
  "connection_new now i listener peer idle req =
     \<lparr> cn_id = i, cn_listener = listener, cn_peer_ip = peer, cn_state = COpen, cn_system_id = None,
       cn_sequence = 1, cn_idle_timeout = idle, cn_request_timeout = req, cn_last_activity = now,
       cn_closing = False, cn_created_at = now \<rparr>"

definition next_sequence :: "connection \<Rightarrow> u32 \<times> connection" where
  "next_sequence c = (cn_sequence c, c \<lparr> cn_sequence := cn_sequence c + 1 \<rparr>)"

definition is_bound :: "connection \<Rightarrow> bool" where
  "is_bound c = (cn_state c \<in> {BoundTx, BoundRx, BoundTrx})"

definition touch :: "instant \<Rightarrow> connection \<Rightarrow> connection" where
  "touch now c = c \<lparr> cn_last_activity := now \<rparr>"

definition is_idle :: "instant \<Rightarrow> connection \<Rightarrow> bool" where
  "is_idle now c = (cn_idle_timeout c < elapsed now (cn_last_activity c))"

definition initiate_close :: "connection \<Rightarrow> connection" where
  "initiate_close c = c \<lparr> cn_closing := True, cn_state := CClosed \<rparr>"

section \<open>Session state (listener/session.rs)\<close>

record smpp_lib =
  lib_is_response :: "frame \<Rightarrow> bool"
  lib_status_from :: "u32 \<Rightarrow> status"

record pending_request =
  pr_command :: command
  pr_sent_at :: instant

datatype session_error = Io_error | Smpp_error | Timeout_error | InvalidState_error string
  | Protocol_error string | Closed_error

record session =
  se_session_id :: session_id
  se_connection :: connection
  se_pending :: "(u32, pending_request) alist"
  se_last_enquire_link :: "instant option"
  se_sent :: "frame list"
  se_published :: "message_envelope list"
  se_counter :: u64

definition session_new :: "session_id \<Rightarrow> connection \<Rightarrow> u64 \<Rightarrow> session" where
  "session_new sid c counter =
     \<lparr> se_session_id = sid, se_connection = c, se_pending = [], se_last_enquire_link = None,
       se_sent = [], se_published = [], se_counter = counter \<rparr>"

type_synonym validator = "string \<Rightarrow> string \<Rightarrow> credentials option"
type_synonym session_result = "(session_error + unit) \<times> session"

abbreviation with_state :: "connection_state \<Rightarrow> session \<Rightarrow> session" where
  "with_state st s \<equiv> s \<lparr> se_connection := (se_connection s) \<lparr> cn_state := st \<rparr> \<rparr>"

definition send_pdu :: "bool \<Rightarrow> header \<Rightarrow> pdu \<Rightarrow> session \<Rightarrow> session_result" where
  "send_pdu ok h p s =
     (if ok then (Inr (), s \<lparr> se_sent := se_sent s @ [(h, p)] \<rparr>) else (Inl Smpp_error, s))"

definition mk_header :: "command \<Rightarrow> u32 \<Rightarrow> status \<Rightarrow> header" where
  "mk_header c sn st = \<lparr> hd_command = c, hd_status = st, hd_sequence = sn \<rparr>"

definition send_error :: "bool \<Rightarrow> u32 \<Rightarrow> status \<Rightarrow> session \<Rightarrow> session_result" where
  "send_error ok sn st s = send_pdu ok (mk_header CGenericNack sn st) GenericNack s"

section \<open>Handlers\<close>

text \<open>The three bind handlers differ only in the response PDU, the bind type and the bound state.\<close>

definition handle_bind ::
  "command \<Rightarrow> (string \<Rightarrow> pdu) \<Rightarrow> bind_type \<Rightarrow> connection_state \<Rightarrow>
   validator \<Rightarrow> (ip_net \<Rightarrow> ip \<Rightarrow> bool) \<Rightarrow> bool \<Rightarrow> header \<Rightarrow> bind_fields \<Rightarrow> session \<Rightarrow> session_result" where
  "handle_bind cmd resp bt bound validate net_contains ok h b s =
     (case validate (bf_system_id b) (bf_password b) of
        None \<Rightarrow> send_pdu ok (mk_header cmd (hd_sequence h) InvalidPassword) (resp []) s
      | Some creds \<Rightarrow>
          if \<not> cr_enabled creds then send_pdu ok (mk_header cmd (hd_sequence h) BindFailed) (resp []) s
          else if \<not> is_bind_allowed bt creds then
            send_pdu ok (mk_header cmd (hd_sequence h) BindFailed) (resp []) s
          else if \<not> is_ip_allowed net_contains (cn_peer_ip (se_connection s)) creds then
            send_pdu ok (mk_header cmd (hd_sequence h) BindFailed) (resp []) s
          else
            send_pdu ok (mk_header cmd (hd_sequence h) StOk) (resp ''smppd'')
              (s \<lparr> se_connection := (se_connection s) \<lparr> cn_system_id := Some (bf_system_id b), cn_state := bound \<rparr> \<rparr>))"

definition handle_bind_transmitter ::
  "validator \<Rightarrow> (ip_net \<Rightarrow> ip \<Rightarrow> bool) \<Rightarrow> bool \<Rightarrow> header \<Rightarrow> bind_fields \<Rightarrow> session \<Rightarrow> session_result" where
  "handle_bind_transmitter = handle_bind CBindTransmitterResp BindTransmitterResp Transmitter BoundTx"

definition handle_bind_receiver ::
  "validator \<Rightarrow> (ip_net \<Rightarrow> ip \<Rightarrow> bool) \<Rightarrow> bool \<Rightarrow> header \<Rightarrow> bind_fields \<Rightarrow> session \<Rightarrow> session_result" where
  "handle_bind_receiver = handle_bind CBindReceiverResp BindReceiverResp Receiver BoundRx"

definition handle_bind_transceiver ::
  "validator \<Rightarrow> (ip_net \<Rightarrow> ip \<Rightarrow> bool) \<Rightarrow> bool \<Rightarrow> header \<Rightarrow> bind_fields \<Rightarrow> session \<Rightarrow> session_result" where
  "handle_bind_transceiver = handle_bind CBindTransceiverResp BindTransceiverResp Transceiver BoundTrx"

definition handle_unbind :: "bool \<Rightarrow> header \<Rightarrow> session \<Rightarrow> session_result" where
  "handle_unbind ok h s =
     (case send_pdu ok (mk_header CUnbindResp (hd_sequence h) StOk) UnbindResp (with_state Unbinding s) of
        (Inl e, s1) \<Rightarrow> (Inl e, s1)
      | (Inr _, s1) \<Rightarrow> (Inr (), with_state CClosed s1))"

definition handle_enquire_link :: "bool \<Rightarrow> header \<Rightarrow> session \<Rightarrow> session_result" where
  "handle_enquire_link ok h s =
     send_pdu ok (mk_header CEnquireLinkResp (hd_sequence h) StOk) EnquireLinkResp s"

definition handle_submit_sm :: "instant \<Rightarrow> header \<Rightarrow> submit_sm \<Rightarrow> session \<Rightarrow> session_result" where
  "handle_submit_sm now h sm s =
     (let sys = (case cn_system_id (se_connection s) of None \<Rightarrow> [] | Some x \<Rightarrow> x);
          (env, counter') = envelope_new now (se_counter s) (se_session_id s) (hd_sequence h) sys sm
      in (Inr (), s \<lparr> se_published := se_published s @ [env], se_counter := counter' \<rparr>))"

definition handle_response :: "frame \<Rightarrow> session \<Rightarrow> session_result" where
  "handle_response f s =
     (Inr (), s \<lparr> se_pending := AList.delete (hd_sequence (fst f)) (se_pending s) \<rparr>)"

definition send_enquire_link :: "instant \<Rightarrow> bool \<Rightarrow> session \<Rightarrow> session_result" where
  "send_enquire_link now ok s =
     (let (sn, c) = next_sequence (se_connection s);
          s1 = s \<lparr> se_connection := c,
                   se_pending := AList.update sn \<lparr> pr_command = CEnquireLink, pr_sent_at = now \<rparr> (se_pending s) \<rparr>
      in case send_pdu ok (mk_header CEnquireLink sn StOk) EnquireLink s1 of
           (Inl e, s2) \<Rightarrow> (Inl e, s2)
         | (Inr _, s2) \<Rightarrow> (Inr (), s2 \<lparr> se_last_enquire_link := Some now \<rparr>))"

definition handle_async_response :: "smpp_lib \<Rightarrow> bool \<Rightarrow> response_envelope \<Rightarrow> session \<Rightarrow> session_result" where
  "handle_async_response lib ok r s =
     send_pdu ok (mk_header CSubmitSmResp (re_sequence_number r) (lib_status_from lib (re_command_status r)))
       (SubmitSmResp (re_message_id r)) s"

definition check_pending_timeouts :: "instant \<Rightarrow> duration \<Rightarrow> session \<Rightarrow> session" where
  "check_pending_timeouts now tmo s =
     s \<lparr> se_pending := alist_remove_all
           (map fst (filter (\<lambda>e. tmo < elapsed now (pr_sent_at (snd e))) (se_pending s))) (se_pending s) \<rparr>"

definition handle_pdu ::
  "smpp_lib \<Rightarrow> validator \<Rightarrow> (ip_net \<Rightarrow> ip \<Rightarrow> bool) \<Rightarrow> instant \<Rightarrow> bool \<Rightarrow> frame \<Rightarrow> session \<Rightarrow> session_result" where
  "handle_pdu lib V nc now ok f s =
     (let state = cn_state (se_connection s); h = fst f; sn = hd_sequence h in
      if lib_is_response lib f then handle_response f s
      else case snd f of
        BindTransmitter b \<Rightarrow>
          if state \<noteq> COpen then send_error ok sn InvalidBindStatus s else handle_bind_transmitter V nc ok h b s
      | BindReceiver b \<Rightarrow>
          if state \<noteq> COpen then send_error ok sn InvalidBindStatus s else handle_bind_receiver V nc ok h b s
      | BindTransceiver b \<Rightarrow>
          if state \<noteq> COpen then send_error ok sn InvalidBindStatus s else handle_bind_transceiver V nc ok h b s
      | Unbind \<Rightarrow>
          if \<not> is_bound (se_connection s) then send_error ok sn InvalidBindStatus s else handle_unbind ok h s
      | EnquireLink \<Rightarrow> handle_enquire_link ok h s
      | SubmitSm sm \<Rightarrow>
          if \<not> can_send state then send_error ok sn InvalidBindStatus s else handle_submit_sm now h sm s
      | DeliverSmResp \<Rightarrow> (Inr (), s)
      | GenericNack \<Rightarrow> (Inr (), s)
      | _ \<Rightarrow> send_error ok sn InvalidCommandId s)"

section \<open>The session loop\<close>

text \<open>One arm of the \<^verbatim>\<open>select!\<close> of \<^verbatim>\<open>run_loop\<close>; a received frame, an idle timeout and a
  pipeline response carry whether sending succeeds.\<close>

datatype loop_event =
    GotFrame instant bool frame
  | DecodeError
  | PeerClosed
  | IdleTimeout instant bool
  | GotResponse bool response_envelope
  | SecondTick instant
  | CloseRequested

text \<open>\<^verbatim>\<open>True\<close> in the result means the loop goes on.  \<open>CloseRequested\<close> is \<^verbatim>\<open>initiate_close\<close>
  called by another task.\<close>

definition loop_step ::
  "smpp_lib \<Rightarrow> validator \<Rightarrow> (ip_net \<Rightarrow> ip \<Rightarrow> bool) \<Rightarrow> loop_event \<Rightarrow> session \<Rightarrow> bool \<times> session" where
  "loop_step lib V nc ev s =
     (case ev of
        GotFrame now ok f \<Rightarrow>
          (case handle_pdu lib V nc now ok f (s \<lparr> se_connection := touch now (se_connection s) \<rparr>) of
             (Inl e, s1) \<Rightarrow> (False, s1)
           | (Inr _, s1) \<Rightarrow> (True, s1))
      | DecodeError \<Rightarrow> (False, s)
      | PeerClosed \<Rightarrow> (False, s)
      | IdleTimeout now ok \<Rightarrow>
          if is_bound (se_connection s) then
            (case send_enquire_link now ok s of (Inl e, s1) \<Rightarrow> (False, s1) | (Inr _, s1) \<Rightarrow> (True, s1))
          else (False, s)
      | GotResponse ok r \<Rightarrow> (True, snd (handle_async_response lib ok r s))
      | SecondTick now \<Rightarrow> (True, check_pending_timeouts now (cn_request_timeout (se_connection s)) s)
      | CloseRequested \<Rightarrow> (True, s \<lparr> se_connection := initiate_close (se_connection s) \<rparr>))"

text \<open>The loop over the events the session sees.  It stops on the closing flag, on an error, or when no
  event is left; the clean-up closes the connection.\<close>

fun run_loop ::
  "smpp_lib \<Rightarrow> validator \<Rightarrow> (ip_net \<Rightarrow> ip \<Rightarrow> bool) \<Rightarrow> loop_event list \<Rightarrow> session \<Rightarrow> session" where
  "run_loop lib V nc evs s =
     (if cn_closing (se_connection s) then with_state CClosed s
      else case evs of
        [] \<Rightarrow> s
      | ev # rest \<Rightarrow>
          (case loop_step lib V nc ev s of
             (True, s1) \<Rightarrow> run_loop lib V nc rest s1
           | (False, s1) \<Rightarrow> with_state CClosed s1))"

declare run_loop.simps [simp del]

section \<open>Session registry (listener/registry.rs)\<close>

text \<open>The response channel of a session has room for 256 envelopes; the receiving side may have been
  dropped.\<close>

record session_entry =
  sx_queue :: "response_envelope list"
  sx_receiver_alive :: bool
  sx_system_id :: "string option"
  sx_listener :: string

type_synonym session_registry = "(session_id, session_entry) alist"

definition channel_capacity :: nat where
  "channel_capacity = 256"

definition register :: "session_id \<Rightarrow> string \<Rightarrow> session_registry \<Rightarrow> session_registry" where
  "register sid listener r =
     AList.update sid \<lparr> sx_queue = [], sx_receiver_alive = True, sx_system_id = None, sx_listener = listener \<rparr> r"

definition registry_set_system_id :: "session_id \<Rightarrow> string \<Rightarrow> session_registry \<Rightarrow> session_registry" where
  "registry_set_system_id sid sys r = alist_modify sid (\<lambda>e. e \<lparr> sx_system_id := Some sys \<rparr>) r"

definition unregister :: "session_id \<Rightarrow> session_registry \<Rightarrow> session_registry" where
  "unregister sid r = AList.delete sid r"

definition send_response :: "response_envelope \<Rightarrow> session_registry \<Rightarrow> bool \<times> session_registry" where
  "send_response resp r =
     (case map_of r (re_session_id resp) of
        None \<Rightarrow> (False, r)
      | Some e \<Rightarrow>
          if \<not> sx_receiver_alive e then (False, r)
          else if channel_capacity \<le> length (sx_queue e) then (False, r)
          else (True, alist_modify (re_session_id resp) (\<lambda>e. e \<lparr> sx_queue := sx_queue e @ [resp] \<rparr>) r))"

definition registry_count :: "session_registry \<Rightarrow> nat" where
  "registry_count r = length r"

definition registry_contains :: "session_id \<Rightarrow> session_registry \<Rightarrow> bool" where
  "registry_contains sid r = (map_of r sid \<noteq> None)"

section \<open>Who may submit\<close>

definition authorised :: "validator \<Rightarrow> (ip_net \<Rightarrow> ip \<Rightarrow> bool) \<Rightarrow> ip \<Rightarrow> string \<Rightarrow> bind_type \<Rightarrow> bool" where
  "authorised V nc a sys bt =
     (\<exists>pw c. V sys pw = Some c \<and> cr_enabled c \<and> is_bind_allowed bt c \<and> is_ip_allowed nc a c)"

fun bound_type :: "connection_state \<Rightarrow> bind_type option" where
  "bound_type BoundTx = Some Transmitter"
| "bound_type BoundRx = Some Receiver"
| "bound_type BoundTrx = Some Transceiver"
| "bound_type _ = None"

definition session_inv :: "validator \<Rightarrow> (ip_net \<Rightarrow> ip \<Rightarrow> bool) \<Rightarrow> ip \<Rightarrow> session_id \<Rightarrow> session \<Rightarrow> bool" where
  "session_inv V nc a sid s =
     (cn_peer_ip (se_connection s) = a \<and> se_session_id s = sid \<and>
      (\<forall>bt. bound_type (cn_state (se_connection s)) = Some bt \<longrightarrow>
         (\<exists>sys. cn_system_id (se_connection s) = Some sys \<and> authorised V nc a sys bt)) \<and>
      (\<forall>env \<in> set (se_published s). en_session_id env = sid \<and>
         (\<exists>bt \<in> {Transmitter, Transceiver}. authorised V nc a (en_system_id env) bt)))"

lemma session_inv_frame:
  assumes "session_inv V nc a sid s" "se_published s' = se_published s" "se_session_id s' = se_session_id s"
    and "cn_peer_ip (se_connection s') = cn_peer_ip (se_connection s)"
    and "cn_system_id (se_connection s') = cn_system_id (se_connection s)"
    and "cn_state (se_connection s') = cn_state (se_connection s) \<or> bound_type (cn_state (se_connection s')) = None"
  shows "session_inv V nc a sid s'"
  using assms by (auto simp: session_inv_def)

lemma send_pdu_frame [simp]:
  "se_published (snd (send_pdu ok h p s)) = se_published s"
  "se_session_id (snd (send_pdu ok h p s)) = se_session_id s"
  "se_connection (snd (send_pdu ok h p s)) = se_connection s"
  by (simp_all add: send_pdu_def)

lemma inv_send_pdu: "session_inv V nc a sid s \<Longrightarrow> session_inv V nc a sid (snd (send_pdu ok h p s))"
  by (erule session_inv_frame) simp_all

lemma inv_handle_bind:
  assumes "session_inv V nc a sid s" "bound_type bound = Some bt"
  shows "session_inv V nc a sid (snd (handle_bind cmd resp bt bound V nc ok h b s))"
proof (cases "V (bf_system_id b) (bf_password b)")
  case None
  then show ?thesis using assms by (simp add: handle_bind_def inv_send_pdu)
next
  case (Some creds)
  let ?s1 = "s \<lparr> se_connection := (se_connection s) \<lparr> cn_system_id := Some (bf_system_id b), cn_state := bound \<rparr> \<rparr>"
  have "session_inv V nc a sid ?s1"
    if "cr_enabled creds" "is_bind_allowed bt creds" "is_ip_allowed nc (cn_peer_ip (se_connection s)) creds"
    using assms that Some by (auto simp: session_inv_def authorised_def)
  then show ?thesis using assms Some by (simp add: handle_bind_def inv_send_pdu)
qed

lemma inv_handle_submit:
  assumes "session_inv V nc a sid s" "can_send (cn_state (se_connection s))"
  shows "session_inv V nc a sid (snd (handle_submit_sm now h sm s))"
proof -
  obtain bt where bt: "bt \<in> {Transmitter, Transceiver}" "bound_type (cn_state (se_connection s)) = Some bt"
    using assms(2) by (cases "cn_state (se_connection s)") auto
  then obtain sys where "cn_system_id (se_connection s) = Some sys" "authorised V nc a sys bt"
    using assms(1) unfolding session_inv_def by blast
  with assms(1) bt show ?thesis
    by (auto simp: session_inv_def handle_submit_sm_def envelope_new_def message_id_new_def)
qed

lemma inv_handle_unbind: "session_inv V nc a sid s \<Longrightarrow> session_inv V nc a sid (snd (handle_unbind ok h s))"
  by (erule session_inv_frame) (simp_all add: handle_unbind_def send_pdu_def)

lemmas session_handlers =
  handle_bind_transmitter_def handle_bind_receiver_def handle_bind_transceiver_def

lemma inv_handle_pdu:
  assumes inv: "session_inv V nc a sid s"
  shows "session_inv V nc a sid (snd (handle_pdu lib V nc now ok f s))"
proof (cases "lib_is_response lib f")
  case True
  then show ?thesis
    using inv by (simp add: handle_pdu_def handle_response_def Let_def) (erule session_inv_frame; simp)
next
  case False
  then show ?thesis
    using inv
    by (cases "snd f")
       (auto simp: handle_pdu_def Let_def session_handlers send_error_def handle_enquire_link_def
         inv_send_pdu inv_handle_submit inv_handle_unbind intro!: inv_handle_bind)
qed

lemma inv_send_enquire:
  assumes "session_inv V nc a sid s"
  shows "session_inv V nc a sid (snd (send_enquire_link now ok s))"
  by (rule session_inv_frame [OF assms]) (simp_all add: send_enquire_link_def next_sequence_def send_pdu_def Let_def)

lemma snd_result_case [simp]:
  "snd (case r of (Inl e, s1) \<Rightarrow> (False, s1) | (Inr _, s1) \<Rightarrow> (True, s1)) = snd r"
  by (auto split: prod.splits sum.splits)

lemma inv_loop_step:
  assumes inv: "session_inv V nc a sid s"
  shows "session_inv V nc a sid (snd (loop_step lib V nc ev s))"
proof (cases ev)
  case (GotFrame now ok f)
  have "session_inv V nc a sid (s \<lparr> se_connection := touch now (se_connection s) \<rparr>)"
    using inv by (rule session_inv_frame) (simp_all add: touch_def)
  from inv_handle_pdu [OF this, of lib now ok f] show ?thesis
    by (simp add: GotFrame loop_step_def)
next
  case (IdleTimeout now ok)
  then show ?thesis
    using inv inv_send_enquire [OF inv, of now ok] by (simp add: loop_step_def)
next
  case (GotResponse ok r)
  then show ?thesis using inv by (simp add: loop_step_def handle_async_response_def inv_send_pdu)
next
  case (SecondTick now)
  then show ?thesis
    using inv by (simp add: loop_step_def check_pending_timeouts_def) (erule session_inv_frame; simp)
next
  case CloseRequested
  then show ?thesis
    using inv by (simp add: loop_step_def) (erule session_inv_frame; simp add: initiate_close_def)
qed (use inv in \<open>simp_all add: loop_step_def\<close>)

lemma inv_with_state: "session_inv V nc a sid s \<Longrightarrow> session_inv V nc a sid (with_state CClosed s)"
  by (erule session_inv_frame) simp_all

lemma inv_run_loop: "session_inv V nc a sid s \<Longrightarrow> session_inv V nc a sid (run_loop lib V nc evs s)"
proof (induction evs arbitrary: s)
  case Nil
  then show ?case by (simp add: run_loop.simps [of lib V nc "[]"] inv_with_state)
next
  case (Cons ev evs)
  obtain c s1 where st: "loop_step lib V nc ev s = (c, s1)" by fastforce
  then have "session_inv V nc a sid s1" using inv_loop_step [OF Cons.prems, of lib ev] by simp
  then show ?case
    using Cons by (cases c) (simp_all add: run_loop.simps [of lib V nc "ev # evs"] st inv_with_state)
qed

text \<open>C2: only authenticated clients submit.  Whatever a peer sends and whatever else happens to its
  session, every message the session publishes to the pipeline carries this session's id and a
  system id for which the credential store validated a password, of an enabled client that may bind
  as transmitter or transceiver from this peer's address.\<close>

theorem only_authenticated_clients_submit:
  assumes "env \<in> set (se_published (run_loop lib V nc evs
             (session_new sid (connection_new now i listener peer idle req) counter)))"
  shows "en_session_id env = sid \<and>
    (\<exists>bt \<in> {Transmitter, Transceiver}. \<exists>pw c. V (en_system_id env) pw = Some c \<and> cr_enabled c \<and>
       is_bind_allowed bt c \<and> is_ip_allowed nc peer c)"
proof -
  have "session_inv V nc peer sid (session_new sid (connection_new now i listener peer idle req) counter)"
    by (simp add: session_inv_def session_new_def connection_new_def)
  from inv_run_loop [OF this, of lib evs] assms show ?thesis
    by (auto simp: session_inv_def authorised_def)
qed

text \<open>A peer that binds as transmitter and submits one message.\<close>

definition sample_lib :: smpp_lib where
  "sample_lib = \<lparr> lib_is_response = \<lambda>f. snd f \<in> {UnbindResp, EnquireLinkResp, DeliverSmResp},
     lib_status_from = StOther \<rparr>"

definition sample_submit :: submit_sm where
  "sample_submit = \<lparr> sm_service_type = [], sm_source_addr = ''100'', sm_dest_addr = ''258'',
     sm_source_addr_ton = 0, sm_source_addr_npi = 0, sm_dest_addr_ton = 0, sm_dest_addr_npi = 0, sm_esm_class = 0,
     sm_protocol_id = 0, sm_priority_flag = 0, sm_schedule_delivery_time = [], sm_validity_period = [], sm_registered_delivery = 0, sm_replace_if_present_flag = 0, sm_data_coding = 0,
       sm_default_msg_id = 0, sm_short_message = [72, 105], sm_tlvs = [] \<rparr>"

definition sample_script :: "loop_event list" where
  "sample_script =
     [GotFrame 1 True (mk_header CBindTransmitter 1 StOk, BindTransmitter \<lparr> bf_system_id = ''esme1'', bf_password = ''pw'' \<rparr>),
      GotFrame 2 True (mk_header CSubmitSm 2 StOk, SubmitSm sample_submit)]"

lemmas session_eval =
  sample_script_def sample_lib_def run_loop.simps loop_step_def handle_pdu_def handle_bind_transmitter_def
  handle_bind_def open_validate_def credentials_new_def is_bind_allowed_def is_ip_allowed_def send_pdu_def
  handle_submit_sm_def envelope_new_def message_id_new_def session_new_def connection_new_def touch_def
  mk_header_def

theorem only_authenticated_clients_submit_witness:
  "\<exists>env. se_published (run_loop sample_lib open_validate (\<lambda>_ _. False) sample_script
     (session_new (SessionId 1) (connection_new 0 1 ''l'' ''10.0.0.1'' 5 5) 7)) = [env] \<and>
     en_session_id env = SessionId 1 \<and> en_system_id env = ''esme1''"
proof -
  obtain env where env: "se_published (run_loop sample_lib open_validate (\<lambda>_ _. False) sample_script
      (session_new (SessionId 1) (connection_new 0 1 ''l'' ''10.0.0.1'' 5 5) 7)) = [env]" "en_system_id env = ''esme1''"
    by (simp add: session_eval)
  with only_authenticated_clients_submit [of env sample_lib open_validate "\<lambda>_ _. False" sample_script "SessionId 1"
      0 1 "''l''" "''10.0.0.1''" 5 5 7] show ?thesis by auto
qed

section \<open>One answer per request\<close>

text \<open>C5: every request is answered exactly once.  When sending works, a frame that is not a response
  either gets exactly one frame back with its sequence number, or (a submit in a sending state) is
  published exactly once under its sequence number and answered later, or is a delivery response or
  nack that needs no answer; the handler never fails.\<close>

theorem one_answer_per_request:
  assumes "\<not> lib_is_response lib f" "handle_pdu lib V nc now True f s = (r, s')"
  shows "r = Inr () \<and>
    ((\<exists>h p. se_sent s' = se_sent s @ [(h, p)] \<and> hd_sequence h = hd_sequence (fst f) \<and>
        se_published s' = se_published s) \<or>
     (\<exists>env sm. snd f = SubmitSm sm \<and> can_send (cn_state (se_connection s)) \<and> se_sent s' = se_sent s \<and>
        se_published s' = se_published s @ [env] \<and> en_sequence_number env = hd_sequence (fst f) \<and>
        en_submit_sm env = sm) \<or>
     (snd f \<in> {DeliverSmResp, GenericNack} \<and> s' = s))"
  using assms
  by (cases "snd f")
     (auto simp: handle_pdu_def Let_def session_handlers handle_bind_def send_error_def send_pdu_def
       handle_unbind_def handle_enquire_link_def handle_submit_sm_def envelope_new_def message_id_new_def
       mk_header_def split: if_splits option.splits)

theorem one_answer_per_request_witness:
  "let s = session_new (SessionId 1) (connection_new 0 1 ''l'' ''10.0.0.1'' 5 5) 7
   in \<exists>h p. se_sent (snd (handle_pdu sample_lib open_validate (\<lambda>_ _. False) 1 True
        (mk_header CUnbind 9 StOk, Unbind) s)) = [(h, p)] \<and> hd_sequence h = 9"
proof -
  let ?s = "session_new (SessionId 1) (connection_new 0 1 ''l'' ''10.0.0.1'' 5 5) 7"
  let ?f = "(mk_header CUnbind 9 StOk, Unbind)"
  obtain r s' where h: "handle_pdu sample_lib open_validate (\<lambda>_ _. False) 1 True ?f ?s = (r, s')" by fastforce
  have "\<not> lib_is_response sample_lib ?f" by (simp add: sample_lib_def)
  from one_answer_per_request [OF this h] h show ?thesis
    by (auto simp: Let_def session_new_def mk_header_def)
qed

section \<open>A closed session stays closed\<close>

lemma closed_handle_pdu:
  assumes "cn_state (se_connection s) = CClosed"
  shows "cn_state (se_connection (snd (handle_pdu lib V nc now ok f s))) = CClosed \<and>
    se_published (snd (handle_pdu lib V nc now ok f s)) = se_published s"
  using assms
  by (cases "snd f")
     (auto simp: handle_pdu_def Let_def send_error_def handle_response_def handle_enquire_link_def is_bound_def)

lemma closed_loop_step:
  assumes "cn_state (se_connection s) = CClosed"
  shows "cn_state (se_connection (snd (loop_step lib V nc ev s))) = CClosed \<and>
    se_published (snd (loop_step lib V nc ev s)) = se_published s"
proof (cases ev)
  case (GotFrame now ok f)
  have "cn_state (se_connection (s \<lparr> se_connection := touch now (se_connection s) \<rparr>)) = CClosed"
    using assms by (simp add: touch_def)
  from closed_handle_pdu [OF this, of lib V nc now ok f] show ?thesis
    by (simp add: GotFrame loop_step_def)
next
  case (GotResponse ok r)
  then show ?thesis using assms by (simp add: loop_step_def handle_async_response_def)
qed (use assms in \<open>simp_all add: loop_step_def is_bound_def check_pending_timeouts_def initiate_close_def\<close>)

text \<open>after an unbind nothing more is accepted.  A session whose connection is closed stays closed and
  publishes nothing for the rest of its life, whatever the peer sends.\<close>

theorem closed_session_publishes_nothing:
  assumes "cn_state (se_connection s) = CClosed"
  shows "cn_state (se_connection (run_loop lib V nc evs s)) = CClosed \<and>
    se_published (run_loop lib V nc evs s) = se_published s"
  using assms
proof (induction evs arbitrary: s)
  case Nil
  then show ?case by (simp add: run_loop.simps [of lib V nc "[]"])
next
  case (Cons ev evs)
  obtain c s1 where st: "loop_step lib V nc ev s = (c, s1)" by fastforce
  then have "cn_state (se_connection s1) = CClosed \<and> se_published s1 = se_published s"
    using closed_loop_step [OF Cons.prems, of lib V nc ev] by simp
  then show ?case using Cons by (cases c) (simp_all add: run_loop.simps [of lib V nc "ev # evs"] st)
qed

theorem closed_session_publishes_nothing_witness:
  "se_published (run_loop sample_lib open_validate (\<lambda>_ _. False) sample_script
     (with_state CClosed (session_new (SessionId 1) (connection_new 0 1 ''l'' ''10.0.0.1'' 5 5) 7))) = []"
  using closed_session_publishes_nothing
    [of "with_state CClosed (session_new (SessionId 1) (connection_new 0 1 ''l'' ''10.0.0.1'' 5 5) 7)"
        sample_lib open_validate "\<lambda>_ _. False" sample_script]
  by (simp add: session_new_def)

text \<open>an unbind does not end the session loop.  The handler closes the connection state but not the
  closing flag the loop tests, so the loop keeps reading from the peer (and keeps its connection
  permit) until the peer disconnects or the idle timeout strikes.\<close>

theorem unbind_leaves_loop_running:
  assumes "\<not> lib_is_response lib (h, Unbind)" "is_bound (se_connection s)" "\<not> cn_closing (se_connection s)"
  shows "let (go_on, s') = loop_step lib V nc (GotFrame now True (h, Unbind)) s
    in go_on \<and> cn_state (se_connection s') = CClosed \<and> \<not> cn_closing (se_connection s')"
  using assms
  by (auto simp: loop_step_def handle_pdu_def handle_unbind_def send_pdu_def touch_def is_bound_def Let_def)

theorem unbind_leaves_loop_running_witness:
  "let (go_on, s') = loop_step sample_lib open_validate (\<lambda>_ _. False)
       (GotFrame 3 True (mk_header CUnbind 3 StOk, Unbind))
       (with_state BoundTx (session_new (SessionId 1) (connection_new 0 1 ''l'' ''10.0.0.1'' 5 5) 7))
   in go_on \<and> cn_state (se_connection s') = CClosed \<and> \<not> cn_closing (se_connection s')"
  by (rule unbind_leaves_loop_running)
     (simp_all add: sample_lib_def is_bound_def session_new_def connection_new_def)

section \<open>Response routing\<close>

definition registry_inv :: "session_registry \<Rightarrow> bool" where
  "registry_inv r = (distinct_keys r \<and>
     (\<forall>(sid, e) \<in> set r. length (sx_queue e) \<le> channel_capacity \<and>
        (\<forall>x \<in> set (sx_queue e). re_session_id x = sid)))"

lemma registry_inv_lookup:
  "registry_inv r \<Longrightarrow> map_of r sid = Some e \<Longrightarrow>
     length (sx_queue e) \<le> channel_capacity \<and> (\<forall>x \<in> set (sx_queue e). re_session_id x = sid)"
  by (auto simp: registry_inv_def dest!: map_of_SomeD)

lemma registry_inv_register: "registry_inv r \<Longrightarrow> registry_inv (register sid l r)"
  using set_alist_update [of sid _ r] unfolding registry_inv_def register_def
  by (fastforce simp: distinct_keys_update)

lemma registry_inv_unregister: "registry_inv r \<Longrightarrow> registry_inv (unregister sid r)"
  by (auto simp: registry_inv_def unregister_def delete_is_filter distinct_keys_filter)

lemma registry_inv_send: "registry_inv r \<Longrightarrow> registry_inv (snd (send_response x r))"
proof (cases "map_of r (re_session_id x)")
  case (Some e)
  assume inv: "registry_inv r"
  have d: "distinct_keys r" using inv by (simp add: registry_inv_def)
  show ?thesis
    using inv registry_inv_lookup [OF inv Some]
    by (auto simp: send_response_def Some registry_inv_def set_modify [OF d Some] not_le)
qed (simp add: send_response_def)

text \<open>responses reach the session they belong to.  A response is accepted exactly when its session is
  registered, its receiver is alive and its queue has room; it is then appended to that session's
  queue in order, no other session is touched, no queue exceeds 256 entries, and a refused response
  changes nothing.\<close>

theorem response_routed_to_its_session:
  assumes "registry_inv r"
  shows "registry_inv (snd (send_response x r)) \<and>
    (fst (send_response x r) \<longleftrightarrow>
       (\<exists>e. map_of r (re_session_id x) = Some e \<and> sx_receiver_alive e \<and> length (sx_queue e) < channel_capacity)) \<and>
    (\<not> fst (send_response x r) \<longrightarrow> snd (send_response x r) = r) \<and>
    (\<forall>sid. map_of (snd (send_response x r)) sid =
       (if fst (send_response x r) \<and> sid = re_session_id x
        then map_option (\<lambda>e. e \<lparr> sx_queue := sx_queue e @ [x] \<rparr>) (map_of r sid) else map_of r sid))"
  using registry_inv_send [OF assms, of x]
  by (auto simp: send_response_def map_of_modify split: option.splits)

theorem response_routed_to_its_session_witness:
  "fst (send_response (response_success (SessionId 4) 1 ''m'') (register (SessionId 4) ''l'' []))"
proof -
  have "registry_inv (register (SessionId 4) ''l'' [])"
    by (rule registry_inv_register) (simp add: registry_inv_def)
  from response_routed_to_its_session [OF this, of "response_success (SessionId 4) 1 ''m''"]
  show ?thesis by (simp add: register_def response_success_def channel_capacity_def)
qed

end
