(* ===== verification/Float64.thy ===== *)
theory Float64
  imports Prelude Complex_Main "HOL-Library.Log_Nat"
begin

text \<open>
  The \<^verbatim>\<open>f64\<close> of the source: IEEE 754 binary64 with rounding to nearest, ties to even.  A finite number is the
  rational it denotes; every operation is the exact rational operation followed by \<open>round64\<close>.  The two zeros are one
  value: the modelled code divides only by numbers that cannot be a negative zero, so their difference is not observed.

  The operations compute.  Two lemmas carry the proofs of the components: integers below \<open>2^53\<close> are exact, and the
  rounding of a number in the normal range is relatively off by at most \<open>2^-53\<close>.
\<close>

section \<open>Rounding\<close>

datatype f64 = Fin rat | PosInf | NegInf | NaN

definition round_even :: "rat \<Rightarrow> int" where
  "round_even q =
     (let f = \<lfloor>q\<rfloor>; d = q - of_int f in if d < 1 / 2 \<or> (d = 1 / 2 \<and> even f) then f else f + 1)"

definition ilog2 :: "rat \<Rightarrow> int" where
  "ilog2 q = (let (n, d) = quotient_of q; k = bitlen n - bitlen d in if 2 powi k \<le> q then k else k - 1)"

definition ulp_exp :: "rat \<Rightarrow> int" where
  "ulp_exp q = max (- 1074) (ilog2 \<bar>q\<bar> - 52)"

definition to_grid :: "rat \<Rightarrow> rat" where
  "to_grid q = of_int (round_even (q / 2 powi ulp_exp q)) * 2 powi ulp_exp q"

definition round64 :: "rat \<Rightarrow> f64" where
  "round64 q =
     (if q = 0 then Fin 0
      else if 2 powi 1024 \<le> \<bar>to_grid q\<bar> then (if 0 < q then PosInf else NegInf)
      else Fin (to_grid q))"

section \<open>Operations\<close>

fun fneg :: "f64 \<Rightarrow> f64" where
  "fneg (Fin a) = Fin (- a)"
| "fneg PosInf = NegInf"
| "fneg NegInf = PosInf"
| "fneg NaN = NaN"

fun fadd :: "f64 \<Rightarrow> f64 \<Rightarrow> f64" where
  "fadd NaN _ = NaN"
| "fadd _ NaN = NaN"
| "fadd (Fin a) (Fin b) = round64 (a + b)"
| "fadd PosInf NegInf = NaN"
| "fadd NegInf PosInf = NaN"
| "fadd PosInf _ = PosInf"
| "fadd _ PosInf = PosInf"
| "fadd NegInf _ = NegInf"
| "fadd _ NegInf = NegInf"

definition fsub :: "f64 \<Rightarrow> f64 \<Rightarrow> f64" where
  "fsub a b = fadd a (fneg b)"

definition finf :: "rat \<Rightarrow> f64" where
  "finf s = (if 0 < s then PosInf else if s < 0 then NegInf else NaN)"

fun fsign :: "f64 \<Rightarrow> rat" where
  "fsign (Fin a) = sgn a"
| "fsign PosInf = 1"
| "fsign NegInf = - 1"
| "fsign NaN = 0"

fun fmul :: "f64 \<Rightarrow> f64 \<Rightarrow> f64" where
  "fmul NaN _ = NaN"
| "fmul _ NaN = NaN"
| "fmul (Fin a) (Fin b) = round64 (a * b)"
| "fmul a b = finf (fsign a * fsign b)"

fun fdiv :: "f64 \<Rightarrow> f64 \<Rightarrow> f64" where
  "fdiv NaN _ = NaN"
| "fdiv _ NaN = NaN"
| "fdiv (Fin a) (Fin b) = (if b = 0 then finf a else round64 (a / b))"
| "fdiv (Fin a) _ = Fin 0"
| "fdiv a (Fin b) = finf (fsign a * (if b < 0 then - 1 else 1))"
| "fdiv _ _ = NaN"

fun fless :: "f64 \<Rightarrow> f64 \<Rightarrow> bool" where
  "fless NaN _ = False"
| "fless _ NaN = False"
| "fless (Fin a) (Fin b) = (a < b)"
| "fless NegInf b = (b \<noteq> NegInf)"
| "fless (Fin _) b = (b = PosInf)"
| "fless PosInf _ = False"

text \<open>\<^verbatim>\<open>f64::max\<close> and \<^verbatim>\<open>f64::min\<close> ignore a NaN argument.\<close>

definition fmax :: "f64 \<Rightarrow> f64 \<Rightarrow> f64" where
  "fmax a b = (if a = NaN then b else if b = NaN then a else if fless a b then b else a)"

definition fmin :: "f64 \<Rightarrow> f64 \<Rightarrow> f64" where
  "fmin a b = (if a = NaN then b else if b = NaN then a else if fless b a then b else a)"

definition f64_of_int :: "int \<Rightarrow> f64" where
  "f64_of_int n = round64 (of_int n)"

text \<open>The saturating cast \<^verbatim>\<open>as u64\<close> (also \<^verbatim>\<open>as usize\<close> on a 64-bit target).\<close>

fun f64_to_u64 :: "f64 \<Rightarrow> nat" where
  "f64_to_u64 (Fin a) = min (2 ^ 64 - 1) (nat \<lfloor>a\<rfloor>)"
| "f64_to_u64 PosInf = 2 ^ 64 - 1"
| "f64_to_u64 _ = 0"

text \<open>\<^verbatim>\<open>Duration::as_secs_f64\<close> of a duration in nanoseconds.\<close>

definition as_secs_f64 :: "duration \<Rightarrow> f64" where
  "as_secs_f64 d =
     fadd (f64_of_int (int (d div nanos_per_sec)))
       (fdiv (f64_of_int (int (d mod nanos_per_sec))) (f64_of_int (int nanos_per_sec)))"

section \<open>The binary exponent\<close>

lemma bitlen_powi:
  assumes "0 < x"
  shows "(2::rat) powi (bitlen x - 1) \<le> of_int x" "of_int x < (2::rat) powi bitlen x"
proof -
  have "bitlen x \<noteq> 0" using assms bitlen_eq_zero_iff [of x] by simp
  then have b: "0 \<le> bitlen x - 1" "0 \<le> bitlen x" using bitlen_nonneg [of x] by linarith+
  have "of_int (2 ^ nat (bitlen x - 1)) \<le> (of_int x :: rat)" "(of_int x :: rat) < of_int (2 ^ nat (bitlen x))"
    using bitlen_bounds [OF assms] unfolding of_int_le_iff of_int_less_iff by simp_all
  then show "(2::rat) powi (bitlen x - 1) \<le> of_int x" "of_int x < (2::rat) powi bitlen x"
    unfolding power_int_nonneg_exp [OF b(1)] power_int_nonneg_exp [OF b(2)] by simp_all
qed

lemma ilog2_bounds:
  assumes "0 < q"
  shows "2 powi ilog2 q \<le> q" "q < 2 powi (ilog2 q + 1)"
proof -
  obtain n d where nd: "quotient_of q = (n, d)" by (cases "quotient_of q")
  then have d: "0 < d" using quotient_of_denom_pos by blast
  have q: "q = of_int n / of_int d" using nd by (rule quotient_of_div)
  then have n: "0 < n" using assms d by (simp add: zero_less_divide_iff)
  let ?k = "bitlen n - bitlen d"
  note bn = bitlen_powi [OF n] and bd = bitlen_powi [OF d]
  have "(2::rat) powi (?k - 1) * of_int d \<le> 2 powi (?k - 1) * 2 powi bitlen d" using bd(2) by (intro mult_left_mono) auto
  also have "\<dots> = 2 powi (bitlen n - 1)" by (simp flip: power_int_add)
  also have "\<dots> \<le> of_int n" by (rule bn(1))
  finally have lo: "2 powi (?k - 1) \<le> q" using d by (simp add: q pos_le_divide_eq)
  have "of_int n < (2::rat) powi bitlen n" by (rule bn(2))
  also have "\<dots> = 2 powi (?k + 1) * 2 powi (bitlen d - 1)" by (simp flip: power_int_add)
  also have "\<dots> \<le> 2 powi (?k + 1) * of_int d" using bd(1) by (intro mult_left_mono) auto
  finally have hi: "q < 2 powi (?k + 1)" using d by (simp add: q pos_divide_less_eq)
  show "2 powi ilog2 q \<le> q" "q < 2 powi (ilog2 q + 1)" using lo hi by (auto simp: ilog2_def nd Let_def)
qed

lemma powi_less_cancel: "(2::rat) powi a < 2 powi b \<longleftrightarrow> a < b"
  using power_int_strict_increasing [of a b "2::rat"] power_int_increasing [of b a "2::rat"] by fastforce

lemma ilog2_le: "0 < q \<Longrightarrow> q < 2 powi k \<Longrightarrow> ilog2 q < k"
  using ilog2_bounds(1) [of q] powi_less_cancel [of "ilog2 q" k] by linarith

lemma ilog2_ge: "0 < q \<Longrightarrow> 2 powi k \<le> q \<Longrightarrow> k \<le> ilog2 q"
  using ilog2_bounds(2) [of q] powi_less_cancel [of k "ilog2 q + 1"] by linarith

section \<open>Accuracy\<close>

lemma round_even_err: "\<bar>of_int (round_even q) - q\<bar> \<le> 1 / 2"
proof -
  have "of_int \<lfloor>q\<rfloor> \<le> q" "q < of_int \<lfloor>q\<rfloor> + 1" by linarith+
  then show ?thesis by (auto simp: round_even_def Let_def abs_le_iff)
qed

lemma round_even_of_int [simp]: "round_even (of_int n) = n"
  by (simp add: round_even_def)

lemma round_even_0 [simp]: "round_even 0 = 0"
  by (simp add: round_even_def)

lemma to_grid_err: "\<bar>to_grid q - q\<bar> \<le> 2 powi ulp_exp q / 2"
proof -
  let ?u = "(2::rat) powi ulp_exp q"
  have u: "0 < ?u" by simp
  have "to_grid q - q = (of_int (round_even (q / ?u)) - q / ?u) * ?u" by (simp add: to_grid_def left_diff_distrib)
  then have "\<bar>to_grid q - q\<bar> = \<bar>of_int (round_even (q / ?u)) - q / ?u\<bar> * ?u" using u by (simp add: abs_mult)
  also have "\<dots> \<le> 1 / 2 * ?u" using u by (intro mult_right_mono round_even_err) simp_all
  finally show ?thesis by simp
qed

definition unit_roundoff :: rat where
  "unit_roundoff = 1 / 2 ^ 53"

lemma powi_unit: "(2::rat) powi (k - 53) = 2 powi k * unit_roundoff"
  using power_int_add [of "2::rat" k "- 53"] by (simp add: unit_roundoff_def power_int_minus_divide)

lemma ulp_bound:
  assumes "2 powi (- 1022) \<le> q"
  shows "2 powi ulp_exp q / 2 \<le> q * unit_roundoff"
proof -
  have q: "0 < q" using assms by (rule less_le_trans [rotated]) simp
  then have "ulp_exp q = ilog2 q - 52" using ilog2_ge [OF q assms] by (simp add: ulp_exp_def)
  then have "(2::rat) powi ulp_exp q / 2 = 2 powi (ilog2 q - 53)" using power_int_add_1 [of "2::rat" "ilog2 q - 53"] by simp
  also have "\<dots> \<le> q * unit_roundoff" unfolding powi_unit
    using ilog2_bounds(1) [OF q] by (intro mult_right_mono) (simp_all add: unit_roundoff_def)
  finally show ?thesis .
qed

lemma round64_near:
  assumes "2 powi (- 1022) \<le> q" "q \<le> 2 powi 1000"
  obtains r where "round64 q = Fin r" "\<bar>r - q\<bar> \<le> q * unit_roundoff"
proof
  have q: "0 < q" using assms(1) by (rule less_le_trans [rotated]) simp
  have e: "\<bar>to_grid q - q\<bar> \<le> q * unit_roundoff" using to_grid_err [of q] ulp_bound [OF assms(1)] by linarith
  have "q * unit_roundoff \<le> q" using q by (simp add: unit_roundoff_def)
  then have "\<bar>to_grid q\<bar> \<le> 2 * q" using e q by linarith
  also have "2 * q \<le> 2 * 2 powi 1000" using assms(2) by simp
  also have "\<dots> < 2 powi 1024" by simp
  finally have "\<bar>to_grid q\<bar> < 2 powi 1024" .
  then show "round64 q = Fin (to_grid q)" using q unfolding round64_def by (simp add: linorder_not_le [symmetric])
  show "\<bar>to_grid q - q\<bar> \<le> q * unit_roundoff" by (rule e)
qed

lemma to_grid_int:
  assumes "\<bar>n\<bar> < 2 ^ 53"
  shows "to_grid (of_int n) = of_int n"
proof (cases "n = 0")
  case False
  have "ilog2 \<bar>of_int n\<bar> < 53"
  proof (rule ilog2_le)
    show "(0::rat) < \<bar>of_int n\<bar>" using False by simp
    have "(of_int \<bar>n\<bar> :: rat) < of_int (2 ^ 53)" using assms unfolding of_int_less_iff .
    then show "\<bar>of_int n :: rat\<bar> < 2 powi 53" by simp
  qed
  then have e: "ulp_exp (of_int n) \<le> 0" by (simp add: ulp_exp_def)
  then obtain k where k: "ulp_exp (of_int n) = - int k" by (metis minus_minus neg_0_le_iff_le nonneg_int_cases)
  have "(of_int n :: rat) / 2 powi ulp_exp (of_int n) = of_int (n * 2 ^ k)"
    unfolding k by (simp add: power_int_minus divide_inverse)
  then show ?thesis unfolding to_grid_def by (metis (no_types) nonzero_eq_divide_eq power_int_eq_0_iff round_even_of_int zero_neq_numeral)
qed (simp add: to_grid_def)

lemma round64_int:
  assumes "\<bar>n\<bar> < 2 ^ 53"
  shows "round64 (of_int n) = Fin (of_int n)"
proof -
  have "(of_int \<bar>n\<bar> :: rat) < of_int (2 ^ 53)" using assms unfolding of_int_less_iff .
  also have "\<dots> < 2 powi 1024" by simp
  finally have "\<bar>of_int n :: rat\<bar> < 2 powi 1024" by simp
  then show ?thesis unfolding round64_def to_grid_int [OF assms] by (simp add: linorder_not_le [symmetric])
qed

lemma f64_of_int_exact: "\<bar>n\<bar> < 2 ^ 53 \<Longrightarrow> f64_of_int n = Fin (of_int n)"
  unfolding f64_of_int_def by (rule round64_int)

text \<open>The integer part of a rounded quotient of exact integers is their integer quotient.\<close>

lemma round64_floor:
  assumes "0 \<le> a" "a < 2 ^ 53" "0 < b" "b < 2 ^ 53"
  obtains r where "round64 (of_int a / of_int b) = Fin r" "\<lfloor>r\<rfloor> = a div b"
proof (cases "b dvd a")
  case True
  then have q: "(of_int a / of_int b :: rat) = of_int (a div b)" by (auto simp: assms(3))
  have "\<bar>a div b\<bar> < 2 ^ 53" using assms pos_imp_zdiv_nonneg_iff [of b a] zdiv_mono2 [of a 1 b] by simp
  from round64_int [OF this, folded q] show ?thesis using that [of "of_int a / of_int b"] by (simp add: q)
next
  case False
  define k where "k = a div b"
  define m where "m = a mod b"
  have m: "0 < m" "m < b" using False assms(3) pos_mod_bound [of b a] pos_mod_sign [of b a]
    by (auto simp: m_def dvd_eq_mod_eq_0 order_less_le)
  have a: "a = k * b + m" by (simp add: k_def m_def)
  let ?q = "of_int a / of_int b :: rat"
  have b: "(0::rat) < of_int b" using assms(3) by simp
  have q: "?q = of_int k + of_int m / of_int b" using b by (simp add: a add_divide_distrib)
  have "(1::rat) / of_int b \<le> of_int m / of_int b" using m b by (simp add: divide_right_mono)
  moreover have "(of_int m :: rat) / of_int b \<le> 1 - 1 / of_int b"
  proof -
    have "(of_int m :: rat) \<le> of_int (b - 1)" using m unfolding of_int_le_iff by simp
    then show ?thesis using b by (simp add: field_simps)
  qed
  ultimately have lo: "of_int k + 1 / of_int b \<le> ?q" and hi: "?q \<le> of_int k + 1 - 1 / of_int b" unfolding q by linarith+
  have a53: "(of_int a :: rat) < 2 ^ 53" and b53: "(of_int b :: rat) < 2 ^ 53"
    using assms(2,4) by (metis of_int_less_iff of_int_numeral of_int_power)+
  have "?q * unit_roundoff = of_int a / 2 ^ 53 / of_int b" by (simp add: unit_roundoff_def)
  also have "\<dots> < 1 / of_int b" using a53 b by (intro divide_strict_right_mono) simp_all
  finally have err: "?q * unit_roundoff < 1 / of_int b" .
  have k0: "(0::rat) \<le> of_int k" using assms by (simp add: k_def pos_imp_zdiv_nonneg_iff)
  have "2 powi (- 1022) \<le> (1 / 2 ^ 53 :: rat)" by (simp add: power_int_minus_divide)
  also have "\<dots> \<le> 1 / of_int b" using b b53 by (intro divide_left_mono) simp_all
  also have "\<dots> \<le> ?q" using lo k0 by linarith
  finally have r1: "2 powi (- 1022) \<le> ?q" .
  have "?q \<le> of_int a / 1" using assms b by (intro divide_left_mono) simp_all
  also have "\<dots> \<le> 2 ^ 53" using a53 by simp
  also have "(2 ^ 53 :: rat) \<le> 2 powi 1000" by simp
  finally obtain r where r: "round64 ?q = Fin r" "\<bar>r - ?q\<bar> \<le> ?q * unit_roundoff" using round64_near [OF r1] by blast
  have "of_int k \<le> r" "r < of_int k + 1" using r(2) err lo hi by linarith+
  then have "\<lfloor>r\<rfloor> = a div b" unfolding k_def by (rule floor_unique)
  with that r(1) show ?thesis by blast
qed

text \<open>\<^verbatim>\<open>(n as f64 * p as f64 / d) as usize\<close> is integer division while the product is below \<open>2^53\<close>.\<close>

lemma scaled_floor:
  assumes "n * p < 2 ^ 53" "n < 2 ^ 53" "p < 2 ^ 53" "0 < d" "d < 2 ^ 53"
  shows "f64_to_u64 (fdiv (fmul (f64_of_int (int n)) (f64_of_int (int p))) (f64_of_int (int d))) = n * p div d"
proof -
  have i: "int n * int p < 2 ^ 53" using assms(1) by (metis of_nat_less_iff of_nat_mult of_nat_numeral of_nat_power)
  have e: "f64_of_int (int n) = Fin (of_int (int n))" "f64_of_int (int p) = Fin (of_int (int p))"
    "f64_of_int (int d) = Fin (of_int (int d))" using assms by (simp_all add: f64_of_int_exact)
  have m: "fmul (f64_of_int (int n)) (f64_of_int (int p)) = Fin (of_int (int n * int p))"
    using round64_int [of "int n * int p"] i by (simp add: e)
  obtain r where r: "round64 (of_int (int n * int p) / of_int (int d)) = Fin r" "\<lfloor>r\<rfloor> = int n * int p div int d"
    using round64_floor [of "int n * int p" "int d"] i assms(4,5) by auto
  have "fdiv (Fin (of_int (int n * int p))) (Fin (of_int (int d))) = Fin r" using r(1) assms(4) by simp
  moreover have "n * p div d \<le> 2 ^ 64 - 1" by (rule order.trans [OF div_le_dividend]) (use assms(1) in simp)
  ultimately show ?thesis unfolding m e(3) using r(2) by (simp add: nat_div_distrib nat_mult_distrib)
qed

section \<open>Seconds of a duration\<close>

lemma round64_between:
  assumes "q = 0 \<or> 2 powi (- 1022) \<le> q" "q \<le> 2 powi 1000"
  obtains r where "round64 q = Fin r" "q / 2 \<le> r" "r \<le> q * (1 + unit_roundoff)"
proof (cases "q = 0")
  case True
  with that [of 0] show ?thesis by (simp add: round64_def)
next
  case False
  then have q: "2 powi (- 1022) \<le> q" using assms(1) by simp
  then have "0 < q" by (rule less_le_trans [rotated]) simp
  then have "q * unit_roundoff \<le> q / 2" by (simp add: unit_roundoff_def)
  moreover obtain r where "round64 q = Fin r" "\<bar>r - q\<bar> \<le> q * unit_roundoff" using round64_near [OF q assms(2)] .
  ultimately show ?thesis using that [of r] by (simp add: abs_le_iff distrib_left)
qed

lemma f64_of_nat_between:
  assumes "n < 2 ^ 100"
  obtains r where "f64_of_int (int n) = Fin r" "of_nat n / 2 \<le> r" "r \<le> of_nat n * (1 + unit_roundoff)"
proof -
  have "(of_nat n :: rat) \<le> of_nat (2 ^ 100)" unfolding of_nat_le_iff using assms by simp
  also have "\<dots> \<le> 2 powi 1000" by simp
  finally have u: "(of_nat n :: rat) \<le> 2 powi 1000" .
  have "n = 0 \<or> (1::rat) \<le> of_nat n" by (cases n) simp_all
  moreover have "(2::rat) powi (- 1022) \<le> 1" by (simp add: power_int_minus_divide)
  ultimately have "of_nat n = (0::rat) \<or> 2 powi (- 1022) \<le> (of_nat n :: rat)" by (auto intro: order.trans)
  with u that show ?thesis using round64_between [of "of_nat n"] by (metis f64_of_int_def of_int_of_nat_eq)
qed

lemma one_le_of_nat: "n \<noteq> 0 \<Longrightarrow> (1::rat) \<le> of_nat n"
  by (cases n) simp_all

lemma nanos_between:
  assumes "m < nanos_per_sec"
  obtains b where "fdiv (f64_of_int (int m)) (f64_of_int (int nanos_per_sec)) = Fin b"
    "b = 0 \<or> 1 / (2 * 10 ^ 9) \<le> b" "b \<le> of_nat m / 10 ^ 9 * (1 + unit_roundoff)"
proof -
  let ?q = "of_nat m / 10 ^ 9 :: rat"
  have e: "fdiv (f64_of_int (int m)) (f64_of_int (int nanos_per_sec)) = round64 ?q"
    using assms f64_of_int_exact [of "int m"] f64_of_int_exact [of "int nanos_per_sec"] by simp
  have lo: "?q = 0 \<or> 1 / 10 ^ 9 \<le> ?q" using one_le_of_nat [of m] by (cases "m = 0") (simp_all add: divide_right_mono)
  have t: "2 powi (- 1022) \<le> (1 / 10 ^ 9 :: rat)" by (simp add: power_int_minus_divide)
  have "(of_nat m :: rat) \<le> of_nat nanos_per_sec" unfolding of_nat_le_iff using assms by simp
  then have hi: "?q \<le> 1" by simp
  obtain b where "round64 ?q = Fin b" "?q / 2 \<le> b" "b \<le> ?q * (1 + unit_roundoff)"
  proof (rule round64_between)
    show "?q = 0 \<or> 2 powi (- 1022) \<le> ?q" using lo t by linarith
    show "?q \<le> 2 powi 1000" using hi by (rule order.trans) simp
  qed
  moreover from this lo have "b = 0 \<or> 1 / (2 * 10 ^ 9) \<le> b" by auto
  ultimately show ?thesis using that e by metis
qed

text \<open>Three roundings: the seconds of a duration exceed it by less than one part in \<open>2^52\<close>.\<close>

lemma as_secs_upper:
  assumes "d < 2 ^ 100"
  obtains r where "as_secs_f64 d = Fin r" "r = 0 \<or> 1 / 10 ^ 10 \<le> r" "r \<le> of_nat d / 10 ^ 9 * (1 + unit_roundoff) ^ 2"
proof -
  define s where "s = d div nanos_per_sec"
  define m where "m = d mod nanos_per_sec"
  let ?u = "1 + unit_roundoff"
  have m: "m < nanos_per_sec" and dsm: "d = s * nanos_per_sec + m" by (simp_all add: s_def m_def)
  have u: "1 \<le> ?u" "?u \<le> 2" by (simp_all add: unit_roundoff_def)
  have "s < 2 ^ 100" using assms unfolding s_def by (rule le_less_trans [OF div_le_dividend])
  then obtain a where a: "f64_of_int (int s) = Fin a" "of_nat s / 2 \<le> a" "a \<le> of_nat s * ?u" by (rule f64_of_nat_between)
  have a0: "a = 0 \<or> 1 / 2 \<le> a" using a(2,3) one_le_of_nat [of s] by (cases "s = 0") auto
  obtain b where b: "fdiv (f64_of_int (int m)) (f64_of_int (int nanos_per_sec)) = Fin b"
    "b = 0 \<or> 1 / (2 * 10 ^ 9) \<le> b" "b \<le> of_nat m / 10 ^ 9 * ?u"
    using nanos_between [OF m] by blast
  have d: "(of_nat d :: rat) / 10 ^ 9 = of_nat s + of_nat m / 10 ^ 9" by (simp add: dsm add_divide_distrib)
  have ab: "a + b \<le> of_nat d / 10 ^ 9 * ?u" using a(3) b(3) unfolding d distrib_right by simp
  have ab0: "a + b = 0 \<or> 1 / (2 * 10 ^ 9) \<le> a + b" using a0 b(2) by auto
  have "(of_nat d :: rat) < of_nat (2 ^ 100)" using assms unfolding of_nat_less_iff .
  then have d100: "(of_nat d :: rat) / 10 ^ 9 \<le> 2 ^ 100" by simp
  obtain r where r: "round64 (a + b) = Fin r" "(a + b) / 2 \<le> r" "r \<le> (a + b) * ?u"
  proof (rule round64_between)
    have "2 powi (- 1022) \<le> (1 / (2 * 10 ^ 9) :: rat)" by (simp add: power_int_minus_divide)
    then show "a + b = 0 \<or> 2 powi (- 1022) \<le> a + b" using ab0 by linarith
    have "a + b \<le> 2 ^ 100 * 2" using ab d100 u by (meson mult_mono order.trans zero_le_numeral zero_le_power zero_le_one)
    also have "\<dots> \<le> (2 powi 1000 :: rat)" by simp
    finally show "a + b \<le> 2 powi 1000" .
  qed
  show ?thesis
  proof (rule that)
    show "as_secs_f64 d = Fin r" using a(1) b(1) r(1) by (simp add: as_secs_f64_def s_def m_def)
    show "r = 0 \<or> 1 / 10 ^ 10 \<le> r" using ab0 r(2,3) by auto
    have "(a + b) * ?u \<le> of_nat d / 10 ^ 9 * ?u * ?u" using ab u by (intro mult_right_mono) simp_all
    with r(3) show "r \<le> of_nat d / 10 ^ 9 * ?u ^ 2" unfolding power2_eq_square mult.assoc [symmetric] by (rule order.trans)
  qed
qed

lemma f64_to_u64_upper: "0 \<le> a \<Longrightarrow> of_nat (f64_to_u64 (Fin a)) \<le> a"
proof -
  assume a: "0 \<le> a"
  have "(of_nat (f64_to_u64 (Fin a)) :: rat) \<le> of_nat (nat \<lfloor>a\<rfloor>)" by simp
  also have "\<dots> = of_int \<lfloor>a\<rfloor>" using a by (simp add: of_nat_nat)
  also have "\<dots> \<le> a" by (rule of_int_floor_le)
  finally show ?thesis .
qed

section \<open>Monotonicity\<close>

lemma round_even_le: "p \<le> of_int n \<Longrightarrow> round_even p \<le> n"
proof (rule ccontr)
  assume p: "p \<le> of_int n" and "\<not> round_even p \<le> n"
  then have n: "n < round_even p" by simp
  have "\<lfloor>p\<rfloor> \<le> n" using p by linarith
  then have "\<lfloor>p\<rfloor> = n" using n by (auto simp: round_even_def Let_def split: if_splits)
  then have "p = of_int n" using p by linarith
  with n show False by simp
qed

lemma round_even_ge: "of_int n \<le> p \<Longrightarrow> n \<le> round_even p"
proof -
  assume "of_int n \<le> p"
  then have "n \<le> \<lfloor>p\<rfloor>" by (simp add: le_floor_iff)
  then show ?thesis by (auto simp: round_even_def Let_def)
qed

lemma round_even_mono: "p \<le> q \<Longrightarrow> round_even p \<le> round_even q"
proof -
  assume le: "p \<le> q"
  show ?thesis
  proof (cases "\<lfloor>p\<rfloor> = \<lfloor>q\<rfloor>")
    case True
    with le show ?thesis by (auto simp: round_even_def Let_def)
  next
    case False
    then have "\<lfloor>p\<rfloor> + 1 \<le> \<lfloor>q\<rfloor>" using floor_mono [OF le] by linarith
    then have "of_int (\<lfloor>p\<rfloor> + 1) \<le> q" by (simp only: le_floor_iff)
    then have "\<lfloor>p\<rfloor> + 1 \<le> round_even q" by (rule round_even_ge)
    moreover have "round_even p \<le> \<lfloor>p\<rfloor> + 1" by (simp add: round_even_def Let_def)
    ultimately show ?thesis by linarith
  qed
qed

lemma to_grid_le_power:
  assumes "p \<le> 2 powi k" "ulp_exp p \<le> k"
  shows "to_grid p \<le> 2 powi k"
proof -
  let ?e = "ulp_exp p"
  have k: "(2::rat) powi k = of_int (2 ^ nat (k - ?e)) * 2 powi ?e"
    using assms(2) power_int_add [of "2::rat" "k - ?e" ?e] by (simp add: power_int_nonneg_exp)
  have "p / 2 powi ?e \<le> of_int (2 ^ nat (k - ?e))" using assms(1) unfolding k by (simp add: pos_divide_le_eq)
  from round_even_le [OF this] have "of_int (round_even (p / 2 powi ?e)) \<le> (of_int (2 ^ nat (k - ?e)) :: rat)" by (simp only: of_int_le_iff)
  then show ?thesis unfolding k to_grid_def by (intro mult_right_mono) simp_all
qed

lemma to_grid_ge_power:
  assumes "2 powi k \<le> p" "ulp_exp p \<le> k"
  shows "2 powi k \<le> to_grid p"
proof -
  let ?e = "ulp_exp p"
  have k: "(2::rat) powi k = of_int (2 ^ nat (k - ?e)) * 2 powi ?e"
    using assms(2) power_int_add [of "2::rat" "k - ?e" ?e] by (simp add: power_int_nonneg_exp)
  have "of_int (2 ^ nat (k - ?e)) \<le> p / 2 powi ?e" using assms(1) unfolding k by (simp add: pos_le_divide_eq)
  from round_even_ge [OF this] have "(of_int (2 ^ nat (k - ?e)) :: rat) \<le> of_int (round_even (p / 2 powi ?e))" by (simp only: of_int_le_iff)
  then show ?thesis unfolding k to_grid_def by (intro mult_right_mono) simp_all
qed

lemma to_grid_mono:
  assumes "0 < p" "p \<le> q"
  shows "to_grid p \<le> to_grid q"
proof (cases "ulp_exp p = ulp_exp q")
  case True
  have "round_even (p / 2 powi ulp_exp q) \<le> round_even (q / 2 powi ulp_exp q)"
    using assms(2) by (intro round_even_mono divide_right_mono) simp_all
  then show ?thesis unfolding to_grid_def True by (intro mult_right_mono) simp_all
next
  case False
  have q: "0 < q" using assms by simp
  have "ilog2 p \<le> ilog2 q" by (rule ilog2_ge [OF q order.trans [OF ilog2_bounds(1) [OF assms(1)] assms(2)]])
  then have e: "ulp_exp q = ilog2 q - 52" "ulp_exp p \<le> ilog2 q" "ilog2 p < ilog2 q"
    using False assms(1) q by (auto simp: ulp_exp_def)
  have "(2::rat) powi (ilog2 p + 1) \<le> 2 powi ilog2 q" using e(3) by (intro power_int_increasing) simp_all
  then have "p \<le> 2 powi ilog2 q" using ilog2_bounds(2) [OF assms(1)] by linarith
  then have "to_grid p \<le> 2 powi ilog2 q" using e(2) by (rule to_grid_le_power)
  also have "\<dots> \<le> to_grid q" using ilog2_bounds(1) [OF q] e(1) by (intro to_grid_ge_power) simp_all
  finally show ?thesis .
qed

lemma to_grid_nonneg: "0 \<le> q \<Longrightarrow> 0 \<le> to_grid q"
  using round_even_ge [of 0 "q / 2 powi ulp_exp q"] by (simp add: to_grid_def)

lemma round64_not_nan [simp]: "round64 q \<noteq> NaN"
  by (simp add: round64_def)

lemma round64_mono:
  assumes "0 \<le> p" "p \<le> q"
  shows "\<not> fless (round64 q) (round64 p)"
proof (cases "p = 0")
  case True
  then show ?thesis using assms(2) to_grid_nonneg [of q] by (auto simp: round64_def not_less)
next
  case False
  then have p: "0 < p" "0 < q" using assms by simp_all
  have "0 \<le> to_grid p" "to_grid p \<le> to_grid q" using to_grid_nonneg [of p] to_grid_mono [OF p(1) assms(2)] p by simp_all
  then show ?thesis using p by (simp add: round64_def not_less)
qed

lemma round64_le_int:
  assumes "0 \<le> q" "q \<le> of_int n" "0 < n" "n < 2 ^ 53"
  obtains r where "round64 q = Fin r" "0 \<le> r" "r \<le> of_int n"
proof (cases "q = 0")
  case True
  then show ?thesis using that [of 0] assms(3) by (simp add: round64_def)
next
  case False
  have g: "to_grid q \<le> of_int n" "0 \<le> to_grid q"
    using to_grid_mono [of q "of_int n"] to_grid_int [of n] to_grid_nonneg [of q] assms False by auto
  have "(of_int n :: rat) < of_int (2 ^ 53)" using assms(4) unfolding of_int_less_iff .
  also have "\<dots> < 2 powi 1024" by simp
  finally have "to_grid q < 2 powi 1024" using g(1) by linarith
  then show ?thesis using that [of "to_grid q"] g False unfolding round64_def by (simp add: linorder_not_le [symmetric])
qed

section \<open>Stable sorting, largest first\<close>

text \<open>\<^verbatim>\<open>sort_by(|a, b| key(b).partial_cmp(&key(a)).unwrap_or(Equal))\<close>.  Without NaN among the keys the comparison is
  a total preorder and every stable sort gives this list; with a NaN the order is left open by the standard library.\<close>

fun insert_desc :: "('a \<Rightarrow> f64) \<Rightarrow> 'a \<Rightarrow> 'a list \<Rightarrow> 'a list" where
  "insert_desc key x [] = [x]"
| "insert_desc key x (y # ys) = (if fless (key x) (key y) then y # insert_desc key x ys else x # y # ys)"

definition sort_desc :: "('a \<Rightarrow> f64) \<Rightarrow> 'a list \<Rightarrow> 'a list" where
  "sort_desc key xs = foldr (insert_desc key) xs []"

lemma sort_desc_simps [simp]:
  "sort_desc key [] = []" "sort_desc key (x # xs) = insert_desc key x (sort_desc key xs)"
  by (simp_all add: sort_desc_def)

lemma mset_insert_desc [simp]: "mset (insert_desc key x xs) = add_mset x (mset xs)"
  by (induction xs) simp_all

lemma mset_sort_desc [simp]: "mset (sort_desc key xs) = mset xs"
  by (induction xs) simp_all

lemma set_sort_desc [simp]: "set (sort_desc key xs) = set xs"
  by (metis mset_sort_desc set_mset_mset)

lemma fless_trans: "fless a b \<Longrightarrow> fless b c \<Longrightarrow> fless a c"
  by (cases a; cases b; cases c) simp_all

lemma fless_le_trans: "fless a b \<Longrightarrow> \<not> fless c b \<Longrightarrow> c \<noteq> NaN \<Longrightarrow> fless a c"
  by (cases a; cases b; cases c) simp_all

lemma fless_irrefl [simp]: "\<not> fless a a"
  by (cases a) simp_all

lemma fless_asym: "fless a b \<Longrightarrow> \<not> fless b a"
  using fless_trans fless_irrefl by blast

lemma fle_trans: "\<not> fless b a \<Longrightarrow> \<not> fless c b \<Longrightarrow> b \<noteq> NaN \<Longrightarrow> \<not> fless c a"
  by (cases a; cases b; cases c) auto

lemma sorted_insert_desc:
  assumes "\<forall>y \<in> set (x # xs). key y \<noteq> NaN" "sorted_wrt (\<lambda>a b. \<not> fless (key a) (key b)) xs"
  shows "sorted_wrt (\<lambda>a b. \<not> fless (key a) (key b)) (insert_desc key x xs)"
  using assms
proof (induction xs)
  case (Cons y ys)
  have s: "set (insert_desc key x ys) = insert x (set ys)" by (metis mset_insert_desc set_mset_add_mset_insert set_mset_mset)
  show ?case
  proof (cases "fless (key x) (key y)")
    case True
    then show ?thesis using Cons s fless_asym by auto
  next
    case False
    moreover have "\<not> fless (key x) (key z)" if "z \<in> set ys" for z
      using fle_trans [of "key y" "key z" "key x"] False Cons.prems that by auto
    ultimately show ?thesis using Cons.prems by auto
  qed
qed simp

lemma sorted_sort_desc:
  "\<forall>x \<in> set xs. key x \<noteq> NaN \<Longrightarrow> sorted_wrt (\<lambda>a b. \<not> fless (key a) (key b)) (sort_desc key xs)"
  by (induction xs) (simp_all add: sorted_insert_desc)

text \<open>The head of the sorted list is the first of the largest elements.\<close>

lemma hd_insert_desc: "hd (insert_desc key x ys) = (if ys \<noteq> [] \<and> fless (key x) (key (hd ys)) then hd ys else x)"
  by (cases ys) simp_all

lemma hd_sort_desc:
  assumes "xs \<noteq> []" "\<forall>x \<in> set xs. key x \<noteq> NaN"
  obtains pre post where "xs = pre @ hd (sort_desc key xs) # post"
    "\<forall>x \<in> set pre. fless (key x) (key (hd (sort_desc key xs)))"
    "\<forall>x \<in> set post. \<not> fless (key (hd (sort_desc key xs))) (key x)"
  using assms
proof (induction xs arbitrary: thesis)
  case (Cons x xs)
  show ?case
  proof (cases "xs = []")
    case True
    then show ?thesis using Cons.prems(1) [of "[]" "[]"] by simp
  next
    case False
    obtain pre post where xs: "xs = pre @ hd (sort_desc key xs) # post"
      "\<forall>x \<in> set pre. fless (key x) (key (hd (sort_desc key xs)))"
      "\<forall>x \<in> set post. \<not> fless (key (hd (sort_desc key xs))) (key x)"
      using Cons.IH False Cons.prems(3) by auto
    let ?h = "hd (sort_desc key xs)"
    have ne: "sort_desc key xs \<noteq> []" using False by (metis mset_sort_desc mset_zero_iff)
    have nan: "key x \<noteq> NaN" "\<forall>y \<in> set xs. key y \<noteq> NaN" "key ?h \<noteq> NaN"
      using Cons.prems(3) xs(1) by (auto, metis in_set_conv_decomp)
    show ?thesis
    proof (cases "fless (key x) (key ?h)")
      case True
      then show ?thesis using Cons.prems(1) [of "x # pre" post] xs ne by (simp add: hd_insert_desc)
    next
      case le: False
      have "\<not> fless (key x) (key y)" if "y \<in> set xs" for y
      proof -
        have "\<not> fless (key ?h) (key y)"
          using that xs by (metis Un_iff fless_asym fless_irrefl set_ConsD set_append)
        then show ?thesis using fle_trans [of "key ?h" "key y" "key x"] le nan(3) by blast
      qed
      then show ?thesis using Cons.prems(1) [of "[]" xs] le ne by (simp add: hd_insert_desc)
    qed
  qed
qed simp

end
