(* ===== verification/RateLimit.thy ===== *)
theory RateLimit
  imports Smpp Float64
begin

text \<open>
  Token-bucket rate limiting per client (\<^verbatim>\<open>src/src/filter/ratelimit.rs\<close>) and the filter chain that
  contains it (\<^verbatim>\<open>src/src/filter/chain.rs\<close>).  The refill \<^verbatim>\<open>(elapsed.as_secs_f64() * rate) as u64\<close>
  is computed in double precision as the source does, with the arithmetic of \<open>Float64\<close>.
\<close>

section \<open>Token bucket\<close>

record rate_limit_config =
  rl_requests_per_second :: u32
  rl_burst_size :: u32

definition rate_limit_config_new :: "u32 \<Rightarrow> rate_limit_config" where
  "rate_limit_config_new r = \<lparr> rl_requests_per_second = r, rl_burst_size = r \<rparr>"

record token_bucket =
  tb_tokens :: u64
  tb_last_refill :: instant
  tb_rate :: u32
  tb_capacity :: u32

definition bucket_new :: "instant \<Rightarrow> u32 \<Rightarrow> u32 \<Rightarrow> token_bucket" where
  "bucket_new now rate capacity =
     \<lparr> tb_tokens = ucast capacity, tb_last_refill = now, tb_rate = rate, tb_capacity = capacity \<rparr>"

definition new_tokens :: "instant \<Rightarrow> token_bucket \<Rightarrow> nat" where
  "new_tokens now b =
     f64_to_u64 (fmul (as_secs_f64 (elapsed now (tb_last_refill b))) (f64_of_int (uint (tb_rate b))))"

text \<open>The addition \<^verbatim>\<open>current + new_tokens\<close> is on \<^verbatim>\<open>u64\<close> and wraps.\<close>

definition refill :: "instant \<Rightarrow> token_bucket \<Rightarrow> token_bucket" where
  "refill now b =
     (if 0 < new_tokens now b then
        b \<lparr> tb_tokens := min (tb_tokens b + of_nat (new_tokens now b)) (ucast (tb_capacity b)), tb_last_refill := now \<rparr>
      else b)"

definition try_acquire :: "instant \<Rightarrow> token_bucket \<Rightarrow> bool \<times> token_bucket" where
  "try_acquire now b0 =
     (let b = refill now b0
      in if tb_tokens b = 0 then (False, b) else (True, b \<lparr> tb_tokens := tb_tokens b - 1 \<rparr>))"

section \<open>Per-client store and filter\<close>

record rate_limiter_store =
  rs_buckets :: "(string, token_bucket) alist"
  rs_default_config :: rate_limit_config

definition rate_store_new :: "rate_limit_config \<Rightarrow> rate_limiter_store" where
  "rate_store_new cfg = \<lparr> rs_buckets = [], rs_default_config = cfg \<rparr>"

definition get_bucket :: "instant \<Rightarrow> string \<Rightarrow> rate_limiter_store \<Rightarrow> token_bucket \<times> rate_limiter_store" where
  "get_bucket now client st =
     (case map_of (rs_buckets st) client of
        Some b \<Rightarrow> (b, st)
      | None \<Rightarrow>
          (let b = bucket_new now (rl_requests_per_second (rs_default_config st)) (rl_burst_size (rs_default_config st))
           in (b, st \<lparr> rs_buckets := AList.update client b (rs_buckets st) \<rparr>)))"

definition store_try_acquire :: "instant \<Rightarrow> string \<Rightarrow> rate_limiter_store \<Rightarrow> bool \<times> rate_limiter_store" where
  "store_try_acquire now client st =
     (let (b, st1) = get_bucket now client st;
          (ok, b1) = try_acquire now b
      in (ok, st1 \<lparr> rs_buckets := AList.update client b1 (rs_buckets st1) \<rparr>))"

definition rate_limit_call ::
  "(smpp_request \<Rightarrow> smpp_response) \<Rightarrow> instant \<Rightarrow> smpp_request \<Rightarrow> rate_limiter_store \<Rightarrow>
   smpp_response \<times> rate_limiter_store" where
  "rate_limit_call inner now r st =
     (let client = (case qm_system_id (rq_meta r) of None \<Rightarrow> ''anonymous'' | Some s \<Rightarrow> s);
          (ok, st1) = store_try_acquire now client st
      in if \<not> ok then (reject_with_reason (rq_sequence r) SystemError ''rate limit exceeded'', st1)
         else (inner r, st1))"

section \<open>Filter chain (filter/chain.rs)\<close>

text \<open>A chain is the passthrough service, with the rate limiter in front when configured.\<close>

datatype filter_chain = Passthrough | RateLimited rate_limiter_store

record filter_chain_builder =
  fb_auth_store :: "(string \<Rightarrow> string \<Rightarrow> bool) option"
  fb_rate_limit :: "rate_limit_config option"

definition chain_builder_new :: filter_chain_builder where
  "chain_builder_new = \<lparr> fb_auth_store = None, fb_rate_limit = None \<rparr>"

definition chain_build :: "filter_chain_builder \<Rightarrow> filter_chain" where
  "chain_build b =
     (case fb_rate_limit b of Some cfg \<Rightarrow> RateLimited (rate_store_new cfg) | None \<Rightarrow> Passthrough)"

definition passthrough_call :: "smpp_request \<Rightarrow> smpp_response" where
  "passthrough_call r = Continue r"

fun chain_process :: "instant \<Rightarrow> smpp_request \<Rightarrow> filter_chain \<Rightarrow> smpp_response \<times> filter_chain" where
  "chain_process now r Passthrough = (passthrough_call r, Passthrough)"
| "chain_process now r (RateLimited st) =
     (case rate_limit_call passthrough_call now r st of (resp, st1) \<Rightarrow> (resp, RateLimited st1))"

definition chain_clone :: "filter_chain \<Rightarrow> filter_chain" where
  "chain_clone c = chain_build chain_builder_new"

section \<open>The bucket never overdraws\<close>

definition bucket_inv :: "token_bucket \<Rightarrow> bool" where
  "bucket_inv b = (unat (tb_tokens b) \<le> unat (tb_capacity b))"

lemma u32_u64_bound: "unat (c :: u32) < 2 ^ 64"
  using unsigned_less [of c, where 'a = nat] by simp

lemma unat_u32_u64 [simp]: "unat (ucast (c :: u32) :: u64) = unat c"
  using u32_u64_bound [of c] by (simp add: unsigned_ucast_eq take_bit_nat_eq_self)

lemma bucket_inv_new: "bucket_inv (bucket_new now rate cap)"
  by (simp add: bucket_inv_def bucket_new_def)

lemma unat_min: "unat (min a b) = min (unat a) (unat (b :: u64))"
  by (simp add: min_def word_le_nat_alt)

lemma unat_add_le: "unat (a + of_nat n) \<le> unat (a :: u64) + n"
proof -
  have "unat (a + of_nat n) \<le> unat a + unat (of_nat n :: u64)" unfolding unat_word_ariths(1) by (rule mod_less_eq_dividend)
  moreover have "unat (of_nat n :: u64) \<le> n" unfolding unat_of_nat by (rule mod_less_eq_dividend)
  ultimately show ?thesis by linarith
qed

lemma rat_unsigned_nonneg [simp]: "0 \<le> (unsigned (w :: 'a :: len word) :: rat)"
  using of_nat_0_le_iff [of "unat w", where 'a = rat] by simp

lemma refill_tokens:
  assumes "bucket_inv b"
  shows "unat (tb_tokens (refill now b)) \<le> min (unat (tb_tokens b) + new_tokens now b) (unat (tb_capacity b))"
  using assms unat_add_le [of "tb_tokens b" "new_tokens now b"]
  by (auto simp: refill_def bucket_inv_def unat_min intro: min.coboundedI1)

text \<open>Below \<open>2^63\<close> new tokens the addition does not wrap.\<close>

lemma refill_keeps_tokens:
  assumes "bucket_inv b" "new_tokens now b < 2 ^ 63"
  shows "unat (tb_tokens b) \<le> unat (tb_tokens (refill now b))"
proof -
  have "unat (tb_tokens b) < 2 ^ 32" using assms(1) unsigned_less [of "tb_capacity b", where 'a = nat] by (simp add: bucket_inv_def)
  then have "unat (tb_tokens b + of_nat (new_tokens now b)) = unat (tb_tokens b) + new_tokens now b"
    using assms(2) by (simp add: unat_word_ariths(1) unat_of_nat)
  then show ?thesis using assms(1) by (simp add: refill_def bucket_inv_def unat_min)
qed

lemma refill_frame [simp]:
  "tb_capacity (refill now b) = tb_capacity b" "tb_rate (refill now b) = tb_rate b"
  by (simp_all add: refill_def)

lemma try_acquire_frame [simp]:
  "tb_capacity (snd (try_acquire now b)) = tb_capacity b" "tb_rate (snd (try_acquire now b)) = tb_rate b"
  by (simp_all add: try_acquire_def Let_def)

lemma try_acquire_tokens:
  assumes "bucket_inv b"
  shows "unat (tb_tokens (snd (try_acquire now b))) + (if fst (try_acquire now b) then 1 else 0) =
     unat (tb_tokens (refill now b))"
proof (cases "tb_tokens (refill now b) = 0")
  case False
  then have "1 \<le> tb_tokens (refill now b)" by (simp add: word_le_nat_alt unat_gt_0 Suc_le_eq)
  with False show ?thesis by (simp add: try_acquire_def Let_def unat_sub word_le_nat_alt)
qed (simp add: try_acquire_def)

lemma bucket_inv_acquire:
  assumes "bucket_inv b"
  shows "bucket_inv (snd (try_acquire now b))"
  using try_acquire_tokens [OF assms, of now] refill_tokens [OF assms, of now] by (simp add: bucket_inv_def split: if_splits)

text \<open>What a bucket earns in a time span, with the slack of the double-precision computation.\<close>

definition earned :: "duration \<Rightarrow> u32 \<Rightarrow> rat" where
  "earned d rate = of_nat d * of_nat (unat rate) / 10 ^ 9 * (1 + 1 / 2 ^ 51)"

lemma earned_add: "earned (d + e) rate = earned d rate + earned e rate"
  by (simp add: earned_def add_divide_distrib distrib_right)

lemma earned_nonneg: "0 \<le> earned d rate"
  by (simp add: earned_def)

lemma unit_roundoff_cube: "(1 + unit_roundoff) ^ 3 \<le> 1 + 1 / 2 ^ 51"
  by (simp add: unit_roundoff_def power3_eq_cube)

lemma new_tokens_zero: "f64_to_u64 (fmul x (Fin 0)) = 0"
  by (cases x) (simp_all add: round64_def finf_def)

lemma tokens_upper_small:
  assumes "d < 2 ^ 100" "rate \<noteq> 0"
  shows "of_nat (f64_to_u64 (fmul (as_secs_f64 d) (f64_of_int (uint rate)))) \<le> earned d rate"
proof -
  let ?k = "of_nat (unat rate) :: rat" and ?u = "1 + unit_roundoff"
  obtain r where r: "as_secs_f64 d = Fin r" "r = 0 \<or> 1 / 10 ^ 10 \<le> r" "r \<le> of_nat d / 10 ^ 9 * ?u ^ 2"
    using as_secs_upper [OF assms(1)] by blast
  have "unat rate < 2 ^ 32" using unsigned_less [of rate, where 'a = nat] by simp
  then have "?k \<le> of_nat (2 ^ 32)" unfolding of_nat_le_iff by simp
  then have k: "1 \<le> ?k" "?k \<le> 2 ^ 32" using assms(2) one_le_of_nat [of "unat rate"] by (simp_all add: unat_eq_zero)
  have e: "f64_of_int (uint rate) = Fin ?k" using unsigned_less [of rate, where 'a = int] f64_of_int_exact [of "uint rate"] by simp
  have r0: "0 \<le> r" using r(2) by (auto intro: order.trans [rotated])
  have rk: "r * ?k \<le> of_nat d / 10 ^ 9 * ?u ^ 2 * ?k" using r(3) by (intro mult_right_mono) simp_all
  obtain t where t: "round64 (r * ?k) = Fin t" "r * ?k / 2 \<le> t" "t \<le> r * ?k * ?u"
  proof (rule round64_between)
    have "2 powi (- 1022) \<le> (1 / 10 ^ 10 :: rat)" by (simp add: power_int_minus_divide)
    moreover have "r * 1 \<le> r * ?k" using k(1) r0 by (rule mult_left_mono)
    ultimately have "1 / 10 ^ 10 \<le> r \<Longrightarrow> 2 powi (- 1022) \<le> r * ?k" by linarith
    then show "r * ?k = 0 \<or> 2 powi (- 1022) \<le> r * ?k" using r(2) by fastforce
    have "(of_nat d :: rat) < of_nat (2 ^ 100)" using assms(1) unfolding of_nat_less_iff .
    then have "(of_nat d :: rat) / 10 ^ 9 \<le> 2 ^ 100" by simp
    then have "of_nat d / 10 ^ 9 * ?u ^ 2 * ?k \<le> 2 ^ 100 * 4 * 2 ^ 32"
      using k by (intro mult_mono) (simp_all add: unit_roundoff_def power2_eq_square)
    also have "\<dots> \<le> (2 powi 1000 :: rat)" by simp
    finally show "r * ?k \<le> 2 powi 1000" using rk by (rule order.trans [rotated])
  qed
  have "t \<le> of_nat d / 10 ^ 9 * ?u ^ 2 * ?k * ?u" using t(3) rk
    by (rule order.trans [OF _ mult_right_mono]) (simp add: unit_roundoff_def)
  also have "\<dots> = of_nat d * ?k / 10 ^ 9 * ?u ^ 3" by (simp add: power2_eq_square power3_eq_cube)
  also have "\<dots> \<le> earned d rate" unfolding earned_def by (intro mult_left_mono unit_roundoff_cube) simp
  finally have "t \<le> earned d rate" .
  moreover have "0 \<le> r * ?k / 2" using r0 by simp
  then have "0 \<le> t" using t(2) by (rule order.trans)
  ultimately show ?thesis using f64_to_u64_upper [of t] r(1) e t(1) by (simp del: f64_to_u64.simps)
qed

lemma tokens_upper: "of_nat (f64_to_u64 (fmul (as_secs_f64 d) (f64_of_int (uint rate)))) \<le> earned d rate"
proof (cases "rate = 0")
  case True
  then show ?thesis using earned_nonneg [of d rate] new_tokens_zero by (simp add: f64_of_int_def round64_def)
next
  case nz: False
  show ?thesis
  proof (cases "d < 2 ^ 100")
    case False
    have "f64_to_u64 x \<le> 2 ^ 64 - 1" for x by (cases x) simp_all
    then have "(of_nat (f64_to_u64 (fmul (as_secs_f64 d) (f64_of_int (uint rate)))) :: rat) \<le> of_nat (2 ^ 64 - 1)"
      unfolding of_nat_le_iff .
    also have "\<dots> \<le> 2 ^ 100 * 1 / 10 ^ 9 * 1" by simp
    also have "\<dots> \<le> earned d rate" unfolding earned_def
    proof (intro mult_mono divide_right_mono)
      show "(2 ^ 100 :: rat) \<le> of_nat d" using False by simp
      show "(1 :: rat) \<le> of_nat (unat rate)" using nz by (intro one_le_of_nat) (simp add: unat_eq_zero)
    qed simp_all
    finally show ?thesis .
  qed (simp add: tokens_upper_small nz)
qed

text \<open>Requests arriving at given times.\<close>

fun serve :: "instant list \<Rightarrow> token_bucket \<Rightarrow> nat \<times> token_bucket" where
  "serve [] b = (0, b)"
| "serve (t # ts) b =
     (let (ok, b1) = try_acquire t b; (n, b2) = serve ts b1 in ((if ok then n + 1 else n), b2))"

text \<open>The budget of a bucket until time \<open>T\<close>: what it holds and what it can still earn.\<close>

definition budget :: "instant \<Rightarrow> token_bucket \<Rightarrow> rat" where
  "budget T b = of_nat (unat (tb_tokens b)) + earned (elapsed T (tb_last_refill b)) (tb_rate b)"

lemma budget_refill:
  assumes "bucket_inv b" "t \<le> T"
  shows "budget T (refill t b) \<le> budget T b"
proof (cases "0 < new_tokens t b")
  case True
  have tok: "(of_nat (unat (tb_tokens (refill t b))) :: rat) \<le> of_nat (unat (tb_tokens b)) + of_nat (new_tokens t b)"
    using refill_tokens [OF assms(1), of t] unfolding of_nat_add [symmetric] of_nat_le_iff by simp
  have new: "of_nat (new_tokens t b) \<le> earned (elapsed t (tb_last_refill b)) (tb_rate b)"
    unfolding new_tokens_def by (rule tokens_upper)
  have "tb_last_refill b \<le> t"
  proof (rule ccontr)
    assume "\<not> tb_last_refill b \<le> t"
    then have "earned (elapsed t (tb_last_refill b)) (tb_rate b) = 0" by (simp add: elapsed_def earned_def)
    with new True show False by simp
  qed
  then have split: "elapsed T (tb_last_refill b) = elapsed t (tb_last_refill b) + elapsed T t"
    using assms(2) by (simp add: elapsed_def)
  have "tb_last_refill (refill t b) = t" using True by (simp add: refill_def)
  then show ?thesis using tok new unfolding budget_def split earned_add by simp
next
  case False
  then show ?thesis by (simp add: refill_def)
qed

lemma budget_acquire:
  assumes "bucket_inv b" "t \<le> T"
  shows "(if fst (try_acquire t b) then 1 else 0) + budget T (snd (try_acquire t b)) \<le> budget T b"
proof -
  have "tb_last_refill (snd (try_acquire t b)) = tb_last_refill (refill t b)"
    by (simp add: try_acquire_def Let_def)
  then have "budget T (snd (try_acquire t b)) + (if fst (try_acquire t b) then 1 else 0) = budget T (refill t b)"
    using arg_cong [OF try_acquire_tokens [OF assms(1), of t], of "of_nat :: nat \<Rightarrow> rat"]
    by (simp add: budget_def split: if_splits)
  then show ?thesis using budget_refill [OF assms] by linarith
qed

lemma serve_budget:
  assumes "bucket_inv b" "\<forall>t \<in> set ts. t \<le> T"
  shows "of_nat (fst (serve ts b)) + budget T (snd (serve ts b)) \<le> budget T b \<and> bucket_inv (snd (serve ts b))"
  using assms
proof (induction ts arbitrary: b)
  case (Cons t ts)
  let ?b1 = "snd (try_acquire t b)"
  have "of_nat (fst (serve ts ?b1)) + budget T (snd (serve ts ?b1)) \<le> budget T ?b1 \<and> bucket_inv (snd (serve ts ?b1))"
    using Cons.prems by (intro Cons.IH) (simp_all add: bucket_inv_acquire)
  moreover have "(if fst (try_acquire t b) then 1 else 0) + budget T ?b1 \<le> budget T b"
    using Cons.prems by (intro budget_acquire) simp_all
  ultimately show ?case by (auto simp: case_prod_unfold Let_def split: if_splits)
qed simp

text \<open>C26: the rate limit holds.  Among any requests arriving at times up to \<open>T\<close>, in whatever order the
  clock readings come, a bucket created at time \<open>t0\<close> admits at most its burst size plus the rate
  times the elapsed time, up to the relative error \<open>2^-51\<close> of the double-precision refill, and never holds more tokens than
  its capacity.\<close>

theorem rate_limit_bound:
  assumes "\<forall>t \<in> set ts. t \<le> T"
  shows "of_nat (fst (serve ts (bucket_new t0 rate cap))) \<le>
           of_nat (unat cap) + of_nat (elapsed T t0) * of_nat (unat rate) / 10 ^ 9 * (1 + 1 / 2 ^ 51 :: rat) \<and>
         unat (tb_tokens (snd (serve ts (bucket_new t0 rate cap)))) \<le> unat cap"
proof -
  have "budget T (bucket_new t0 rate cap) = of_nat (unat cap) + earned (elapsed T t0) rate"
    by (simp add: budget_def bucket_new_def)
  moreover have "tb_capacity (snd (serve ts b)) = tb_capacity b" for b
    by (induction ts arbitrary: b) (simp_all add: case_prod_unfold Let_def)
  moreover have "0 \<le> budget T (snd (serve ts (bucket_new t0 rate cap)))" by (simp add: budget_def earned_nonneg)
  moreover note serve_budget [OF bucket_inv_new assms, of t0 rate cap]
  moreover have "tb_capacity (bucket_new t0 rate cap) = cap" by (simp add: bucket_new_def)
  ultimately show ?thesis unfolding earned_def bucket_inv_def by (metis add.commute add_increasing2 le_diff_eq diff_ge_0_iff_ge order.trans add_le_cancel_right le_add_same_cancel1)
qed

theorem rate_limit_bound_witness:
  "(of_nat (fst (serve [1, 2, 3] (bucket_new 0 0 2))) :: rat) \<le> 2"
  using rate_limit_bound [of "[1, 2, 3]" 3 0 0 2] by simp

text \<open>a client within its burst is never refused: from a full bucket the first \<^verbatim>\<open>burst_size\<close> requests
  are all admitted, at whatever times within 31 years they arrive.\<close>

lemma new_tokens_small:
  assumes "elapsed t (tb_last_refill b) \<le> 10 ^ 18"
  shows "new_tokens t b < 2 ^ 63"
proof -
  have "(of_nat (new_tokens t b) :: rat) \<le> earned (elapsed t (tb_last_refill b)) (tb_rate b)"
    unfolding new_tokens_def by (rule tokens_upper)
  also have "\<dots> \<le> 10 ^ 18 * 2 ^ 32 / 10 ^ 9 * 2" unfolding earned_def
  proof (intro mult_mono divide_right_mono)
    have "(of_nat (elapsed t (tb_last_refill b)) :: rat) \<le> of_nat (10 ^ 18)" using assms unfolding of_nat_le_iff .
    then show "(of_nat (elapsed t (tb_last_refill b)) :: rat) \<le> 10 ^ 18" by simp
    have "unat (tb_rate b) \<le> 2 ^ 32" using unsigned_less [of "tb_rate b", where 'a = nat] by simp
    then have "(of_nat (unat (tb_rate b)) :: rat) \<le> of_nat (2 ^ 32)" unfolding of_nat_le_iff .
    then show "(of_nat (unat (tb_rate b)) :: rat) \<le> 2 ^ 32" by simp
  qed simp_all
  also have "\<dots> < of_nat (2 ^ 63)" by simp
  finally show ?thesis unfolding of_nat_less_iff .
qed

lemma last_refill_advances: "tb_last_refill b \<le> tb_last_refill (snd (try_acquire t b))"
proof -
  have "tb_last_refill b \<le> tb_last_refill (refill t b)"
  proof (cases "tb_last_refill b \<le> t")
    case False
    then have "earned (elapsed t (tb_last_refill b)) (tb_rate b) = 0" by (simp add: elapsed_def earned_def)
    then have "new_tokens t b = 0" using tokens_upper [of "elapsed t (tb_last_refill b)" "tb_rate b"] by (simp add: new_tokens_def)
    then show ?thesis by (simp add: refill_def)
  qed (simp add: refill_def)
  then show ?thesis by (simp add: try_acquire_def Let_def)
qed

lemma serve_full:
  assumes "bucket_inv b" "length ts \<le> unat (tb_tokens b)" "\<forall>t \<in> set ts. t \<le> tb_last_refill b + 10 ^ 18"
  shows "fst (serve ts b) = length ts"
  using assms
proof (induction ts arbitrary: b)
  case (Cons t ts)
  have "elapsed t (tb_last_refill b) \<le> 10 ^ 18" using Cons.prems(3) by (simp add: elapsed_def nat_le_iff)
  then have ge: "unat (tb_tokens b) \<le> unat (tb_tokens (refill t b))"
    by (rule refill_keeps_tokens [OF Cons.prems(1) new_tokens_small])
  then have "tb_tokens (refill t b) \<noteq> 0" using Cons.prems(2) by auto
  then have ok: "fst (try_acquire t b)" by (simp add: try_acquire_def Let_def)
  then have "length ts \<le> unat (tb_tokens (snd (try_acquire t b)))"
    using try_acquire_tokens [OF Cons.prems(1), of t] ge Cons.prems(2) by simp
  moreover have "\<forall>t' \<in> set ts. t' \<le> tb_last_refill (snd (try_acquire t b)) + 10 ^ 18"
    using Cons.prems(3) last_refill_advances [of b t] by force
  ultimately show ?case using Cons.IH [OF bucket_inv_acquire [OF Cons.prems(1)]] ok by (simp add: case_prod_unfold Let_def)
qed simp

theorem burst_is_admitted:
  assumes "length ts \<le> unat cap" "\<forall>t \<in> set ts. t \<le> t0 + 10 ^ 18"
  shows "fst (serve ts (bucket_new t0 rate cap)) = length ts"
  using serve_full [OF bucket_inv_new, of ts t0 rate cap] assms by (simp add: bucket_new_def)

theorem burst_is_admitted_witness:
  "fst (serve [5, 3] (bucket_new 0 1 2)) = 2"
  using burst_is_admitted [of "[5, 3]" 2 0 1] by simp

text \<open>cloning a filter chain drops its filters.  A chain built with a rate limit rejects a request
  without tokens, but its clone passes every request, and an authentication store given to the
  builder is not used at all.\<close>

theorem cloned_chain_does_not_limit:
  "fst (chain_process now r (chain_clone c)) = Continue r \<and>
   chain_build (b \<lparr> fb_auth_store := Some a \<rparr>) = chain_build (b \<lparr> fb_auth_store := None \<rparr>) \<and>
   is_reject (fst (chain_process now r
     (chain_build \<lparr> fb_auth_store = None, fb_rate_limit = Some (rate_limit_config_new 0) \<rparr>)))"
  by (simp add: chain_clone_def chain_build_def chain_builder_new_def passthrough_call_def rate_limit_call_def
      rate_store_new_def store_try_acquire_def get_bucket_def bucket_new_def try_acquire_def refill_def
      new_tokens_def rate_limit_config_new_def reject_with_reason_def Let_def)

end
