(* ===== verification/Scheduler.thy ===== *)
theory Scheduler
  imports LoadBalancer Message
begin

text \<open>
  Scheduled and recurring messages (\<^verbatim>\<open>src/src/store/scheduler.rs\<close>).  Times are UTC instants in
  nanoseconds.  The binary heap is only ever pushed, drained and iterated, never popped, so it is a
  list in the order the heap happens to yield; the theorems hold for every such order.
\<close>

section \<open>Scheduled messages\<close>

datatype schedule_status = SPending | SDelivering | SCompleted | SCancelled | SFailed | SPaused

datatype recurrence_frequency = Minutely | Hourly | Daily | Weekly | Monthly

record recurrence_rule =
  rr_frequency :: recurrence_frequency
  rr_interval :: u32
  rr_days :: "nat list"
  rr_at_time :: "nat option"
  rr_end_date :: "instant option"

definition recurrence_daily :: "u32 \<Rightarrow> recurrence_rule" where
  "recurrence_daily n = \<lparr> rr_frequency = Daily, rr_interval = n, rr_days = [], rr_at_time = None,
     rr_end_date = None \<rparr>"

definition recurrence_weekly :: "nat list \<Rightarrow> recurrence_rule" where
  "recurrence_weekly days = \<lparr> rr_frequency = Weekly, rr_interval = 1, rr_days = days, rr_at_time = None,
     rr_end_date = None \<rparr>"

definition recurrence_monthly :: "u32 \<Rightarrow> recurrence_rule" where
  "recurrence_monthly n = \<lparr> rr_frequency = Monthly, rr_interval = n, rr_days = [], rr_at_time = None,
     rr_end_date = None \<rparr>"

definition recurrence_until :: "instant \<Rightarrow> recurrence_rule \<Rightarrow> recurrence_rule" where
  "recurrence_until e r = r \<lparr> rr_end_date := Some e \<rparr>"

fun period_nanos :: "recurrence_frequency \<Rightarrow> int" where
  "period_nanos Minutely = 60 * 10 ^ 9"
| "period_nanos Hourly = 3600 * 10 ^ 9"
| "period_nanos Daily = 86400 * 10 ^ 9"
| "period_nanos Weekly = 7 * 86400 * 10 ^ 9"
| "period_nanos Monthly = 30 * 86400 * 10 ^ 9"

definition next_from :: "recurrence_rule \<Rightarrow> instant \<Rightarrow> instant" where
  "next_from r t =
     (let nxt = t + period_nanos (rr_frequency r) * int (unat (rr_interval r))
      in case rr_end_date r of
           Some e \<Rightarrow> if nxt > e then e else nxt
         | None \<Rightarrow> nxt)"

record scheduled_message =
  sc_id :: string
  sc_message :: stored_message
  sc_scheduled_at :: instant
  sc_created_at :: instant
  sc_recurrence :: "recurrence_rule option"
  sc_delivery_count :: u32
  sc_max_deliveries :: u32
  sc_status :: schedule_status
  sc_esme_id :: string

text \<open>\<open>counter\<close> is the static counter of \<^verbatim>\<open>ScheduledMessage::new\<close>.\<close>

definition scheduled_new ::
  "instant \<Rightarrow> u64 \<Rightarrow> stored_message \<Rightarrow> instant \<Rightarrow> string \<Rightarrow> scheduled_message \<times> u64" where
  "scheduled_new now counter m t esme =
     (\<lparr> sc_id = ''sched-'' @ show_nat (unat counter), sc_message = m, sc_scheduled_at = t,
        sc_created_at = now, sc_recurrence = None, sc_delivery_count = 0, sc_max_deliveries = 0,
        sc_status = SPending, sc_esme_id = esme \<rparr>, counter + 1)"

definition with_recurrence :: "recurrence_rule \<Rightarrow> scheduled_message \<Rightarrow> scheduled_message" where
  "with_recurrence r m = m \<lparr> sc_recurrence := Some r \<rparr>"

definition with_max_deliveries :: "u32 \<Rightarrow> scheduled_message \<Rightarrow> scheduled_message" where
  "with_max_deliveries n m = m \<lparr> sc_max_deliveries := n \<rparr>"

definition sched_is_ready :: "instant \<Rightarrow> scheduled_message \<Rightarrow> bool" where
  "sched_is_ready now m = (sc_status m = SPending \<and> sc_scheduled_at m \<le> now)"

definition can_repeat :: "scheduled_message \<Rightarrow> bool" where
  "can_repeat m =
     (sc_recurrence m \<noteq> None \<and> (sc_max_deliveries m = 0 \<or> sc_delivery_count m < sc_max_deliveries m))"

definition next_scheduled_time :: "scheduled_message \<Rightarrow> instant option" where
  "next_scheduled_time m = map_option (\<lambda>r. next_from r (sc_scheduled_at m)) (sc_recurrence m)"

definition sched_mark_delivered :: "scheduled_message \<Rightarrow> scheduled_message" where
  "sched_mark_delivered m0 =
     (let m = m0 \<lparr> sc_delivery_count := sc_delivery_count m0 + 1 \<rparr>
      in if can_repeat m then
           (case next_scheduled_time m of
              Some t \<Rightarrow> m \<lparr> sc_scheduled_at := t, sc_status := SPending \<rparr>
            | None \<Rightarrow> m \<lparr> sc_status := SCompleted \<rparr>)
         else m \<lparr> sc_status := SCompleted \<rparr>)"

definition sched_cancel :: "scheduled_message \<Rightarrow> scheduled_message" where
  "sched_cancel m = m \<lparr> sc_status := SCancelled \<rparr>"

section \<open>The scheduler\<close>

record scheduler_config =
  sg_batch_size :: nat
  sg_max_per_esme :: nat
  sg_max_total :: nat

record scheduler_stats =
  sst_total_scheduled :: u64
  sst_total_delivered :: u64
  sst_total_cancelled :: u64
  sst_total_failed :: u64

record scheduler =
  sq_queue :: "scheduled_message list"
  sq_by_esme :: "(string, string list) alist"
  sq_config :: scheduler_config
  sq_stats :: scheduler_stats

definition scheduler_new :: "scheduler_config \<Rightarrow> scheduler" where
  "scheduler_new c =
     \<lparr> sq_queue = [], sq_by_esme = [], sq_config = c,
       sq_stats = \<lparr> sst_total_scheduled = 0, sst_total_delivered = 0, sst_total_cancelled = 0,
                    sst_total_failed = 0 \<rparr> \<rparr>"

datatype scheduler_error = NotFound | TotalLimitExceeded | EsmeLimitExceeded | InvalidTime

definition schedule :: "scheduled_message \<Rightarrow> scheduler \<Rightarrow> (scheduler_error + string) \<times> scheduler" where
  "schedule m s =
     (if sg_max_total (sq_config s) \<le> length (sq_queue s) then (Inl TotalLimitExceeded, s)
      else if (case map_of (sq_by_esme s) (sc_esme_id m) of
                 None \<Rightarrow> False
               | Some ids \<Rightarrow> sg_max_per_esme (sq_config s) \<le> length ids) then (Inl EsmeLimitExceeded, s)
      else
        (Inr (sc_id m),
         s \<lparr> sq_queue := sq_queue s @ [m],
             sq_by_esme := alist_upsert (sc_esme_id m) [] (\<lambda>ids. ids @ [sc_id m]) (sq_by_esme s),
             sq_stats := (sq_stats s) \<lparr> sst_total_scheduled := sst_total_scheduled (sq_stats s) + 1 \<rparr> \<rparr>))"

definition scheduler_cancel :: "string \<Rightarrow> scheduler \<Rightarrow> (scheduler_error + unit) \<times> scheduler" where
  "scheduler_cancel i s =
     (let rest = filter (\<lambda>m. sc_id m \<noteq> i) (sq_queue s);
          s1 = s \<lparr> sq_queue := rest \<rparr>
      in if list_ex (\<lambda>m. sc_id m = i) (sq_queue s) then
           (Inr (), s1 \<lparr> sq_stats := (sq_stats s) \<lparr> sst_total_cancelled := sst_total_cancelled (sq_stats s) + 1 \<rparr> \<rparr>)
         else (Inl NotFound, s1))"

text \<open>The loop of \<^verbatim>\<open>get_due\<close>: \<open>k\<close> is the room left for due messages.\<close>

fun take_due :: "instant \<Rightarrow> nat \<Rightarrow> scheduled_message list \<Rightarrow> scheduled_message list \<times> scheduled_message list" where
  "take_due now k [] = ([], [])"
| "take_due now k (m # ms) =
     (if 0 < k \<and> sc_scheduled_at m \<le> now \<and> sc_status m = SPending then
        (let m1 = m \<lparr> sc_status := SDelivering \<rparr>; (due, q) = take_due now (k - 1) ms
         in (m1 # due, m1 # q))
      else (let (due, q) = take_due now k ms in (due, m # q)))"

definition get_due :: "instant \<Rightarrow> nat \<Rightarrow> scheduler \<Rightarrow> scheduled_message list \<times> scheduler" where
  "get_due now limit s = (let (due, q) = take_due now limit (sq_queue s) in (due, s \<lparr> sq_queue := q \<rparr>))"

definition deliver_one :: "string \<Rightarrow> scheduled_message \<Rightarrow> scheduler \<Rightarrow> scheduler" where
  "deliver_one i m s =
     (if sc_id m = i \<and> sc_status m = SDelivering then
        (let m1 = sched_mark_delivered m
         in if sc_status m1 = SPending then s \<lparr> sq_queue := sq_queue s @ [m1] \<rparr>
            else s \<lparr> sq_by_esme := alist_modify (sc_esme_id m1) (filter (\<lambda>x. x \<noteq> i)) (sq_by_esme s),
                     sq_stats := (sq_stats s) \<lparr> sst_total_delivered := sst_total_delivered (sq_stats s) + 1 \<rparr> \<rparr>)
      else s \<lparr> sq_queue := sq_queue s @ [m] \<rparr>)"

definition scheduler_mark_delivered :: "string \<Rightarrow> scheduler \<Rightarrow> scheduler" where
  "scheduler_mark_delivered i s = fold (deliver_one i) (sq_queue s) (s \<lparr> sq_queue := [] \<rparr>)"

definition scheduler_get :: "string \<Rightarrow> scheduler \<Rightarrow> scheduled_message option" where
  "scheduler_get i s = find (\<lambda>m. sc_id m = i) (sq_queue s)"

definition get_by_esme :: "string \<Rightarrow> scheduler \<Rightarrow> scheduled_message list" where
  "get_by_esme e s = filter (\<lambda>m. sc_esme_id m = e) (sq_queue s)"

definition pending_count :: "scheduler \<Rightarrow> nat" where
  "pending_count s = length (filter (\<lambda>m. sc_status m = SPending) (sq_queue s))"

text \<open>One tick of \<^verbatim>\<open>SchedulerRunner::run\<close>: the due messages are handed to the output channel;
  \<open>accepts\<close> says whether the channel takes a message.\<close>

definition runner_tick ::
  "(scheduled_message \<Rightarrow> bool) \<Rightarrow> instant \<Rightarrow> scheduler \<Rightarrow> stored_message list \<times> scheduler" where
  "runner_tick accepts now s =
     (let (due, s1) = get_due now (sg_batch_size (sq_config s)) s;
          sent = filter accepts due
      in (map sc_message sent, fold (\<lambda>m. scheduler_mark_delivered (sc_id m)) sent s1))"

section \<open>Due messages\<close>

lemma take_due_length: "length (fst (take_due now k ms)) \<le> k"
  by (induction now k ms rule: take_due.induct) (auto simp: case_prod_unfold Let_def)

lemma take_due_ids: "map sc_id (snd (take_due now k ms)) = map sc_id ms"
  by (induction now k ms rule: take_due.induct) (auto simp: case_prod_unfold Let_def)

lemma take_due_sound:
  "m \<in> set (fst (take_due now k ms)) \<Longrightarrow>
     sc_status m = SDelivering \<and> m \<in> set (snd (take_due now k ms)) \<and>
     (\<exists>m0 \<in> set ms. sched_is_ready now m0 \<and> m = m0 \<lparr> sc_status := SDelivering \<rparr>)"
  by (induction now k ms rule: take_due.induct)
     (auto simp: case_prod_unfold Let_def sched_is_ready_def split: if_splits)

lemma take_due_complete:
  "length (filter (sched_is_ready now) ms) \<le> k \<Longrightarrow>
     length (fst (take_due now k ms)) = length (filter (sched_is_ready now) ms)"
  by (induction now k ms rule: take_due.induct) (auto simp: case_prod_unfold Let_def sched_is_ready_def)

text \<open>C38: no scheduled message is handed out twice.  \<^verbatim>\<open>get_due\<close> returns at most the limit, every
  returned message was pending and due, all of them are returned when the limit allows it, and a
  second call at any time returns none of them again while they are being delivered.\<close>

theorem due_messages_handed_out_once:
  assumes ids: "distinct (map sc_id (sq_queue s))" and d1: "get_due now limit s = (due1, s1)"
    and d2: "get_due now' limit' s1 = (due2, s2)"
  shows "length due1 \<le> limit \<and>
    (\<forall>m \<in> set due1. \<exists>m0 \<in> set (sq_queue s). sched_is_ready now m0 \<and> m = m0 \<lparr> sc_status := SDelivering \<rparr>) \<and>
    (length (filter (sched_is_ready now) (sq_queue s)) \<le> limit \<longrightarrow>
       length due1 = length (filter (sched_is_ready now) (sq_queue s))) \<and>
    sc_id ` set due1 \<inter> sc_id ` set due2 = {}"
proof -
  have t1: "due1 = fst (take_due now limit (sq_queue s))" "sq_queue s1 = snd (take_due now limit (sq_queue s))"
    using d1 by (auto simp: get_due_def case_prod_unfold Let_def)
  have t2: "due2 = fst (take_due now' limit' (sq_queue s1))"
    using d2 by (auto simp: get_due_def case_prod_unfold Let_def)
  have dist: "distinct (map sc_id (sq_queue s1))" using ids by (simp add: t1 take_due_ids)
  have "False" if mx: "m \<in> set due1" "x \<in> set due2" "sc_id m = sc_id x" for m x
  proof -
    have m: "m \<in> set (sq_queue s1)" "sc_status m = SDelivering"
      using take_due_sound mx(1) unfolding t1 by blast+
    obtain x0 where x0: "x0 \<in> set (sq_queue s1)" "sc_status x0 = SPending" "sc_id x = sc_id x0"
      using take_due_sound [of x now' limit' "sq_queue s1"] mx(2) t2 by (auto simp: sched_is_ready_def)
    have "m = x0" using dist m(1) x0(1,3) mx(3) by (metis distinct_map inj_onD)
    then show False using m(2) x0(2) by simp
  qed
  then show ?thesis
    using take_due_length take_due_sound take_due_complete unfolding t1 by blast
qed

definition sample_scheduled :: "string \<Rightarrow> instant \<Rightarrow> scheduled_message" where
  "sample_scheduled i t =
     (fst (scheduled_new 0 0 (stored_message_new \<lparr>ck_now = 0, ck_wall = 0\<rparr> (MessageId 1) ''1'' ''2'' [] ''e'' 1) t ''e''))
       \<lparr> sc_id := i \<rparr>"

lemma sample_scheduled_simps [simp]:
  "sc_id (sample_scheduled i t) = i" "sc_scheduled_at (sample_scheduled i t) = t"
  "sc_status (sample_scheduled i t) = SPending" "sc_esme_id (sample_scheduled i t) = ''e''"
  by (simp_all add: sample_scheduled_def scheduled_new_def)

definition sample_scheduler :: scheduler where
  "sample_scheduler =
     (scheduler_new \<lparr> sg_batch_size = 10, sg_max_per_esme = 1, sg_max_total = 5 \<rparr>)
       \<lparr> sq_queue := [sample_scheduled ''a'' 1, sample_scheduled ''b'' 2] \<rparr>"

theorem due_messages_handed_out_once_witness:
  "let (due1, s1) = get_due 5 1 sample_scheduler; (due2, s2) = get_due 6 9 s1
   in sc_id ` set due1 \<inter> sc_id ` set due2 = {} \<and> length due1 = 1 \<and> length due2 = 1"
proof -
  let ?d1 = "get_due 5 1 sample_scheduler"
  let ?d2 = "get_due 6 9 (snd ?d1)"
  have ids: "distinct (map sc_id (sq_queue sample_scheduler))" by (simp add: sample_scheduler_def)
  have "sc_id ` set (fst ?d1) \<inter> sc_id ` set (fst ?d2) = {}"
    using due_messages_handed_out_once [OF ids, of 5 1 "fst ?d1" "snd ?d1" 6 9 "fst ?d2" "snd ?d2"] by simp
  moreover have "length (fst ?d1) = 1" "length (fst ?d2) = 1"
    by (simp_all add: get_due_def sample_scheduler_def Let_def)
  ultimately show ?thesis by (simp add: case_prod_unfold)
qed

section \<open>Recurrence\<close>

lemma next_from_after:
  assumes "0 < rr_interval r" "rr_end_date r = None"
  shows "t < next_from r t"
proof -
  have "0 < unat (rr_interval r)" using assms(1) by (simp add: word_less_nat_alt)
  then have "0 < int (unat (rr_interval r))" by (simp only: of_nat_0_less_iff)
  then have "0 < period_nanos (rr_frequency r) * int (unat (rr_interval r))"
    by (cases "rr_frequency r") simp_all
  then show ?thesis using assms(2) by (simp add: next_from_def)
qed

lemma mark_delivered_fields:
  "sc_delivery_count (sched_mark_delivered m) = sc_delivery_count m + 1"
  "sc_max_deliveries (sched_mark_delivered m) = sc_max_deliveries m"
  "sc_recurrence (sched_mark_delivered m) = sc_recurrence m"
  "sc_id (sched_mark_delivered m) = sc_id m"
  by (simp_all add: sched_mark_delivered_def Let_def split: option.splits)

lemma mark_delivered_status:
  "sc_status (sched_mark_delivered m) =
     (if sc_recurrence m \<noteq> None \<and> (sc_max_deliveries m = 0 \<or> sc_delivery_count m + 1 < sc_max_deliveries m)
      then SPending else SCompleted)"
  by (auto simp: sched_mark_delivered_def can_repeat_def next_scheduled_time_def Let_def split: option.splits)

lemma iterate_fields:
  "sc_max_deliveries ((sched_mark_delivered ^^ k) m) = sc_max_deliveries m \<and>
   sc_recurrence ((sched_mark_delivered ^^ k) m) = sc_recurrence m \<and>
   sc_delivery_count ((sched_mark_delivered ^^ k) m) = sc_delivery_count m + of_nat k"
  by (induction k) (simp_all add: mark_delivered_fields)

text \<open>a recurring message is delivered exactly \<^verbatim>\<open>max_deliveries\<close> times.  With a positive maximum
  \<open>n\<close>, it is pending again after each of the first \<open>n - 1\<close> deliveries and completed after the \<open>n\<close>th.\<close>

theorem recurrence_delivers_max_times:
  assumes "sc_recurrence m = Some r" "sc_delivery_count m = 0" "0 < k" "k \<le> unat (sc_max_deliveries m)"
  shows "sc_status ((sched_mark_delivered ^^ k) m) =
     (if k < unat (sc_max_deliveries m) then SPending else SCompleted)"
proof -
  obtain j where j: "k = Suc j" using assms(3) by (metis gr0_implies_Suc)
  let ?mj = "(sched_mark_delivered ^^ j) m"
  have cnt: "unat (sc_delivery_count ?mj + 1) = k"
  proof -
    have "sc_delivery_count ?mj + 1 = (of_nat k :: u32)" using iterate_fields [of j m] assms(2) j by simp
    moreover have "k < 2 ^ 32"
      using assms(4) unsigned_less [of "sc_max_deliveries m", where 'a = nat] by simp
    ultimately show ?thesis using unat_of_nat_small [of k, where 'a = 32] by simp
  qed
  have nz: "sc_max_deliveries m \<noteq> 0" using assms(3,4) by auto
  have "sc_status (sched_mark_delivered ?mj) =
      (if sc_delivery_count ?mj + 1 < sc_max_deliveries m then SPending else SCompleted)"
    using iterate_fields [of j m] assms(1) nz by (simp add: mark_delivered_status)
  then show ?thesis using cnt by (simp add: j word_less_nat_alt)
qed

theorem recurrence_delivers_max_times_witness:
  "sc_status ((sched_mark_delivered ^^ 2)
     (with_max_deliveries 2 (with_recurrence (recurrence_daily 1) (sample_scheduled ''a'' 1)))) = SCompleted"
  using recurrence_delivers_max_times
    [of "with_max_deliveries 2 (with_recurrence (recurrence_daily 1) (sample_scheduled ''a'' 1))" "recurrence_daily 1" 2]
  by (simp add: with_max_deliveries_def with_recurrence_def sample_scheduled_def scheduled_new_def)

text \<open>a recurrence with an end date never ends.  \<^verbatim>\<open>next_from\<close> clamps to the end date, so once a
  message without a delivery limit is scheduled at its end date every further delivery schedules it
  there again: it stays pending and, from that moment on, due at every tick.\<close>

theorem end_date_repeats_forever:
  assumes "sc_recurrence m = Some r" "rr_end_date r = Some e" "sc_scheduled_at m = e"
    and "sc_max_deliveries m = 0" "e \<le> now" "0 < k"
  shows "sc_scheduled_at ((sched_mark_delivered ^^ k) m) = e \<and>
         sched_is_ready now ((sched_mark_delivered ^^ k) m)"
proof -
  have step: "sc_scheduled_at (sched_mark_delivered x) = e \<and> sc_status (sched_mark_delivered x) = SPending"
    if "sc_recurrence x = Some r" "sc_scheduled_at x = e" "sc_max_deliveries x = 0" for x
  proof -
    have "0 \<le> period_nanos (rr_frequency r) * int (unat (rr_interval r))" by (cases "rr_frequency r") simp_all
    then have "next_from r e = e" using assms(2) by (simp add: next_from_def)
    then show ?thesis
      using that by (simp add: sched_mark_delivered_def can_repeat_def next_scheduled_time_def Let_def)
  qed
  have "sc_scheduled_at ((sched_mark_delivered ^^ j) m) = e" for j
    using iterate_fields assms by (induction j) (simp_all add: step)
  then have "sc_scheduled_at ((sched_mark_delivered ^^ Suc j) m) = e \<and>
      sc_status ((sched_mark_delivered ^^ Suc j) m) = SPending" for j
    using step iterate_fields assms by simp
  with assms(5,6) show ?thesis by (cases k) (simp_all add: sched_is_ready_def)
qed

theorem end_date_repeats_forever_witness:
  "sched_is_ready 100 ((sched_mark_delivered ^^ 1000)
     (with_recurrence (recurrence_until 7 (recurrence_daily 1)) (sample_scheduled ''a'' 7)))"
  using end_date_repeats_forever
    [of "with_recurrence (recurrence_until 7 (recurrence_daily 1)) (sample_scheduled ''a'' 7)"
        "recurrence_until 7 (recurrence_daily 1)" 7 100 1000]
  by (simp add: with_recurrence_def recurrence_until_def sample_scheduled_def scheduled_new_def)

section \<open>Limits\<close>

definition scheduler_inv :: "scheduler \<Rightarrow> bool" where
  "scheduler_inv s =
     (length (sq_queue s) \<le> sg_max_total (sq_config s) \<and>
      (\<forall>e ids. map_of (sq_by_esme s) e = Some ids \<longrightarrow> length ids \<le> max 1 (sg_max_per_esme (sq_config s))))"

lemma inv_schedule:
  assumes "scheduler_inv s"
  shows "scheduler_inv (snd (schedule m s))"
  using assms
  by (auto simp: schedule_def scheduler_inv_def map_of_upsert not_le split: option.splits if_splits)

lemma inv_cancel: "scheduler_inv s \<Longrightarrow> scheduler_inv (snd (scheduler_cancel i s))"
  by (auto simp: scheduler_cancel_def scheduler_inv_def Let_def intro: order.trans [OF length_filter_le])

lemma inv_get_due: "scheduler_inv s \<Longrightarrow> scheduler_inv (snd (get_due now k s))"
  using arg_cong [OF take_due_ids [of now k "sq_queue s"], of length]
  by (simp add: get_due_def scheduler_inv_def case_prod_unfold Let_def)

lemma deliver_one_keeps:
  "sq_config (deliver_one i m s) = sq_config s \<and> length (sq_queue (deliver_one i m s)) \<le> Suc (length (sq_queue s)) \<and>
   (\<forall>e ids. map_of (sq_by_esme (deliver_one i m s)) e = Some ids \<longrightarrow>
      (\<exists>ids0. map_of (sq_by_esme s) e = Some ids0 \<and> length ids \<le> length ids0))"
  by (auto simp: deliver_one_def Let_def map_of_modify length_filter_le)

lemma deliver_fold_keeps:
  "sq_config (fold (deliver_one i) ms s) = sq_config s \<and>
   length (sq_queue (fold (deliver_one i) ms s)) \<le> length ms + length (sq_queue s) \<and>
   (\<forall>e ids. map_of (sq_by_esme (fold (deliver_one i) ms s)) e = Some ids \<longrightarrow>
      (\<exists>ids0. map_of (sq_by_esme s) e = Some ids0 \<and> length ids \<le> length ids0))"
proof (induction ms arbitrary: s)
  case (Cons m ms)
  show ?case
    using Cons.IH [of "deliver_one i m s"] deliver_one_keeps [of i m s]
    by (auto intro: order.trans) (meson order.trans)
qed auto

lemma inv_mark_delivered: "scheduler_inv s \<Longrightarrow> scheduler_inv (scheduler_mark_delivered i s)"
  using deliver_fold_keeps [of i "sq_queue s" "s \<lparr> sq_queue := [] \<rparr>"]
  by (auto simp: scheduler_mark_delivered_def scheduler_inv_def) (meson order.trans)

lemmas scheduler_invs = inv_schedule inv_cancel inv_get_due inv_mark_delivered

inductive sched_step :: "scheduler \<Rightarrow> scheduler \<Rightarrow> bool" where
  do_schedule: "sched_step s (snd (schedule m s))"
| do_cancel: "sched_step s (snd (scheduler_cancel i s))"
| do_due: "sched_step s (snd (get_due now k s))"
| do_deliver: "sched_step s (scheduler_mark_delivered i s)"

text \<open>the limits hold in every reachable state: the queue never exceeds \<^verbatim>\<open>max_total\<close>, and the index
  of an ESME never holds more than \<^verbatim>\<open>max_per_esme\<close> ids (one id even when that limit is zero, since
  the check is skipped for an ESME without an entry).\<close>

theorem scheduler_limits_hold:
  assumes "sched_step\<^sup>*\<^sup>* (scheduler_new c) s"
  shows "scheduler_inv s"
  using assms
proof (induction rule: rtranclp_induct)
  case base
  then show ?case by (simp add: scheduler_inv_def scheduler_new_def)
next
  case (step s s')
  from step(2,3) show ?case by (induction rule: sched_step.induct) (simp_all add: scheduler_invs)
qed

theorem scheduler_limits_hold_witness:
  "scheduler_inv (snd (schedule (sample_scheduled ''a'' 1)
     (scheduler_new \<lparr> sg_batch_size = 10, sg_max_per_esme = 1, sg_max_total = 5 \<rparr>)))"
  by (rule scheduler_limits_hold, rule r_into_rtranclp, rule do_schedule)

text \<open>cancelling leaks the quota.  \<^verbatim>\<open>cancel\<close> removes the message from the queue but not from the
  index its limit is checked against, so with a limit of one an ESME that scheduled and cancelled a
  message can never schedule again although nothing is queued.\<close>

theorem cancel_leaks_quota:
  "let s0 = scheduler_new \<lparr> sg_batch_size = 10, sg_max_per_esme = 1, sg_max_total = 5 \<rparr>;
       s1 = snd (schedule (sample_scheduled ''a'' 1) s0);
       s2 = snd (scheduler_cancel ''a'' s1)
   in sq_queue s2 = [] \<and> fst (scheduler_cancel ''a'' s1) = Inr () \<and>
      fst (schedule (sample_scheduled ''b'' 2) s2) = Inl EsmeLimitExceeded"
  by (simp add: Let_def scheduler_new_def schedule_def scheduler_cancel_def alist_upsert_def)

end
