(* ===== verification/Esme.thy ===== *)
theory Esme
  imports Prelude
begin

text \<open>
  Multi-tenant ESME accounts (\<^verbatim>\<open>src/src/filter/esme.rs\<close>): status, quotas, allow and deny lists,
  the in-memory store with its system-id index, authentication and usage statistics.  Hash sets are
  lists read by membership; money amounts (\<^verbatim>\<open>i64\<close>) are integers.
\<close>

section \<open>Accounts\<close>

datatype esme_status = EActive | ESuspended | EDisabled | ETrial | EQuotaExceeded

fun status_can_send :: "esme_status \<Rightarrow> bool" where
  "status_can_send EActive = True" | "status_can_send ETrial = True" | "status_can_send _ = False"

record country_pricing =
  cp_cost :: int
  cp_price :: int

record pricing_tier =
  pt_name :: string
  pt_cost_per_message :: int
  pt_price_per_message :: int
  pt_currency :: string
  pt_country_pricing :: "(string, country_pricing) alist"

definition pricing_tier_default :: pricing_tier where
  "pricing_tier_default = \<lparr> pt_name = ''default'', pt_cost_per_message = 10, pt_price_per_message = 25, pt_currency = ''MZN'',
     pt_country_pricing = [] \<rparr>"

record esme_rate_limit =
  el_messages_per_second :: u32
  el_messages_per_minute :: u32
  el_messages_per_hour :: u32
  el_messages_per_day :: u32
  el_max_connections :: u32
  el_window_size_secs :: u64

definition esme_rate_limit_default :: esme_rate_limit where
  "esme_rate_limit_default = \<lparr> el_messages_per_second = 100, el_messages_per_minute = 5000,
     el_messages_per_hour = 100000, el_messages_per_day = 1000000, el_max_connections = 10,
     el_window_size_secs = 60 \<rparr>"

record esme_quota =
  qu_monthly_messages :: u64
  qu_monthly_spend :: int
  qu_daily_messages :: u64
  qu_current_monthly_messages :: u64
  qu_current_monthly_spend :: int
  qu_current_daily_messages :: u64

definition esme_quota_default :: esme_quota where
  "esme_quota_default = \<lparr> qu_monthly_messages = 0, qu_monthly_spend = 0, qu_daily_messages = 0,
     qu_current_monthly_messages = 0, qu_current_monthly_spend = 0, qu_current_daily_messages = 0 \<rparr>"

definition quota_is_exceeded :: "esme_quota \<Rightarrow> bool" where
  "quota_is_exceeded q =
     (if 0 < qu_monthly_messages q \<and> qu_monthly_messages q \<le> qu_current_monthly_messages q then True
      else if 0 < qu_monthly_spend q \<and> qu_monthly_spend q \<le> qu_current_monthly_spend q then True
      else if 0 < qu_daily_messages q \<and> qu_daily_messages q \<le> qu_current_daily_messages q then True
      else False)"

definition remaining_monthly :: "esme_quota \<Rightarrow> u64 option" where
  "remaining_monthly q =
     (if 0 < qu_monthly_messages q
      then Some (saturating_sub (qu_monthly_messages q) (qu_current_monthly_messages q)) else None)"

definition remaining_daily :: "esme_quota \<Rightarrow> u64 option" where
  "remaining_daily q =
     (if 0 < qu_daily_messages q
      then Some (saturating_sub (qu_daily_messages q) (qu_current_daily_messages q)) else None)"

record esme_routing =
  er_preferred_cluster :: "string option"
  er_blocked_clusters :: "string list"
  er_country_routes :: "(string, string) alist"
  er_priority :: int

definition esme_routing_default :: esme_routing where
  "esme_routing_default = \<lparr> er_preferred_cluster = None, er_blocked_clusters = [],
     er_country_routes = [], er_priority = 0 \<rparr>"

record esme_firewall =
  ef_destination_allow_list :: "string list option"
  ef_destination_deny_list :: "string list"
  ef_sender_allow_list :: "string list option"
  ef_sender_deny_list :: "string list"
  ef_country_allow_list :: "string list option"
  ef_country_deny_list :: "string list"
  ef_content_filter_enabled :: bool
  ef_block_premium_rate :: bool

definition esme_firewall_default :: esme_firewall where
  "esme_firewall_default = \<lparr> ef_destination_allow_list = None, ef_destination_deny_list = [],
     ef_sender_allow_list = None, ef_sender_deny_list = [], ef_country_allow_list = None,
     ef_country_deny_list = [], ef_content_filter_enabled = True, ef_block_premium_rate = True \<rparr>"

record esme_credentials =
  ek_system_id :: string
  ek_password :: string
  ek_ip_allow_list :: "string list option"
  ek_require_tls :: bool

record esme =
  es_id :: string
  es_name :: string
  es_status :: esme_status
  es_credentials :: esme_credentials
  es_pricing :: pricing_tier
  es_rate_limits :: esme_rate_limit
  es_quota :: esme_quota
  es_routing :: esme_routing
  es_firewall :: esme_firewall
  es_metadata :: "(string, string) alist"
  es_created_at :: string
  es_modified_at :: string
  es_contact_email :: "string option"
  es_callback_url :: "string option"

text \<open>\<open>now\<close> is the current time in RFC 3339 format.\<close>

definition esme_new :: "string \<Rightarrow> string \<Rightarrow> string \<Rightarrow> string \<Rightarrow> string \<Rightarrow> esme" where
  "esme_new now i name sys pw =
     \<lparr> es_id = i, es_name = name, es_status = EActive,
       es_credentials = \<lparr> ek_system_id = sys, ek_password = pw, ek_ip_allow_list = None, ek_require_tls = False \<rparr>,
       es_pricing = pricing_tier_default, es_rate_limits = esme_rate_limit_default,
       es_quota = esme_quota_default, es_routing = esme_routing_default,
       es_firewall = esme_firewall_default, es_metadata = [], es_created_at = now, es_modified_at = now,
       es_contact_email = None, es_callback_url = None \<rparr>"

definition esme_can_send :: "esme \<Rightarrow> bool" where
  "esme_can_send e = (status_can_send (es_status e) \<and> \<not> quota_is_exceeded (es_quota e))"

definition is_destination_allowed :: "string \<Rightarrow> esme \<Rightarrow> bool" where
  "is_destination_allowed dest e =
     (if list_ex (starts_with dest) (ef_destination_deny_list (es_firewall e)) then False
      else case ef_destination_allow_list (es_firewall e) of
             Some allow \<Rightarrow> list_ex (starts_with dest) allow
           | None \<Rightarrow> True)"

definition is_sender_allowed :: "string \<Rightarrow> esme \<Rightarrow> bool" where
  "is_sender_allowed sender e =
     (if sender \<in> set (ef_sender_deny_list (es_firewall e)) then False
      else case ef_sender_allow_list (es_firewall e) of
             Some allow \<Rightarrow> sender \<in> set allow
           | None \<Rightarrow> True)"

definition esme_is_ip_allowed :: "string \<Rightarrow> esme \<Rightarrow> bool" where
  "esme_is_ip_allowed a e =
     (case ek_ip_allow_list (es_credentials e) of Some allow \<Rightarrow> a \<in> set allow | None \<Rightarrow> True)"

definition esme_get_pricing :: "string option \<Rightarrow> esme \<Rightarrow> int \<times> int" where
  "esme_get_pricing country e =
     (case Option.bind country (map_of (pt_country_pricing (es_pricing e))) of
        Some p \<Rightarrow> (cp_cost p, cp_price p)
      | None \<Rightarrow> (pt_cost_per_message (es_pricing e), pt_price_per_message (es_pricing e)))"

definition get_preferred_cluster :: "string option \<Rightarrow> esme \<Rightarrow> string option" where
  "get_preferred_cluster country e =
     (case Option.bind country (map_of (er_country_routes (es_routing e))) of
        Some c \<Rightarrow> Some c
      | None \<Rightarrow> er_preferred_cluster (es_routing e))"

definition esme_record_message :: "int \<Rightarrow> esme \<Rightarrow> esme" where
  "esme_record_message cost e =
     e \<lparr> es_quota := (es_quota e)
           \<lparr> qu_current_daily_messages := qu_current_daily_messages (es_quota e) + 1,
             qu_current_monthly_messages := qu_current_monthly_messages (es_quota e) + 1,
             qu_current_monthly_spend := qu_current_monthly_spend (es_quota e) + cost \<rparr> \<rparr>"

section \<open>The in-memory store\<close>

record esme_store =
  et_esmes :: "(string, esme) alist"
  et_index :: "(string, string) alist"

definition esme_store_new :: esme_store where
  "esme_store_new = \<lparr> et_esmes = [], et_index = [] \<rparr>"

definition esme_get :: "string \<Rightarrow> esme_store \<Rightarrow> esme option" where
  "esme_get i st = map_of (et_esmes st) i"

definition get_by_system_id :: "string \<Rightarrow> esme_store \<Rightarrow> esme option" where
  "get_by_system_id sys st =
     (case map_of (et_index st) sys of Some i \<Rightarrow> esme_get i st | None \<Rightarrow> None)"

definition esme_save :: "esme \<Rightarrow> esme_store \<Rightarrow> esme_store" where
  "esme_save e st =
     (let index1 = (case map_of (et_esmes st) (es_id e) of
                      Some old \<Rightarrow> AList.delete (ek_system_id (es_credentials old)) (et_index st)
                    | None \<Rightarrow> et_index st)
      in st \<lparr> et_index := AList.update (ek_system_id (es_credentials e)) (es_id e) index1,
              et_esmes := AList.update (es_id e) e (et_esmes st) \<rparr>)"

definition esme_delete :: "string \<Rightarrow> esme_store \<Rightarrow> (string + unit) \<times> esme_store" where
  "esme_delete i st =
     (case map_of (et_esmes st) i of
        Some e \<Rightarrow> (Inr (), st \<lparr> et_esmes := AList.delete i (et_esmes st),
                               et_index := AList.delete (ek_system_id (es_credentials e)) (et_index st) \<rparr>)
      | None \<Rightarrow> (Inl (''ESME not found: '' @ i), st))"

definition with_esmes :: "esme list \<Rightarrow> esme_store" where
  "with_esmes es = fold esme_save es esme_store_new"

definition active_esmes :: "esme_store \<Rightarrow> esme list" where
  "active_esmes st = filter (\<lambda>e. status_can_send (es_status e)) (map_values (et_esmes st))"

definition reset_daily_quotas :: "esme_store \<Rightarrow> esme_store" where
  "reset_daily_quotas st =
     st \<lparr> et_esmes := map (\<lambda>(k, e). (k, e \<lparr> es_quota := (es_quota e) \<lparr> qu_current_daily_messages := 0 \<rparr> \<rparr>)) (et_esmes st) \<rparr>"

definition reset_monthly_quotas :: "esme_store \<Rightarrow> esme_store" where
  "reset_monthly_quotas st =
     st \<lparr> et_esmes := map (\<lambda>(k, e). (k, e \<lparr> es_quota := (es_quota e)
            \<lparr> qu_current_monthly_messages := 0, qu_current_monthly_spend := 0 \<rparr> \<rparr>)) (et_esmes st) \<rparr>"

datatype auth_result =
    AuthSuccess esme | InvalidCredentials | AuthNotFound | AuthSuspended esme_status | IpNotAllowed | TlsRequired

definition authenticate :: "string \<Rightarrow> string \<Rightarrow> string option \<Rightarrow> esme_store \<Rightarrow> auth_result" where
  "authenticate sys pw client_ip st =
     (case get_by_system_id sys st of
        None \<Rightarrow> AuthNotFound
      | Some e \<Rightarrow>
          if \<not> status_can_send (es_status e) then AuthSuspended (es_status e)
          else if ek_password (es_credentials e) \<noteq> pw then InvalidCredentials
          else (case client_ip of
                  Some a \<Rightarrow> if \<not> esme_is_ip_allowed a e then IpNotAllowed else AuthSuccess e
                | None \<Rightarrow> AuthSuccess e))"

section \<open>Usage statistics\<close>

text \<open>The floating-point field \<^verbatim>\<open>current_rate\<close>, which no operation writes, is left out.\<close>

record usage_stats =
  us_esme_id :: string
  us_total_messages :: u64
  us_delivered_messages :: u64
  us_failed_messages :: u64
  us_total_cost :: int
  us_total_revenue :: int
  us_avg_latency_ms :: u64

definition usage_stats_new :: "string \<Rightarrow> usage_stats" where
  "usage_stats_new i = \<lparr> us_esme_id = i, us_total_messages = 0, us_delivered_messages = 0,
     us_failed_messages = 0, us_total_cost = 0, us_total_revenue = 0, us_avg_latency_ms = 0 \<rparr>"

definition usage_update :: "int \<Rightarrow> int \<Rightarrow> bool \<Rightarrow> u64 \<Rightarrow> usage_stats \<Rightarrow> usage_stats" where
  "usage_update cost revenue delivered latency u0 =
     (let u = u0 \<lparr> us_total_messages := us_total_messages u0 + 1,
                   us_delivered_messages := us_delivered_messages u0 + (if delivered then 1 else 0),
                   us_failed_messages := us_failed_messages u0 + (if delivered then 0 else 1),
                   us_total_cost := us_total_cost u0 + cost,
                   us_total_revenue := us_total_revenue u0 + revenue \<rparr>;
          total = us_delivered_messages u + us_failed_messages u
      in u \<lparr> us_avg_latency_ms := (us_avg_latency_ms u * (total - 1) + latency) div total \<rparr>)"

definition manager_record_message ::
  "string \<Rightarrow> int \<Rightarrow> int \<Rightarrow> bool \<Rightarrow> u64 \<Rightarrow> (string, usage_stats) alist \<Rightarrow> (string, usage_stats) alist" where
  "manager_record_message i cost revenue delivered latency stats =
     alist_upsert i (usage_stats_new i) (usage_update cost revenue delivered latency) stats"

section \<open>The index\<close>

text \<open>Every index entry points to an account with that system id.\<close>

definition index_sound :: "esme_store \<Rightarrow> bool" where
  "index_sound st =
     (\<forall>sys i. map_of (et_index st) sys = Some i \<longrightarrow>
        (\<exists>e. map_of (et_esmes st) i = Some e \<and> ek_system_id (es_credentials e) = sys))"

text \<open>Every account is found by its system id, under the key it is stored with.\<close>

definition index_complete :: "esme_store \<Rightarrow> bool" where
  "index_complete st =
     (\<forall>i e. map_of (et_esmes st) i = Some e \<longrightarrow>
        map_of (et_index st) (ek_system_id (es_credentials e)) = Some i)"

lemma index_soundE:
  assumes "index_sound st" "map_of (et_index st) s = Some i"
  obtains e where "map_of (et_esmes st) i = Some e" "ek_system_id (es_credentials e) = s"
  using assms unfolding index_sound_def by blast

lemma index_save:
  "map_of (et_index (esme_save e st)) s =
     (if s = ek_system_id (es_credentials e) then Some (es_id e)
      else if (\<exists>old. map_of (et_esmes st) (es_id e) = Some old \<and> s = ek_system_id (es_credentials old)) then None
      else map_of (et_index st) s)"
  by (auto simp: esme_save_def Let_def map_of_update map_of_delete split: option.splits)

lemma esmes_save:
  "map_of (et_esmes (esme_save e st)) i = (if i = es_id e then Some e else map_of (et_esmes st) i)"
  by (simp add: esme_save_def Let_def map_of_update)

lemma sound_save:
  assumes "index_sound st"
  shows "index_sound (esme_save e st)"
  unfolding index_sound_def
proof (intro allI impI)
  fix s i assume l: "map_of (et_index (esme_save e st)) s = Some i"
  show "\<exists>x. map_of (et_esmes (esme_save e st)) i = Some x \<and> ek_system_id (es_credentials x) = s"
  proof (cases "s = ek_system_id (es_credentials e)")
    case True
    then show ?thesis using l by (simp add: index_save esmes_save)
  next
    case False
    then have old: "map_of (et_index st) s = Some i"
      "\<nexists>old. map_of (et_esmes st) (es_id e) = Some old \<and> s = ek_system_id (es_credentials old)"
      using l by (auto simp: index_save split: if_splits)
    then obtain x where x: "map_of (et_esmes st) i = Some x" "ek_system_id (es_credentials x) = s"
      using index_soundE [OF assms old(1)] by blast
    with old(2) have "i \<noteq> es_id e" by auto
    with x show ?thesis by (simp add: esmes_save)
  qed
qed

lemma sound_delete:
  assumes "index_sound st"
  shows "index_sound (snd (esme_delete i st))"
proof (cases "map_of (et_esmes st) i")
  case (Some e)
  have "s = ek_system_id (es_credentials e)" if "map_of (et_index st) s = Some i" for s
    using index_soundE [OF assms that] Some by auto
  with assms Some show ?thesis
    by (fastforce simp: index_sound_def esme_delete_def map_of_delete split: if_splits)
qed (use assms in \<open>simp add: esme_delete_def\<close>)

lemma complete_save:
  assumes "index_complete st"
    and "\<And>i x. map_of (et_esmes st) i = Some x \<Longrightarrow> i \<noteq> es_id e \<Longrightarrow>
           ek_system_id (es_credentials x) \<noteq> ek_system_id (es_credentials e)"
  shows "index_complete (esme_save e st)"
proof -
  have other: "ek_system_id (es_credentials x) \<noteq> ek_system_id (es_credentials old)"
    if "map_of (et_esmes st) i = Some x" "map_of (et_esmes st) (es_id e) = Some old" "i \<noteq> es_id e" for i x old
    using assms(1) that unfolding index_complete_def by (metis option.inject)
  show ?thesis
    using assms other unfolding index_complete_def esme_save_def Let_def
    by (auto simp: map_of_update map_of_delete split: option.splits)
qed

lemma complete_delete:
  assumes "index_complete st"
  shows "index_complete (snd (esme_delete i st))"
proof (cases "map_of (et_esmes st) i")
  case (Some e)
  have "ek_system_id (es_credentials x) \<noteq> ek_system_id (es_credentials e)"
    if "map_of (et_esmes st) j = Some x" "j \<noteq> i" for j x
    using assms that Some unfolding index_complete_def by (metis option.inject)
  with assms Some show ?thesis by (auto simp: index_complete_def esme_delete_def map_of_delete)
qed (use assms in \<open>simp add: esme_delete_def\<close>)

inductive esme_step :: "esme_store \<Rightarrow> esme_store \<Rightarrow> bool" where
  es_save: "esme_step st (esme_save e st)"
| es_delete: "esme_step st (snd (esme_delete i st))"

text \<open>C40: authentication is sound.  After any sequence of saves and deletions a successful authentication
  yields an account that carries the presented system id and password, may send, and allows the
  client's address.\<close>

theorem esme_authentication_sound:
  assumes "esme_step\<^sup>*\<^sup>* esme_store_new st" "authenticate sys pw client_ip st = AuthSuccess e"
  shows "ek_system_id (es_credentials e) = sys \<and> ek_password (es_credentials e) = pw \<and>
    status_can_send (es_status e) \<and> (\<forall>a. client_ip = Some a \<longrightarrow> esme_is_ip_allowed a e) \<and>
    (\<exists>i. map_of (et_esmes st) i = Some e)"
proof -
  have "index_sound st"
    using assms(1)
  proof (induction rule: rtranclp_induct)
    case base
    then show ?case by (simp add: index_sound_def esme_store_new_def)
  next
    case (step st st')
    from step(2,3) show ?case by (induction rule: esme_step.induct) (simp_all add: sound_save sound_delete)
  qed
  then show ?thesis
    using assms(2)
    by (fastforce simp: index_sound_def authenticate_def get_by_system_id_def esme_get_def
        split: option.splits if_splits)
qed

theorem esme_authentication_sound_witness:
  "authenticate ''sys'' ''pw'' None (esme_save (esme_new ''now'' ''1'' ''A'' ''sys'' ''pw'') esme_store_new) =
     AuthSuccess (esme_new ''now'' ''1'' ''A'' ''sys'' ''pw'') \<and>
   ek_system_id (es_credentials (esme_new ''now'' ''1'' ''A'' ''sys'' ''pw'')) = ''sys''"
proof -
  let ?e = "esme_new ''now'' ''1'' ''A'' ''sys'' ''pw''" and ?st = "esme_save (esme_new ''now'' ''1'' ''A'' ''sys'' ''pw'') esme_store_new"
  have "authenticate ''sys'' ''pw'' None ?st = AuthSuccess ?e"
    by (simp add: authenticate_def get_by_system_id_def esme_get_def esme_save_def esme_store_new_def esme_new_def)
  moreover have "esme_step\<^sup>*\<^sup>* esme_store_new ?st" by (rule r_into_rtranclp, rule es_save)
  ultimately show ?thesis using esme_authentication_sound by blast
qed

text \<open>Saves that never reuse the system id of another account.\<close>

inductive unique_step :: "esme_store \<Rightarrow> esme_store \<Rightarrow> bool" where
  un_save: "(\<And>i x. map_of (et_esmes st) i = Some x \<Longrightarrow> i \<noteq> es_id e \<Longrightarrow>
       ek_system_id (es_credentials x) \<noteq> ek_system_id (es_credentials e)) \<Longrightarrow> unique_step st (esme_save e st)"
| un_delete: "unique_step st (snd (esme_delete i st))"

text \<open>accounts with distinct system ids are always found.  If a save never reuses the system id of
  another account, every stored account stays reachable by its system id through any saves and
  deletions.\<close>

theorem esme_lookup_complete:
  assumes "unique_step\<^sup>*\<^sup>* esme_store_new st" "map_of (et_esmes st) i = Some e"
  shows "get_by_system_id (ek_system_id (es_credentials e)) st = Some e"
proof -
  have "index_complete st"
    using assms(1)
  proof (induction rule: rtranclp_induct)
    case base
    then show ?case by (simp add: index_complete_def esme_store_new_def)
  next
    case (step st st')
    from step(2,3) show ?case
      by (induction rule: unique_step.induct) (auto intro: complete_save complete_delete)
  qed
  with assms(2) show ?thesis by (simp add: index_complete_def get_by_system_id_def esme_get_def)
qed

theorem esme_lookup_complete_witness:
  "get_by_system_id ''sys'' (esme_save (esme_new ''now'' ''1'' ''A'' ''sys'' ''pw'') esme_store_new) =
     Some (esme_new ''now'' ''1'' ''A'' ''sys'' ''pw'')"
proof -
  let ?e = "esme_new ''now'' ''1'' ''A'' ''sys'' ''pw''"
  have "unique_step esme_store_new (esme_save ?e esme_store_new)"
    by (rule un_save) (simp add: esme_store_new_def)
  from esme_lookup_complete [OF r_into_rtranclp [of unique_step, OF this], of "''1''" ?e] show ?thesis
    by (simp add: esme_save_def esme_store_new_def esme_new_def)
qed

text \<open>nothing prevents two accounts from sharing a system id, and then deleting (or re-saving) one of
  them removes the index entry of the other: the remaining account exists but can no longer
  authenticate.\<close>

theorem shared_system_id_locks_out:
  "let a = esme_new ''now'' ''1'' ''A'' ''sys'' ''pw''; b = esme_new ''now'' ''2'' ''B'' ''sys'' ''pw'';
       st = snd (esme_delete ''1'' (with_esmes [a, b]))
   in esme_get ''2'' st = Some b \<and> authenticate ''sys'' ''pw'' None st = AuthNotFound"
  by (simp add: with_esmes_def esme_delete_def esme_save_def esme_store_new_def esme_new_def esme_get_def
      authenticate_def get_by_system_id_def Let_def)

section \<open>Lists, quotas and statistics\<close>

lemma deny_wins:
  "list_ex (starts_with dest) (ef_destination_deny_list (es_firewall e)) \<Longrightarrow> \<not> is_destination_allowed dest e"
  by (simp add: is_destination_allowed_def)

text \<open>The quota counters after a number of recorded messages.\<close>

lemma record_messages_quota:
  "qu_current_monthly_messages (es_quota ((esme_record_message c ^^ n) e)) =
     qu_current_monthly_messages (es_quota e) + of_nat n \<and>
   qu_monthly_messages (es_quota ((esme_record_message c ^^ n) e)) = qu_monthly_messages (es_quota e)"
  by (induction n) (simp_all add: esme_record_message_def)

text \<open>a monthly quota is exact.  Starting from zero usage, an account with a monthly quota \<open>q > 0\<close> is over quota
  after \<open>n\<close> recorded messages as soon as \<open>n\<close> reaches \<open>q\<close>, and its remaining allowance is \<open>q - n\<close>.\<close>

theorem monthly_quota_exact:
  assumes "qu_current_monthly_messages (es_quota e) = 0" "0 < unat (qu_monthly_messages (es_quota e))"
    and "n \<le> unat (qu_monthly_messages (es_quota e))"
  shows "map_option unat (remaining_monthly (es_quota ((esme_record_message c ^^ n) e))) =
           Some (unat (qu_monthly_messages (es_quota e)) - n) \<and>
         (n = unat (qu_monthly_messages (es_quota e)) \<longrightarrow> \<not> esme_can_send ((esme_record_message c ^^ n) e))"
proof -
  define q where "q = es_quota ((esme_record_message c ^^ n) e)"
  let ?M = "qu_monthly_messages (es_quota e)"
  have n: "unat (of_nat n :: u64) = n"
    using assms(3) unsigned_less [of ?M, where 'a = nat] by (intro unat_of_nat_small) simp
  have q: "qu_current_monthly_messages q = of_nat n" "qu_monthly_messages q = ?M"
    using record_messages_quota [of n c e] assms(1) by (simp_all add: q_def)
  have pos: "0 < ?M" using assms(2) by (simp add: word_less_nat_alt)
  have "quota_is_exceeded q" if "n = unat ?M"
    using pos n by (simp add: quota_is_exceeded_def q word_le_nat_alt that [symmetric])
  moreover have "map_option unat (remaining_monthly q) = Some (unat ?M - n)"
    using pos n by (simp add: remaining_monthly_def unat_saturating_sub q)
  ultimately show ?thesis by (simp add: esme_can_send_def q_def)
qed

theorem monthly_quota_exact_witness:
  "\<not> esme_can_send ((esme_record_message 5 ^^ 2)
     (esme_new ''now'' ''1'' ''A'' ''s'' ''p'' \<lparr> es_quota := esme_quota_default \<lparr> qu_monthly_messages := 2 \<rparr> \<rparr>))"
  using monthly_quota_exact
    [of "esme_new ''now'' ''1'' ''A'' ''s'' ''p'' \<lparr> es_quota := esme_quota_default \<lparr> qu_monthly_messages := 2 \<rparr> \<rparr>" 2 5]
  by (simp add: esme_quota_default_def)

lemma usage_update_counts:
  "us_total_messages u = us_delivered_messages u + us_failed_messages u \<Longrightarrow>
   us_total_messages (usage_update c r d l u) =
     us_delivered_messages (usage_update c r d l u) + us_failed_messages (usage_update c r d l u)"
  by (simp add: usage_update_def Let_def)

end
