(* ===== verification/FirewallFilter.thy ===== *)
theory FirewallFilter
  imports Router Smpp
begin

text \<open>
  The SMS firewall of the filter chain (\<^verbatim>\<open>src/src/filter/firewall.rs\<close>): built-in checks,
  per-ESME settings, prioritised rules, the bounded event log and the filter service.  Unicode
  functions of the standard library, the local clock and regular expressions are collected in the
  record \<open>fw_lib\<close>; the theorems hold for all of them.
\<close>

section \<open>Rules\<close>

datatype fw_action = FAllow | FBlock status | FLog | FQuarantine | FModify | FAlarm

record fw_lib =
  fl_lower :: "string \<Rightarrow> string"
  fl_lossy :: "u8 list \<Rightarrow> string"
  fl_take_chars :: "nat \<Rightarrow> string \<Rightarrow> string"
  fl_local :: "string \<Rightarrow> weekday \<times> nat"
  fl_utc :: instant
  fl_regex :: regex_engine

text \<open>Times of day in nanoseconds.\<close>

record fw_time_window =
  ft_start :: nat
  ft_end :: nat
  ft_days :: "weekday list"
  ft_timezone :: string

definition window_is_active :: "fw_lib \<Rightarrow> fw_time_window \<Rightarrow> bool" where
  "window_is_active L w =
     (let (day, now) = fl_local L (ft_timezone w)
      in if ft_days w \<noteq> [] \<and> day \<notin> set (ft_days w) then False
         else if ft_start w \<le> ft_end w then ft_start w \<le> now \<and> now \<le> ft_end w
         else ft_start w \<le> now \<or> now \<le> ft_end w)"

record protocol_params =
  pp_esm_class :: "u8 option"
  pp_protocol_id :: "u8 option"
  pp_data_coding :: "u8 option"
  pp_source_addr_ton :: "u8 option"
  pp_source_addr_npi :: "u8 option"
  pp_dest_addr_ton :: "u8 option"
  pp_dest_addr_npi :: "u8 option"

record fw_context =
  fc_content :: string
  fc_sender_id :: string
  fc_destination :: string
  fc_source :: string
  fc_system_id :: string
  fc_protocol :: protocol_params

datatype rule_type =
    Keyword string | Pattern string | SenderId string | DestinationPrefix string | SourcePrefix string
  | DestinationList "string list" | SourceList "string list" | Protocol protocol_params
  | TimeWindowRule fw_time_window | AllOf "rule_type list" | AnyOf "rule_type list"

definition protocol_matches :: "protocol_params \<Rightarrow> protocol_params \<Rightarrow> bool" where
  "protocol_matches p ctx =
     ((case pp_esm_class p of Some x \<Rightarrow> pp_esm_class ctx = Some x | None \<Rightarrow> True) \<and>
      (case pp_protocol_id p of Some x \<Rightarrow> pp_protocol_id ctx = Some x | None \<Rightarrow> True) \<and>
      (case pp_data_coding p of Some x \<Rightarrow> pp_data_coding ctx = Some x | None \<Rightarrow> True))"

fun rule_matches :: "fw_lib \<Rightarrow> fw_context \<Rightarrow> rule_type \<Rightarrow> bool" where
  "rule_matches L ctx (Keyword kw) = contains_str (fl_lower L (fc_content ctx)) (fl_lower L kw)"
| "rule_matches L ctx (Pattern re) = re_is_match (fl_regex L) re (fc_content ctx)"
| "rule_matches L ctx (SenderId i) = (fl_lower L (fc_sender_id ctx) = fl_lower L i)"
| "rule_matches L ctx (DestinationPrefix p) = starts_with (fc_destination ctx) p"
| "rule_matches L ctx (SourcePrefix p) = starts_with (fc_source ctx) p"
| "rule_matches L ctx (DestinationList l) = (fc_destination ctx \<in> set l)"
| "rule_matches L ctx (SourceList l) = (fc_source ctx \<in> set l)"
| "rule_matches L ctx (Protocol p) = protocol_matches p (fc_protocol ctx)"
| "rule_matches L ctx (TimeWindowRule w) = window_is_active L w"
| "rule_matches L ctx (AllOf rs) = list_all (rule_matches L ctx) rs"
| "rule_matches L ctx (AnyOf rs) = list_ex (rule_matches L ctx) rs"

record fw_rule =
  fr_name :: string
  fr_type :: rule_type
  fr_action :: fw_action
  fr_priority :: int
  fr_enabled :: bool
  fr_esme_id :: "string option"

definition block_keyword :: "string \<Rightarrow> string \<Rightarrow> fw_rule" where
  "block_keyword name kw = \<lparr> fr_name = name, fr_type = Keyword kw, fr_action = FBlock InvalidDestAddress,
     fr_priority = 0, fr_enabled = True, fr_esme_id = None \<rparr>"

definition block_pattern :: "regex_engine \<Rightarrow> string \<Rightarrow> string \<Rightarrow> fw_rule option" where
  "block_pattern R name pat =
     (if re_valid R pat then Some \<lparr> fr_name = name, fr_type = Pattern pat, fr_action = FBlock InvalidDestAddress,
        fr_priority = 0, fr_enabled = True, fr_esme_id = None \<rparr> else None)"

definition block_sender :: "string \<Rightarrow> string \<Rightarrow> fw_rule" where
  "block_sender name i = \<lparr> fr_name = name, fr_type = SenderId i, fr_action = FBlock InvalidSourceAddress,
     fr_priority = 0, fr_enabled = True, fr_esme_id = None \<rparr>"

definition block_destination :: "string \<Rightarrow> string \<Rightarrow> fw_rule" where
  "block_destination name p = \<lparr> fr_name = name, fr_type = DestinationPrefix p, fr_action = FBlock InvalidDestAddress,
     fr_priority = 0, fr_enabled = True, fr_esme_id = None \<rparr>"

definition deny_destinations :: "string \<Rightarrow> string list \<Rightarrow> fw_rule" where
  "deny_destinations name ns = \<lparr> fr_name = name, fr_type = DestinationList ns, fr_action = FBlock InvalidDestAddress,
     fr_priority = 0, fr_enabled = True, fr_esme_id = None \<rparr>"

definition deny_sources :: "string \<Rightarrow> string list \<Rightarrow> fw_rule" where
  "deny_sources name ns = \<lparr> fr_name = name, fr_type = SourceList ns, fr_action = FBlock InvalidSourceAddress,
     fr_priority = 0, fr_enabled = True, fr_esme_id = None \<rparr>"

section \<open>Event log and state\<close>

datatype fw_event_type = EvBlocked | EvAllowed | EvLogged | EvQuarantined | EvAlarm

record fw_event =
  fe_timestamp :: instant
  fe_type :: fw_event_type
  fe_rule_name :: "string option"
  fe_action :: fw_action
  fe_source :: string
  fe_destination :: string
  fe_sender_id :: string
  fe_system_id :: string
  fe_content_preview :: string

record fw_log =
  lg_events :: "fw_event list"
  lg_max_events :: nat

definition log_event :: "fw_event \<Rightarrow> fw_log \<Rightarrow> fw_log" where
  "log_event e l =
     (let evs = (if lg_max_events l \<le> length (lg_events l) then tl (lg_events l) else lg_events l)
      in l \<lparr> lg_events := evs @ [e] \<rparr>)"

definition log_recent :: "nat \<Rightarrow> fw_log \<Rightarrow> fw_event list" where
  "log_recent n l = take n (rev (lg_events l))"

definition log_by_type :: "fw_event_type \<Rightarrow> nat \<Rightarrow> fw_log \<Rightarrow> fw_event list" where
  "log_by_type t n l = take n (filter (\<lambda>e. fe_type e = t) (rev (lg_events l)))"

definition log_blocked_count :: "fw_log \<Rightarrow> nat" where
  "log_blocked_count l = length (filter (\<lambda>e. fe_type e = EvBlocked) (lg_events l))"

record fw_config =
  fg_enabled :: bool
  fg_default_action :: fw_action
  fg_block_premium_rate :: bool
  fg_block_international :: bool
  fg_allowed_international :: "string list"
  fg_max_message_length :: "nat option"
  fg_min_message_length :: "nat option"
  fg_allowed_data_coding :: "u8 list option"
  fg_denied_esm_class :: "u8 list"
  fg_max_log_events :: nat

definition fw_config_default :: fw_config where
  "fw_config_default =
     \<lparr> fg_enabled = True, fg_default_action = FAllow, fg_block_premium_rate = True,
       fg_block_international = False, fg_allowed_international = [], fg_max_message_length = None,
       fg_min_message_length = None, fg_allowed_data_coding = None, fg_denied_esm_class = [],
       fg_max_log_events = 10000 \<rparr>"

record esme_settings =
  ws_destination_allow_list :: "string list option"
  ws_destination_deny_list :: "string list"
  ws_source_allow_list :: "string list option"
  ws_source_deny_list :: "string list"
  ws_sender_allow_list :: "string list option"
  ws_sender_deny_list :: "string list"
  ws_rules :: "fw_rule list"

record firewall =
  fw_config :: fw_config
  fw_rules :: "fw_rule list"
  fw_premium_prefixes :: "string list"
  fw_esme_settings :: "(string, esme_settings) alist"
  fw_event_log :: fw_log

definition firewall_new :: "fw_config \<Rightarrow> firewall" where
  "firewall_new c =
     \<lparr> fw_config = c, fw_rules = [],
       fw_premium_prefixes = [''1900'', ''1976'', ''0900'', ''0909'', ''0906'', ''0908'', ''0871'', ''0872'', ''0873''],
       fw_esme_settings = [], fw_event_log = \<lparr> lg_events = [], lg_max_events = fg_max_log_events c \<rparr> \<rparr>"

text \<open>A stable sort by descending priority.\<close>

definition add_rule :: "fw_rule \<Rightarrow> firewall \<Rightarrow> firewall" where
  "add_rule r f = f \<lparr> fw_rules := sort_key (\<lambda>x. - fr_priority x) (fw_rules f @ [r]) \<rparr>"

definition with_rules :: "fw_rule list \<Rightarrow> firewall \<Rightarrow> firewall" where
  "with_rules rs f = fold add_rule rs f"

definition set_esme_settings :: "string \<Rightarrow> esme_settings \<Rightarrow> firewall \<Rightarrow> firewall" where
  "set_esme_settings i st f = f \<lparr> fw_esme_settings := AList.update i st (fw_esme_settings f) \<rparr>"

definition get_esme_settings :: "string \<Rightarrow> firewall \<Rightarrow> esme_settings option" where
  "get_esme_settings i f = map_of (fw_esme_settings f) i"

record fw_result =
  fs_allowed :: bool
  fs_action :: fw_action
  fs_matched_rule :: "string option"
  fs_status :: "status option"

definition fw_allowed :: fw_result where
  "fw_allowed = \<lparr> fs_allowed = True, fs_action = FAllow, fs_matched_rule = None, fs_status = None \<rparr>"

definition fw_blocked :: "string \<Rightarrow> status \<Rightarrow> fw_result" where
  "fw_blocked rule st =
     \<lparr> fs_allowed = False, fs_action = FBlock st, fs_matched_rule = Some rule, fs_status = Some st \<rparr>"

definition mk_event :: "fw_lib \<Rightarrow> fw_context \<Rightarrow> fw_event_type \<Rightarrow> string option \<Rightarrow> fw_action \<Rightarrow> fw_event" where
  "mk_event L ctx t rule act =
     \<lparr> fe_timestamp = fl_utc L, fe_type = t, fe_rule_name = rule, fe_action = act,
       fe_source = fc_source ctx, fe_destination = fc_destination ctx, fe_sender_id = fc_sender_id ctx,
       fe_system_id = fc_system_id ctx, fe_content_preview = fl_take_chars L 50 (fc_content ctx) \<rparr>"

definition result_event_type :: "fw_result \<Rightarrow> fw_event_type" where
  "result_event_type r =
     (if fs_allowed r then (case fs_action r of FLog \<Rightarrow> EvLogged | _ \<Rightarrow> EvAllowed)
      else (case fs_action r of FQuarantine \<Rightarrow> EvQuarantined | _ \<Rightarrow> EvBlocked))"

definition log_result :: "fw_lib \<Rightarrow> fw_context \<Rightarrow> fw_result \<Rightarrow> fw_log \<Rightarrow> fw_result \<times> fw_log" where
  "log_result L ctx r l =
     (r, log_event (mk_event L ctx (result_event_type r) (fs_matched_rule r) (fs_action r)) l)"

section \<open>Checking a message\<close>

definition apply_rule :: "fw_lib \<Rightarrow> fw_rule \<Rightarrow> fw_context \<Rightarrow> fw_log \<Rightarrow> fw_result option \<times> fw_log" where
  "apply_rule L r ctx l =
     (if rule_matches L ctx (fr_type r) then
        (case fr_action r of
           FAllow \<Rightarrow> (Some fw_allowed, l)
         | FBlock st \<Rightarrow>
             (Some \<lparr> fs_allowed = False, fs_action = fr_action r, fs_matched_rule = Some (fr_name r),
                     fs_status = Some st \<rparr>, l)
         | FLog \<Rightarrow> (None, l)
         | FAlarm \<Rightarrow> (None, log_event (mk_event L ctx EvAlarm (Some (fr_name r)) (fr_action r)) l)
         | FQuarantine \<Rightarrow>
             (Some \<lparr> fs_allowed = False, fs_action = fr_action r, fs_matched_rule = Some (fr_name r),
                     fs_status = Some SystemError \<rparr>, l)
         | FModify \<Rightarrow>
             (Some \<lparr> fs_allowed = True, fs_action = fr_action r, fs_matched_rule = Some (fr_name r),
                     fs_status = None \<rparr>, l))
      else (None, l))"

text \<open>The rule loops; \<open>applies\<close> is the guard of the loop body.\<close>

fun apply_rules ::
  "fw_lib \<Rightarrow> (fw_rule \<Rightarrow> bool) \<Rightarrow> fw_context \<Rightarrow> fw_rule list \<Rightarrow> fw_log \<Rightarrow> fw_result option \<times> fw_log" where
  "apply_rules L applies ctx [] l = (None, l)"
| "apply_rules L applies ctx (r # rs) l =
     (if \<not> applies r then apply_rules L applies ctx rs l
      else case apply_rule L r ctx l of
             (Some res, l1) \<Rightarrow> (Some res, l1)
           | (None, l1) \<Rightarrow> apply_rules L applies ctx rs l1)"

definition country_code :: "string \<Rightarrow> string" where
  "country_code dest = take 3 (takeWhile (\<lambda>c. digit_value c \<noteq> None) (drop 1 dest))"

text \<open>The built-in checks, before any rule.\<close>

definition builtin_block :: "firewall \<Rightarrow> fw_context \<Rightarrow> fw_result option" where
  "builtin_block f ctx =
     (let c = fw_config f; len = length (fc_content ctx) in
      if (case fg_max_message_length c of Some mx \<Rightarrow> mx < len | None \<Rightarrow> False)
      then Some (fw_blocked ''message_too_long'' InvalidMessageLength)
      else if (case fg_min_message_length c of Some mn \<Rightarrow> len < mn | None \<Rightarrow> False)
      then Some (fw_blocked ''message_too_short'' InvalidMessageLength)
      else if (case fg_allowed_data_coding c of
                 Some allowed \<Rightarrow> (case pp_data_coding (fc_protocol ctx) of Some d \<Rightarrow> d \<notin> set allowed | None \<Rightarrow> False)
               | None \<Rightarrow> False)
      then Some (fw_blocked ''data_coding_not_allowed'' InvalidDestAddress)
      else if (case pp_esm_class (fc_protocol ctx) of Some e \<Rightarrow> e \<in> set (fg_denied_esm_class c) | None \<Rightarrow> False)
      then Some (fw_blocked ''esm_class_denied'' InvalidDestAddress)
      else if fg_block_premium_rate c \<and> list_ex (starts_with (fc_destination ctx)) (fw_premium_prefixes f)
      then Some (fw_blocked ''premium_rate_blocked'' InvalidDestAddress)
      else if fg_block_international c \<and> starts_with (fc_destination ctx) ''+'' \<and>
              country_code (fc_destination ctx) \<notin> set (fg_allowed_international c)
      then Some (fw_blocked ''international_blocked'' InvalidDestAddress)
      else None)"

definition not_listed :: "string list option \<Rightarrow> string \<Rightarrow> bool" where
  "not_listed allow x = (case allow of Some l \<Rightarrow> x \<notin> set l | None \<Rightarrow> False)"

definition esme_block :: "esme_settings \<Rightarrow> fw_context \<Rightarrow> fw_result option" where
  "esme_block s ctx =
     (if not_listed (ws_destination_allow_list s) (fc_destination ctx)
      then Some (fw_blocked ''destination_not_in_allow_list'' InvalidDestAddress)
      else if fc_destination ctx \<in> set (ws_destination_deny_list s)
      then Some (fw_blocked ''destination_in_deny_list'' InvalidDestAddress)
      else if not_listed (ws_source_allow_list s) (fc_source ctx)
      then Some (fw_blocked ''source_not_in_allow_list'' InvalidSourceAddress)
      else if fc_source ctx \<in> set (ws_source_deny_list s)
      then Some (fw_blocked ''source_in_deny_list'' InvalidSourceAddress)
      else if not_listed (ws_sender_allow_list s) (fc_sender_id ctx)
      then Some (fw_blocked ''sender_not_in_allow_list'' InvalidSourceAddress)
      else if fc_sender_id ctx \<in> set (ws_sender_deny_list s)
      then Some (fw_blocked ''sender_in_deny_list'' InvalidSourceAddress)
      else None)"

definition esme_check :: "fw_lib \<Rightarrow> firewall \<Rightarrow> fw_context \<Rightarrow> fw_log \<Rightarrow> fw_result option \<times> fw_log" where
  "esme_check L f ctx l =
     (case get_esme_settings (fc_system_id ctx) f of
        None \<Rightarrow> (None, l)
      | Some s \<Rightarrow>
          (case esme_block s ctx of
             Some r \<Rightarrow> (Some r, l)
           | None \<Rightarrow> apply_rules L fr_enabled ctx (ws_rules s) l))"

definition global_applies :: "fw_context \<Rightarrow> fw_rule \<Rightarrow> bool" where
  "global_applies ctx r =
     (fr_enabled r \<and> (case fr_esme_id r of Some i \<Rightarrow> i = fc_system_id ctx | None \<Rightarrow> True))"

definition default_result :: "firewall \<Rightarrow> fw_result" where
  "default_result f =
     (case fg_default_action (fw_config f) of
        FAllow \<Rightarrow> fw_allowed
      | FBlock st \<Rightarrow> fw_blocked ''default_block'' st
      | _ \<Rightarrow> fw_allowed)"

definition check :: "fw_lib \<Rightarrow> fw_context \<Rightarrow> firewall \<Rightarrow> fw_result \<times> firewall" where
  "check L ctx f =
     (if \<not> fg_enabled (fw_config f) then (fw_allowed, f)
      else
        let l0 = fw_event_log f;
            (r, l) =
              (case builtin_block f ctx of
                 Some r \<Rightarrow> log_result L ctx r l0
               | None \<Rightarrow>
                   (case esme_check L f ctx l0 of
                      (Some r, l1) \<Rightarrow> log_result L ctx r l1
                    | (None, l1) \<Rightarrow>
                        (case apply_rules L (global_applies ctx) ctx (fw_rules f) l1 of
                           (Some r, l2) \<Rightarrow> log_result L ctx r l2
                         | (None, l2) \<Rightarrow> log_result L ctx (default_result f) l2)))
        in (r, f \<lparr> fw_event_log := l \<rparr>))"

section \<open>The filter service\<close>

definition submit_context :: "fw_lib \<Rightarrow> submit_sm \<Rightarrow> fw_context" where
  "submit_context L sm =
     \<lparr> fc_content = fl_lossy L (sm_short_message sm), fc_sender_id = sm_source_addr sm,
       fc_destination = sm_dest_addr sm, fc_source = sm_source_addr sm, fc_system_id = [],
       fc_protocol = \<lparr> pp_esm_class = Some (sm_esm_class sm), pp_protocol_id = Some (sm_protocol_id sm),
         pp_data_coding = Some (sm_data_coding sm), pp_source_addr_ton = Some (sm_source_addr_ton sm),
         pp_source_addr_npi = Some (sm_source_addr_npi sm), pp_dest_addr_ton = Some (sm_dest_addr_ton sm),
         pp_dest_addr_npi = Some (sm_dest_addr_npi sm) \<rparr> \<rparr>"

definition firewall_filter_call ::
  "fw_lib \<Rightarrow> (smpp_request \<Rightarrow> smpp_response) \<Rightarrow> smpp_request \<Rightarrow> firewall \<Rightarrow> smpp_response \<times> firewall" where
  "firewall_filter_call L inner r f =
     (case rq_pdu r of
        SubmitSm sm \<Rightarrow>
          (let (res, f1) = check L (submit_context L sm) f
           in if fs_allowed res then (inner r, f1)
              else (Reject (rq_sequence r)
                      (case fs_status res of Some st \<Rightarrow> st | None \<Rightarrow> InvalidDestAddress) (fs_matched_rule res), f1))
      | _ \<Rightarrow> (inner r, f))"

section \<open>Rule evaluation\<close>

text \<open>A rule decides when it applies, matches and its action is not one of the observing actions.\<close>

definition decisive :: "fw_lib \<Rightarrow> (fw_rule \<Rightarrow> bool) \<Rightarrow> fw_context \<Rightarrow> fw_rule \<Rightarrow> bool" where
  "decisive L applies ctx r =
     (applies r \<and> rule_matches L ctx (fr_type r) \<and> fr_action r \<noteq> FLog \<and> fr_action r \<noteq> FAlarm)"

definition verdict :: "fw_rule \<Rightarrow> fw_result" where
  "verdict r =
     (case fr_action r of
        FBlock st \<Rightarrow> fw_blocked (fr_name r) st
      | FQuarantine \<Rightarrow> \<lparr> fs_allowed = False, fs_action = FQuarantine, fs_matched_rule = Some (fr_name r),
                          fs_status = Some SystemError \<rparr>
      | FModify \<Rightarrow> \<lparr> fs_allowed = True, fs_action = FModify, fs_matched_rule = Some (fr_name r),
                      fs_status = None \<rparr>
      | _ \<Rightarrow> fw_allowed)"

lemma apply_rule_result:
  "applies r \<Longrightarrow>
   fst (apply_rule L r ctx l) = (if decisive L applies ctx r then Some (verdict r) else None)"
  by (auto simp: apply_rule_def decisive_def verdict_def fw_blocked_def split: fw_action.splits)

lemma apply_rules_result:
  "fst (apply_rules L applies ctx rs l) = map_option verdict (find (decisive L applies ctx) rs)"
proof (induction rs arbitrary: l)
  case (Cons r rs)
  show ?case
  proof (cases "applies r")
    case True
    then show ?thesis
      using apply_rule_result [of applies r L ctx l] Cons.IH
      by (cases "apply_rule L r ctx l") (auto split: if_splits option.splits)
  next
    case False
    then show ?thesis using Cons.IH by (simp add: decisive_def)
  qed
qed simp

lemma find_first_max:
  assumes "find P xs = Some x" "sorted (map (\<lambda>r. - (f r :: int)) xs)" "y \<in> set xs" "P y"
  shows "f y \<le> f x"
proof -
  obtain i where i: "i < length xs" "x = xs ! i" "\<forall>j < i. \<not> P (xs ! j)"
    using assms(1) by (auto simp: find_Some_iff)
  obtain j where j: "j < length xs" "y = xs ! j" using assms(3) by (auto simp: in_set_conv_nth)
  have "i \<le> j" using i j assms(4) by (meson leI)
  then have "map (\<lambda>r. - f r) xs ! i \<le> map (\<lambda>r. - f r) xs ! j"
    using assms(2) i j by (intro sorted_nth_mono) auto
  then show ?thesis using i j by simp
qed

definition rules_sorted :: "firewall \<Rightarrow> bool" where
  "rules_sorted f = sorted (map (\<lambda>r. - fr_priority r) (fw_rules f))"

lemma rules_sorted_new [simp]: "rules_sorted (firewall_new c)"
  by (simp add: rules_sorted_def firewall_new_def)

lemma rules_sorted_with_rules: "rules_sorted f \<Longrightarrow> rules_sorted (with_rules rs f)"
proof -
  have "rules_sorted (add_rule r g)" for r g by (simp add: rules_sorted_def add_rule_def)
  then show "rules_sorted f \<Longrightarrow> rules_sorted (with_rules rs f)"
    unfolding with_rules_def by (induction rs arbitrary: f) simp_all
qed

text \<open>The rules of a firewall assembled with \<open>with_rules\<close> are exactly the given ones.\<close>

lemma fw_rules_with_rules: "set (fw_rules (with_rules rs f)) = set (fw_rules f) \<union> set rs"
proof -
  have "set (fw_rules (add_rule r g)) = insert r (set (fw_rules g))" for r g
    by (simp add: add_rule_def)
  then show ?thesis
    unfolding with_rules_def by (induction rs arbitrary: f) auto
qed

lemma with_rules_keeps:
  "fw_config (with_rules rs g) = fw_config g \<and> fw_esme_settings (with_rules rs g) = fw_esme_settings g"
  unfolding with_rules_def by (induction rs arbitrary: g) (simp_all add: add_rule_def)

lemma check_result:
  "fst (check L ctx f) =
     (if \<not> fg_enabled (fw_config f) then fw_allowed
      else case builtin_block f ctx of
        Some r \<Rightarrow> r
      | None \<Rightarrow>
          (case fst (esme_check L f ctx (fw_event_log f)) of
             Some r \<Rightarrow> r
           | None \<Rightarrow>
               (case find (decisive L (global_applies ctx) ctx) (fw_rules f) of
                  Some r \<Rightarrow> verdict r
                | None \<Rightarrow> default_result f)))"
proof -
  obtain r l where e: "esme_check L f ctx (fw_event_log f) = (r, l)" by fastforce
  obtain r2 l2 where a: "apply_rules L (global_applies ctx) ctx (fw_rules f) l = (r2, l2)" by fastforce
  have "r2 = map_option verdict (find (decisive L (global_applies ctx) ctx) (fw_rules f))"
    using apply_rules_result [of L "global_applies ctx" ctx "fw_rules f" l] a by simp
  then show ?thesis using e a
    by (auto simp: check_def log_result_def Let_def split: option.splits)
qed

lemma esme_check_result:
  "fst (esme_check L f ctx l) =
     (case get_esme_settings (fc_system_id ctx) f of
        None \<Rightarrow> None
      | Some s \<Rightarrow> (case esme_block s ctx of
          Some r \<Rightarrow> Some r
        | None \<Rightarrow> map_option verdict (find (decisive L fr_enabled ctx) (ws_rules s))))"
  by (auto simp: esme_check_def apply_rules_result split: option.splits)

lemmas result_simps = fw_allowed_def fw_blocked_def

text \<open>Every blocking result names a rule and carries a status.\<close>

lemma verdict_blocked: "\<not> fs_allowed (verdict r) \<Longrightarrow>
   fs_matched_rule (verdict r) = Some (fr_name r) \<and> fs_status (verdict r) \<noteq> None \<and> fs_action (verdict r) = fr_action r"
  by (auto simp: verdict_def result_simps split: fw_action.splits)

section \<open>Properties\<close>



section \<open>The event log\<close>

lemma length_log_event:
  "length (lg_events (log_event e l)) \<le> max 1 (max (lg_max_events l) (length (lg_events l)))"
  by (auto simp: log_event_def Let_def)

lemma log_event_bounded:
  "length (lg_events l) \<le> max 1 (lg_max_events l) \<Longrightarrow>
   length (lg_events (log_event e l)) \<le> max 1 (lg_max_events l)"
  by (auto simp: log_event_def Let_def)

lemma log_max_events [simp]: "lg_max_events (log_event e l) = lg_max_events l"
  by (simp add: log_event_def Let_def)

definition log_ok :: "nat \<Rightarrow> fw_log \<Rightarrow> bool" where
  "log_ok n l = (lg_max_events l = n \<and> length (lg_events l) \<le> max 1 n)"

lemma log_ok_event [intro]: "log_ok n l \<Longrightarrow> log_ok n (log_event e l)"
  using log_event_bounded by (auto simp: log_ok_def)

lemma log_ok_rule: "log_ok n l \<Longrightarrow> log_ok n (snd (apply_rule L r ctx l))"
  by (auto simp: apply_rule_def split: fw_action.splits)

lemma log_ok_rules: "log_ok n l \<Longrightarrow> log_ok n (snd (apply_rules L applies ctx rs l))"
proof (induction rs arbitrary: l)
  case (Cons r rs)
  then show ?case using log_ok_rule [of n l L r ctx]
    by (cases "apply_rule L r ctx l") (auto split: option.splits)
qed simp

lemma log_ok_esme: "log_ok n l \<Longrightarrow> log_ok n (snd (esme_check L f ctx l))"
  by (auto simp: esme_check_def log_ok_rules split: option.splits)

lemma check_logs_result:
  assumes "fg_enabled (fw_config f)" "log_ok n (fw_event_log f)"
  shows "log_ok n (fw_event_log (snd (check L ctx f))) \<and>
    (let r = fst (check L ctx f); e = last (lg_events (fw_event_log (snd (check L ctx f))))
     in e = mk_event L ctx (result_event_type r) (fs_matched_rule r) (fs_action r))"
proof -
  have one: "log_ok n (snd (log_result L ctx r l)) \<and>
      last (lg_events (snd (log_result L ctx r l))) = mk_event L ctx (result_event_type r) (fs_matched_rule r) (fs_action r)"
    if "log_ok n l" for r l
    using that log_ok_event by (auto simp: log_result_def log_event_def Let_def)
  obtain r1 l1 where e: "esme_check L f ctx (fw_event_log f) = (r1, l1)" by fastforce
  obtain r2 l2 where a: "apply_rules L (global_applies ctx) ctx (fw_rules f) l1 = (r2, l2)" by fastforce
  have l1: "log_ok n l1" using log_ok_esme [OF assms(2), of L f ctx] e by simp
  have l2: "log_ok n l2" using log_ok_rules [OF l1, of L "global_applies ctx" ctx "fw_rules f"] a by simp
  show ?thesis
    using assms e a one [OF assms(2)] one [OF l1] one [OF l2]
    by (auto simp: check_def Let_def log_result_def split: option.splits)
qed

lemma check_keeps_config [simp]: "fw_config (snd (check L ctx f)) = fw_config f"
  by (simp add: check_def Let_def case_prod_unfold)

definition check_all :: "fw_lib \<Rightarrow> fw_context list \<Rightarrow> firewall \<Rightarrow> firewall" where
  "check_all L ctxs f = fold (\<lambda>ctx f. snd (check L ctx f)) ctxs f"

lemma check_all_snoc: "check_all L (ctxs @ [ctx]) f = snd (check L ctx (check_all L ctxs f))"
  by (simp add: check_all_def)

lemma check_all_inv:
  assumes "fg_enabled c"
  shows "log_ok (fg_max_log_events c) (fw_event_log (check_all L ctxs (firewall_new c))) \<and>
    fw_config (check_all L ctxs (firewall_new c)) = c"
proof (induction ctxs rule: rev_induct)
  case Nil
  then show ?case by (simp add: check_all_def firewall_new_def log_ok_def)
next
  case (snoc x xs)
  then show ?case
    using check_logs_result [of "check_all L xs (firewall_new c)" "fg_max_log_events c" L x] assms
    by (simp add: check_all_snoc)
qed

text \<open>Over any sequence of checked messages the event log of an enabled firewall never exceeds its
  configured size (or one event), and its newest event records the verdict of the last message.\<close>

theorem event_log_bounded_and_current:
  assumes "fg_enabled c"
  shows "length (lg_events (fw_event_log (check_all L ctxs (firewall_new c)))) \<le> max 1 (fg_max_log_events c) \<and>
    (let r = fst (check L ctx (check_all L ctxs (firewall_new c)));
         e = last (lg_events (fw_event_log (check_all L (ctxs @ [ctx]) (firewall_new c))))
     in fe_rule_name e = fs_matched_rule r \<and> (fe_type e = EvBlocked \<or> fe_type e = EvQuarantined \<longleftrightarrow> \<not> fs_allowed r) \<and>
        fe_destination e = fc_destination ctx)"
  using check_all_inv [OF assms, of L ctxs] assms
    check_logs_result [of "check_all L ctxs (firewall_new c)" "fg_max_log_events c" L ctx]
  by (auto simp: log_ok_def Let_def mk_event_def result_event_type_def check_all_snoc split: fw_action.splits)

section \<open>Two gaps\<close>

lemma set_other_settings:
  assumes "i \<noteq> []"
  shows "get_esme_settings [] (set_esme_settings i st f) = get_esme_settings [] f"
    "builtin_block (set_esme_settings i st f) ctx = builtin_block f ctx"
    "fw_config (set_esme_settings i st f) = fw_config f" "fw_rules (set_esme_settings i st f) = fw_rules f"
    "default_result (set_esme_settings i st f) = default_result f"
  using assms
  by (simp_all add: get_esme_settings_def set_esme_settings_def map_of_update builtin_block_def
      default_result_def Let_def cong: if_cong)

lemma submit_system_id: "fc_system_id (submit_context L sm) = []"
  by (simp add: submit_context_def)

text \<open>The filter builds its context with an empty system id, so the firewall settings of an ESME
  (any non-empty system id) never influence its answer to a request.\<close>

theorem filter_ignores_esme_settings:
  assumes "i \<noteq> []"
  shows "fst (firewall_filter_call L inner r (set_esme_settings i st f)) = fst (firewall_filter_call L inner r f)"
proof -
  have "fst (check L (submit_context L sm) (set_esme_settings i st f)) = fst (check L (submit_context L sm) f)" for sm
    unfolding check_result esme_check_result submit_system_id set_other_settings [OF assms] ..
  then show ?thesis
    by (auto simp: firewall_filter_call_def Let_def case_prod_unfold split: pdu.splits)
qed

text \<open>With international blocking on, the country code read from a number is always its first three
  digits, so listing one- and two-digit country codes as allowed blocks every number of those
  countries.\<close>

theorem short_country_codes_never_match:
  assumes "fg_enabled (fw_config f)" "fg_block_international (fw_config f)"
    "\<forall>cc \<in> set (fg_allowed_international (fw_config f)). length cc < 3"
    "fc_destination ctx = CHR ''+'' # ds" "3 \<le> length ds" "\<forall>c \<in> set ds. digit_value c \<noteq> None"
  shows "\<not> fs_allowed (fst (check L ctx f))"
proof -
  have all: "takeWhile (\<lambda>c. digit_value c \<noteq> None) ds = ds" using assms(6) by (subst takeWhile_eq_all_conv)
  have "length (country_code (fc_destination ctx)) = 3"
    unfolding country_code_def assms(4) using assms(5) by (simp only: drop_Suc_Cons One_nat_def drop_0 all) simp
  then have "country_code (fc_destination ctx) \<notin> set (fg_allowed_international (fw_config f))"
    using assms(3) by auto
  then have "builtin_block f ctx \<noteq> None \<and> \<not> fs_allowed (the (builtin_block f ctx))"
    using assms(2,4)
    by (auto simp: builtin_block_def Let_def result_simps starts_with_def)
  then show ?thesis using assms(1) by (auto simp: check_result)
qed

section \<open>Witnesses\<close>

definition sample_fw_lib :: fw_lib where
  "sample_fw_lib = \<lparr> fl_lower = map to_ascii_lower, fl_lossy = map (\<lambda>b. char_of (unat b)), fl_take_chars = take,
     fl_local = (\<lambda>_. (Mon, 0)), fl_utc = 0,
     fl_regex = \<lparr> re_valid = (\<lambda>_. True), re_is_match = (\<lambda>re s. contains_str s re) \<rparr> \<rparr>"

definition sample_fw_context :: "string \<Rightarrow> string \<Rightarrow> fw_context" where
  "sample_fw_context dest content =
     \<lparr> fc_content = content, fc_sender_id = ''me'', fc_destination = dest, fc_source = ''me'',
       fc_system_id = ''esme1'',
       fc_protocol = \<lparr> pp_esm_class = Some 0, pp_protocol_id = None, pp_data_coding = None,
         pp_source_addr_ton = None, pp_source_addr_npi = None, pp_dest_addr_ton = None, pp_dest_addr_npi = None \<rparr> \<rparr>"

lemmas sample_fw_simps = sample_fw_lib_def sample_fw_context_def firewall_new_def fw_config_default_def



theorem event_log_bounded_and_current_witness:
  "length (lg_events (fw_event_log (check_all sample_fw_lib [sample_fw_context ''1'' ''a'', sample_fw_context ''2'' ''b'']
     (firewall_new (fw_config_default \<lparr> fg_max_log_events := 1 \<rparr>))))) \<le> 1"
  using event_log_bounded_and_current [of "fw_config_default \<lparr> fg_max_log_events := 1 \<rparr>" sample_fw_lib
      "[sample_fw_context ''1'' ''a'', sample_fw_context ''2'' ''b'']"]
  by (simp add: fw_config_default_def)

definition sample_fw_request :: smpp_request where
  "sample_fw_request = request_new 0 (SubmitSm \<lparr> sm_service_type = [], sm_source_addr = ''me'', sm_dest_addr = ''258'',
     sm_source_addr_ton = 0, sm_source_addr_npi = 0, sm_dest_addr_ton = 0, sm_dest_addr_npi = 0, sm_esm_class = 0,
     sm_protocol_id = 0, sm_priority_flag = 0, sm_schedule_delivery_time = [], sm_validity_period = [], sm_registered_delivery = 0, sm_replace_if_present_flag = 0, sm_data_coding = 0,
       sm_default_msg_id = 0, sm_short_message = [], sm_tlvs = [] \<rparr>) 7"

text \<open>An ESME whose deny list holds the destination still gets its message through.\<close>

theorem filter_ignores_esme_settings_witness:
  "fst (firewall_filter_call sample_fw_lib Continue sample_fw_request
     (set_esme_settings ''esme1'' \<lparr> ws_destination_allow_list = None, ws_destination_deny_list = [''258''],
        ws_source_allow_list = None, ws_source_deny_list = [], ws_sender_allow_list = None,
        ws_sender_deny_list = [], ws_rules = [] \<rparr> (firewall_new fw_config_default))) = Continue sample_fw_request"
proof -
  have "fst (firewall_filter_call sample_fw_lib Continue sample_fw_request (firewall_new fw_config_default)) =
      Continue sample_fw_request"
    by (simp add: firewall_filter_call_def sample_fw_request_def request_new_def submit_context_def check_def Let_def
        builtin_block_def esme_check_def get_esme_settings_def starts_with_code sample_fw_simps default_result_def
        log_result_def result_simps)
  then show ?thesis by (subst filter_ignores_esme_settings) simp_all
qed

theorem short_country_codes_never_match_witness:
  "\<not> fs_allowed (fst (check sample_fw_lib (sample_fw_context ''+27841234'' ''hi'')
     (firewall_new (fw_config_default \<lparr> fg_block_international := True, fg_allowed_international := [''27''] \<rparr>))))"
  by (rule short_country_codes_never_match [where ds = "''27841234''"])
    (simp_all add: sample_fw_simps digit_value_def)

end
