(* ===== verification/MessageStore.thy ===== *)
theory MessageStore
  imports Message Float64 "HOL-Library.Product_Lexorder"
begin

text \<open>
  The message part of the in-memory storage (\<^verbatim>\<open>src/src/store/memory.rs\<close>, the message
  operations of \<^verbatim>\<open>MemoryStorage\<close>) and the default methods of the \<^verbatim>\<open>Storage\<close> trait
  built on them.  The storage is an extensible record; \<^verbatim>\<open>Feedback\<close> and \<^verbatim>\<open>Storage\<close>
  extend it with the other collections of the struct.  The locale \<open>message_store\<close> states what
  the rest of the program relies on; it is interpreted on the operations of this theory.
\<close>

section \<open>State and configuration\<close>

record memory_store_config =
  mc_max_messages :: nat
  mc_max_memory_mb :: usize
  mc_prune_percent :: u8

record message_storage =
  messages :: "(message_id, stored_message) alist"
  retry_queue :: "message_id list"
  memory_bytes :: usize
  st_config :: memory_store_config

definition with_config :: "memory_store_config \<Rightarrow> message_storage" where
  "with_config cfg = \<lparr> messages = [], retry_queue = [], memory_bytes = 0, st_config = cfg \<rparr>"

definition ESTIMATED_MESSAGE_SIZE :: nat where
  "ESTIMATED_MESSAGE_SIZE = 512"

definition estimate_message_size :: "stored_message \<Rightarrow> nat" where
  "estimate_message_size m =
     ESTIMATED_MESSAGE_SIZE + length (m_short_message m) + length (m_source m) +
     length (m_destination m) + length (m_system_id m) +
     (case m_cluster m of None \<Rightarrow> 0 | Some s \<Rightarrow> length s) +
     (case m_endpoint m of None \<Rightarrow> 0 | Some s \<Rightarrow> length s) +
     (case m_smsc_message_id m of None \<Rightarrow> 0 | Some s \<Rightarrow> length s) +
     length (m_events m) * 64"

section \<open>Pruning\<close>

text \<open>The loop of \<^verbatim>\<open>prune_if_needed\<close> and \<^verbatim>\<open>prune_terminal\<close>: remove the ids one by one and
  add up the estimated sizes of what was really removed.\<close>

fun remove_sized ::
  "message_id list \<Rightarrow> (message_id, stored_message) alist \<Rightarrow> (message_id, stored_message) alist \<times> nat" where
  "remove_sized [] ms = (ms, 0)"
| "remove_sized (i # is) ms =
     (case map_of ms i of
        None \<Rightarrow> remove_sized is ms
      | Some m \<Rightarrow> (let (ms', b) = remove_sized is (AList.delete i ms)
                   in (ms', estimate_message_size m + b)))"

text \<open>The ids of the terminal messages, least recently updated first (a stable sort).\<close>

definition terminal_by_age :: "(message_id, stored_message) alist \<Rightarrow> message_id list" where
  "terminal_by_age ms =
     map fst (sort_key (\<lambda>e. m_updated_at (snd e)) (filter (\<lambda>e. is_terminal (m_state (snd e))) ms))"

definition prune_count :: "memory_store_config \<Rightarrow> nat \<Rightarrow> nat" where
  "prune_count cfg len =
     max 1 (f64_to_u64 (fdiv (fmul (f64_of_int (int len)) (f64_of_int (uint (mc_prune_percent cfg)))) (f64_of_int 100)))"

definition at_message_limit :: "'z message_storage_scheme \<Rightarrow> bool" where
  "at_message_limit s = (mc_max_messages (st_config s) \<le> length (messages s))"

definition at_memory_limit :: "'z message_storage_scheme \<Rightarrow> bool" where
  "at_memory_limit s = (mc_max_memory_mb (st_config s) * 1024 * 1024 \<le> memory_bytes s)"

definition drop_messages :: "message_id list \<Rightarrow> 'z message_storage_scheme \<Rightarrow> 'z message_storage_scheme" where
  "drop_messages ids s =
     (let (ms, removed_bytes) = remove_sized ids (messages s)
      in s \<lparr> messages := ms,
             memory_bytes := (if 0 < removed_bytes then memory_bytes s - of_nat removed_bytes
                              else memory_bytes s) \<rparr>)"

definition prune_if_needed :: "'z message_storage_scheme \<Rightarrow> 'z message_storage_scheme" where
  "prune_if_needed s =
     (if \<not> at_message_limit s \<and> \<not> at_memory_limit s then s
      else drop_messages
             (take (prune_count (st_config s) (length (messages s))) (terminal_by_age (messages s))) s)"

section \<open>Operations of the storage\<close>

definition store :: "stored_message \<Rightarrow> 'z message_storage_scheme \<Rightarrow> message_id \<times> 'z message_storage_scheme" where
  "store m s =
     (let s1 = prune_if_needed s;
          s2 = s1 \<lparr> memory_bytes := memory_bytes s1 + of_nat (estimate_message_size m) \<rparr>
      in (m_id m, s2 \<lparr> messages := AList.update (m_id m) m (messages s2) \<rparr>))"

definition get :: "message_id \<Rightarrow> 'z message_storage_scheme \<Rightarrow> stored_message option" where
  "get i s = map_of (messages s) i"

text \<open>The retry queue after a message went from one state to another.\<close>

definition requeue :: "message_id \<Rightarrow> message_state \<Rightarrow> message_state \<Rightarrow> message_id list \<Rightarrow> message_id list" where
  "requeue i old new q =
     (if old \<noteq> new then
        (if new = Retrying then (if i \<in> set q then q else q @ [i])
         else filter (\<lambda>x. x \<noteq> i) q)
      else q)"

definition update ::
  "message_id \<Rightarrow> (stored_message \<Rightarrow> stored_message) \<Rightarrow> 'z message_storage_scheme \<Rightarrow>
   bool \<times> 'z message_storage_scheme" where
  "update i f s =
     (case map_of (messages s) i of
        None \<Rightarrow> (False, s)
      | Some m \<Rightarrow>
          (True, s \<lparr> messages := alist_modify i f (messages s),
                     retry_queue := requeue i (m_state m) (m_state (f m)) (retry_queue s) \<rparr>))"

definition delete :: "message_id \<Rightarrow> 'z message_storage_scheme \<Rightarrow> bool \<times> 'z message_storage_scheme" where
  "delete i s =
     (case map_of (messages s) i of
        None \<Rightarrow> (False, s)
      | Some m \<Rightarrow>
          (True, s \<lparr> messages := AList.delete i (messages s),
                     memory_bytes := memory_bytes s - of_nat (estimate_message_size m),
                     retry_queue := filter (\<lambda>x. x \<noteq> i) (retry_queue s) \<rparr>))"

record message_query =
  q_state :: "message_state option"
  q_system_id :: "string option"
  q_destination_prefix :: "string option"
  q_cluster :: "string option"
  q_created_after :: "instant option"
  q_limit :: "nat option"

definition message_query_default :: message_query where
  "message_query_default =
     \<lparr> q_state = None, q_system_id = None, q_destination_prefix = None, q_cluster = None,
       q_created_after = None, q_limit = None \<rparr>"

definition query_matches :: "message_query \<Rightarrow> stored_message \<Rightarrow> bool" where
  "query_matches q m =
     ((case q_state q of None \<Rightarrow> True | Some st \<Rightarrow> m_state m = st) \<and>
      (case q_system_id q of None \<Rightarrow> True | Some sys \<Rightarrow> m_system_id m = sys) \<and>
      (case q_destination_prefix q of None \<Rightarrow> True | Some p \<Rightarrow> starts_with (m_destination m) p) \<and>
      (case q_cluster q of None \<Rightarrow> True | Some c \<Rightarrow> m_cluster m = Some c) \<and>
      (case q_created_after q of None \<Rightarrow> True | Some t \<Rightarrow> \<not> m_created_at m < t))"

definition query_limit :: "message_query \<Rightarrow> nat" where
  "query_limit q = (case q_limit q of None \<Rightarrow> 1000 | Some n \<Rightarrow> n)"

definition query :: "message_query \<Rightarrow> 'z message_storage_scheme \<Rightarrow> stored_message list" where
  "query q s = take (query_limit q) (filter (query_matches q) (map_values (messages s)))"

text \<open>Priority descending, then creation time ascending.\<close>

definition pending_key :: "stored_message \<Rightarrow> int \<times> instant" where
  "pending_key m = (- int (priority_rank (m_priority m)), m_created_at m)"

definition get_pending :: "nat \<Rightarrow> 'z message_storage_scheme \<Rightarrow> stored_message list" where
  "get_pending limit s =
     take limit (sort_key pending_key (filter (\<lambda>m. m_state m = Pending) (map_values (messages s))))"

definition retry_due :: "instant \<Rightarrow> stored_message \<Rightarrow> bool" where
  "retry_due now m =
     (m_state m = Retrying \<and> (case m_retry_at m of None \<Rightarrow> False | Some t \<Rightarrow> t \<le> now))"

definition get_ready_for_retry :: "instant \<Rightarrow> 'z message_storage_scheme \<Rightarrow> stored_message list" where
  "get_ready_for_retry now s = filter (retry_due now) (map_values (messages s))"

definition stale :: "instant \<Rightarrow> stored_message \<Rightarrow> bool" where
  "stale cutoff m = (\<not> is_terminal (m_state m) \<and> m_created_at m < cutoff)"

definition expire_old :: "clock \<Rightarrow> duration \<Rightarrow> 'z message_storage_scheme \<Rightarrow> nat \<times> 'z message_storage_scheme" where
  "expire_old ck ttl s =
     (let cutoff = ck_now ck - int ttl
      in (length (filter (stale cutoff) (map_values (messages s))),
          s \<lparr> messages := map (\<lambda>(k, m). (k, if stale cutoff m then mark_expired ck m else m)) (messages s) \<rparr>))"

definition prune_terminal :: "instant \<Rightarrow> duration \<Rightarrow> 'z message_storage_scheme \<Rightarrow> nat \<times> 'z message_storage_scheme" where
  "prune_terminal now max_age s =
     (let cutoff = now - int max_age;
          to_remove = map fst (filter (\<lambda>e. is_terminal (m_state (snd e)) \<and> m_updated_at (snd e) < cutoff)
                                 (messages s))
      in (length to_remove, drop_messages to_remove s))"

record store_stats =
  ss_total :: nat
  ss_pending :: nat
  ss_in_flight :: nat
  ss_delivered :: nat
  ss_failed :: nat
  ss_expired :: nat
  ss_retrying :: nat
  ss_memory_bytes :: u64
  ss_max_messages :: nat
  ss_max_memory_bytes :: u64

fun count_state :: "message_state \<Rightarrow> store_stats \<Rightarrow> store_stats" where
  "count_state Pending st = st \<lparr> ss_pending := ss_pending st + 1 \<rparr>"
| "count_state InFlight st = st \<lparr> ss_in_flight := ss_in_flight st + 1 \<rparr>"
| "count_state Delivered st = st \<lparr> ss_delivered := ss_delivered st + 1 \<rparr>"
| "count_state Failed st = st \<lparr> ss_failed := ss_failed st + 1 \<rparr>"
| "count_state Expired st = st \<lparr> ss_expired := ss_expired st + 1 \<rparr>"
| "count_state Retrying st = st \<lparr> ss_retrying := ss_retrying st + 1 \<rparr>"

definition message_stats :: "'z message_storage_scheme \<Rightarrow> store_stats" where
  "message_stats s =
     fold (\<lambda>m. count_state (m_state m)) (map_values (messages s))
       \<lparr> ss_total = length (messages s), ss_pending = 0, ss_in_flight = 0, ss_delivered = 0,
         ss_failed = 0, ss_expired = 0, ss_retrying = 0, ss_memory_bytes = memory_bytes s,
         ss_max_messages = mc_max_messages (st_config s),
         ss_max_memory_bytes = mc_max_memory_mb (st_config s) * 1024 * 1024 \<rparr>"

text \<open>The default method of the \<^verbatim>\<open>Storage\<close> trait used at start-up.\<close>

definition get_recoverable_messages :: "'z message_storage_scheme \<Rightarrow> stored_message list" where
  "get_recoverable_messages s =
     query (message_query_default \<lparr> q_state := Some Pending \<rparr>) s @
     query (message_query_default \<lparr> q_state := Some InFlight \<rparr>) s @
     query (message_query_default \<lparr> q_state := Some Retrying \<rparr>) s"

section \<open>Invariant\<close>

definition store_inv :: "'z message_storage_scheme \<Rightarrow> bool" where
  "store_inv s =
     (distinct_keys (messages s) \<and> (\<forall>e \<in> set (messages s). m_id (snd e) = fst e) \<and>
      distinct (retry_queue s))"

definition stored_bytes :: "'z message_storage_scheme \<Rightarrow> nat" where
  "stored_bytes s = sum_list (map (\<lambda>e. estimate_message_size (snd e)) (messages s))"

lemma estimate_pos: "0 < estimate_message_size m"
  by (simp add: estimate_message_size_def ESTIMATED_MESSAGE_SIZE_def)

lemma remove_sized_messages: "fst (remove_sized ids ms) = alist_remove_all ids ms"
proof (induction ids arbitrary: ms)
  case (Cons i ids)
  have "AList.delete i ms = ms" if "map_of ms i = None"
    using that by (metis delete_id map_of_eq_None_iff)
  with Cons show ?case
    by (auto simp: alist_remove_all_def split: option.splits prod.splits)
       (metis fst_conv)
qed (simp add: alist_remove_all_def)

lemma delete_bytes:
  assumes "distinct_keys ms" "map_of ms i = Some m"
  shows "sum_list (map (\<lambda>e. estimate_message_size (snd e)) (AList.delete i ms)) + estimate_message_size m =
         sum_list (map (\<lambda>e. estimate_message_size (snd e)) ms)"
  using assms
proof (induction ms)
  case (Cons e ms)
  show ?case
  proof (cases "fst e = i")
    case True
    with Cons.prems have "AList.delete i ms = ms" by (auto intro: delete_id)
    with True Cons.prems show ?thesis by (cases e) auto
  next
    case False
    with Cons show ?thesis by (cases e) auto
  qed
qed simp

lemma remove_sized_bytes:
  assumes "distinct_keys ms"
  shows "sum_list (map (\<lambda>e. estimate_message_size (snd e)) (fst (remove_sized ids ms))) +
           snd (remove_sized ids ms) = sum_list (map (\<lambda>e. estimate_message_size (snd e)) ms)"
  using assms
proof (induction ids arbitrary: ms)
  case (Cons i ids)
  show ?case
  proof (cases "map_of ms i")
    case (Some m)
    with Cons.IH [of "AList.delete i ms"] delete_bytes [OF Cons.prems Some] Cons.prems
    show ?thesis by (auto split: prod.splits simp: distinct_keys_delete)
  qed (use Cons in auto)
qed simp

lemma messages_drop: "messages (drop_messages ids s) = alist_remove_all ids (messages s)"
  by (simp add: drop_messages_def case_prod_unfold Let_def remove_sized_messages)

lemma retry_queue_drop [simp]: "retry_queue (drop_messages ids s) = retry_queue s"
  by (simp add: drop_messages_def split: prod.splits)

lemma get_drop: "get i (drop_messages ids s) = (if i \<in> set ids then None else get i s)"
  by (simp add: get_def messages_drop map_of_remove_all)

lemma inv_drop: "store_inv s \<Longrightarrow> store_inv (drop_messages ids s)"
  by (auto simp: store_inv_def messages_drop remove_all_is_filter distinct_keys_filter)

lemma memory_bytes_drop:
  "memory_bytes (drop_messages ids s) = memory_bytes s - of_nat (snd (remove_sized ids (messages s)))"
  by (simp add: drop_messages_def case_prod_unfold Let_def)

lemma bytes_drop:
  assumes "store_inv s" "memory_bytes s = of_nat (stored_bytes s)"
  shows "memory_bytes (drop_messages ids s) = of_nat (stored_bytes (drop_messages ids s))"
proof -
  have d: "distinct_keys (messages s)" using assms(1) by (simp add: store_inv_def)
  have "stored_bytes (drop_messages ids s) + snd (remove_sized ids (messages s)) = stored_bytes s"
    using remove_sized_bytes [OF d, of ids]
    by (simp add: stored_bytes_def messages_drop remove_sized_messages)
  then have "of_nat (stored_bytes s) =
      (of_nat (stored_bytes (drop_messages ids s)) + of_nat (snd (remove_sized ids (messages s))) :: usize)"
    by (metis of_nat_add)
  then show ?thesis unfolding memory_bytes_drop assms(2) by (metis add_diff_cancel_right')
qed

lemma terminal_by_age_set:
  "set (terminal_by_age ms) = fst ` {e \<in> set ms. is_terminal (m_state (snd e))}"
  by (simp add: terminal_by_age_def)

lemma prune_keeps_live:
  assumes "store_inv s" "get i s = Some m" "\<not> is_terminal (m_state m)"
  shows "get i (prune_if_needed s) = Some m"
proof -
  have "is_terminal (m_state m) = is_terminal (m_state m')" if "(i, m') \<in> set (messages s)" for m'
    using that assms(1,2) map_of_is_SomeI [of "messages s" i m'] by (simp add: store_inv_def get_def)
  then have "i \<notin> set (terminal_by_age (messages s))"
    using assms(3) by (auto simp: terminal_by_age_set)
  then show ?thesis
    using assms(2) by (auto simp: prune_if_needed_def get_drop dest: in_set_takeD)
qed

lemma prune_no_new: "get i (prune_if_needed s) = Some m \<Longrightarrow> get i s = Some m"
  by (auto simp: prune_if_needed_def get_drop split: if_splits)

lemma inv_prune: "store_inv s \<Longrightarrow> store_inv (prune_if_needed s)"
  by (simp add: prune_if_needed_def inv_drop)

section \<open>Each operation keeps the invariant\<close>

lemma store_inv_cong:
  "messages t = messages s \<Longrightarrow> retry_queue t = retry_queue s \<Longrightarrow> store_inv t = store_inv s"
  by (simp add: store_inv_def)

lemma inv_update_entry:
  assumes "store_inv s" "m_id m = i"
  shows "store_inv (s \<lparr> messages := AList.update i m (messages s) \<rparr>)"
  using assms set_alist_update [of i m "messages s"]
  by (auto simp: store_inv_def distinct_keys_update)

lemma inv_store:
  assumes "store_inv s"
  shows "store_inv (snd (store m s))"
proof -
  have "store_inv (prune_if_needed s \<lparr> messages := AList.update (m_id m) m (messages (prune_if_needed s)) \<rparr>)"
    using inv_update_entry [OF inv_prune [OF assms]] by simp
  then show ?thesis
    by (rule store_inv_cong [THEN iffD1, rotated 2]) (simp_all add: store_def Let_def)
qed

lemma distinct_requeue: "distinct q \<Longrightarrow> distinct (requeue i a b q)"
  by (simp add: requeue_def)

lemma inv_update:
  assumes "store_inv s" "\<And>m. m_id (f m) = m_id m"
  shows "store_inv (snd (update i f s))"
proof (cases "map_of (messages s) i")
  case (Some m)
  then show ?thesis
    using assms set_modify [of "messages s" i m f]
    by (auto simp: update_def store_inv_def distinct_requeue dest: map_of_SomeD)
qed (use assms in \<open>simp add: update_def\<close>)

lemma inv_delete: "store_inv s \<Longrightarrow> store_inv (snd (delete i s))"
  by (auto simp: delete_def store_inv_def delete_is_filter distinct_keys_filter split: option.splits)

lemma messages_expire_old:
  "messages (snd (expire_old ck ttl s)) =
     map (\<lambda>(k, m). (k, if stale (ck_now ck - int ttl) m then mark_expired ck m else m)) (messages s)"
  by (simp add: expire_old_def Let_def)

lemma get_expire_old:
  "get i (snd (expire_old ck ttl s)) =
     map_option (\<lambda>m. if stale (ck_now ck - int ttl) m then mark_expired ck m else m) (get i s)"
  unfolding get_def messages_expire_old by (induction "messages s" arbitrary: s) (auto simp: map_of_map)

lemma keys_expire_old: "map fst (messages (snd (expire_old ck ttl s))) = map fst (messages s)"
  by (simp add: messages_expire_old case_prod_unfold o_def)

lemma inv_expire_old: "store_inv s \<Longrightarrow> store_inv (snd (expire_old ck ttl s))"
  unfolding store_inv_def keys_expire_old
  by (auto simp: messages_expire_old) (simp_all add: expire_old_def Let_def)

lemma inv_prune_terminal: "store_inv s \<Longrightarrow> store_inv (snd (prune_terminal now age s))"
  by (simp add: prune_terminal_def Let_def inv_drop)

lemmas store_invs = inv_store inv_update inv_delete inv_expire_old inv_prune_terminal

section \<open>The interface of the store\<close>

lemma get_store:
  assumes "store_inv s"
  shows "get k (snd (store m s)) = (if k = m_id m then Some m else get k (prune_if_needed s))"
  by (simp add: store_def get_def Let_def map_of_update)

lemma get_update: "get k (snd (update i f s)) = (if k = i then map_option f (get i s) else get k s)"
  by (auto simp: update_def get_def map_of_modify split: option.splits)

lemma update_found: "fst (update i f s) = (get i s \<noteq> None)"
  by (auto simp: update_def get_def split: option.splits)

lemma get_delete: "get k (snd (delete i s)) = (if k = i then None else get k s)"
  by (auto simp: delete_def get_def map_of_delete split: option.splits)

lemma delete_found: "fst (delete i s) = (get i s \<noteq> None)"
  by (auto simp: delete_def get_def split: option.splits)

text \<open>What the rest of the program relies on: a stored message can be read back, a store may evict
  only finished messages and invents none, an update changes exactly the addressed message and
  reports whether it exists, a deletion removes exactly the addressed message.\<close>

locale message_store =
  fixes inv :: "'s \<Rightarrow> bool"
    and look :: "message_id \<Rightarrow> 's \<Rightarrow> stored_message option"
    and put :: "stored_message \<Rightarrow> 's \<Rightarrow> message_id \<times> 's"
    and upd :: "message_id \<Rightarrow> (stored_message \<Rightarrow> stored_message) \<Rightarrow> 's \<Rightarrow> bool \<times> 's"
    and del :: "message_id \<Rightarrow> 's \<Rightarrow> bool \<times> 's"
  assumes put_id: "fst (put m s) = m_id m"
    and look_put: "inv s \<Longrightarrow> look (m_id m) (snd (put m s)) = Some m"
    and put_live: "inv s \<Longrightarrow> k \<noteq> m_id m \<Longrightarrow> look k s = Some x \<Longrightarrow> \<not> is_terminal (m_state x) \<Longrightarrow>
           look k (snd (put m s)) = Some x"
    and put_old: "inv s \<Longrightarrow> k \<noteq> m_id m \<Longrightarrow> look k (snd (put m s)) = Some x \<Longrightarrow> look k s = Some x"
    and look_upd: "inv s \<Longrightarrow> look k (snd (upd i f s)) = (if k = i then map_option f (look i s) else look k s)"
    and upd_found: "inv s \<Longrightarrow> fst (upd i f s) \<longleftrightarrow> look i s \<noteq> None"
    and look_del: "inv s \<Longrightarrow> look k (snd (del i s)) = (if k = i then None else look k s)"
    and inv_put: "inv s \<Longrightarrow> inv (snd (put m s))"
    and inv_upd: "inv s \<Longrightarrow> (\<And>m. m_id (f m) = m_id m) \<Longrightarrow> inv (snd (upd i f s))"
    and inv_del: "inv s \<Longrightarrow> inv (snd (del i s))"
begin

lemma live_survives_puts:
  assumes "inv s" "look k s = Some x" "\<not> is_terminal (m_state x)" "k \<notin> m_id ` set ms"
  shows "look k (fold (\<lambda>m t. snd (put m t)) ms s) = Some x"
  using assms
proof (induction ms arbitrary: s)
  case (Cons m ms)
  then have "look k (snd (put m s)) = Some x" by (intro put_live) auto
  with Cons show ?case by (simp add: inv_put)
qed simp

lemma inv_puts: "inv s \<Longrightarrow> inv (fold (\<lambda>m t. snd (put m t)) ms s)"
  by (induction ms arbitrary: s) (simp_all add: inv_put)

lemma upd_upd:
  assumes "inv s" "\<And>m. m_id (f m) = m_id m"
  shows "look k (snd (upd i g (snd (upd i f s)))) = look k (snd (upd i (\<lambda>m. g (f m)) s))"
  using assms inv_upd [OF assms(1), of f i] by (simp add: look_upd option.map_comp o_def)

lemma upd_missing: "inv s \<Longrightarrow> look i s = None \<Longrightarrow> look k (snd (upd i f s)) = look k s"
  by (simp add: look_upd)

text \<open>A live message goes through any sequence of other stores and one final update.\<close>

lemma upd_after_puts:
  assumes "inv s" "\<not> is_terminal (m_state x)" "m_id x \<notin> m_id ` set ms"
  shows "look (m_id x) (snd (upd (m_id x) f (fold (\<lambda>m t. snd (put m t)) ms (snd (put x s))))) = Some (f x)"
proof -
  have "inv (snd (put x s))" "look (m_id x) (snd (put x s)) = Some x"
    using assms(1) by (simp_all add: inv_put look_put)
  with assms show ?thesis
    by (simp add: look_upd inv_puts live_survives_puts)
qed

end

interpretation mem: message_store store_inv get store update delete
proof unfold_locales
  show "fst (store m s) = m_id m" for m and s :: "'a message_storage_scheme"
    by (simp add: store_def Let_def)
qed (auto simp: get_store get_update update_found get_delete prune_keeps_live store_invs
       dest: prune_no_new)

section \<open>Properties\<close>

text \<open>Messages and storages for the concrete instances below.\<close>

definition sample_message :: "u64 \<Rightarrow> instant \<Rightarrow> message_state \<Rightarrow> stored_message" where
  "sample_message n t st =
     (stored_message_new \<lparr>ck_now = t, ck_wall = t\<rparr> (MessageId n) ''100'' ''258'' [] ''esme'' 1) \<lparr> m_state := st \<rparr>"

definition sample_storage :: "stored_message list \<Rightarrow> message_storage" where
  "sample_storage ms =
     \<lparr> messages = map (\<lambda>m. (m_id m, m)) ms, retry_queue = [], memory_bytes = 0,
       st_config = \<lparr>mc_max_messages = 2, mc_max_memory_mb = 1, mc_prune_percent = 50\<rparr> \<rparr>"

lemma sample_message_simps [simp]:
  "m_id (sample_message n t st) = MessageId n" "m_state (sample_message n t st) = st"
  "m_updated_at (sample_message n t st) = t" "m_created_at (sample_message n t st) = t"
  "m_priority (sample_message n t st) = Normal"
  by (simp_all add: sample_message_def stored_message_new_def)

text \<open>C1: a message that is not in a terminal state is never lost to capacity pruning.  Whatever else is
  stored afterwards (any number of messages with other ids, at whatever limits), an update by its
  id still finds it, unchanged since it was stored.\<close>

theorem live_message_never_evicted:
  assumes "store_inv s" "\<not> is_terminal (m_state x)" "m_id x \<notin> m_id ` set ms"
  shows "get (m_id x) (snd (update (m_id x) f (fold (\<lambda>m t. snd (store m t)) ms (snd (store x s))))) =
           Some (f x)"
  using assms by (rule mem.upd_after_puts)

theorem live_message_never_evicted_witness:
  "get (MessageId 1) (snd (update (MessageId 1) (mark_expired \<lparr>ck_now = 4, ck_wall = 4\<rparr>)
     (fold (\<lambda>m t. snd (store m t))
        [stored_message_new \<lparr>ck_now = 2, ck_wall = 2\<rparr> (MessageId 2) ''1'' ''2'' [] ''e'' 1]
        (snd (store (stored_message_new \<lparr>ck_now = 1, ck_wall = 1\<rparr> (MessageId 1) ''1'' ''2'' [] ''e'' 1)
           (with_config \<lparr>mc_max_messages = 1, mc_max_memory_mb = 0, mc_prune_percent = 50\<rparr>)))))) =
   Some (mark_expired \<lparr>ck_now = 4, ck_wall = 4\<rparr>
     (stored_message_new \<lparr>ck_now = 1, ck_wall = 1\<rparr> (MessageId 1) ''1'' ''2'' [] ''e'' 1))"
proof -
  have i: "m_id (stored_message_new ck i a b c d n) = i" "m_state (stored_message_new ck i a b c d n) = Pending"
    for ck i a b c d n by (simp_all add: stored_message_new_def)
  show ?thesis
    using live_message_never_evicted
      [of "with_config \<lparr>mc_max_messages = 1, mc_max_memory_mb = 0, mc_prune_percent = 50\<rparr>"
          "stored_message_new \<lparr>ck_now = 1, ck_wall = 1\<rparr> (MessageId 1) ''1'' ''2'' [] ''e'' 1"
          "[stored_message_new \<lparr>ck_now = 2, ck_wall = 2\<rparr> (MessageId 2) ''1'' ''2'' [] ''e'' 1]"
          "mark_expired \<lparr>ck_now = 4, ck_wall = 4\<rparr>"]
    by (simp add: i store_inv_def with_config_def)
qed

text \<open>In double precision the share is still the integer part of the percentage, for every storage that fits in memory.\<close>

lemma prune_count_exact:
  assumes "len < 2 ^ 45"
  shows "prune_count cfg len = max 1 (len * unat (mc_prune_percent cfg) div 100)"
proof -
  let ?p = "unat (mc_prune_percent cfg)"
  have p: "?p < 2 ^ 8" using unsigned_less [of "mc_prune_percent cfg", where 'a = nat] by simp
  have "len * ?p < 2 ^ 45 * 2 ^ 8" using assms p by (intro mult_strict_mono) simp_all
  then show ?thesis using scaled_floor [of len ?p 100] assms p by (simp add: prune_count_def)
qed

lemma evicted_in_take:
  assumes "get i s = Some m" "get i (prune_if_needed s) = None"
  shows "i \<in> set (take (prune_count (st_config s) (length (messages s))) (terminal_by_age (messages s)))"
  using assms by (auto simp: prune_if_needed_def get_drop split: if_splits)

lemma kept_not_in_take:
  assumes "get i s = Some m" "get i (prune_if_needed s) = Some m"
    and "at_message_limit s \<or> at_memory_limit s"
  shows "i \<notin> set (take (prune_count (st_config s) (length (messages s))) (terminal_by_age (messages s)))"
  using assms by (auto simp: prune_if_needed_def get_drop split: if_splits)

lemma entry_in_sorted:
  assumes "store_inv s" "get i s = Some m"
    "(i, m') \<in> set (sort_key (\<lambda>e. m_updated_at (snd e)) (filter (\<lambda>e. is_terminal (m_state (snd e))) (messages s)))"
  shows "m' = m"
  using assms map_of_is_SomeI [of "messages s" i m'] by (simp add: store_inv_def get_def)

text \<open>capacity pruning evicts finished messages only, and the least recently updated ones first: when
  one message is evicted and another finished one is kept, the evicted one was not updated later.\<close>

theorem prune_evicts_oldest_terminal:
  assumes inv: "store_inv s"
    and ev: "get i s = Some m" "get i (prune_if_needed s) = None"
  shows "is_terminal (m_state m) \<and> (at_message_limit s \<or> at_memory_limit s) \<and>
    (\<forall>j m'. get j (prune_if_needed s) = Some m' \<and> is_terminal (m_state m') \<longrightarrow>
       m_updated_at m \<le> m_updated_at m')"
proof -
  let ?n = "prune_count (st_config s) (length (messages s))"
  let ?xs = "filter (\<lambda>e. is_terminal (m_state (snd e))) (messages s)"
  let ?srt = "sort_key (\<lambda>e. m_updated_at (snd e)) ?xs"
  have lim: "at_message_limit s \<or> at_memory_limit s"
    using ev by (auto simp: prune_if_needed_def split: if_splits)
  obtain m1 where m1: "(i, m1) \<in> set (take ?n ?srt)"
    using evicted_in_take [OF ev] by (auto simp: terminal_by_age_def take_map)
  then have "m1 = m" using entry_in_sorted [OF inv ev(1) in_set_takeD [OF m1]] by simp
  with m1 have im: "(i, m) \<in> set (take ?n ?srt)" by simp
  then have tm: "is_terminal (m_state m)" using in_set_takeD by fastforce
  have "m_updated_at m \<le> m_updated_at m'"
    if k: "get j (prune_if_needed s) = Some m'" "is_terminal (m_state m')" for j m'
  proof -
    have gj: "get j s = Some m'" using prune_no_new k(1) by blast
    then have "(j, m') \<in> set ?srt" using k(2) by (auto simp: get_def dest: map_of_SomeD)
    moreover have "(j, m') \<notin> set (take ?n ?srt)"
      using kept_not_in_take [OF gj k(1) lim] by (force simp: terminal_by_age_def take_map)
    ultimately have "(j, m') \<in> set (drop ?n ?srt)"
      by (metis Un_iff append_take_drop_id set_append)
    with im show ?thesis using mem_take_sort_key_least by fastforce
  qed
  with tm lim show ?thesis by blast
qed

theorem prune_evicts_oldest_terminal_witness:
  "get (MessageId 2) (prune_if_needed (sample_storage [sample_message 1 5 Delivered, sample_message 2 3 Failed])) = None \<and>
   m_updated_at (sample_message 2 3 Failed) \<le> m_updated_at (sample_message 1 5 Delivered)"
proof -
  let ?s = "sample_storage [sample_message 1 5 Delivered, sample_message 2 3 Failed]"
  have inv: "store_inv ?s" by (simp add: store_inv_def sample_storage_def)
  have g: "get (MessageId 2) ?s = Some (sample_message 2 3 Failed)"
    by (simp add: get_def sample_storage_def)
  have p: "get (MessageId 2) (prune_if_needed ?s) = None"
    "get (MessageId 1) (prune_if_needed ?s) = Some (sample_message 1 5 Delivered)"
    by (simp_all add: get_def sample_storage_def prune_if_needed_def at_message_limit_def drop_messages_def
        terminal_by_age_def prune_count_exact Let_def)
  from prune_evicts_oldest_terminal [OF inv g p(1)] p show ?thesis by (metis sample_message_simps(2) is_terminal.simps(1))
qed

lemma get_pending_mem:
  "m \<in> set (get_pending n s) \<Longrightarrow> m \<in> set (map_values (messages s)) \<and> m_state m = Pending"
  by (auto simp: get_pending_def dest!: in_set_takeD)



section \<open>Memory accounting\<close>

text \<open>The storage under the operations that charge and release memory: a message under a fresh id,
  deletion, age-based pruning.\<close>

inductive charged :: "message_storage \<Rightarrow> bool" where
  charged_init: "charged (with_config cfg)"
| charged_store: "charged s \<Longrightarrow> get (m_id m) s = None \<Longrightarrow> charged (snd (store m s))"
| charged_delete: "charged s \<Longrightarrow> charged (snd (delete i s))"
| charged_prune: "charged s \<Longrightarrow> charged (snd (prune_terminal now age s))"

lemma stored_bytes_cong: "messages t = messages s \<Longrightarrow> stored_bytes t = stored_bytes s"
  by (simp add: stored_bytes_def)

lemma bytes_prune:
  assumes "store_inv s" "memory_bytes s = of_nat (stored_bytes s)"
  shows "memory_bytes (prune_if_needed s) = of_nat (stored_bytes (prune_if_needed s))"
  using assms by (simp add: prune_if_needed_def bytes_drop)

lemma bytes_store:
  assumes "store_inv s" "memory_bytes s = of_nat (stored_bytes s)" "get (m_id m) s = None"
  shows "memory_bytes (snd (store m s)) = of_nat (stored_bytes (snd (store m s)))"
proof -
  have "map_of (messages (prune_if_needed s)) (m_id m) = None"
    using assms(3) prune_no_new [of "m_id m" s] by (cases "get (m_id m) (prune_if_needed s)") (auto simp: get_def)
  then have "stored_bytes (snd (store m s)) = stored_bytes (prune_if_needed s) + estimate_message_size m"
    by (simp add: store_def Let_def stored_bytes_def update_absent)
  then show ?thesis
    using bytes_prune [OF assms(1,2)] by (simp add: store_def Let_def)
qed

lemma bytes_delete:
  assumes "store_inv s" "memory_bytes s = of_nat (stored_bytes s)"
  shows "memory_bytes (snd (delete i s)) = of_nat (stored_bytes (snd (delete i s)))"
proof (cases "map_of (messages s) i")
  case (Some m)
  have "stored_bytes (snd (delete i s)) + estimate_message_size m = stored_bytes s"
    using assms(1) delete_bytes [of "messages s" i m] Some
    by (simp add: stored_bytes_def delete_def store_inv_def)
  then have "of_nat (stored_bytes s) =
      (of_nat (stored_bytes (snd (delete i s))) + of_nat (estimate_message_size m) :: usize)"
    by (metis of_nat_add)
  moreover have "memory_bytes (snd (delete i s)) = memory_bytes s - of_nat (estimate_message_size m)"
    using Some by (simp add: delete_def)
  ultimately show ?thesis unfolding assms(2) by (metis add_diff_cancel_right')
qed (use assms in \<open>simp add: delete_def\<close>)

lemma charged_ok: "charged s \<Longrightarrow> store_inv s \<and> memory_bytes s = of_nat (stored_bytes s)"
proof (induction rule: charged.induct)
  case (charged_init cfg)
  then show ?case by (simp add: with_config_def store_inv_def stored_bytes_def)
next
  case (charged_prune s now age)
  then show ?case by (simp add: inv_prune_terminal) (simp add: prune_terminal_def Let_def bytes_drop)
qed (simp_all add: store_invs bytes_store bytes_delete)

text \<open>as long as messages are only stored under fresh ids, deleted and pruned, the memory counter of
  the storage is exactly the estimated size of what it holds (modulo its width): nothing is
  charged twice or released twice.\<close>

theorem memory_accounting_exact:
  assumes "charged s"
  shows "store_inv s \<and> memory_bytes s = of_nat (stored_bytes s)"
  using assms by (rule charged_ok)

theorem memory_accounting_exact_witness:
  "memory_bytes (snd (store (stored_message_new \<lparr>ck_now = 1, ck_wall = 1\<rparr> (MessageId 1) ''1'' ''2'' [] ''e'' 1)
     (with_config \<lparr>mc_max_messages = 1, mc_max_memory_mb = 0, mc_prune_percent = 50\<rparr>))) = 579"
proof -
  let ?m = "stored_message_new \<lparr>ck_now = 1, ck_wall = 1\<rparr> (MessageId 1) ''1'' ''2'' [] ''e'' 1"
  let ?s = "with_config \<lparr>mc_max_messages = 1, mc_max_memory_mb = 0, mc_prune_percent = 50\<rparr>"
  have "charged (snd (store ?m ?s))"
    by (rule charged_store [OF charged_init]) (simp add: get_def with_config_def)
  from memory_accounting_exact [OF this] show ?thesis
    by (simp add: stored_bytes_def store_def with_config_def prune_if_needed_def drop_messages_def
        terminal_by_age_def estimate_message_size_def ESTIMATED_MESSAGE_SIZE_def stored_message_new_def Let_def)
qed

text \<open>\<^verbatim>\<open>update\<close> does not adjust the counter, so a message that grew in place releases more
  than was charged: from an empty storage, storing a message, marking it in flight and deleting it
  leaves the counter at \<open>2^64 - 132\<close>, and with the default limit of 512 MB the empty storage is
  from then on at its memory limit, so that every further store prunes finished messages.\<close>

theorem update_then_delete_wraps_memory_counter:
  "let m = stored_message_new \<lparr>ck_now = 1, ck_wall = 1\<rparr> (MessageId 1) ''1'' ''2'' [] ''e'' 1;
       s0 = with_config \<lparr>mc_max_messages = 100000, mc_max_memory_mb = 512, mc_prune_percent = 10\<rparr>;
       s1 = snd (store m s0);
       s2 = snd (update (MessageId 1) (mark_in_flight \<lparr>ck_now = 2, ck_wall = 2\<rparr> ''c1'' ''e1'') s1);
       s3 = snd (delete (MessageId 1) s2)
   in messages s3 = [] \<and> memory_bytes s3 = - 132 \<and> at_memory_limit s3"
  by (simp add: Let_def store_def update_def delete_def with_config_def prune_if_needed_def
      at_memory_limit_def at_message_limit_def stored_message_new_def mark_in_flight_def
      log_state_change_def push_event_def estimate_message_size_def ESTIMATED_MESSAGE_SIZE_def)

end
