(* ===== verification/Feedback.thy ===== *)
theory Feedback
  imports MessageStore
begin

text \<open>
  The feedback part of the in-memory storage (\<^verbatim>\<open>src/src/store/memory.rs\<close>, the decision and
  outcome operations of \<^verbatim>\<open>MemoryStorage\<close>) with its aggregated statistics
  (\<^verbatim>\<open>src/src/feedback/types.rs\<close>).  The record extends the message storage.  Success rates, scores and
  percentile positions are computed with the floating-point arithmetic of \<open>Float64\<close>.
\<close>

section \<open>State\<close>

definition MAX_DECISIONS :: nat where
  "MAX_DECISIONS = 100000"

definition MAX_LATENCY_SAMPLES :: nat where
  "MAX_LATENCY_SAMPLES = 50000"

record target_stats_internal =
  ti_total :: u64
  ti_successes :: u64
  ti_failures :: u64
  ti_sum_latency_us :: u64
  ti_ema_latency_us :: u64
  ti_latency_samples :: "u64 list"
  ti_last_update :: instant

definition target_stats_internal_default :: "instant \<Rightarrow> target_stats_internal" where
  "target_stats_internal_default now =
     \<lparr> ti_total = 0, ti_successes = 0, ti_failures = 0, ti_sum_latency_us = 0, ti_ema_latency_us = 0,
       ti_latency_samples = [], ti_last_update = now \<rparr>"

record type_stats_internal =
  yi_total :: u64
  yi_successes :: u64
  yi_failures :: u64
  yi_pending :: u64
  yi_sum_latency_us :: u64
  yi_latency_samples :: "u64 list"

definition type_stats_internal_default :: type_stats_internal where
  "type_stats_internal_default =
     \<lparr> yi_total = 0, yi_successes = 0, yi_failures = 0, yi_pending = 0, yi_sum_latency_us = 0,
       yi_latency_samples = [] \<rparr>"

record feedback_storage = message_storage +
  fb_decisions :: "(decision_id, decision) alist"
  fb_target_stats :: "(string, target_stats_internal) alist"
  fb_type_stats :: "(decision_type, type_stats_internal) alist"

definition storage_with_config :: "memory_store_config \<Rightarrow> feedback_storage" where
  "storage_with_config cfg =
     message_storage.extend (with_config cfg)
       (feedback_storage.fields [] [] [])"

section \<open>Operations\<close>

definition prune_decisions_if_needed :: "(decision_id, decision) alist \<Rightarrow> (decision_id, decision) alist" where
  "prune_decisions_if_needed ds =
     (if length ds < MAX_DECISIONS then ds
      else alist_remove_all
             (take (MAX_DECISIONS div 10) (map fst (sort_key (\<lambda>e. d_timestamp (snd e)) ds))) ds)"

definition record_decision ::
  "instant \<Rightarrow> decision \<Rightarrow> feedback_storage \<Rightarrow> decision_id \<times> feedback_storage" where
  "record_decision now d s =
     (d_id d,
      s \<lparr> fb_decisions := AList.update (d_id d) d (prune_decisions_if_needed (fb_decisions s)),
          fb_type_stats := alist_upsert (d_type d) type_stats_internal_default
            (\<lambda>y. y \<lparr> yi_total := yi_total y + 1, yi_pending := yi_pending y + 1 \<rparr>) (fb_type_stats s),
          fb_target_stats := alist_upsert (d_target d) (target_stats_internal_default now)
            (\<lambda>t. t) (fb_target_stats s) \<rparr>)"

definition push_sample :: "u64 \<Rightarrow> u64 list \<Rightarrow> u64 list" where
  "push_sample l xs = (if length xs < MAX_LATENCY_SAMPLES then xs @ [l] else xs)"

definition type_outcome :: "bool \<Rightarrow> u64 \<Rightarrow> type_stats_internal \<Rightarrow> type_stats_internal" where
  "type_outcome ok l y =
     y \<lparr> yi_pending := saturating_sub (yi_pending y) 1,
         yi_successes := (if ok then yi_successes y + 1 else yi_successes y),
         yi_failures := (if ok then yi_failures y else yi_failures y + 1),
         yi_sum_latency_us := yi_sum_latency_us y + l,
         yi_latency_samples := push_sample l (yi_latency_samples y) \<rparr>"

definition ema_update :: "u64 \<Rightarrow> u64 \<Rightarrow> u64" where
  "ema_update l ema = (if ema = 0 then l else (l * 2 + ema * 8) div 10)"

definition target_outcome :: "instant \<Rightarrow> bool \<Rightarrow> u64 \<Rightarrow> target_stats_internal \<Rightarrow> target_stats_internal" where
  "target_outcome now ok l t =
     t \<lparr> ti_total := ti_total t + 1,
         ti_successes := (if ok then ti_successes t + 1 else ti_successes t),
         ti_failures := (if ok then ti_failures t else ti_failures t + 1),
         ti_sum_latency_us := ti_sum_latency_us t + l,
         ti_last_update := now,
         ti_ema_latency_us := ema_update l (ti_ema_latency_us t),
         ti_latency_samples := push_sample l (ti_latency_samples t) \<rparr>"

definition record_outcome :: "instant \<Rightarrow> outcome \<Rightarrow> feedback_storage \<Rightarrow> feedback_storage" where
  "record_outcome now o1 s =
     (case map_of (fb_decisions s) (o_decision_id o1) of
        None \<Rightarrow> s
      | Some d \<Rightarrow>
          (let l = of_nat (as_micros (o_latency o1))
           in s \<lparr> fb_type_stats := alist_modify (d_type d) (type_outcome (o_success o1) l) (fb_type_stats s),
                  fb_target_stats := alist_modify (d_target d) (target_outcome now (o_success o1) l)
                    (fb_target_stats s) \<rparr>))"

definition calculate_percentile :: "u64 list \<Rightarrow> f64 \<Rightarrow> u64" where
  "calculate_percentile samples p =
     (if samples = [] then 0
      else let srt = sort samples;
               idx = min (f64_to_u64 (fdiv (fmul (f64_of_int (int (length srt))) p) (f64_of_int 100))) (length srt - 1)
           in srt ! idx)"

record decision_stats =
  ds_total :: u64
  ds_successes :: u64
  ds_failures :: u64
  ds_pending :: u64
  ds_avg_latency_us :: u64
  ds_p50_latency_us :: u64
  ds_p95_latency_us :: u64
  ds_p99_latency_us :: u64

definition decision_stats_of :: "decision_type \<Rightarrow> feedback_storage \<Rightarrow> decision_stats" where
  "decision_stats_of ty s =
     (case map_of (fb_type_stats s) ty of
        None \<Rightarrow> \<lparr> ds_total = 0, ds_successes = 0, ds_failures = 0, ds_pending = 0, ds_avg_latency_us = 0,
                  ds_p50_latency_us = 0, ds_p95_latency_us = 0, ds_p99_latency_us = 0 \<rparr>
      | Some y \<Rightarrow>
          \<lparr> ds_total = yi_total y, ds_successes = yi_successes y, ds_failures = yi_failures y,
            ds_pending = yi_pending y,
            ds_avg_latency_us = (if 0 < yi_total y then yi_sum_latency_us y div yi_total y else 0),
            ds_p50_latency_us = calculate_percentile (yi_latency_samples y) (f64_of_int 50),
            ds_p95_latency_us = calculate_percentile (yi_latency_samples y) (f64_of_int 95),
            ds_p99_latency_us = calculate_percentile (yi_latency_samples y) (f64_of_int 99) \<rparr>)"

record target_stats =
  tt_name :: string
  tt_total :: u64
  tt_successes :: u64
  tt_failures :: u64
  tt_avg_latency_us :: u64
  tt_ema_latency_us :: u64
  tt_last_update :: "instant option"

definition target_stats_of :: "string \<Rightarrow> feedback_storage \<Rightarrow> target_stats" where
  "target_stats_of target s =
     (case map_of (fb_target_stats s) target of
        None \<Rightarrow> \<lparr> tt_name = target, tt_total = 0, tt_successes = 0, tt_failures = 0, tt_avg_latency_us = 0,
                  tt_ema_latency_us = 0, tt_last_update = None \<rparr>
      | Some t \<Rightarrow>
          \<lparr> tt_name = target, tt_total = ti_total t, tt_successes = ti_successes t, tt_failures = ti_failures t,
            tt_avg_latency_us = (if 0 < ti_total t then ti_sum_latency_us t div ti_total t else 0),
            tt_ema_latency_us = ti_ema_latency_us t, tt_last_update = Some (ti_last_update t) \<rparr>)"

definition decision_success_rate :: "decision_stats \<Rightarrow> f64" where
  "decision_success_rate d =
     (let completed = ds_successes d + ds_failures d
      in if completed = 0 then Fin 1 else fdiv (f64_of_int (uint (ds_successes d))) (f64_of_int (uint completed)))"

definition success_rate :: "target_stats \<Rightarrow> f64" where
  "success_rate t =
     (let total = tt_successes t + tt_failures t
      in if total = 0 then Fin 1 else fdiv (f64_of_int (uint (tt_successes t))) (f64_of_int (uint total)))"

definition score :: "target_stats \<Rightarrow> f64" where
  "score t =
     (let latency_factor =
            (if tt_ema_latency_us t = 0 then Fin 1
             else fdiv (f64_of_int 1000) (fmax (f64_of_int (uint (tt_ema_latency_us t))) (Fin 1)))
      in fadd (fmul (success_rate t) (round64 (7 / 10))) (fmul (fmin latency_factor (Fin 1)) (round64 (3 / 10))))"

definition all_target_stats :: "feedback_storage \<Rightarrow> (string \<times> target_stats) list" where
  "all_target_stats s =
     sort_desc (\<lambda>e. success_rate (snd e)) (map (\<lambda>e. (fst e, target_stats_of (fst e) s)) (fb_target_stats s))"

definition prune_feedback :: "instant \<Rightarrow> duration \<Rightarrow> feedback_storage \<Rightarrow> feedback_storage" where
  "prune_feedback now max_age s =
     s \<lparr> fb_decisions := filter (\<lambda>e. now - int max_age \<le> d_timestamp (snd e)) (fb_decisions s) \<rparr>"

section \<open>Rates, scores and percentiles\<close>

lemma f64_u64_ge_one:
  assumes "(w :: u64) \<noteq> 0"
  obtains r where "f64_of_int (uint w) = Fin r" "1 / 2 \<le> r"
proof -
  have w: "uint w = int (unat w)" "unat w \<noteq> 0" using assms by (simp_all add: unat_eq_zero)
  have "unat w < 2 ^ 100" using unsigned_less [of w, where 'a = nat] by simp
  then obtain r where r: "f64_of_int (int (unat w)) = Fin r" "of_nat (unat w) / 2 \<le> r" by (rule f64_of_nat_between)
  have "1 / 2 \<le> r" using r(2) one_le_of_nat [OF w(2)] by linarith
  then show ?thesis using that r(1) unfolding w(1) by blast
qed

lemma success_rate_not_nan [simp]: "success_rate t \<noteq> NaN"
proof (cases "tt_successes t + tt_failures t = 0")
  case False
  then obtain r where "f64_of_int (uint (tt_successes t + tt_failures t)) = Fin r" "1 / 2 \<le> r" by (rule f64_u64_ge_one)
  then show ?thesis using False by (cases "f64_of_int (uint (tt_successes t))") (auto simp: success_rate_def Let_def f64_of_int_def finf_def)
qed (simp add: success_rate_def)

text \<open>The report lists every target once, best success rate first.\<close>

theorem report_sorted_by_success:
  "mset (all_target_stats s) = mset (map (\<lambda>e. (fst e, target_stats_of (fst e) s)) (fb_target_stats s)) \<and>
   sorted_wrt (\<lambda>a b. \<not> fless (success_rate (snd a)) (success_rate (snd b))) (all_target_stats s)"
  unfolding all_target_stats_def by (simp add: sorted_sort_desc)

text \<open>Below \<open>2^53\<close> outcomes a success rate lies between 0 and 1.\<close>

lemma success_rate_unit:
  assumes "uint (tt_successes t) + uint (tt_failures t) < 2 ^ 53"
  obtains r where "success_rate t = Fin r" "0 \<le> r" "r \<le> 1"
proof (cases "tt_successes t + tt_failures t = 0")
  case True
  then show ?thesis using that [of 1] by (simp add: success_rate_def)
next
  case False
  let ?a = "uint (tt_successes t)" and ?b = "uint (tt_successes t + tt_failures t)"
  have b: "?b = ?a + uint (tt_failures t)" using assms by (simp add: uint_word_ariths(1))
  then have ab: "0 \<le> ?a" "?a \<le> ?b" "?b < 2 ^ 53" using assms by simp_all
  have "?b \<noteq> 0" using False by (metis uint_0_iff)
  then have b0: "0 < ?b" using ab by linarith
  have e: "f64_of_int ?a = Fin (of_int ?a)" "f64_of_int ?b = Fin (of_int ?b)"
    by (rule f64_of_int_exact; use ab in linarith)+
  have q: "0 \<le> (of_int ?a / of_int ?b :: rat)" "(of_int ?a / of_int ?b :: rat) \<le> of_int 1"
    using ab b0 by (simp_all only: of_int_1 divide_le_eq_1_pos of_int_0_less_iff of_int_le_iff divide_nonneg_pos of_int_0_le_iff)
  obtain r where "round64 (of_int ?a / of_int ?b) = Fin r" "0 \<le> r" "r \<le> of_int 1"
    using round64_le_int [OF q] by auto
  moreover have "success_rate t = round64 (of_int ?a / of_int ?b)"
    using False e b0 by (simp only: success_rate_def Let_def if_False fdiv.simps of_int_eq_0_iff)  simp
  ultimately show ?thesis using that by simp
qed

text \<open>A percentile is one of the samples, and a higher percentile is never a smaller sample.\<close>

lemma percentile_index:
  assumes "samples \<noteq> []" "length samples < 2 ^ 46" "p \<le> 100"
  shows "calculate_percentile samples (f64_of_int (int p)) = sort samples ! min (length samples * p div 100) (length samples - 1)"
proof -
  have "length samples * p \<le> length samples * 100" using assms(3) by simp
  also have "\<dots> < 2 ^ 53" using assms(2) by simp
  finally show ?thesis using scaled_floor [of "length samples" p 100] assms by (simp add: calculate_percentile_def Let_def)
qed

theorem percentiles_ordered:
  assumes "samples \<noteq> []" "length samples \<le> MAX_LATENCY_SAMPLES" "p \<le> q" "q \<le> 100"
  shows "calculate_percentile samples (f64_of_int (int p)) \<in> set samples"
    and "calculate_percentile samples (f64_of_int (int p)) \<le> calculate_percentile samples (f64_of_int (int q))"
proof -
  have l: "length samples < 2 ^ 46" using assms(2) by (simp add: MAX_LATENCY_SAMPLES_def)
  have p: "p \<le> 100" using assms by simp
  have i: "min (length samples * r div 100) (length samples - 1) < length (sort samples)" for r
    using assms(1) by (simp add: min_less_iff_disj)
  show "calculate_percentile samples (f64_of_int (int p)) \<in> set samples"
    unfolding percentile_index [OF assms(1) l p] using nth_mem [OF i] by simp
  show "calculate_percentile samples (f64_of_int (int p)) \<le> calculate_percentile samples (f64_of_int (int q))"
    unfolding percentile_index [OF assms(1) l p] percentile_index [OF assms(1) l assms(4)]
    using assms(3) i [of q] by (intro sorted_nth_mono min.mono div_le_mono mult_le_mono2) simp_all
qed

section \<open>Invariant\<close>

inductive feedback_step :: "feedback_storage \<Rightarrow> feedback_storage \<Rightarrow> bool" where
  decide: "feedback_step s (snd (record_decision now d s))"
| finish: "feedback_step s (record_outcome now o1 s)"
| prune: "feedback_step s (prune_feedback now age s)"

definition target_ok :: "target_stats_internal \<Rightarrow> bool" where
  "target_ok t =
     (ti_total t = ti_successes t + ti_failures t \<and> length (ti_latency_samples t) \<le> MAX_LATENCY_SAMPLES)"

definition feedback_inv :: "feedback_storage \<Rightarrow> bool" where
  "feedback_inv s =
     (distinct_keys (fb_decisions s) \<and> length (fb_decisions s) \<le> MAX_DECISIONS \<and>
      (\<forall>t v. map_of (fb_target_stats s) t = Some v \<longrightarrow> target_ok v) \<and>
      (\<forall>e \<in> set (fb_decisions s). map_of (fb_target_stats s) (d_target (snd e)) \<noteq> None \<and>
         map_of (fb_type_stats s) (d_type (snd e)) \<noteq> None))"

lemma pruned_decisions:
  assumes "distinct_keys ds" "length ds \<le> MAX_DECISIONS"
  shows "distinct_keys (prune_decisions_if_needed ds) \<and> length (prune_decisions_if_needed ds) < MAX_DECISIONS \<and>
    set (prune_decisions_if_needed ds) \<subseteq> set ds"
proof (cases "length ds < MAX_DECISIONS")
  case True
  then show ?thesis using assms by (simp add: prune_decisions_if_needed_def)
next
  case False
  let ?ks = "take (MAX_DECISIONS div 10) (map fst (sort_key (\<lambda>e. d_timestamp (snd e)) ds))"
  have eq: "prune_decisions_if_needed ds = filter (\<lambda>e. fst e \<notin> set ?ks) ds"
    using False by (simp add: prune_decisions_if_needed_def remove_all_is_filter)
  have "fst (hd (sort_key (\<lambda>e. d_timestamp (snd e)) ds)) \<in> set ?ks"
    using False by (cases "sort_key (\<lambda>e. d_timestamp (snd e)) ds")
      (auto simp: MAX_DECISIONS_def dest: arg_cong [where f = length])
  moreover have "sort_key (\<lambda>e. d_timestamp (snd e)) ds \<noteq> []"
    using False by (auto simp: MAX_DECISIONS_def dest: arg_cong [where f = length])
  then have "hd (sort_key (\<lambda>e. d_timestamp (snd e)) ds) \<in> set ds"
    by (metis hd_in_set set_sort)
  ultimately have "length (filter (\<lambda>e. fst e \<notin> set ?ks) ds) < length ds"
    by (intro length_filter_less) auto
  then show ?thesis using assms unfolding eq by (auto intro: distinct_keys_filter)
qed

lemma target_ok_outcome: "target_ok t \<Longrightarrow> target_ok (target_outcome now ok l t)"
  by (auto simp: target_ok_def target_outcome_def push_sample_def)

lemma target_ok_default: "target_ok (target_stats_internal_default now)"
  by (simp add: target_ok_def target_stats_internal_default_def)

lemma inv_record_decision: "feedback_inv s \<Longrightarrow> feedback_inv (snd (record_decision now d s))"
proof -
  assume inv: "feedback_inv s"
  define ds where "ds = prune_decisions_if_needed (fb_decisions s)"
  have ds: "distinct_keys ds" "length ds < MAX_DECISIONS" "set ds \<subseteq> set (fb_decisions s)"
    using inv pruned_decisions [of "fb_decisions s"] by (simp_all add: feedback_inv_def ds_def)
  have "length (AList.update (d_id d) d ds) \<le> MAX_DECISIONS"
    using ds(2) length_update_le [of "d_id d" d ds] by simp
  moreover have "distinct_keys (AList.update (d_id d) d ds)" using ds(1) by blast
  moreover have "e = (d_id d, d) \<or> e \<in> set (fb_decisions s)" if "e \<in> set (AList.update (d_id d) d ds)" for e
    using that ds(3) set_alist_update [of "d_id d" d ds] by blast
  moreover have "target_ok v"
    if "map_of (alist_upsert (d_target d) (target_stats_internal_default now) (\<lambda>t. t) (fb_target_stats s)) t = Some v"
    for t v
    using that inv target_ok_default by (auto simp: feedback_inv_def map_of_upsert split: if_splits option.splits)
  ultimately show ?thesis
    using inv unfolding feedback_inv_def record_decision_def ds_def [symmetric]
    by (simp del: not_None_eq add: upsert_None_iff) (metis snd_conv)
qed

lemma inv_record_outcome: "feedback_inv s \<Longrightarrow> feedback_inv (record_outcome now o1 s)"
  unfolding feedback_inv_def record_outcome_def Let_def
  by (auto simp: map_of_modify target_ok_outcome split: option.splits)

lemma inv_prune_feedback: "feedback_inv s \<Longrightarrow> feedback_inv (prune_feedback now age s)"
  unfolding feedback_inv_def prune_feedback_def
  by (auto simp: distinct_keys_filter intro: le_trans [OF length_filter_le])

lemma feedback_step_inv: "feedback_step s s' \<Longrightarrow> feedback_inv s \<Longrightarrow> feedback_inv s'"
  by (induction rule: feedback_step.induct) (simp_all add: inv_record_decision inv_record_outcome inv_prune_feedback)

lemma storage_with_config_simps [simp]:
  "messages (storage_with_config cfg) = []" "retry_queue (storage_with_config cfg) = []"
  "memory_bytes (storage_with_config cfg) = 0" "st_config (storage_with_config cfg) = cfg"
  "fb_decisions (storage_with_config cfg) = []" "fb_target_stats (storage_with_config cfg) = []"
  "fb_type_stats (storage_with_config cfg) = []"
  by (simp_all add: storage_with_config_def message_storage.defs feedback_storage.defs with_config_def)

text \<open>C37: Feedback statistics stay consistent and bounded.  After any decisions, outcomes (for known or
  unknown decisions) and pruning, at most \<open>MAX_DECISIONS\<close> decisions are kept, and the statistics
  of every target count each outcome exactly once as a success or a failure and keep at most
  \<open>MAX_LATENCY_SAMPLES\<close> samples.\<close>

theorem feedback_consistent:
  assumes "feedback_step\<^sup>*\<^sup>* (storage_with_config cfg) s"
  shows "length (fb_decisions s) \<le> 100000 \<and>
    (\<forall>t v. map_of (fb_target_stats s) t = Some v \<longrightarrow>
       ti_total v = ti_successes v + ti_failures v \<and> length (ti_latency_samples v) \<le> 50000)"
proof -
  have "feedback_inv s"
    using assms
  proof (induction rule: rtranclp_induct)
    case base
    then show ?case by (simp add: feedback_inv_def)
  next
    case (step y z)
    then show ?case by (blast intro: feedback_step_inv)
  qed
  then show ?thesis by (auto simp: feedback_inv_def target_ok_def MAX_DECISIONS_def MAX_LATENCY_SAMPLES_def)
qed

theorem feedback_consistent_witness:
  "let d = decision_route (DecisionId 0) 0 ''c'' [] (decision_context_new ''258'');
       s = record_outcome 5 (outcome_success 5 (DecisionId 0) 3000) (snd (record_decision 0 d
             (storage_with_config \<lparr> mc_max_messages = 1, mc_max_memory_mb = 1, mc_prune_percent = 10 \<rparr>)))
   in length (fb_decisions s) \<le> 100000"
  unfolding Let_def
  by (rule feedback_consistent [THEN conjunct1]) (rule rtranclp.rtrancl_into_rtrancl [OF r_into_rtranclp],
      rule decide, rule finish)

text \<open>The moving average of the latency never leaves the interval between the old average and the new
  sample, as long as the products fit in 64 bits.\<close>

theorem ema_between:
  assumes "ema \<noteq> 0" "unat l < 2 ^ 60" "unat ema < 2 ^ 60"
  shows "unat (ema_update l ema) \<le> max (unat l) (unat ema) \<and>
         min (unat l) (unat ema) \<le> unat (ema_update l ema)"
proof -
  have "unat (l * 2) = unat l * 2" using assms(2) by (subst unat_mult_lem [THEN iffD1]) auto
  moreover have "unat (ema * 8) = unat ema * 8" using assms(3) by (subst unat_mult_lem [THEN iffD1]) auto
  ultimately have "unat (l * 2 + ema * 8) = unat l * 2 + unat ema * 8"
    using assms by (subst unat_add_lem [THEN iffD1]) auto
  then have "unat (ema_update l ema) = (unat l * 2 + unat ema * 8) div 10"
    using assms(1) by (simp add: ema_update_def unat_div)
  moreover have "(unat l * 2 + unat ema * 8) div 10 \<le> max (unat l) (unat ema)"
    by (rule div_le_mono [of _ "max (unat l) (unat ema) * 10" 10, simplified]) simp
  moreover have "min (unat l) (unat ema) \<le> (unat l * 2 + unat ema * 8) div 10"
    by (rule div_le_mono [of "min (unat l) (unat ema) * 10" _ 10, simplified]) simp
  ultimately show ?thesis by simp
qed

theorem ema_between_witness: "unat (ema_update 100 50) \<le> 100 \<and> 50 \<le> unat (ema_update 100 50)"
  using ema_between [of 50 100] by simp

end
