(* ===== verification/Forwarder.thy ===== *)
theory Forwarder
  imports Feedback Cluster Router Smpp
begin

text \<open>
  Forwarding of messages to the upstream SMSCs: the gateway state
  (\<^verbatim>\<open>src/src/bootstrap/state.rs\<close>), the queue processor (\<^verbatim>\<open>src/src/forwarder/processor.rs\<close>) and
  the retry processor (\<^verbatim>\<open>src/src/forwarder/retry.rs\<close>).  What an upstream connection does is an
  argument: an \<open>attempt\<close> says whether a new connection can be opened, how the SMSC answers a
  \<^verbatim>\<open>submit_sm\<close>, and when the attempt ends.  The theorems quantify over all of it.
\<close>

section \<open>Gateway state and upstream attempts\<close>

record gateway =
  gw_storage :: feedback_storage
  gw_routes :: "route list"
  gw_clusters :: "(string, cluster) alist"
  gw_next_message :: u64
  gw_next_decision :: u64

datatype upstream_reply = UpTimeout | UpIoError string | UpResp u32 string | UpUnexpected string

record attempt =
  at_clock :: clock
  at_connect :: bool
  at_reply :: "submit_sm \<Rightarrow> upstream_reply"

definition show_message_id :: "message_id \<Rightarrow> string" where
  "show_message_id i = ''msg_'' @ show_nat (unat (as_u64 i))"

definition gw_update :: "message_id \<Rightarrow> (stored_message \<Rightarrow> stored_message) \<Rightarrow> gateway \<Rightarrow> gateway" where
  "gw_update i f g = g \<lparr> gw_storage := snd (update i f (gw_storage g)) \<rparr>"

text \<open>Dropping the connection guard of endpoint \<open>i\<close>.\<close>

definition cluster_drop :: "nat \<Rightarrow> cluster \<Rightarrow> cluster" where
  "cluster_drop i c =
     (let e = cl_endpoints c ! i
      in c \<lparr> cl_endpoints := (cl_endpoints c)[i := e \<lparr> ep_pool := pool_drop (ep_pool e) \<rparr>] \<rparr>)"

text \<open>The common part of the three \<^verbatim>\<open>try_forward\<close> functions: find the cluster, answer for a mock
  cluster, otherwise take a connection, send and drop the connection.\<close>

datatype call_result = NoSuchCluster | MockCluster | NoConn | Replied upstream_reply

definition cluster_call ::
  "attempt \<Rightarrow> string \<Rightarrow> submit_sm \<Rightarrow> (string, cluster) alist \<Rightarrow> call_result \<times> (string, cluster) alist" where
  "cluster_call a name sm cs =
     (case clusters_get name cs of
        None \<Rightarrow> (NoSuchCluster, cs)
      | Some c \<Rightarrow>
          if cl_is_mock c then (MockCluster, cs)
          else
            (case cluster_get_connection (ck_now (at_clock a)) (at_connect a) c of
               (None, c1) \<Rightarrow> (NoConn, AList.update name c1 cs)
             | (Some (i, k), c1) \<Rightarrow> (Replied (at_reply a sm), AList.update name (cluster_drop i c1) cs)))"

section \<open>The queue processor (forwarder/processor.rs)\<close>

datatype forward_error =
    ClusterNotFound string | NoConnection | FwdTimeout | FwdIoError string | SmscError u32 string
  | UnexpectedResponse string

fun forward_error_text :: "forward_error \<Rightarrow> string" where
  "forward_error_text (ClusterNotFound n) = ''cluster not found: '' @ n"
| "forward_error_text NoConnection = ''no healthy connection available''"
| "forward_error_text FwdTimeout = ''timeout waiting for response''"
| "forward_error_text (FwdIoError e) = ''I/O error: '' @ e"
| "forward_error_text (SmscError st i) = ''SMSC error: status='' @ show_nat (unat st) @ '', message_id='' @ i"
| "forward_error_text (UnexpectedResponse r) = ''unexpected response: '' @ r"

record forward_request =
  fq_submit_sm :: submit_sm
  fq_client_system_id :: string
  fq_sequence_number :: u32

record forward_result =
  fr_message_id :: string
  fr_command_status :: u32
  fr_error :: "string option"

definition forward_success :: "string \<Rightarrow> forward_result" where
  "forward_success mid = \<lparr> fr_message_id = mid, fr_command_status = 0, fr_error = None \<rparr>"

definition forward_failure :: "string \<Rightarrow> u32 \<Rightarrow> string \<Rightarrow> forward_result" where
  "forward_failure mid st e = \<lparr> fr_message_id = mid, fr_command_status = st, fr_error = Some e \<rparr>"

fun send_submit_sm :: "upstream_reply \<Rightarrow> forward_error + u32 \<times> string" where
  "send_submit_sm UpTimeout = Inl FwdTimeout"
| "send_submit_sm (UpIoError e) = Inl (FwdIoError e)"
| "send_submit_sm (UpResp st i) = Inr (st, i)"
| "send_submit_sm (UpUnexpected r) = Inl (UnexpectedResponse r)"

definition try_forward_to_cluster ::
  "attempt \<Rightarrow> string \<Rightarrow> message_id \<Rightarrow> submit_sm \<Rightarrow> gateway \<Rightarrow> (forward_error + string) \<times> gateway" where
  "try_forward_to_cluster a name mid sm g =
     (case cluster_call a name sm (gw_clusters g) of
        (NoSuchCluster, cs) \<Rightarrow> (Inl (ClusterNotFound name), g)
      | (MockCluster, cs) \<Rightarrow> (Inr (''MOCK-'' @ show_message_id mid), g)
      | (NoConn, cs) \<Rightarrow> (Inl NoConnection, g \<lparr> gw_clusters := cs \<rparr>)
      | (Replied r, cs) \<Rightarrow>
          (case send_submit_sm r of
             Inl e \<Rightarrow> (Inl e, g \<lparr> gw_clusters := cs \<rparr>)
           | Inr (st, up) \<Rightarrow>
               (let g1 = gw_update mid (record_response (at_clock a) st (Some up) 0) (g \<lparr> gw_clusters := cs \<rparr>)
                in if st \<noteq> 0 then (Inl (SmscError st up), g1) else (Inr up, g1))))"

text \<open>The loop over the primary cluster and its fallbacks; attempt \<open>i\<close> uses \<open>ats i\<close>.\<close>

fun try_clusters ::
  "(nat \<Rightarrow> attempt) \<Rightarrow> nat \<Rightarrow> message_id \<Rightarrow> submit_sm \<Rightarrow> string list \<Rightarrow> forward_error option \<Rightarrow> gateway \<Rightarrow>
   (forward_error option + nat \<times> string \<times> string) \<times> gateway" where
  "try_clusters ats i mid sm [] last_error g = (Inl last_error, g)"
| "try_clusters ats i mid sm (c # cs) last_error g =
     (case try_forward_to_cluster (ats i) c mid sm g of
        (Inr up, g1) \<Rightarrow> (Inr (i, c, up), g1)
      | (Inl e, g1) \<Rightarrow> try_clusters ats (Suc i) mid sm cs (Some e) g1)"

definition new_message :: "clock \<Rightarrow> message_id \<Rightarrow> submit_sm \<Rightarrow> string \<Rightarrow> u32 \<Rightarrow> stored_message" where
  "new_message ck mid sm sys sn =
     with_registered_delivery (sm_registered_delivery sm)
       (with_esm_class (sm_esm_class sm)
         (with_data_coding (sm_data_coding sm)
           (stored_message_new ck mid (sm_source_addr sm) (sm_dest_addr sm) (sm_short_message sm) sys sn)))"

definition sent_upstream :: "clock \<Rightarrow> string \<Rightarrow> string \<Rightarrow> stored_message \<Rightarrow> stored_message" where
  "sent_upstream ck cluster up m = mark_in_flight ck cluster ''upstream'' (m \<lparr> m_smsc_message_id := Some up \<rparr>)"

text \<open>Step 1: store the message.\<close>

definition store_request :: "clock \<Rightarrow> forward_request \<Rightarrow> gateway \<Rightarrow> message_id \<times> gateway" where
  "store_request ck req g =
     (let (mid, counter) = message_id_new (gw_next_message g);
          m = new_message ck mid (fq_submit_sm req) (fq_client_system_id req) (fq_sequence_number req)
      in (mid, g \<lparr> gw_next_message := counter, gw_storage := snd (store m (gw_storage g)) \<rparr>))"

text \<open>Step 2: record the route decision.\<close>

definition record_route :: "clock \<Rightarrow> submit_sm \<Rightarrow> route_result \<Rightarrow> gateway \<Rightarrow> decision_id \<times> gateway" where
  "record_route ck sm res g =
     (let (did, counter) = decision_id_new (gw_next_decision g);
          ctx = (decision_context_new (sm_dest_addr sm))
                  \<lparr> dc_source := Some (sm_source_addr sm), dc_route_name := Some (rr_route_name res) \<rparr>;
          d = decision_route did (ck_now ck) (rr_cluster_name res) (rr_fallback res) ctx
      in (did, g \<lparr> gw_next_decision := counter, gw_storage := snd (record_decision (ck_now ck) d (gw_storage g)) \<rparr>))"

text \<open>Step 3, after the loop over the clusters.\<close>

definition finish_forward ::
  "clock \<Rightarrow> (nat \<Rightarrow> attempt) \<Rightarrow> clock \<Rightarrow> message_id \<Rightarrow> decision_id \<Rightarrow>
   (forward_error option + nat \<times> string \<times> string) \<times> gateway \<Rightarrow> forward_result \<times> gateway" where
  "finish_forward ck ats ck' mid did res =
     (case res of
        (Inr (i, c, up), g4) \<Rightarrow>
          let now = at_clock (ats i);
              g5 = gw_update mid (sent_upstream now c up) g4
          in (forward_success (show_message_id mid),
              g5 \<lparr> gw_storage := record_outcome (ck_now now)
                     (outcome_success (ck_now now) did (elapsed (ck_now now) (ck_now ck))) (gw_storage g5) \<rparr>)
      | (Inl last_error, g4) \<Rightarrow>
          let msg = (case last_error of Some e \<Rightarrow> forward_error_text e | None \<Rightarrow> ''all clusters failed'');
              g5 = g4 \<lparr> gw_storage := record_outcome (ck_now ck')
                     (outcome_failure (ck_now ck') did (elapsed (ck_now ck') (ck_now ck)) (Some 0x58) (Some msg))
                     (gw_storage g4) \<rparr>;
              can = (case get mid (gw_storage g5) of Some m \<Rightarrow> can_retry (ck_now ck') m | None \<Rightarrow> False)
          in (forward_success (show_message_id mid),
              gw_update mid (if can then mark_retry ck' (from_secs 1) (Some 0x58) msg
                             else mark_failed ck' (Some 0x58) msg) g5))"

definition process_request ::
  "regex_engine \<Rightarrow> tz_database \<Rightarrow> clock \<Rightarrow> (nat \<Rightarrow> attempt) \<Rightarrow> clock \<Rightarrow> forward_request \<Rightarrow> gateway \<Rightarrow>
   forward_result \<times> gateway" where
  "process_request R tz ck ats ck' req g0 =
     (let sm = fq_submit_sm req;
          (mid, g1) = store_request ck req g0;
          (route, routes) = route_message R tz (sm_dest_addr sm) (Some (sm_source_addr sm)) None (gw_routes g1);
          g2 = g1 \<lparr> gw_routes := routes \<rparr>
      in case route of
           None \<Rightarrow>
             (forward_failure (show_message_id mid) 0xB ''no route found'',
              gw_update mid (mark_failed ck (Some 0xB) ''no route found'') g2)
         | Some res \<Rightarrow>
             (let (did, g3) = record_route ck sm res g2
              in finish_forward ck ats ck' mid did
                   (try_clusters ats 0 mid sm (rr_cluster_name res # rr_fallback res) None g3)))"

section \<open>The retry processor (forwarder/retry.rs)\<close>

definition MAX_RETRIES :: u32 where
  "MAX_RETRIES = 5"

record retry_config =
  ry_base_delay :: duration
  ry_max_delay :: duration

definition calculate_backoff :: "retry_config \<Rightarrow> u32 \<Rightarrow> duration" where
  "calculate_backoff rc attempts =
     (let delay = (of_nat (as_millis (ry_base_delay rc)) :: u64) * 2 ^ unat attempts;
          capped = min delay (of_nat (as_millis (ry_max_delay rc)))
      in from_millis (unat capped))"

datatype retry_error =
    RetryClusterNotFound string | RetryNoConnection | RetryTimeout | RetryIoError string
  | RetrySmscError u32 | RetryUnexpectedResponse string

definition build_submit_sm :: "stored_message \<Rightarrow> submit_sm" where
  "build_submit_sm m =
     \<lparr> sm_service_type = (case m_service_type m of None \<Rightarrow> [] | Some s \<Rightarrow> s), sm_source_addr = m_source m,
       sm_dest_addr = m_destination m, sm_source_addr_ton = 0, sm_source_addr_npi = 0, sm_dest_addr_ton = 0,
       sm_dest_addr_npi = 0, sm_esm_class = m_esm_class m, sm_protocol_id = 0, sm_priority_flag = 0, sm_schedule_delivery_time = [],
       sm_validity_period = [], sm_registered_delivery = m_registered_delivery m, sm_replace_if_present_flag = 0, sm_data_coding = m_data_coding m,
       sm_default_msg_id = 0, sm_short_message = m_short_message m, sm_tlvs = [] \<rparr>"

definition try_forward_retry ::
  "attempt \<Rightarrow> stored_message \<Rightarrow> string \<Rightarrow> gateway \<Rightarrow> (retry_error + string) \<times> gateway" where
  "try_forward_retry a m name g =
     (case cluster_call a name (build_submit_sm m) (gw_clusters g) of
        (NoSuchCluster, cs) \<Rightarrow> (Inl (RetryClusterNotFound name), g)
      | (MockCluster, cs) \<Rightarrow> (Inr (''MOCK-RETRY-'' @ show_message_id (m_id m)), g)
      | (NoConn, cs) \<Rightarrow> (Inl RetryNoConnection, g \<lparr> gw_clusters := cs \<rparr>)
      | (Replied r, cs) \<Rightarrow>
          ((case r of
              UpTimeout \<Rightarrow> Inl RetryTimeout
            | UpIoError e \<Rightarrow> Inl (RetryIoError e)
            | UpResp st up \<Rightarrow> if st \<noteq> 0 then Inl (RetrySmscError st) else Inr up
            | UpUnexpected s \<Rightarrow> Inl (RetryUnexpectedResponse s)), g \<lparr> gw_clusters := cs \<rparr>))"

fun retry_clusters ::
  "(nat \<Rightarrow> attempt) \<Rightarrow> nat \<Rightarrow> stored_message \<Rightarrow> string list \<Rightarrow> gateway \<Rightarrow> (nat \<times> string \<times> string) option \<times> gateway" where
  "retry_clusters ats i m [] g = (None, g)"
| "retry_clusters ats i m (c # cs) g =
     (case try_forward_retry (ats i) m c g of
        (Inr up, g1) \<Rightarrow> (Some (i, c, up), g1)
      | (Inl e, g1) \<Rightarrow> retry_clusters ats (Suc i) m cs g1)"

definition retry_message ::
  "regex_engine \<Rightarrow> tz_database \<Rightarrow> retry_config \<Rightarrow> clock \<Rightarrow> (nat \<Rightarrow> attempt) \<Rightarrow> clock \<Rightarrow> stored_message \<Rightarrow>
   gateway \<Rightarrow> gateway" where
  "retry_message R tz rc ck ats ck' msg g =
     (let mid = m_id msg in
      case get mid (gw_storage g) of
        None \<Rightarrow> g
      | Some cur \<Rightarrow>
          if m_state cur \<noteq> Retrying then g
          else if MAX_RETRIES \<le> m_attempts cur
          then gw_update mid (mark_failed ck (Some 0x58) ''max retries exceeded'') g
          else if is_expired (ck_now ck) cur then gw_update mid (mark_expired ck) g
          else
            case route_message R tz (m_destination cur) (Some (m_source cur)) None (gw_routes g) of
              (None, routes) \<Rightarrow>
                gw_update mid (mark_failed ck (Some 0xB) ''no route found'') (g \<lparr> gw_routes := routes \<rparr>)
            | (Some res, routes) \<Rightarrow>
                let (did, dcounter) = decision_id_new (gw_next_decision g);
                    ctx = (decision_context_new (m_destination cur))
                            \<lparr> dc_source := Some (m_source cur), dc_route_name := Some (rr_route_name res) \<rparr>;
                    d = decision_retry did (ck_now ck) (rr_cluster_name res) (m_attempts cur + 1) ctx;
                    g1 = g \<lparr> gw_routes := routes, gw_next_decision := dcounter,
                             gw_storage := snd (record_decision (ck_now ck) d (gw_storage g)) \<rparr>
                in case retry_clusters ats 0 cur (rr_cluster_name res # rr_fallback res) g1 of
                     (Some (i, c, up), g2) \<Rightarrow>
                       let now = at_clock (ats i);
                           g3 = gw_update mid (sent_upstream now c up) g2
                       in g3 \<lparr> gw_storage := record_outcome (ck_now now)
                                (outcome_success (ck_now now) did (elapsed (ck_now now) (ck_now ck))) (gw_storage g3) \<rparr>
                   | (None, g2) \<Rightarrow>
                       gw_update mid
                         (mark_retry ck' (calculate_backoff rc (m_attempts cur)) (Some 0x58) ''all clusters failed'')
                         (g2 \<lparr> gw_storage := record_outcome (ck_now ck')
                            (outcome_failure (ck_now ck') did (elapsed (ck_now ck') (ck_now ck)) (Some 0x58)
                              (Some ''all clusters failed'')) (gw_storage g2) \<rparr>))"

text \<open>One tick: every message that was ready at its start is retried in turn; \<open>envs\<close> gives the clocks
  and upstream attempts of the \<open>n\<close>-th of them.\<close>

fun retry_all ::
  "regex_engine \<Rightarrow> tz_database \<Rightarrow> retry_config \<Rightarrow> (nat \<Rightarrow> clock \<times> (nat \<Rightarrow> attempt) \<times> clock) \<Rightarrow> nat \<Rightarrow>
   stored_message list \<Rightarrow> gateway \<Rightarrow> gateway" where
  "retry_all R tz rc envs n [] g = g"
| "retry_all R tz rc envs n (m # ms) g =
     (case envs n of (ck, ats, ck') \<Rightarrow> retry_all R tz rc envs (Suc n) ms (retry_message R tz rc ck ats ck' m g))"

definition process_retries ::
  "regex_engine \<Rightarrow> tz_database \<Rightarrow> retry_config \<Rightarrow> (nat \<Rightarrow> clock \<times> (nat \<Rightarrow> attempt) \<times> clock) \<Rightarrow> instant \<Rightarrow> gateway \<Rightarrow> gateway" where
  "process_retries R tz rc envs now g = retry_all R tz rc envs 0 (get_ready_for_retry now (gw_storage g)) g"

section \<open>What each part changes\<close>

lemma messages_record_decision [simp]: "messages (snd (record_decision now d s)) = messages s"
  by (simp add: record_decision_def)

lemma messages_record_outcome [simp]: "messages (record_outcome now x s) = messages s"
  by (simp add: record_outcome_def Let_def split: option.splits)

lemma retry_queue_feedback [simp]:
  "retry_queue (snd (record_decision now d s)) = retry_queue s"
  "retry_queue (record_outcome now x s) = retry_queue s"
  by (simp_all add: record_decision_def record_outcome_def Let_def split: option.splits)

lemma get_feedback [simp]:
  "get i (snd (record_decision now d s)) = get i s" "get i (record_outcome now x s) = get i s"
  by (simp_all add: get_def)

lemma inv_feedback [simp]:
  "store_inv (snd (record_decision now d s)) = store_inv s"
  "store_inv (record_outcome now x s) = store_inv s"
  by (rule store_inv_cong; simp)+

lemma get_gw_update [simp]:
  "get k (gw_storage (gw_update i f g)) = (if k = i then map_option f (get i (gw_storage g)) else get k (gw_storage g))"
  by (simp add: gw_update_def get_update)

lemma inv_gw_update: "store_inv (gw_storage g) \<Longrightarrow> (\<And>m. m_id (f m) = m_id m) \<Longrightarrow> store_inv (gw_storage (gw_update i f g))"
  by (simp add: gw_update_def inv_update)

lemma gw_update_frame [simp]:
  "gw_clusters (gw_update i f g) = gw_clusters g" "gw_routes (gw_update i f g) = gw_routes g"
  "gw_next_message (gw_update i f g) = gw_next_message g"
  by (simp_all add: gw_update_def)

text \<open>Recording responses leaves everything but the event log of a message alone.\<close>

definition responses_only :: "stored_message \<Rightarrow> stored_message \<Rightarrow> bool" where
  "responses_only m m' = (\<exists>ev u. m' = m \<lparr> m_events := ev, m_updated_at := u \<rparr>)"

lemma responses_only_refl [simp]: "responses_only m m"
  unfolding responses_only_def by (rule exI [of _ "m_events m"], rule exI [of _ "m_updated_at m"]) simp

lemma responses_only_record: "responses_only m m' \<Longrightarrow> responses_only m (record_response ck st i l m')"
  by (auto simp: responses_only_def record_response_def add_event_def push_event_def) blast

lemma responses_only_fields:
  assumes "responses_only m m'"
  shows "m_state m' = m_state m" "m_attempts m' = m_attempts m" "m_id m' = m_id m" "m_ttl m' = m_ttl m"
    "m_created_at m' = m_created_at m" "m_max_attempts m' = m_max_attempts m" "m_smsc_message_id m' = m_smsc_message_id m"
    "m_last_error m' = m_last_error m"
proof -
  obtain e u where "m' = m \<lparr> m_events := e, m_updated_at := u \<rparr>" using assms unfolding responses_only_def by blast
  then show "m_state m' = m_state m" "m_attempts m' = m_attempts m" "m_id m' = m_id m" "m_ttl m' = m_ttl m"
    "m_created_at m' = m_created_at m" "m_max_attempts m' = m_max_attempts m" "m_smsc_message_id m' = m_smsc_message_id m"
    "m_last_error m' = m_last_error m"
    by simp_all
qed

text \<open>Where an accepted message id comes from.\<close>

definition accepted_upstream :: "(nat \<Rightarrow> attempt) \<Rightarrow> submit_sm \<Rightarrow> string \<Rightarrow> string \<Rightarrow> bool" where
  "accepted_upstream ats sm mock up = ((\<exists>i. at_reply (ats i) sm = UpResp 0 up) \<or> up = mock)"

lemma try_forward_effect:
  assumes "try_forward_to_cluster a c mid sm g = (r, g')" "store_inv (gw_storage g)"
    "get mid (gw_storage g) = Some m0" "responses_only m m0"
  shows "store_inv (gw_storage g') \<and> (\<exists>m'. get mid (gw_storage g') = Some m' \<and> responses_only m m') \<and>
    (\<forall>k. k \<noteq> mid \<longrightarrow> get k (gw_storage g') = get k (gw_storage g)) \<and>
    (\<forall>up. r = Inr up \<longrightarrow> at_reply a sm = UpResp 0 up \<or> up = ''MOCK-'' @ show_message_id mid)"
proof -
  obtain cr cs where cc: "cluster_call a c sm (gw_clusters g) = (cr, cs)" by fastforce
  show ?thesis
  proof (cases cr)
    case (Replied rep)
    then have rep: "rep = at_reply a sm"
      using cc by (auto simp: cluster_call_def split: option.splits if_splits prod.splits)
    have inv: "store_inv (gw_storage (gw_update mid (record_response (at_clock a) st (Some up) 0) (g \<lparr> gw_clusters := cs \<rparr>)))"
      for st up
      using assms(2) by (intro inv_gw_update) (simp_all add: record_response_def add_event_def push_event_def)
    show ?thesis
      using assms cc Replied rep inv responses_only_record [OF assms(4)]
      by (cases "at_reply a sm") (auto simp: try_forward_to_cluster_def Let_def split: if_splits)
  qed (use assms cc in \<open>auto simp: try_forward_to_cluster_def\<close>)
qed

lemma try_clusters_effect:
  assumes "try_clusters ats i mid sm cs le g = (r, g')" "store_inv (gw_storage g)"
    "get mid (gw_storage g) = Some m0" "responses_only m m0"
  shows "store_inv (gw_storage g') \<and> (\<exists>m'. get mid (gw_storage g') = Some m' \<and> responses_only m m') \<and>
    (\<forall>k. k \<noteq> mid \<longrightarrow> get k (gw_storage g') = get k (gw_storage g)) \<and>
    (\<forall>j c up. r = Inr (j, c, up) \<longrightarrow> c \<in> set cs \<and> accepted_upstream ats sm (''MOCK-'' @ show_message_id mid) up)"
  using assms
proof (induction cs arbitrary: i le g m0)
  case (Cons c cs)
  obtain r1 g1 where t: "try_forward_to_cluster (ats i) c mid sm g = (r1, g1)" by fastforce
  note eff = try_forward_effect [OF t Cons.prems(2,3,4)]
  then obtain m1 where m1: "get mid (gw_storage g1) = Some m1" "responses_only m m1" by blast
  show ?case
  proof (cases r1)
    case (Inl e)
    then have "try_clusters ats (Suc i) mid sm cs (Some e) g1 = (r, g')" using Cons.prems(1) t by simp
    from Cons.IH [OF this _ m1] eff show ?thesis by auto
  next
    case (Inr up)
    then show ?thesis using Cons.prems(1) t eff by (auto simp: accepted_upstream_def)
  qed
qed auto

lemma mark_ids [simp]:
  "m_id (mark_failed ck c e m) = m_id m" "m_id (mark_retry ck d c e m) = m_id m"
  "m_id (mark_expired ck m) = m_id m" "m_id (sent_upstream ck cl up m) = m_id m"
  by (simp_all add: mark_failed_def mark_retry_def mark_expired_def sent_upstream_def mark_in_flight_def
      log_state_change_def push_event_def Let_def)

lemma mark_states [simp]:
  "m_state (mark_failed ck c e m) = Failed" "m_state (mark_retry ck d c e m) = Retrying"
  "m_state (mark_expired ck m) = Expired" "m_state (sent_upstream ck cl up m) = InFlight"
  by (simp_all add: mark_failed_def mark_retry_def mark_expired_def sent_upstream_def mark_in_flight_def
      log_state_change_def push_event_def Let_def)

lemma mark_details [simp]:
  "m_attempts (mark_retry ck d c e m) = m_attempts m"
  "m_retry_at (mark_retry ck d c e m) = Some (ck_now ck + int d)"
  "m_last_error (mark_retry ck d c e m) = Some e"
  "m_last_error (mark_failed ck c e m) = Some e" "m_last_error (mark_expired ck m) = m_last_error m"
  "m_attempts (sent_upstream ck cl up m) = m_attempts m + 1"
  "m_smsc_message_id (sent_upstream ck cl up m) = Some up" "m_cluster (sent_upstream ck cl up m) = Some cl"
  "m_last_error (sent_upstream ck cl up m) = m_last_error m"
  by (simp_all add: mark_failed_def mark_retry_def mark_expired_def sent_upstream_def mark_in_flight_def
      log_state_change_def push_event_def Let_def)

lemma new_message_fields [simp]:
  "m_id (new_message ck mid sm sys sn) = mid" "m_state (new_message ck mid sm sys sn) = Pending"
  "m_attempts (new_message ck mid sm sys sn) = 0"
  by (simp_all add: new_message_def with_registered_delivery_def with_esm_class_def with_data_coding_def
      stored_message_new_def)

section \<open>Every accepted request is accounted for\<close>

lemma store_request_effect:
  assumes "store_inv (gw_storage g)" "store_request ck req g = (mid, g1)"
  shows "mid = MessageId (gw_next_message g)" "store_inv (gw_storage g1)" "gw_routes g1 = gw_routes g"
    "get mid (gw_storage g1) = Some (new_message ck mid (fq_submit_sm req) (fq_client_system_id req) (fq_sequence_number req))"
    "\<And>k x. k \<noteq> mid \<Longrightarrow> get k (gw_storage g) = Some x \<Longrightarrow> \<not> is_terminal (m_state x) \<Longrightarrow> get k (gw_storage g1) = Some x"
  using assms mem.put_live [OF assms(1)]
    mem.look_put [OF assms(1), of "new_message ck mid (fq_submit_sm req) (fq_client_system_id req) (fq_sequence_number req)"]
  by (auto simp: store_request_def message_id_new_def Let_def inv_store)

lemma record_route_effect:
  assumes "record_route ck sm res g = (did, g')"
  shows "store_inv (gw_storage g') = store_inv (gw_storage g)" "get k (gw_storage g') = get k (gw_storage g)"
  using assms by (auto simp: record_route_def decision_id_new_def Let_def)

lemma finish_forward_effect:
  assumes "finish_forward ck ats ck' mid did (o4, g4) = (r, g')" "get mid (gw_storage g4) = Some m4"
  shows "r = forward_success (show_message_id mid) \<and>
    (\<forall>k. k \<noteq> mid \<longrightarrow> get k (gw_storage g') = get k (gw_storage g4)) \<and>
    (\<exists>m. get mid (gw_storage g') = Some m \<and>
       (case o4 of
          Inr (i, c, up) \<Rightarrow> m = sent_upstream (at_clock (ats i)) c up m4
        | Inl le \<Rightarrow> \<exists>msg. m = (if can_retry (ck_now ck') m4 then mark_retry ck' (from_secs 1) (Some 0x58) msg m4
                              else mark_failed ck' (Some 0x58) msg m4)))"
proof (cases o4)
  case (Inl le)
  then show ?thesis using assms by (auto simp: finish_forward_def Let_def)
next
  case (Inr x)
  then show ?thesis using assms by (cases x) (auto simp: finish_forward_def Let_def)
qed


section \<open>Retries\<close>

lemma try_forward_retry_effect:
  assumes "try_forward_retry a m c g = (r, g')"
  shows "gw_storage g' = gw_storage g \<and>
    (\<forall>up. r = Inr up \<longrightarrow> at_reply a (build_submit_sm m) = UpResp 0 up \<or> up = ''MOCK-RETRY-'' @ show_message_id (m_id m))"
proof -
  obtain cr cs where cc: "cluster_call a c (build_submit_sm m) (gw_clusters g) = (cr, cs)" by fastforce
  show ?thesis
  proof (cases cr)
    case (Replied rep)
    then have "rep = at_reply a (build_submit_sm m)"
      using cc by (auto simp: cluster_call_def split: option.splits if_splits prod.splits)
    then show ?thesis
      using assms cc Replied
      by (cases "at_reply a (build_submit_sm m)") (auto simp: try_forward_retry_def split: if_splits)
  qed (use assms cc in \<open>auto simp: try_forward_retry_def\<close>)
qed

lemma retry_clusters_effect:
  assumes "retry_clusters ats i m cs g = (r, g')"
  shows "gw_storage g' = gw_storage g \<and>
    (\<forall>j c up. r = Some (j, c, up) \<longrightarrow> c \<in> set cs \<and>
       accepted_upstream ats (build_submit_sm m) (''MOCK-RETRY-'' @ show_message_id (m_id m)) up)"
  using assms
proof (induction cs arbitrary: i g)
  case (Cons c cs)
  obtain r1 g1 where t: "try_forward_retry (ats i) m c g = (r1, g1)" by fastforce
  note eff = try_forward_retry_effect [OF t]
  show ?case
  proof (cases r1)
    case (Inl e)
    then have "retry_clusters ats (Suc i) m cs g1 = (r, g')" using Cons.prems t by simp
    from Cons.IH [OF this] eff show ?thesis by auto
  next
    case (Inr up)
    then show ?thesis using Cons.prems t eff by (auto simp: accepted_upstream_def)
  qed
qed auto

text \<open>The outcome of one retry of a message, on every branch.\<close>

definition retried ::
  "retry_config \<Rightarrow> clock \<Rightarrow> (nat \<Rightarrow> attempt) \<Rightarrow> clock \<Rightarrow> bool \<Rightarrow> stored_message \<Rightarrow> stored_message \<Rightarrow> bool" where
  "retried rc ck ats ck' routed cur m =
     (if MAX_RETRIES \<le> m_attempts cur then m = mark_failed ck (Some 0x58) ''max retries exceeded'' cur
      else if is_expired (ck_now ck) cur then m = mark_expired ck cur
      else if \<not> routed then m = mark_failed ck (Some 0xB) ''no route found'' cur
      else m = mark_retry ck' (calculate_backoff rc (m_attempts cur)) (Some 0x58) ''all clusters failed'' cur \<or>
        (\<exists>i c up. m = sent_upstream (at_clock (ats i)) c up cur \<and>
           accepted_upstream ats (build_submit_sm cur) (''MOCK-RETRY-'' @ show_message_id (m_id cur)) up))"

lemma retry_message_idle:
  "get (m_id msg) (gw_storage g) = None \<or> (\<exists>cur. get (m_id msg) (gw_storage g) = Some cur \<and> m_state cur \<noteq> Retrying) \<Longrightarrow>
   retry_message R tz rc ck ats ck' msg g = g"
  by (auto simp: retry_message_def)

lemma retry_message_effect:
  assumes "get (m_id msg) (gw_storage g) = Some cur" "m_state cur = Retrying" "m_id cur = m_id msg"
  shows "(\<exists>m. get (m_id msg) (gw_storage (retry_message R tz rc ck ats ck' msg g)) = Some m \<and>
      retried rc ck ats ck' (fst (route_message R tz (m_destination cur) (Some (m_source cur)) None (gw_routes g)) \<noteq> None) cur m) \<and>
    (\<forall>k. k \<noteq> m_id msg \<longrightarrow> get k (gw_storage (retry_message R tz rc ck ats ck' msg g)) = get k (gw_storage g))"
proof -
  obtain route routes where rt: "route_message R tz (m_destination cur) (Some (m_source cur)) None (gw_routes g) = (route, routes)"
    by fastforce
  consider "MAX_RETRIES \<le> m_attempts cur" | "\<not> MAX_RETRIES \<le> m_attempts cur" "is_expired (ck_now ck) cur"
    | "\<not> MAX_RETRIES \<le> m_attempts cur" "\<not> is_expired (ck_now ck) cur" "route = None"
    | res where "\<not> MAX_RETRIES \<le> m_attempts cur" "\<not> is_expired (ck_now ck) cur" "route = Some res"
    by (cases route) auto
  then show ?thesis
  proof cases
    case 4
    define g1 where "g1 = g \<lparr> gw_routes := routes, gw_next_decision := snd (decision_id_new (gw_next_decision g)),
      gw_storage := snd (record_decision (ck_now ck) (decision_retry (fst (decision_id_new (gw_next_decision g))) (ck_now ck)
        (rr_cluster_name res) (m_attempts cur + 1) ((decision_context_new (m_destination cur))
          \<lparr> dc_source := Some (m_source cur), dc_route_name := Some (rr_route_name res) \<rparr>)) (gw_storage g)) \<rparr>"
    obtain r2 g2 where rc2: "retry_clusters ats 0 cur (rr_cluster_name res # rr_fallback res) g1 = (r2, g2)" by fastforce
    note eff = retry_clusters_effect [OF rc2]
    have st: "get k (gw_storage g2) = get k (gw_storage g)" for k using eff by (simp add: g1_def)
    show ?thesis
    proof (cases r2)
      case None
      then show ?thesis
        using assms rt 4 rc2 st
        by (simp add: retry_message_def retried_def Let_def case_prod_unfold g1_def del: retry_clusters.simps)
    next
      case (Some x)
      obtain i c up where x: "x = (i, c, up)" by (cases x)
      then have "accepted_upstream ats (build_submit_sm cur) (''MOCK-RETRY-'' @ show_message_id (m_id cur)) up"
        using eff Some by simp
      then show ?thesis
        using assms rt 4 rc2 st Some x
        by (simp add: retry_message_def retried_def Let_def case_prod_unfold g1_def del: retry_clusters.simps) blast
    qed
  qed (use assms rt in \<open>simp_all add: retry_message_def retried_def\<close>)
qed

lemma stored_id:
  assumes "store_inv s" "get i s = Some m"
  shows "m_id m = i"
proof -
  have "(i, m) \<in> set (messages s)" using assms(2) by (simp add: get_def map_of_SomeD)
  then show ?thesis using assms(1) unfolding store_inv_def by force
qed

lemma retried_cases:
  assumes "retried rc ck ats ck' routed cur m"
  obtains "5 \<le> m_attempts cur" "m = mark_failed ck (Some 0x58) ''max retries exceeded'' cur"
    | "m_attempts cur < 5" "is_expired (ck_now ck) cur" "m = mark_expired ck cur"
    | "m_attempts cur < 5" "\<not> is_expired (ck_now ck) cur" "m = mark_failed ck (Some 0xB) ''no route found'' cur"
    | "m_attempts cur < 5" "\<not> is_expired (ck_now ck) cur"
      "m = mark_retry ck' (calculate_backoff rc (m_attempts cur)) (Some 0x58) ''all clusters failed'' cur"
    | i c up where "m_attempts cur < 5" "\<not> is_expired (ck_now ck) cur" "m = sent_upstream (at_clock (ats i)) c up cur"
      "accepted_upstream ats (build_submit_sm cur) (''MOCK-RETRY-'' @ show_message_id (m_id cur)) up"
  using assms unfolding retried_def MAX_RETRIES_def by (meson not_le)


text \<open>Successive retries of one message, each with its own clocks, routes and upstream behaviour.\<close>

definition retry_rounds ::
  "retry_config \<Rightarrow> (regex_engine \<times> tz_database \<times> clock \<times> (nat \<Rightarrow> attempt) \<times> clock) list \<Rightarrow> stored_message \<Rightarrow>
   gateway \<Rightarrow> gateway" where
  "retry_rounds rc es msg g = fold (\<lambda>(R, tz, ck, ats, ck') g. retry_message R tz rc ck ats ck' msg g) es g"

text \<open>Failed retries are not counted.  Only a successful submission increases the attempt counter, so
  however many retries of a message fail, it is still waiting with the same counter and the same
  delay, and the limit of five retries is never what ends it.\<close>

theorem failed_retries_never_counted:
  assumes "get (m_id msg) (gw_storage g) = Some cur" "m_id cur = m_id msg" "m_state cur = Retrying"
    "m_attempts cur < 5" "m_last_error cur \<noteq> Some ''max retries exceeded''"
  shows "\<exists>m. get (m_id msg) (gw_storage (retry_rounds rc es msg g)) = Some m \<and>
    (m_state m = Retrying \<longrightarrow> m_attempts m = m_attempts cur) \<and> m_last_error m \<noteq> Some ''max retries exceeded''"
  using assms
proof (induction es arbitrary: g cur)
  case Nil
  then show ?case by (simp add: retry_rounds_def)
next
  case (Cons e es)
  obtain R tz ck ats ck' where e: "e = (R, tz, ck, ats, ck')" by (cases e)
  let ?g1 = "retry_message R tz rc ck ats ck' msg g"
  have rounds: "retry_rounds rc (e # es) msg g = retry_rounds rc es msg ?g1"
    by (simp add: retry_rounds_def e)
  obtain m routed where m: "get (m_id msg) (gw_storage ?g1) = Some m" "retried rc ck ats ck' routed cur m"
    using retry_message_effect [OF Cons.prems(1,3,2), of R tz rc ck ats ck'] by blast
  have m_id: "m_id m = m_id msg" and err: "m_last_error m \<noteq> Some ''max retries exceeded''"
    and same: "m_state m = Retrying \<longrightarrow> m_attempts m = m_attempts cur"
    using Cons.prems by (rule_tac [!] retried_cases [OF m(2)]) (simp_all add: linorder_not_le)
  show ?case
  proof (cases "m_state m = Retrying")
    case True
    then show ?thesis using Cons.IH [OF m(1) m_id True] same err Cons.prems(4) rounds by simp
  next
    case False
    have "retry_rounds rc es msg ?g1 = ?g1"
    proof (induction es)
      case (Cons f fs)
      then show ?case
        using retry_message_idle [of msg ?g1] m(1) False
        by (cases f) (auto simp: retry_rounds_def)
    qed (simp add: retry_rounds_def)
    then show ?thesis using m(1) False err rounds by simp
  qed
qed

text \<open>The back-off doubles from the base delay with every counted attempt up to the configured
  maximum.\<close>

theorem backoff_exact:
  assumes "n < 5" "as_millis (ry_base_delay rc) * 16 < 2 ^ 64" "as_millis (ry_max_delay rc) < 2 ^ 64"
  shows "calculate_backoff rc (of_nat n) =
    from_millis (min (as_millis (ry_base_delay rc) * 2 ^ n) (as_millis (ry_max_delay rc)))"
proof -
  let ?b = "as_millis (ry_base_delay rc)"
  have "(2::nat) ^ n \<le> 2 ^ 4" using assms(1) by (intro power_increasing) auto
  then have le: "?b * 2 ^ n \<le> ?b * 16" by simp
  have n: "unat (of_nat n :: u32) = n" using assms(1) by (intro unat_of_nat_small) simp
  have "(of_nat ?b :: u64) * 2 ^ n = of_nat (?b * 2 ^ n)" by simp
  moreover have "unat (of_nat (?b * 2 ^ n) :: u64) = ?b * 2 ^ n"
    using le_less_trans [OF le assms(2)] by (intro unat_of_nat_small) simp
  moreover have "unat (of_nat (as_millis (ry_max_delay rc)) :: u64) = as_millis (ry_max_delay rc)"
    using assms(3) by (intro unat_of_nat_small) simp
  ultimately show ?thesis
    unfolding calculate_backoff_def Let_def n by (simp add: min_def word_le_nat_alt del: of_nat_mult)
qed

section \<open>Witnesses\<close>

definition sample_gateway :: gateway where
  "sample_gateway =
     \<lparr> gw_storage = storage_with_config \<lparr> mc_max_messages = 10, mc_max_memory_mb = 1, mc_prune_percent = 10 \<rparr>,
       gw_routes = [], gw_clusters = [], gw_next_message = 0, gw_next_decision = 0 \<rparr>"

definition sample_attempts :: "nat \<Rightarrow> attempt" where
  "sample_attempts i = \<lparr> at_clock = \<lparr> ck_now = 5, ck_wall = 5 \<rparr>, at_connect = True, at_reply = (\<lambda>_. UpTimeout) \<rparr>"

definition sample_forward_request :: forward_request where
  "sample_forward_request =
     \<lparr> fq_submit_sm = \<lparr> sm_service_type = [], sm_source_addr = ''me'', sm_dest_addr = ''258'', sm_source_addr_ton = 0,
         sm_source_addr_npi = 0, sm_dest_addr_ton = 0, sm_dest_addr_npi = 0, sm_esm_class = 0, sm_protocol_id = 0, sm_priority_flag = 0, sm_schedule_delivery_time = [],
         sm_validity_period = [], sm_registered_delivery = 0, sm_replace_if_present_flag = 0, sm_data_coding = 0,
       sm_default_msg_id = 0, sm_short_message = [], sm_tlvs = [] \<rparr>,
       fq_client_system_id = ''esme'', fq_sequence_number = 7 \<rparr>"

lemma sample_gateway_inv: "store_inv (gw_storage sample_gateway)"
  by (simp add: sample_gateway_def store_inv_def)

definition sample_regex :: regex_engine where
  "sample_regex = \<lparr> re_valid = (\<lambda>_. True), re_is_match = (\<lambda>_ _. False) \<rparr>"

definition sample_tz :: tz_database where
  "sample_tz = \<lparr> tz_known = (\<lambda>_. True), tz_local = (\<lambda>_. \<lparr> lt_weekday = Mon, lt_hour = 0, lt_minute = 0 \<rparr>) \<rparr>"


definition retrying_gateway :: gateway where
  "retrying_gateway = sample_gateway
     \<lparr> gw_storage := snd (store (sample_message 0 0 Retrying) (gw_storage sample_gateway)) \<rparr>"

lemma retrying_gateway_facts:
  "store_inv (gw_storage retrying_gateway)"
  "get (MessageId 0) (gw_storage retrying_gateway) = Some (sample_message 0 0 Retrying)"
  using mem.look_put [OF sample_gateway_inv, of "sample_message 0 0 Retrying"] inv_store [OF sample_gateway_inv]
  by (simp_all add: retrying_gateway_def)


theorem failed_retries_never_counted_witness:
  "\<exists>m. get (MessageId 0) (gw_storage (retry_rounds \<lparr> ry_base_delay = 1, ry_max_delay = 1 \<rparr>
      (replicate 7 (sample_regex, sample_tz, \<lparr> ck_now = 1, ck_wall = 1 \<rparr>, sample_attempts, \<lparr> ck_now = 9, ck_wall = 9 \<rparr>))
      (sample_message 0 0 Retrying) retrying_gateway)) = Some m \<and> m_last_error m \<noteq> Some ''max retries exceeded''"
  using failed_retries_never_counted [of "sample_message 0 0 Retrying" retrying_gateway "sample_message 0 0 Retrying"
      "\<lparr> ry_base_delay = 1, ry_max_delay = 1 \<rparr>"
      "replicate 7 (sample_regex, sample_tz, \<lparr> ck_now = 1, ck_wall = 1 \<rparr>, sample_attempts, \<lparr> ck_now = 9, ck_wall = 9 \<rparr>)"]
    retrying_gateway_facts
  by (simp add: sample_message_def stored_message_new_def) blast

theorem backoff_exact_witness:
  "calculate_backoff \<lparr> ry_base_delay = from_secs 1, ry_max_delay = from_secs 60 \<rparr> (of_nat 4) = from_secs 16"
  using backoff_exact [of 4 "\<lparr> ry_base_delay = from_secs 1, ry_max_delay = from_secs 60 \<rparr>"]
  by (simp add: from_secs_def as_millis_def from_millis_def)

end
