(* ===== verification/Dlr.thy ===== *)
theory Dlr
  imports Forwarder
begin

text \<open>
  Delivery receipts from the upstream SMSCs (\<^verbatim>\<open>src/src/forwarder/dlr.rs\<close>): parsing, correlation with
  the stored message, state update and forwarding to the client session.  The receipt parser, the TLV
  accessors and the lossy UTF-8 decoder belong to libraries and are collected in \<open>dlr_lib\<close>.
\<close>

section \<open>Receipts\<close>

datatype delivery_status =
    DsEnroute | DsDelivered | DsExpired | DsDeleted | DsUndeliverable | DsAccepted | DsRejected | DsSkipped
  | DsUnknown

fun ds_is_final :: "delivery_status \<Rightarrow> bool" where
  "ds_is_final DsDelivered = True" | "ds_is_final DsExpired = True" | "ds_is_final DsDeleted = True"
| "ds_is_final DsUndeliverable = True" | "ds_is_final DsRejected = True" | "ds_is_final _ = False"

fun ds_is_success :: "delivery_status \<Rightarrow> bool" where
  "ds_is_success DsDelivered = True" | "ds_is_success _ = False"

fun ds_is_failure :: "delivery_status \<Rightarrow> bool" where
  "ds_is_failure DsExpired = True" | "ds_is_failure DsDeleted = True" | "ds_is_failure DsUndeliverable = True"
| "ds_is_failure DsRejected = True" | "ds_is_failure _ = False"

fun ds_as_str :: "delivery_status \<Rightarrow> string" where
  "ds_as_str DsEnroute = ''ENROUTE''"
| "ds_as_str DsDelivered = ''DELIVRD''"
| "ds_as_str DsExpired = ''EXPIRED''"
| "ds_as_str DsDeleted = ''DELETED''"
| "ds_as_str DsUndeliverable = ''UNDELIV''"
| "ds_as_str DsAccepted = ''ACCEPTD''"
| "ds_as_str DsRejected = ''REJECTD''"
| "ds_as_str DsSkipped = ''SKIPPED''"
| "ds_as_str DsUnknown = ''UNKNOWN''"

definition status_from_u8 :: "u8 \<Rightarrow> delivery_status" where
  "status_from_u8 v =
     (if v = 1 then DsEnroute else if v = 2 then DsDelivered else if v = 3 then DsExpired
      else if v = 4 then DsDeleted else if v = 5 then DsUndeliverable else if v = 6 then DsAccepted
      else if v = 8 then DsRejected else if v = 9 then DsSkipped else DsUnknown)"

record deliver_sm =
  dl_source_addr :: string
  dl_dest_addr :: string
  dl_esm_class :: u8
  dl_short_message :: "u8 list"
  dl_tlvs :: "(u16, u8 list) alist"

text \<open>A receipt as the library parses it from text; its status type has the same constructors.\<close>

record parsed_dlr =
  pd_message_id :: string
  pd_status :: delivery_status
  pd_error_code :: "string option"
  pd_submit_date :: "string option"
  pd_done_date :: "string option"
  pd_text :: "string option"

record dlr_lib =
  dr_is_delivery_receipt :: "deliver_sm \<Rightarrow> bool"
  dr_lossy :: "u8 list \<Rightarrow> string"
  dr_parse :: "string \<Rightarrow> parsed_dlr option"
  dr_tlv_string :: "u16 \<Rightarrow> deliver_sm \<Rightarrow> string option"
  dr_tlv_u8 :: "u16 \<Rightarrow> deliver_sm \<Rightarrow> u8 option"

record delivery_receipt =
  rp_smsc_message_id :: string
  rp_status :: delivery_status
  rp_error_code :: "u32 option"
  rp_submit_date :: "string option"
  rp_done_date :: "string option"
  rp_text :: "string option"
  rp_raw :: string
  rp_source_addr :: string
  rp_dest_addr :: string

definition parse_dlr :: "dlr_lib \<Rightarrow> deliver_sm \<Rightarrow> delivery_receipt option" where
  "parse_dlr L d =
     (if \<not> dr_is_delivery_receipt L d then None
      else
        let text = dr_lossy L (dl_short_message d) in
        case dr_parse L text of
          Some pd \<Rightarrow>
            Some \<lparr> rp_smsc_message_id = pd_message_id pd, rp_status = pd_status pd,
                   rp_error_code = Option.bind (pd_error_code pd) parse_u32, rp_submit_date = pd_submit_date pd,
                   rp_done_date = pd_done_date pd, rp_text = pd_text pd, rp_raw = text,
                   rp_source_addr = dl_source_addr d, rp_dest_addr = dl_dest_addr d \<rparr>
        | None \<Rightarrow>
            (case dr_tlv_string L 0x1E d of
               Some mid \<Rightarrow>
                 Some \<lparr> rp_smsc_message_id = mid,
                        rp_status = status_from_u8 (case dr_tlv_u8 L 0x427 d of Some v \<Rightarrow> v | None \<Rightarrow> 7),
                        rp_error_code = map_option ucast (dr_tlv_u8 L 0x423 d), rp_submit_date = None,
                        rp_done_date = None, rp_text = None, rp_raw = text,
                        rp_source_addr = dl_source_addr d, rp_dest_addr = dl_dest_addr d \<rparr>
             | None \<Rightarrow> None))"

section \<open>Processing\<close>

definition find_in_state :: "message_state \<Rightarrow> string \<Rightarrow> 'z message_storage_scheme \<Rightarrow> stored_message option" where
  "find_in_state st smsc_id s =
     find (\<lambda>m. m_smsc_message_id m = Some smsc_id)
       (query (message_query_default \<lparr> q_state := Some st, q_limit := Some 1000 \<rparr>) s)"

definition find_message_by_smsc_id :: "string \<Rightarrow> 'z message_storage_scheme \<Rightarrow> stored_message option" where
  "find_message_by_smsc_id smsc_id s =
     (case find_in_state InFlight smsc_id s of
        Some m \<Rightarrow> Some m
      | None \<Rightarrow> find_in_state Retrying smsc_id s)"

text \<open>The update applied for a final receipt.\<close>

definition apply_receipt :: "clock \<Rightarrow> delivery_status \<Rightarrow> u32 option \<Rightarrow> stored_message \<Rightarrow> stored_message" where
  "apply_receipt ck st code m0 =
     (let m = record_delivery_receipt ck (ds_as_str st) code m0
      in if ds_is_success st then m \<lparr> m_state := Delivered \<rparr>
         else if ds_is_failure st
         then m \<lparr> m_state := Failed, m_last_error_code := code, m_last_error := Some (''DLR: '' @ ds_as_str st) \<rparr>
         else m)"

text \<open>The registered client sessions: a bounded channel each.\<close>

record dlr_session =
  dx_queue :: "deliver_sm list"
  dx_capacity :: nat
  dx_receiver_alive :: bool

definition forward_to_client ::
  "string \<Rightarrow> deliver_sm \<Rightarrow> (string, dlr_session) alist \<Rightarrow> (string, dlr_session) alist" where
  "forward_to_client sys d ss =
     (case map_of ss sys of
        None \<Rightarrow> ss
      | Some x \<Rightarrow>
          if dx_receiver_alive x \<and> length (dx_queue x) < dx_capacity x
          then alist_modify sys (\<lambda>x. x \<lparr> dx_queue := dx_queue x @ [d] \<rparr>) ss else ss)"

definition process_dlr ::
  "dlr_lib \<Rightarrow> clock \<Rightarrow> deliver_sm \<Rightarrow> gateway \<times> (string, dlr_session) alist \<Rightarrow> gateway \<times> (string, dlr_session) alist" where
  "process_dlr L ck d st =
     (case st of (g, ss) \<Rightarrow>
        (case parse_dlr L d of
           None \<Rightarrow> (g, ss)
         | Some dlr \<Rightarrow>
             (case find_message_by_smsc_id (rp_smsc_message_id dlr) (gw_storage g) of
                None \<Rightarrow> (g, ss)
              | Some m \<Rightarrow>
                  ((if ds_is_final (rp_status dlr)
                    then gw_update (m_id m) (apply_receipt ck (rp_status dlr) (rp_error_code dlr)) g else g),
                   forward_to_client (m_system_id m) d ss))))"

section \<open>Properties\<close>

lemma find_in_state_sound:
  assumes "store_inv s" "find_in_state st i s = Some m"
  shows "get (m_id m) s = Some m \<and> m_state m = st \<and> m_smsc_message_id m = Some i"
proof -
  have mem: "m \<in> set (query (message_query_default \<lparr> q_state := Some st, q_limit := Some 1000 \<rparr>) s)"
    and id: "m_smsc_message_id m = Some i"
    using assms(2) by (auto simp: find_in_state_def find_Some_iff)
  from mem have "m \<in> snd ` set (messages s)" "m_state m = st"
    by (auto simp: query_def query_matches_def message_query_default_def dest!: in_set_takeD)
  then obtain k where k: "(k, m) \<in> set (messages s)" by force
  then have "m_id m = k" "map_of (messages s) k = Some m"
    using assms(1) by (force simp: store_inv_def, simp add: store_inv_def)
  then show ?thesis using id \<open>m_state m = st\<close> by (simp add: get_def)
qed

lemma find_message_sound:
  assumes "store_inv s" "find_message_by_smsc_id i s = Some m"
  shows "get (m_id m) s = Some m \<and> m_state m \<in> {InFlight, Retrying} \<and> m_smsc_message_id m = Some i"
  using assms find_in_state_sound [OF assms(1)] by (auto simp: find_message_by_smsc_id_def split: option.splits)

lemma find_in_state_complete:
  assumes "get k s = Some m" "m_state m = st" "m_smsc_message_id m = Some i"
    "length (filter (\<lambda>e. m_state (snd e) = st) (messages s)) \<le> 1000"
  shows "find_in_state st i s \<noteq> None"
proof -
  have "length (filter (query_matches (message_query_default \<lparr> q_state := Some st, q_limit := Some 1000 \<rparr>))
      (map_values (messages s))) = length (filter (\<lambda>e. m_state (snd e) = st) (messages s))"
    by (simp add: filter_map o_def query_matches_def message_query_default_def)
  then have "m \<in> set (query (message_query_default \<lparr> q_state := Some st, q_limit := Some 1000 \<rparr>) s)"
    using assms map_of_SomeD [of "messages s" k m]
    by (force simp: query_def query_limit_def query_matches_def message_query_default_def get_def)
  then show ?thesis using assms(3) by (auto simp: find_in_state_def find_None_iff)
qed

lemma apply_receipt_state:
  "ds_is_final st \<Longrightarrow> m_state (apply_receipt ck st code m) = (if st = DsDelivered then Delivered else Failed)"
  by (cases st) (simp_all add: apply_receipt_def Let_def)

lemma apply_receipt_id [simp]: "m_id (apply_receipt ck st code m) = m_id m"
  by (simp add: apply_receipt_def record_delivery_receipt_def add_event_def push_event_def Let_def)


text \<open>A receipt bypasses the audit trail of the message.  It sets the state directly instead of through
  the \<^verbatim>\<open>mark_*\<close> methods, so the change has no \<^verbatim>\<open>StateChange\<close> event and the recorded history no
  longer leads to the state of the message.\<close>

theorem receipt_breaks_audit_trail:
  assumes "audit_ok m" "m_state m = InFlight" "ds_is_final st"
  shows "\<not> audit_ok (apply_receipt ck st code m)"
proof -
  have h: "history (apply_receipt ck st code m) = history m @ [DeliveryReceipt (ds_as_str st) code]"
    by (auto simp: apply_receipt_def record_delivery_receipt_def add_event_def push_event_def history_def Let_def
        message_event_new_def)
  have "replay Pending (history m) = Some InFlight" using assms(1,2) by (simp add: audit_ok_def)
  then have "replay Pending (history (apply_receipt ck st code m)) = Some InFlight"
    unfolding h by (simp add: replay_append)
  then show ?thesis using apply_receipt_state [OF assms(3)] by (auto simp: audit_ok_def)
qed

section \<open>Witnesses\<close>

definition sample_dlr_lib :: dlr_lib where
  "sample_dlr_lib = \<lparr> dr_is_delivery_receipt = (\<lambda>_. True), dr_lossy = (\<lambda>_. []), dr_parse = (\<lambda>_. None),
     dr_tlv_string = (\<lambda>t _. if t = 0x1E then Some ''u1'' else None), dr_tlv_u8 = (\<lambda>t _. if t = 0x427 then Some 2 else None) \<rparr>"

definition sample_deliver :: deliver_sm where
  "sample_deliver = \<lparr> dl_source_addr = ''258'', dl_dest_addr = ''100'', dl_esm_class = 4, dl_short_message = [], dl_tlvs = [] \<rparr>"

definition sent_message :: stored_message where
  "sent_message = (sample_message 0 0 InFlight) \<lparr> m_smsc_message_id := Some ''u1'' \<rparr>"

definition in_flight_gateway :: gateway where
  "in_flight_gateway = sample_gateway
     \<lparr> gw_storage := (gw_storage sample_gateway) \<lparr> messages := [(MessageId 0, sent_message)] \<rparr> \<rparr>"


theorem receipt_breaks_audit_trail_witness:
  "\<not> audit_ok (apply_receipt \<lparr> ck_now = 1, ck_wall = 1 \<rparr> DsDelivered None
     (mark_in_flight \<lparr> ck_now = 0, ck_wall = 0 \<rparr> ''c'' ''e''
       (stored_message_new \<lparr> ck_now = 0, ck_wall = 0 \<rparr> (MessageId 0) ''100'' ''258'' [] ''esme'' 1)))"
proof (rule receipt_breaks_audit_trail)
  show "audit_ok (mark_in_flight \<lparr> ck_now = 0, ck_wall = 0 \<rparr> ''c'' ''e''
       (stored_message_new \<lparr> ck_now = 0, ck_wall = 0 \<rparr> (MessageId 0) ''100'' ''258'' [] ''esme'' 1))"
    by (rule audit_mark_in_flight, rule audit_init)
qed (simp_all add: mark_in_flight_def log_state_change_def push_event_def Let_def)

end
