(* ===== verification/Persistent.thy ===== *)
theory Persistent
  imports Feedback Decimal
begin

text \<open>
  The persistent storage (\<^verbatim>\<open>src/src/store/persistent.rs\<close>): messages as JSON values under
  \<^verbatim>\<open>msg_<id>\<close> with an index \<^verbatim>\<open>state_<state>_<id>\<close>, decisions, outcomes and target
  statistics.  The key-value engine (fjall) and the JSON codec (serde\_json) are third-party code:
  they are the fields of a \<open>backend\<close> record, an argument of every operation.  \<open>partition_ok\<close> and
  \<open>codec_ok\<close> state what their documentation promises: reads see the last write, iteration visits
  each stored pair once, \<^verbatim>\<open>prefix\<close> selects by key prefix, and decoding inverts encoding.
  An iterator works on a snapshot, so a loop may write while it iterates.

  The theorems: the storage implements a map from ids to persisted messages, its state index is
  exact, a round trip loses exactly the named fields, ids drawn after a restart are fresh, and the
  per-target statistics agree with those of the in-memory storage.
\<close>

section \<open>The engine\<close>

record ('p, 'v) partition =
  kv_insert :: "string \<Rightarrow> 'v \<Rightarrow> 'p \<Rightarrow> 'p option"
  kv_get :: "string \<Rightarrow> 'p \<Rightarrow> 'v option"
  kv_remove :: "string \<Rightarrow> 'p \<Rightarrow> 'p option"
  kv_iter :: "'p \<Rightarrow> (string \<times> 'v) option list"
  kv_prefix :: "string \<Rightarrow> 'p \<Rightarrow> (string \<times> 'v) option list"

section \<open>Serializable types\<close>

record persisted_message =
  pm_id :: u64
  pm_state :: u8
  pm_priority :: u8
  pm_source :: string
  pm_destination :: string
  pm_short_message :: "u8 list"
  pm_data_coding :: u8
  pm_esm_class :: u8
  pm_registered_delivery :: u8
  pm_service_type :: "string option"
  pm_sender_id :: "string option"
  pm_system_id :: string
  pm_sequence_number :: u32
  pm_smsc_message_id :: "string option"
  pm_route :: "string option"
  pm_cluster :: "string option"
  pm_endpoint :: "string option"
  pm_attempts :: u32
  pm_max_attempts :: u32
  pm_ttl_secs :: u64
  pm_created_at_epoch_ms :: u64
  pm_updated_at_epoch_ms :: u64
  pm_retry_at_epoch_ms :: "u64 option"
  pm_last_error_code :: "u32 option"
  pm_last_error :: "string option"

record persisted_decision =
  pd_id :: u64
  pd_decision_type :: u8
  pd_target :: string
  pd_alternatives :: "string list"
  pd_destination :: "string option"
  pd_source :: "string option"
  pd_system_id :: "string option"
  pd_route_name :: "string option"
  pd_cluster_name :: "string option"
  pd_attempt :: "u32 option"
  pd_fallback_from :: "string option"
  pd_timestamp_epoch_ms :: u64

record persisted_outcome =
  po_decision_id :: u64
  po_success :: bool
  po_latency_us :: u64
  po_error_code :: "u32 option"
  po_error_message :: "string option"
  po_timestamp_epoch_ms :: u64

record persisted_target_stats =
  pt_name :: string
  pt_total :: u64
  pt_successes :: u64
  pt_failures :: u64
  pt_avg_latency_us :: u64
  pt_ema_latency_us :: u64
  pt_last_update_epoch_ms :: u64

text \<open>The engine and the codec for each type; \<open>'b\<close> is the type of encoded values.\<close>

record ('p, 'q, 'b) backend =
  bk_part :: "('p, 'b) partition"
  bk_index :: "('q, u8 list) partition"
  bk_enc_msg :: "persisted_message \<Rightarrow> 'b option"
  bk_dec_msg :: "'b \<Rightarrow> persisted_message option"
  bk_enc_decision :: "persisted_decision \<Rightarrow> 'b option"
  bk_dec_decision :: "'b \<Rightarrow> persisted_decision option"
  bk_enc_outcome :: "persisted_outcome \<Rightarrow> 'b option"
  bk_dec_outcome :: "'b \<Rightarrow> persisted_outcome option"
  bk_enc_target :: "persisted_target_stats \<Rightarrow> 'b option"
  bk_dec_target :: "'b \<Rightarrow> persisted_target_stats option"

record ('p, 'q) persistent_storage =
  ps_messages :: 'p
  ps_by_state :: 'q
  ps_decisions :: 'p
  ps_outcomes :: 'p
  ps_target_stats :: 'p

section \<open>Conversions\<close>

text \<open>The casts \<^verbatim>\<open>state as u8\<close>, \<^verbatim>\<open>priority as u8\<close> and \<^verbatim>\<open>decision_type as u8\<close>.\<close>

fun state_code :: "message_state \<Rightarrow> u8" where
  "state_code Pending = 0"
| "state_code InFlight = 1"
| "state_code Delivered = 2"
| "state_code Failed = 3"
| "state_code Expired = 4"
| "state_code Retrying = 5"

definition state_of_code :: "u8 \<Rightarrow> message_state" where
  "state_of_code c =
     (if c = 0 then Pending else if c = 1 then InFlight else if c = 2 then Delivered
      else if c = 3 then Failed else if c = 4 then Expired else if c = 5 then Retrying else Pending)"

definition priority_code :: "priority \<Rightarrow> u8" where
  "priority_code p = of_nat (priority_rank p)"

definition priority_of_code :: "u8 \<Rightarrow> priority" where
  "priority_of_code c =
     (if c = 0 then Low else if c = 1 then Normal else if c = 2 then High else if c = 3 then Critical else Normal)"

fun decision_code :: "decision_type \<Rightarrow> u8" where
  "decision_code DRoute = 0"
| "decision_code DLoadBalance = 1"
| "decision_code DRetry = 2"
| "decision_code DFallback = 3"

text \<open>\<^verbatim>\<open>duration_since(UNIX_EPOCH).unwrap_or_default().as_millis() as u64\<close>; wall-clock instants
  count from the epoch.\<close>

definition epoch_ms :: "instant \<Rightarrow> u64" where
  "epoch_ms t = of_nat (as_millis (nat t))"

definition now_epoch_ms :: "clock \<Rightarrow> u64" where
  "now_epoch_ms ck = epoch_ms (ck_wall ck)"

definition as_secs :: "duration \<Rightarrow> nat" where
  "as_secs d = d div nanos_per_sec"

definition msg_key :: "message_id \<Rightarrow> string" where
  "msg_key i = ''msg_'' @ show_nat (unat (as_u64 i))"

definition state_prefix :: "u8 \<Rightarrow> string" where
  "state_prefix c = ''state_'' @ show_nat (unat c) @ ''_''"

definition state_key :: "u8 \<Rightarrow> message_id \<Rightarrow> string" where
  "state_key c i = state_prefix c @ show_nat (unat (as_u64 i))"

definition persisted_of :: "clock \<Rightarrow> stored_message \<Rightarrow> persisted_message" where
  "persisted_of ck m =
     \<lparr> pm_id = as_u64 (m_id m), pm_state = state_code (m_state m), pm_priority = priority_code (m_priority m),
       pm_source = m_source m, pm_destination = m_destination m, pm_short_message = m_short_message m,
       pm_data_coding = m_data_coding m, pm_esm_class = m_esm_class m,
       pm_registered_delivery = m_registered_delivery m, pm_service_type = m_service_type m,
       pm_sender_id = m_sender_id m, pm_system_id = m_system_id m, pm_sequence_number = m_sequence_number m,
       pm_smsc_message_id = m_smsc_message_id m, pm_route = m_route m, pm_cluster = m_cluster m,
       pm_endpoint = m_endpoint m, pm_attempts = m_attempts m, pm_max_attempts = m_max_attempts m,
       pm_ttl_secs = of_nat (as_secs (m_ttl m)), pm_created_at_epoch_ms = epoch_ms (m_created_time m),
       pm_updated_at_epoch_ms = now_epoch_ms ck, pm_retry_at_epoch_ms = None,
       pm_last_error_code = m_last_error_code m, pm_last_error = m_last_error m \<rparr>"

definition persisted_to_stored :: "clock \<Rightarrow> persisted_message \<Rightarrow> stored_message" where
  "persisted_to_stored ck p =
     \<lparr> m_id = MessageId (pm_id p), m_state = state_of_code (pm_state p), m_priority = priority_of_code (pm_priority p),
       m_source = pm_source p, m_destination = pm_destination p, m_short_message = pm_short_message p,
       m_data_coding = pm_data_coding p, m_esm_class = pm_esm_class p,
       m_registered_delivery = pm_registered_delivery p, m_service_type = pm_service_type p,
       m_sender_id = pm_sender_id p, m_system_id = pm_system_id p, m_sequence_number = pm_sequence_number p,
       m_smsc_message_id = pm_smsc_message_id p, m_route = pm_route p, m_cluster = pm_cluster p,
       m_endpoint = pm_endpoint p, m_attempts = pm_attempts p, m_max_attempts = pm_max_attempts p,
       m_ttl = from_secs (unat (pm_ttl_secs p)), m_created_at = ck_now ck,
       m_created_time = int (from_millis (unat (pm_created_at_epoch_ms p))), m_updated_at = ck_now ck,
       m_retry_at = map_option (\<lambda>_. ck_now ck) (pm_retry_at_epoch_ms p),
       m_last_error_code = pm_last_error_code p, m_last_error = pm_last_error p, m_events = [] \<rparr>"

section \<open>Message operations\<close>

type_synonym ('p, 'q) pst = "('p, 'q) persistent_storage"

definition persist_message ::
  "('p, 'q, 'b) backend \<Rightarrow> clock \<Rightarrow> stored_message \<Rightarrow> ('p, 'q) pst \<Rightarrow> bool \<times> ('p, 'q) pst" where
  "persist_message K ck m s =
     (case bk_enc_msg K (persisted_of ck m) of
        None \<Rightarrow> (False, s)
      | Some v \<Rightarrow>
          (case kv_insert (bk_part K) (msg_key (m_id m)) v (ps_messages s) of
             None \<Rightarrow> (False, s)
           | Some p \<Rightarrow>
               (let s1 = s \<lparr> ps_messages := p \<rparr> in
                case kv_insert (bk_index K) (state_key (state_code (m_state m)) (m_id m))
                       (to_be_bytes (as_u64 (m_id m))) (ps_by_state s1) of
                  None \<Rightarrow> (False, s1)
                | Some q \<Rightarrow> (True, s1 \<lparr> ps_by_state := q \<rparr>))))"

definition load_message ::
  "('p, 'q, 'b) backend \<Rightarrow> clock \<Rightarrow> message_id \<Rightarrow> ('p, 'q) pst \<Rightarrow> stored_message option" where
  "load_message K ck i s =
     (case kv_get (bk_part K) (msg_key i) (ps_messages s) of
        None \<Rightarrow> None
      | Some v \<Rightarrow> (case bk_dec_msg K v of None \<Rightarrow> None | Some p \<Rightarrow> Some (persisted_to_stored ck p)))"

text \<open>The loop of \<^verbatim>\<open>get_by_state\<close> over the index entries.\<close>

fun load_indexed ::
  "('p, 'q, 'b) backend \<Rightarrow> clock \<Rightarrow> nat \<Rightarrow> ('p, 'q) pst \<Rightarrow> (string \<times> u8 list) option list \<Rightarrow>
   stored_message list \<Rightarrow> stored_message list" where
  "load_indexed K ck limit s [] results = results"
| "load_indexed K ck limit s (item # items) results =
     (if limit \<le> length results then results
      else
        case item of
          None \<Rightarrow> load_indexed K ck limit s items results
        | Some (k, v) \<Rightarrow>
            if length v = 8 then
              (case load_message K ck (MessageId (from_be_bytes v)) s of
                 None \<Rightarrow> load_indexed K ck limit s items results
               | Some m \<Rightarrow> load_indexed K ck limit s items (results @ [m]))
            else load_indexed K ck limit s items results)"

definition get_by_state ::
  "('p, 'q, 'b) backend \<Rightarrow> clock \<Rightarrow> message_state \<Rightarrow> nat \<Rightarrow> ('p, 'q) pst \<Rightarrow> stored_message list" where
  "get_by_state K ck st limit s =
     load_indexed K ck limit s (kv_prefix (bk_index K) (state_prefix (state_code st)) (ps_by_state s)) []"

text \<open>A failed removal leaves the index as it is.\<close>

definition remove_state_index ::
  "('p, 'q, 'b) backend \<Rightarrow> message_state \<Rightarrow> message_id \<Rightarrow> ('p, 'q) pst \<Rightarrow> ('p, 'q) pst" where
  "remove_state_index K old_state i s =
     (case kv_remove (bk_index K) (state_key (state_code old_state) i) (ps_by_state s) of
        None \<Rightarrow> s
      | Some q \<Rightarrow> s \<lparr> ps_by_state := q \<rparr>)"

definition pst_store ::
  "('p, 'q, 'b) backend \<Rightarrow> clock \<Rightarrow> stored_message \<Rightarrow> ('p, 'q) pst \<Rightarrow> message_id \<times> ('p, 'q) pst" where
  "pst_store K ck m s = (m_id m, snd (persist_message K ck m s))"

definition pst_get ::
  "('p, 'q, 'b) backend \<Rightarrow> clock \<Rightarrow> message_id \<Rightarrow> ('p, 'q) pst \<Rightarrow> stored_message option" where
  "pst_get K ck i s = load_message K ck i s"

definition pst_update ::
  "('p, 'q, 'b) backend \<Rightarrow> clock \<Rightarrow> message_id \<Rightarrow> (stored_message \<Rightarrow> stored_message) \<Rightarrow> ('p, 'q) pst \<Rightarrow>
   bool \<times> ('p, 'q) pst" where
  "pst_update K ck i f s =
     (case load_message K ck i s of
        None \<Rightarrow> (False, s)
      | Some msg \<Rightarrow>
          let msg1 = f msg;
              s1 = (if m_state msg \<noteq> m_state msg1 then remove_state_index K (m_state msg) i s else s)
          in persist_message K ck msg1 s1)"

definition pst_delete ::
  "('p, 'q, 'b) backend \<Rightarrow> clock \<Rightarrow> message_id \<Rightarrow> ('p, 'q) pst \<Rightarrow> bool \<times> ('p, 'q) pst" where
  "pst_delete K ck i s =
     (case load_message K ck i s of
        None \<Rightarrow> (False, s)
      | Some msg \<Rightarrow>
          let s1 = remove_state_index K (m_state msg) i s
          in case kv_remove (bk_part K) (msg_key i) (ps_messages s1) of
               None \<Rightarrow> (False, s1)
             | Some p \<Rightarrow> (True, s1 \<lparr> ps_messages := p \<rparr>))"

definition pst_query_matches :: "message_query \<Rightarrow> stored_message \<Rightarrow> bool" where
  "pst_query_matches q m =
     ((case q_system_id q of None \<Rightarrow> True | Some sys \<Rightarrow> m_system_id m = sys) \<and>
      (case q_destination_prefix q of None \<Rightarrow> True | Some p \<Rightarrow> starts_with (m_destination m) p) \<and>
      (case q_cluster q of None \<Rightarrow> True | Some c \<Rightarrow> m_cluster m = Some c))"

fun scan_messages ::
  "('p, 'q, 'b) backend \<Rightarrow> clock \<Rightarrow> nat \<Rightarrow> message_query \<Rightarrow> (string \<times> 'b) option list \<Rightarrow>
   stored_message list \<Rightarrow> stored_message list" where
  "scan_messages K ck limit q [] results = results"
| "scan_messages K ck limit q (item # items) results =
     (if limit \<le> length results then results
      else
        case item of
          None \<Rightarrow> scan_messages K ck limit q items results
        | Some (k, v) \<Rightarrow>
            (case bk_dec_msg K v of
               None \<Rightarrow> scan_messages K ck limit q items results
             | Some p \<Rightarrow>
                 (let msg = persisted_to_stored ck p in
                  if pst_query_matches q msg then scan_messages K ck limit q items (results @ [msg])
                  else scan_messages K ck limit q items results)))"

definition pst_query ::
  "('p, 'q, 'b) backend \<Rightarrow> clock \<Rightarrow> message_query \<Rightarrow> ('p, 'q) pst \<Rightarrow> stored_message list" where
  "pst_query K ck q s =
     (let limit = (case q_limit q of None \<Rightarrow> 1000 | Some n \<Rightarrow> n) in
      case q_state q of
        Some st \<Rightarrow> get_by_state K ck st limit s
      | None \<Rightarrow> scan_messages K ck limit q (kv_iter (bk_part K) (ps_messages s)) [])"

definition pst_get_pending ::
  "('p, 'q, 'b) backend \<Rightarrow> clock \<Rightarrow> nat \<Rightarrow> ('p, 'q) pst \<Rightarrow> stored_message list" where
  "pst_get_pending K ck limit s = get_by_state K ck Pending limit s"

definition pst_get_ready_for_retry ::
  "('p, 'q, 'b) backend \<Rightarrow> clock \<Rightarrow> ('p, 'q) pst \<Rightarrow> stored_message list" where
  "pst_get_ready_for_retry K ck s = get_by_state K ck Retrying 1000 s"

definition pst_get_recoverable ::
  "('p, 'q, 'b) backend \<Rightarrow> clock \<Rightarrow> ('p, 'q) pst \<Rightarrow> stored_message list" where
  "pst_get_recoverable K ck s =
     get_by_state K ck Pending (2 ^ 64 - 1) s @ get_by_state K ck InFlight (2 ^ 64 - 1) s @
     get_by_state K ck Retrying (2 ^ 64 - 1) s"

text \<open>One iteration of the loop of \<^verbatim>\<open>expire_old\<close>.\<close>

definition overdue :: "clock \<Rightarrow> duration \<Rightarrow> persisted_message \<Rightarrow> bool" where
  "overdue ck ttl p =
     (pm_state p = state_code Pending \<and>
      of_nat (as_millis ttl) < saturating_sub (now_epoch_ms ck) (pm_created_at_epoch_ms p))"

definition expire_item ::
  "('p, 'q, 'b) backend \<Rightarrow> clock \<Rightarrow> duration \<Rightarrow> (string \<times> 'b) option \<Rightarrow> nat \<times> ('p, 'q) pst \<Rightarrow> nat \<times> ('p, 'q) pst" where
  "expire_item K ck ttl item st =
     (case item of
        None \<Rightarrow> st
      | Some (k, v) \<Rightarrow>
          (case bk_dec_msg K v of
             None \<Rightarrow> st
           | Some p \<Rightarrow>
               if overdue ck ttl p then
                 (let s1 = remove_state_index K Pending (MessageId (pm_id p)) (snd st)
                  in (fst st + 1, snd (persist_message K ck (mark_expired ck (persisted_to_stored ck p)) s1)))
               else st))"

definition pst_expire_old ::
  "('p, 'q, 'b) backend \<Rightarrow> clock \<Rightarrow> duration \<Rightarrow> ('p, 'q) pst \<Rightarrow> nat \<times> ('p, 'q) pst" where
  "pst_expire_old K ck ttl s = fold (expire_item K ck ttl) (kv_iter (bk_part K) (ps_messages s)) (0, s)"

definition prunable ::
  "('p, 'q, 'b) backend \<Rightarrow> clock \<Rightarrow> duration \<Rightarrow> (string \<times> 'b) option \<Rightarrow> (string \<times> u64 \<times> message_state) option" where
  "prunable K ck max_age item =
     (case item of
        None \<Rightarrow> None
      | Some (k, v) \<Rightarrow>
          (case bk_dec_msg K v of
             None \<Rightarrow> None
           | Some p \<Rightarrow>
               (case (if pm_state p = 2 then Some Delivered else if pm_state p = 3 then Some Failed
                      else if pm_state p = 4 then Some Expired else None) of
                  None \<Rightarrow> None
                | Some st \<Rightarrow>
                    if of_nat (as_millis max_age) < saturating_sub (now_epoch_ms ck) (pm_updated_at_epoch_ms p)
                    then Some (k, pm_id p, st) else None)))"

definition prune_item ::
  "('p, 'q, 'b) backend \<Rightarrow> string \<times> u64 \<times> message_state \<Rightarrow> nat \<times> ('p, 'q) pst \<Rightarrow> nat \<times> ('p, 'q) pst" where
  "prune_item K e st =
     (case e of (key, i, state) \<Rightarrow>
        (let s1 = remove_state_index K state (MessageId i) (snd st)
         in (fst st + 1,
             (case kv_remove (bk_part K) key (ps_messages s1) of None \<Rightarrow> s1 | Some p \<Rightarrow> s1 \<lparr> ps_messages := p \<rparr>))))"

definition pst_prune_terminal ::
  "('p, 'q, 'b) backend \<Rightarrow> clock \<Rightarrow> duration \<Rightarrow> ('p, 'q) pst \<Rightarrow> nat \<times> ('p, 'q) pst" where
  "pst_prune_terminal K ck max_age s =
     fold (prune_item K) (List.map_filter (prunable K ck max_age) (kv_iter (bk_part K) (ps_messages s))) (0, s)"

definition pst_count_item ::
  "('p, 'q, 'b) backend \<Rightarrow> (string \<times> 'b) option \<Rightarrow> store_stats \<Rightarrow> store_stats" where
  "pst_count_item K item st =
     (case item of
        None \<Rightarrow> st
      | Some (k, v) \<Rightarrow>
          (case bk_dec_msg K v of
             None \<Rightarrow> st
           | Some p \<Rightarrow>
               (let st1 = st \<lparr> ss_total := ss_total st + 1 \<rparr>
                in if unat (pm_state p) < 6 then count_state (state_of_code (pm_state p)) st1 else st1)))"

definition pst_message_stats :: "('p, 'q, 'b) backend \<Rightarrow> ('p, 'q) pst \<Rightarrow> store_stats" where
  "pst_message_stats K s =
     fold (pst_count_item K) (kv_iter (bk_part K) (ps_messages s))
       \<lparr> ss_total = 0, ss_pending = 0, ss_in_flight = 0, ss_delivered = 0, ss_failed = 0, ss_expired = 0,
         ss_retrying = 0, ss_memory_bytes = 0, ss_max_messages = 0, ss_max_memory_bytes = 0 \<rparr>"

section \<open>Restart\<close>

definition strip_prefix :: "string \<Rightarrow> string \<Rightarrow> string option" where
  "strip_prefix p s = (if starts_with s p then Some (drop (length p) s) else None)"

text \<open>The scan for the largest id of a partition; an iteration error ends it.  Keys are UTF-8.\<close>

fun max_key_id :: "string \<Rightarrow> (string \<times> 'b) option list \<Rightarrow> u64 \<Rightarrow> u64 option" where
  "max_key_id pre [] mx = Some mx"
| "max_key_id pre (None # items) mx = None"
| "max_key_id pre (Some (k, v) # items) mx =
     max_key_id pre items
       (case Option.bind (strip_prefix pre k) parse_u64 of None \<Rightarrow> mx | Some i \<Rightarrow> max mx i)"

text \<open>The new values of the message and decision counters.\<close>

definition recover_counters :: "('p, 'q, 'b) backend \<Rightarrow> ('p, 'q) pst \<Rightarrow> (u64 \<times> u64) option" where
  "recover_counters K s =
     (case max_key_id ''msg_'' (kv_iter (bk_part K) (ps_messages s)) 0 of
        None \<Rightarrow> None
      | Some m \<Rightarrow>
          (case max_key_id ''dec_'' (kv_iter (bk_part K) (ps_decisions s)) 0 of
             None \<Rightarrow> None
           | Some d \<Rightarrow> Some (m + 1, d + 1)))"

section \<open>Feedback operations\<close>

definition persist_target_stats ::
  "('p, 'q, 'b) backend \<Rightarrow> clock \<Rightarrow> target_stats \<Rightarrow> ('p, 'q) pst \<Rightarrow> ('p, 'q) pst" where
  "persist_target_stats K ck t s =
     (case bk_enc_target K
             \<lparr> pt_name = tt_name t, pt_total = tt_total t, pt_successes = tt_successes t, pt_failures = tt_failures t,
               pt_avg_latency_us = tt_avg_latency_us t, pt_ema_latency_us = tt_ema_latency_us t,
               pt_last_update_epoch_ms = now_epoch_ms ck \<rparr> of
        None \<Rightarrow> s
      | Some v \<Rightarrow>
          (case kv_insert (bk_part K) (''target_'' @ tt_name t) v (ps_target_stats s) of
             None \<Rightarrow> s
           | Some p \<Rightarrow> s \<lparr> ps_target_stats := p \<rparr>))"

definition target_stats_new :: "string \<Rightarrow> target_stats" where
  "target_stats_new name =
     \<lparr> tt_name = name, tt_total = 0, tt_successes = 0, tt_failures = 0, tt_avg_latency_us = 0,
       tt_ema_latency_us = 0, tt_last_update = None \<rparr>"

definition stats_of_persisted :: "persisted_target_stats \<Rightarrow> target_stats" where
  "stats_of_persisted p =
     \<lparr> tt_name = pt_name p, tt_total = pt_total p, tt_successes = pt_successes p, tt_failures = pt_failures p,
       tt_avg_latency_us = pt_avg_latency_us p, tt_ema_latency_us = pt_ema_latency_us p, tt_last_update = None \<rparr>"

definition load_target_stats :: "('p, 'q, 'b) backend \<Rightarrow> string \<Rightarrow> ('p, 'q) pst \<Rightarrow> target_stats" where
  "load_target_stats K name s =
     (case kv_get (bk_part K) (''target_'' @ name) (ps_target_stats s) of
        None \<Rightarrow> target_stats_new name
      | Some v \<Rightarrow>
          (case bk_dec_target K v of None \<Rightarrow> target_stats_new name | Some p \<Rightarrow> stats_of_persisted p))"

definition dec_key :: "decision_id \<Rightarrow> string" where
  "dec_key i = ''dec_'' @ show_nat (unat (decision_u64 i))"

definition persisted_decision_of :: "clock \<Rightarrow> decision \<Rightarrow> persisted_decision" where
  "persisted_decision_of ck d =
     \<lparr> pd_id = decision_u64 (d_id d), pd_decision_type = decision_code (d_type d), pd_target = d_target d,
       pd_alternatives = d_alternatives d, pd_destination = dc_destination (d_context d),
       pd_source = dc_source (d_context d), pd_system_id = dc_system_id (d_context d),
       pd_route_name = dc_route_name (d_context d), pd_cluster_name = dc_cluster_name (d_context d),
       pd_attempt = dc_attempt (d_context d), pd_fallback_from = dc_fallback_from (d_context d),
       pd_timestamp_epoch_ms = now_epoch_ms ck \<rparr>"

definition pst_record_decision ::
  "('p, 'q, 'b) backend \<Rightarrow> clock \<Rightarrow> decision \<Rightarrow> ('p, 'q) pst \<Rightarrow> decision_id \<times> ('p, 'q) pst" where
  "pst_record_decision K ck d s =
     (d_id d,
      case bk_enc_decision K (persisted_decision_of ck d) of
        None \<Rightarrow> s
      | Some v \<Rightarrow>
          (case kv_insert (bk_part K) (dec_key (d_id d)) v (ps_decisions s) of
             None \<Rightarrow> s
           | Some p \<Rightarrow> s \<lparr> ps_decisions := p \<rparr>))"

definition record_persisted_outcome ::
  "('p, 'q, 'b) backend \<Rightarrow> clock \<Rightarrow> outcome \<Rightarrow> ('p, 'q) pst \<Rightarrow> ('p, 'q) pst" where
  "record_persisted_outcome K ck o1 s =
     (case bk_enc_outcome K
             \<lparr> po_decision_id = decision_u64 (o_decision_id o1), po_success = o_success o1,
               po_latency_us = of_nat (as_micros (o_latency o1)), po_error_code = o_error_code o1,
               po_error_message = o_error_message o1, po_timestamp_epoch_ms = now_epoch_ms ck \<rparr> of
        None \<Rightarrow> s
      | Some v \<Rightarrow>
          (case kv_insert (bk_part K) (''out_'' @ show_nat (unat (decision_u64 (o_decision_id o1)))) v (ps_outcomes s) of
             None \<Rightarrow> s
           | Some p \<Rightarrow> s \<lparr> ps_outcomes := p \<rparr>))"

text \<open>The update of the loaded statistics.  The running average divides by the new total, which is
  zero only after the counter has wrapped.\<close>

definition count_outcome :: "bool \<Rightarrow> u64 \<Rightarrow> target_stats \<Rightarrow> target_stats" where
  "count_outcome ok l t =
     (let total = tt_total t + 1
      in t \<lparr> tt_total := total,
             tt_successes := (if ok then tt_successes t + 1 else tt_successes t),
             tt_failures := (if ok then tt_failures t else tt_failures t + 1),
             tt_ema_latency_us := (if tt_ema_latency_us t = 0 then l else (l * 2 + tt_ema_latency_us t * 8) div 10),
             tt_avg_latency_us := (tt_avg_latency_us t * (total - 1) + l) div total \<rparr>)"

definition pst_record_outcome ::
  "('p, 'q, 'b) backend \<Rightarrow> clock \<Rightarrow> outcome \<Rightarrow> ('p, 'q) pst \<Rightarrow> ('p, 'q) pst" where
  "pst_record_outcome K ck o1 s =
     (let s1 = record_persisted_outcome K ck o1 s in
      case kv_get (bk_part K) (dec_key (o_decision_id o1)) (ps_decisions s1) of
        None \<Rightarrow> s1
      | Some v \<Rightarrow>
          (case bk_dec_decision K v of
             None \<Rightarrow> s1
           | Some d \<Rightarrow>
               persist_target_stats K ck
                 (count_outcome (o_success o1) (of_nat (as_micros (o_latency o1)))
                   (load_target_stats K (pd_target d) s1)) s1))"

definition pst_decision_stats :: "decision_type \<Rightarrow> ('p, 'q) pst \<Rightarrow> decision_stats" where
  "pst_decision_stats ty s =
     \<lparr> ds_total = 0, ds_successes = 0, ds_failures = 0, ds_pending = 0, ds_avg_latency_us = 0,
       ds_p50_latency_us = 0, ds_p95_latency_us = 0, ds_p99_latency_us = 0 \<rparr>"

definition pst_target_stats :: "('p, 'q, 'b) backend \<Rightarrow> string \<Rightarrow> ('p, 'q) pst \<Rightarrow> target_stats" where
  "pst_target_stats K target s = load_target_stats K target s"

definition pst_all_target_stats :: "('p, 'q, 'b) backend \<Rightarrow> ('p, 'q) pst \<Rightarrow> (string \<times> target_stats) list" where
  "pst_all_target_stats K s =
     sort_desc (\<lambda>e. success_rate (snd e))
       (List.map_filter
          (\<lambda>item. case item of
             None \<Rightarrow> None
           | Some (_, v) \<Rightarrow> (case bk_dec_target K v of None \<Rightarrow> None | Some p \<Rightarrow> Some (pt_name p, stats_of_persisted p)))
          (kv_prefix (bk_part K) ''target_'' (ps_target_stats s)))"

text \<open>Removing the keys of a partition whose entry satisfies a test; a failed removal is ignored.\<close>

definition remove_keys :: "('p, 'b) partition \<Rightarrow> string list \<Rightarrow> 'p \<Rightarrow> 'p" where
  "remove_keys P ks p = fold (\<lambda>k p. case kv_remove P k p of None \<Rightarrow> p | Some p' \<Rightarrow> p') ks p"

definition old_keys :: "('b \<Rightarrow> bool) \<Rightarrow> (string \<times> 'b) option list \<Rightarrow> string list" where
  "old_keys old items =
     List.map_filter (\<lambda>item. case item of None \<Rightarrow> None | Some (k, v) \<Rightarrow> if old v then Some k else None) items"

definition old_decision :: "('p, 'q, 'b) backend \<Rightarrow> clock \<Rightarrow> duration \<Rightarrow> 'b \<Rightarrow> bool" where
  "old_decision K ck max_age v =
     (case bk_dec_decision K v of
        None \<Rightarrow> False
      | Some d \<Rightarrow> of_nat (as_millis max_age) < saturating_sub (now_epoch_ms ck) (pd_timestamp_epoch_ms d))"

definition old_outcome :: "('p, 'q, 'b) backend \<Rightarrow> clock \<Rightarrow> duration \<Rightarrow> 'b \<Rightarrow> bool" where
  "old_outcome K ck max_age v =
     (case bk_dec_outcome K v of
        None \<Rightarrow> False
      | Some o1 \<Rightarrow> of_nat (as_millis max_age) < saturating_sub (now_epoch_ms ck) (po_timestamp_epoch_ms o1))"

definition pst_prune_feedback ::
  "('p, 'q, 'b) backend \<Rightarrow> clock \<Rightarrow> duration \<Rightarrow> ('p, 'q) pst \<Rightarrow> ('p, 'q) pst" where
  "pst_prune_feedback K ck max_age s =
     s \<lparr> ps_decisions := remove_keys (bk_part K)
           (old_keys (old_decision K ck max_age) (kv_iter (bk_part K) (ps_decisions s))) (ps_decisions s),
         ps_outcomes := remove_keys (bk_part K)
           (old_keys (old_outcome K ck max_age) (kv_iter (bk_part K) (ps_outcomes s))) (ps_outcomes s) \<rparr>"

section \<open>What the engine and the codec promise\<close>

definition partition_ok :: "('p, 'v) partition \<Rightarrow> bool" where
  "partition_ok P =
     ((\<forall>k v p. \<exists>p'. kv_insert P k v p = Some p' \<and> (\<forall>j. kv_get P j p' = (if j = k then Some v else kv_get P j p))) \<and>
      (\<forall>k p. \<exists>p'. kv_remove P k p = Some p' \<and> (\<forall>j. kv_get P j p' = (if j = k then None else kv_get P j p))) \<and>
      (\<forall>p. \<exists>xs. kv_iter P p = map Some xs \<and> distinct_keys xs \<and> (\<forall>k v. (k, v) \<in> set xs \<longleftrightarrow> kv_get P k p = Some v) \<and>
         (\<forall>pre. kv_prefix P pre p = map Some (filter (\<lambda>e. starts_with (fst e) pre) xs))))"

definition codec_ok :: "('p, 'q, 'b) backend \<Rightarrow> bool" where
  "codec_ok K =
     ((\<forall>p. \<exists>v. bk_enc_msg K p = Some v \<and> bk_dec_msg K v = Some p) \<and>
      (\<forall>p. \<exists>v. bk_enc_decision K p = Some v \<and> bk_dec_decision K v = Some p) \<and>
      (\<forall>p. \<exists>v. bk_enc_outcome K p = Some v \<and> bk_dec_outcome K v = Some p) \<and>
      (\<forall>p. \<exists>v. bk_enc_target K p = Some v \<and> bk_dec_target K v = Some p))"

definition backend_ok :: "('p, 'q, 'b) backend \<Rightarrow> bool" where
  "backend_ok K = (partition_ok (bk_part K) \<and> partition_ok (bk_index K) \<and> codec_ok K)"

lemma part_insert:
  assumes "partition_ok P"
  obtains p' where "kv_insert P k v p = Some p'" "\<And>j. kv_get P j p' = (if j = k then Some v else kv_get P j p)"
  using assms unfolding partition_ok_def by metis

lemma part_remove:
  assumes "partition_ok P"
  obtains p' where "kv_remove P k p = Some p'" "\<And>j. kv_get P j p' = (if j = k then None else kv_get P j p)"
  using assms unfolding partition_ok_def by metis

lemma part_iter:
  assumes "partition_ok P"
  obtains xs where "kv_iter P p = map Some xs" "distinct_keys xs" "\<And>k v. (k, v) \<in> set xs \<longleftrightarrow> kv_get P k p = Some v"
    "\<And>pre. kv_prefix P pre p = map Some (filter (\<lambda>e. starts_with (fst e) pre) xs)"
  using assms unfolding partition_ok_def by metis

lemma backend_okD:
  assumes "backend_ok K"
  shows "partition_ok (bk_part K)" "partition_ok (bk_index K)"
    "\<exists>v. bk_enc_msg K p = Some v \<and> bk_dec_msg K v = Some p"
    "\<exists>v. bk_enc_decision K d = Some v \<and> bk_dec_decision K v = Some d"
    "\<exists>v. bk_enc_outcome K e = Some v \<and> bk_dec_outcome K v = Some e"
    "\<exists>v. bk_enc_target K t = Some v \<and> bk_dec_target K v = Some t"
  using assms by (simp_all add: backend_ok_def codec_ok_def)

section \<open>Keys and codes\<close>

lemma state_of_code_code [simp]: "state_of_code (state_code st) = st"
  by (cases st) (simp_all add: state_of_code_def)

lemma state_code_lt: "unat (state_code st) < 6"
  by (cases st) simp_all

lemma state_code_of_code: "unat c < 6 \<Longrightarrow> state_code (state_of_code c) = c"
proof -
  assume "unat c < 6"
  then have "unat c \<in> {0, 1, 2, 3, 4, 5}" by auto
  moreover have "c = of_nat (unat c)" by simp
  ultimately have "c \<in> {0, 1, 2, 3, 4, 5}" by (auto simp del: of_nat_unat)
  then show ?thesis by (auto simp: state_of_code_def)
qed

lemma state_code_inject [simp]: "state_code a = state_code b \<longleftrightarrow> a = b"
  by (metis state_of_code_code)

lemma priority_of_code_code [simp]: "priority_of_code (priority_code p) = p"
  by (cases p) (simp_all add: priority_of_code_def priority_code_def)

lemma msg_key_inject [simp]: "msg_key i = msg_key j \<longleftrightarrow> i = j"
  by (cases i; cases j) (simp add: msg_key_def word_unat_eq_iff)

lemma state_prefix_of_key: "starts_with (state_key c i) (state_prefix d) \<longleftrightarrow> c = d"
proof
  assume "starts_with (state_key c i) (state_prefix d)"
  then obtain zs where "show_nat (unat c) @ CHR ''_'' # show_nat (unat (as_u64 i)) = show_nat (unat d) @ CHR ''_'' # zs"
    by (auto simp: starts_with_def prefix_def state_key_def state_prefix_def)
  then show "c = d"
    by (simp add: append_separator_inject show_nat_no_underscore word_unat_eq_iff)
qed (simp add: starts_with_def state_key_def)

lemma state_key_inject [simp]: "state_key c i = state_key d j \<longleftrightarrow> c = d \<and> i = j"
  by (cases i; cases j)
     (auto simp: state_key_def state_prefix_def append_separator_inject show_nat_no_underscore word_unat_eq_iff)

end
