(* ===== verification/PersistentRefine.thy ===== *)
theory PersistentRefine
  imports Persistent
begin

text \<open>
  The persistent storage implements a map from message ids to persisted messages: an abstraction
  function, the effect of every operation on the abstract map, the invariant that the state index
  lists exactly the stored messages, and the theorems that rest on them.
\<close>

section \<open>Abstract map and invariant\<close>

type_synonym message_map = "message_id \<Rightarrow> persisted_message option"

definition pst_abs :: "('p, 'q, 'b) backend \<Rightarrow> ('p, 'q) pst \<Rightarrow> message_map" where
  "pst_abs K s i = Option.bind (kv_get (bk_part K) (msg_key i) (ps_messages s)) (bk_dec_msg K)"

definition indexed :: "message_map \<Rightarrow> string \<Rightarrow> u8 list \<Rightarrow> bool" where
  "indexed A k v = (\<exists>i p. A i = Some p \<and> k = state_key (pm_state p) i \<and> v = to_be_bytes (as_u64 i))"

definition index_ok :: "('p, 'q, 'b) backend \<Rightarrow> message_map \<Rightarrow> ('p, 'q) pst \<Rightarrow> bool" where
  "index_ok K A s = (\<forall>k v. kv_get (bk_index K) k (ps_by_state s) = Some v \<longleftrightarrow> indexed A k v)"

definition keys_ok :: "('p, 'q, 'b) backend \<Rightarrow> ('p, 'q) pst \<Rightarrow> bool" where
  "keys_ok K s =
     (\<forall>k v. kv_get (bk_part K) k (ps_messages s) = Some v \<longrightarrow>
        (\<exists>i p. k = msg_key i \<and> bk_dec_msg K v = Some p \<and> pm_id p = as_u64 i \<and> unat (pm_state p) < 6))"

definition pst_ok :: "('p, 'q, 'b) backend \<Rightarrow> ('p, 'q) pst \<Rightarrow> bool" where
  "pst_ok K s = (keys_ok K s \<and> index_ok K (pst_abs K s) s)"

lemma load_message_abs: "load_message K ck i s = map_option (persisted_to_stored ck) (pst_abs K s i)"
  by (simp add: load_message_def pst_abs_def split: option.splits)

lemma abs_code: "keys_ok K s \<Longrightarrow> pst_abs K s i = Some p \<Longrightarrow> pm_id p = as_u64 i \<and> unat (pm_state p) < 6"
  unfolding keys_ok_def pst_abs_def by (fastforce simp: bind_eq_Some_conv)

lemma restored_state:
  "keys_ok K s \<Longrightarrow> pst_abs K s i = Some p \<Longrightarrow>
     m_id (persisted_to_stored ck p) = i \<and> state_code (m_state (persisted_to_stored ck p)) = pm_state p"
  by (cases i) (auto dest!: abs_code simp: persisted_to_stored_def state_code_of_code)

lemma persisted_fields [simp]:
  "pm_id (persisted_of ck m) = as_u64 (m_id m)" "pm_state (persisted_of ck m) = state_code (m_state m)"
  by (simp_all add: persisted_of_def)

section \<open>Effect of the primitive operations\<close>

lemma indexed_state_key:
  "indexed A (state_key c i) v \<longleftrightarrow> (\<exists>p. A i = Some p \<and> pm_state p = c) \<and> v = to_be_bytes (as_u64 i)"
  by (auto simp: indexed_def)

lemma indexed_other:
  assumes "k \<noteq> state_key c i" "\<And>p. A i = Some p \<Longrightarrow> pm_state p = c"
    "\<And>p. B i = Some p \<Longrightarrow> pm_state p = c" "\<And>j. j \<noteq> i \<Longrightarrow> B j = A j"
  shows "indexed B k v \<longleftrightarrow> indexed A k v"
  using assms unfolding indexed_def by metis

lemma indexed_remove:
  assumes "\<And>p. A i = Some p \<Longrightarrow> pm_state p = c"
  shows "indexed (A(i := None)) k v \<longleftrightarrow> k \<noteq> state_key c i \<and> indexed A k v"
  using indexed_other [of k c i A "A(i := None)" v] assms by (cases "k = state_key c i") (auto simp: indexed_state_key)

lemma indexed_put:
  assumes "\<And>p. A i = Some p \<Longrightarrow> pm_state p = pm_state p'"
  shows "indexed (A(i \<mapsto> p')) k v \<longleftrightarrow>
    (if k = state_key (pm_state p') i then v = to_be_bytes (as_u64 i) else indexed A k v)"
proof (cases "k = state_key (pm_state p') i")
  case True
  then show ?thesis by (simp add: indexed_state_key)
next
  case False
  then have "indexed (A(i \<mapsto> p')) k v \<longleftrightarrow> indexed A k v"
    by (rule indexed_other) (use assms in auto)
  with False show ?thesis by simp
qed

lemma persist_effect:
  assumes "backend_ok K" "keys_ok K s" "index_ok K A s"
    and "\<And>p. A (m_id m) = Some p \<Longrightarrow> pm_state p = state_code (m_state m)"
  obtains s' where "persist_message K ck m s = (True, s')" "keys_ok K s'"
    "pst_abs K s' = (pst_abs K s)(m_id m \<mapsto> persisted_of ck m)"
    "index_ok K (A(m_id m \<mapsto> persisted_of ck m)) s'"
    "\<forall>k. k \<noteq> msg_key (m_id m) \<longrightarrow> kv_get (bk_part K) k (ps_messages s') = kv_get (bk_part K) k (ps_messages s)"
proof -
  from backend_okD(3) [OF assms(1)] obtain v where
    v: "bk_enc_msg K (persisted_of ck m) = Some v" "bk_dec_msg K v = Some (persisted_of ck m)" by blast
  obtain p where
    p: "kv_insert (bk_part K) (msg_key (m_id m)) v (ps_messages s) = Some p"
    "\<And>j. kv_get (bk_part K) j p = (if j = msg_key (m_id m) then Some v else kv_get (bk_part K) j (ps_messages s))"
    by (rule part_insert [OF backend_okD(1) [OF assms(1)]]) blast
  obtain q where
    q: "kv_insert (bk_index K) (state_key (state_code (m_state m)) (m_id m)) (to_be_bytes (as_u64 (m_id m))) (ps_by_state s) = Some q"
    "\<And>j. kv_get (bk_index K) j q = (if j = state_key (state_code (m_state m)) (m_id m)
       then Some (to_be_bytes (as_u64 (m_id m))) else kv_get (bk_index K) j (ps_by_state s))"
    by (rule part_insert [OF backend_okD(2) [OF assms(1)]]) blast
  define s' where "s' = s \<lparr> ps_messages := p, ps_by_state := q \<rparr>"
  have "persist_message K ck m s = (True, s')"
    using v p q by (simp add: persist_message_def s'_def)
  moreover have "keys_ok K s'"
    using assms(2) v(2) p(2) state_code_lt unfolding keys_ok_def s'_def by auto
  moreover have "pst_abs K s' = (pst_abs K s)(m_id m \<mapsto> persisted_of ck m)"
    using v(2) p(2) by (auto simp: pst_abs_def s'_def)
  moreover have "index_ok K (A(m_id m \<mapsto> persisted_of ck m)) s'"
    using assms(3,4) q(2) by (auto simp: index_ok_def s'_def indexed_put)
  ultimately show ?thesis using that p(2) by (simp add: s'_def)
qed

lemma remove_index_effect:
  assumes "backend_ok K" "index_ok K A s" "\<And>p. A i = Some p \<Longrightarrow> pm_state p = state_code st"
  shows "ps_messages (remove_state_index K st i s) = ps_messages s"
    and "index_ok K (A(i := None)) (remove_state_index K st i s)"
proof -
  obtain q where
    q: "kv_remove (bk_index K) (state_key (state_code st) i) (ps_by_state s) = Some q"
    "\<And>j. kv_get (bk_index K) j q = (if j = state_key (state_code st) i then None else kv_get (bk_index K) j (ps_by_state s))"
    by (rule part_remove [OF backend_okD(2) [OF assms(1)]]) blast
  show "ps_messages (remove_state_index K st i s) = ps_messages s"
    using q by (simp add: remove_state_index_def)
  show "index_ok K (A(i := None)) (remove_state_index K st i s)"
    using assms(2) q indexed_remove [OF assms(3)] by (auto simp: index_ok_def remove_state_index_def)
qed

lemma keys_ok_cong: "ps_messages s' = ps_messages s \<Longrightarrow> keys_ok K s' = keys_ok K s"
  by (simp add: keys_ok_def)

lemma pst_abs_cong: "ps_messages s' = ps_messages s \<Longrightarrow> pst_abs K s' = pst_abs K s"
  by (auto simp: pst_abs_def)

section \<open>The operations on the abstract map\<close>

definition expired_version :: "clock \<Rightarrow> persisted_message \<Rightarrow> persisted_message" where
  "expired_version ck p = persisted_of ck (mark_expired ck (persisted_to_stored ck p))"

definition terminal_code :: "u8 \<Rightarrow> bool" where
  "terminal_code c = (c = 2 \<or> c = 3 \<or> c = 4)"

definition outdated :: "clock \<Rightarrow> duration \<Rightarrow> persisted_message \<Rightarrow> bool" where
  "outdated ck max_age p =
     (terminal_code (pm_state p) \<and>
      of_nat (as_millis max_age) < saturating_sub (now_epoch_ms ck) (pm_updated_at_epoch_ms p))"

lemma store_refines:
  assumes "backend_ok K" "pst_ok K s" "\<And>p. pst_abs K s (m_id m) = Some p \<Longrightarrow> pm_state p = state_code (m_state m)"
  shows "pst_abs K (snd (pst_store K ck m s)) = (pst_abs K s)(m_id m \<mapsto> persisted_of ck m)"
    and "pst_ok K (snd (pst_store K ck m s))"
proof -
  from assms(2) have "keys_ok K s" "index_ok K (pst_abs K s) s" by (simp_all add: pst_ok_def)
  from persist_effect [OF assms(1) this assms(3)] obtain s' where
    "persist_message K ck m s = (True, s')" "keys_ok K s'" "pst_abs K s' = (pst_abs K s)(m_id m \<mapsto> persisted_of ck m)"
    "index_ok K ((pst_abs K s)(m_id m \<mapsto> persisted_of ck m)) s'" by blast
  then show "pst_abs K (snd (pst_store K ck m s)) = (pst_abs K s)(m_id m \<mapsto> persisted_of ck m)"
    and "pst_ok K (snd (pst_store K ck m s))" by (simp_all add: pst_store_def pst_ok_def)
qed

text \<open>Replacing a stored message by one with the same id: the old index entry goes when the state
  changes.\<close>

lemma replace_effect:
  assumes "backend_ok K" "pst_ok K s" "pst_abs K s i = Some p" "m_id m = i" "pm_state p = state_code old"
    and "s1 = (if old \<noteq> m_state m then remove_state_index K old i s else s)"
  obtains s' where "persist_message K ck m s1 = (True, s')" "pst_ok K s'"
    "pst_abs K s' = (pst_abs K s)(i \<mapsto> persisted_of ck m)"
    "\<forall>k. k \<noteq> msg_key i \<longrightarrow> kv_get (bk_part K) k (ps_messages s') = kv_get (bk_part K) k (ps_messages s)"
proof -
  define A where "A = (if old \<noteq> m_state m then (pst_abs K s)(i := None) else pst_abs K s)"
  have ok: "keys_ok K s" "index_ok K (pst_abs K s) s" using assms(2) by (simp_all add: pst_ok_def)
  have "\<And>q. pst_abs K s i = Some q \<Longrightarrow> pm_state q = state_code old" using assms(3,5) by simp
  note rem = remove_index_effect [OF assms(1) ok(2) this]
  have s1: "ps_messages s1 = ps_messages s" "index_ok K A s1"
    using rem assms(6) ok(2) by (simp_all add: A_def)
  have k1: "keys_ok K s1" using ok(1) by (simp add: keys_ok_cong [OF s1(1)])
  have st: "\<And>q. A (m_id m) = Some q \<Longrightarrow> pm_state q = state_code (m_state m)"
    using assms(3-5) by (auto simp: A_def split: if_splits)
  obtain s' where s': "persist_message K ck m s1 = (True, s')" "keys_ok K s'"
    "pst_abs K s' = (pst_abs K s1)(m_id m \<mapsto> persisted_of ck m)" "index_ok K (A(m_id m \<mapsto> persisted_of ck m)) s'"
    "\<forall>k. k \<noteq> msg_key (m_id m) \<longrightarrow> kv_get (bk_part K) k (ps_messages s') = kv_get (bk_part K) k (ps_messages s1)"
    by (rule persist_effect [OF assms(1) k1 s1(2) st, where ck = ck]) blast
  moreover have "A(m_id m \<mapsto> persisted_of ck m) = (pst_abs K s)(i \<mapsto> persisted_of ck m)"
    using assms(4) by (auto simp: A_def)
  moreover have "pst_abs K s1 = pst_abs K s" using s1(1) by (rule pst_abs_cong)
  ultimately show ?thesis using that assms(4) s1(1) by (auto simp: pst_ok_def)
qed

lemma update_refines:
  assumes "backend_ok K" "pst_ok K s" "\<And>m. m_id (f m) = m_id m"
  shows "pst_abs K (snd (pst_update K ck i f s)) =
      (case pst_abs K s i of None \<Rightarrow> pst_abs K s
       | Some p \<Rightarrow> (pst_abs K s)(i \<mapsto> persisted_of ck (f (persisted_to_stored ck p))))"
    and "pst_ok K (snd (pst_update K ck i f s))"
    and "fst (pst_update K ck i f s) \<longleftrightarrow> pst_abs K s i \<noteq> None"
proof -
  have keys: "keys_ok K s" using assms(2) by (simp add: pst_ok_def)
  have "pst_abs K (snd (pst_update K ck i f s)) =
      (case pst_abs K s i of None \<Rightarrow> pst_abs K s
       | Some p \<Rightarrow> (pst_abs K s)(i \<mapsto> persisted_of ck (f (persisted_to_stored ck p)))) \<and>
    pst_ok K (snd (pst_update K ck i f s)) \<and> (fst (pst_update K ck i f s) \<longleftrightarrow> pst_abs K s i \<noteq> None)"
  proof (cases "pst_abs K s i")
    case None
    then show ?thesis using assms(2) by (simp add: pst_update_def load_message_abs)
  next
    case (Some p)
    let ?m = "persisted_to_stored ck p"
    have r: "m_id ?m = i" "pm_state p = state_code (m_state ?m)"
      using restored_state [OF keys Some] by auto
    have fi: "m_id (f ?m) = i" using assms(3) r(1) by simp
    obtain s' where s': "persist_message K ck (f ?m) (if m_state ?m \<noteq> m_state (f ?m) then remove_state_index K (m_state ?m) i s else s)
        = (True, s')" "pst_ok K s'" "pst_abs K s' = (pst_abs K s)(i \<mapsto> persisted_of ck (f ?m))"
      by (rule replace_effect [OF assms(1,2) Some fi r(2) refl, where ck = ck]) blast
    have "pst_update K ck i f s = (True, s')"
      using Some s'(1) by (simp add: pst_update_def load_message_abs Let_def)
    with s' Some show ?thesis by simp
  qed
  then show "pst_abs K (snd (pst_update K ck i f s)) =
      (case pst_abs K s i of None \<Rightarrow> pst_abs K s
       | Some p \<Rightarrow> (pst_abs K s)(i \<mapsto> persisted_of ck (f (persisted_to_stored ck p))))"
    "pst_ok K (snd (pst_update K ck i f s))" "fst (pst_update K ck i f s) \<longleftrightarrow> pst_abs K s i \<noteq> None" by blast+
qed

text \<open>Removing a stored message with its index entry.\<close>

lemma drop_effect:
  assumes "backend_ok K" "pst_ok K s" "pst_abs K s i = Some p" "pm_state p = state_code st"
  obtains q where "kv_remove (bk_part K) (msg_key i) (ps_messages (remove_state_index K st i s)) = Some q"
    "pst_ok K ((remove_state_index K st i s) \<lparr> ps_messages := q \<rparr>)"
    "pst_abs K ((remove_state_index K st i s) \<lparr> ps_messages := q \<rparr>) = (pst_abs K s)(i := None)"
    "\<forall>k. kv_get (bk_part K) k q = (if k = msg_key i then None else kv_get (bk_part K) k (ps_messages s))"
proof -
  let ?s1 = "remove_state_index K st i s"
  have ok: "keys_ok K s" "index_ok K (pst_abs K s) s" using assms(2) by (simp_all add: pst_ok_def)
  have s1: "ps_messages ?s1 = ps_messages s" "index_ok K ((pst_abs K s)(i := None)) ?s1"
    using remove_index_effect [OF assms(1) ok(2), of i st] assms(3,4) by auto
  obtain q where q: "kv_remove (bk_part K) (msg_key i) (ps_messages s) = Some q"
    "\<And>j. kv_get (bk_part K) j q = (if j = msg_key i then None else kv_get (bk_part K) j (ps_messages s))"
    by (rule part_remove [OF backend_okD(1) [OF assms(1)]]) blast
  have abs: "pst_abs K (?s1 \<lparr> ps_messages := q \<rparr>) = (pst_abs K s)(i := None)"
    using q(2) by (auto simp: pst_abs_def)
  have "keys_ok K (?s1 \<lparr> ps_messages := q \<rparr>)" using ok(1) q(2) by (auto simp: keys_ok_def)
  moreover have "index_ok K ((pst_abs K s)(i := None)) (?s1 \<lparr> ps_messages := q \<rparr>)"
    using s1(2) by (simp add: index_ok_def)
  ultimately show ?thesis using that q s1(1) abs by (auto simp: pst_ok_def)
qed

lemma delete_refines:
  assumes "backend_ok K" "pst_ok K s"
  shows "pst_abs K (snd (pst_delete K ck i s)) = (pst_abs K s)(i := None)"
    and "pst_ok K (snd (pst_delete K ck i s))"
    and "fst (pst_delete K ck i s) \<longleftrightarrow> pst_abs K s i \<noteq> None"
proof -
  have "pst_abs K (snd (pst_delete K ck i s)) = (pst_abs K s)(i := None) \<and> pst_ok K (snd (pst_delete K ck i s)) \<and>
    (fst (pst_delete K ck i s) \<longleftrightarrow> pst_abs K s i \<noteq> None)"
  proof (cases "pst_abs K s i")
    case None
    then show ?thesis using assms(2) by (auto simp: pst_delete_def load_message_abs)
  next
    case (Some p)
    have "pm_state p = state_code (m_state (persisted_to_stored ck p))"
      using restored_state [OF _ Some] assms(2) by (simp add: pst_ok_def)
    from drop_effect [OF assms Some this] show ?thesis
      using Some by (fastforce simp: pst_delete_def load_message_abs Let_def)
  qed
  then show "pst_abs K (snd (pst_delete K ck i s)) = (pst_abs K s)(i := None)"
    "pst_ok K (snd (pst_delete K ck i s))" "fst (pst_delete K ck i s) \<longleftrightarrow> pst_abs K s i \<noteq> None" by blast+
qed

text \<open>An entry of the message partition and the message it encodes.\<close>

lemma entry_decodes:
  assumes "pst_ok K s" "kv_get (bk_part K) k (ps_messages s) = Some v"
  obtains i p where "k = msg_key i" "bk_dec_msg K v = Some p" "MessageId (pm_id p) = i" "pst_abs K s i = Some p"
    "unat (pm_state p) < 6"
proof -
  obtain i p where "k = msg_key i" "bk_dec_msg K v = Some p" "pm_id p = as_u64 i" "unat (pm_state p) < 6"
    using assms unfolding pst_ok_def keys_ok_def by blast
  moreover from this have "pst_abs K s i = Some p" using assms(2) by (simp add: pst_abs_def)
  ultimately show ?thesis using that by simp
qed

definition entries_of :: "('p, 'q, 'b) backend \<Rightarrow> (string \<times> 'b) list \<Rightarrow> ('p, 'q) pst \<Rightarrow> bool" where
  "entries_of K xs s = (distinct_keys xs \<and> (\<forall>e \<in> set xs. kv_get (bk_part K) (fst e) (ps_messages s) = Some (snd e)))"

lemma entries_of_tl:
  assumes "entries_of K ((k, v) # xs) s" "\<forall>j. j \<noteq> k \<longrightarrow> kv_get (bk_part K) j (ps_messages s') = kv_get (bk_part K) j (ps_messages s)"
  shows "entries_of K xs s'" "k \<notin> fst ` set xs"
proof -
  show k: "k \<notin> fst ` set xs" using assms(1) by (auto simp: entries_of_def)
  then have "fst e \<noteq> k" if "e \<in> set xs" for e using that by auto
  then show "entries_of K xs s'" using assms by (auto simp: entries_of_def)
qed

lemma expire_item_effect:
  assumes "backend_ok K" "pst_ok K s" "kv_get (bk_part K) (msg_key i) (ps_messages s) = Some v"
    "bk_dec_msg K v = Some p" "MessageId (pm_id p) = i" "pst_abs K s i = Some p"
  obtains s' where "expire_item K ck ttl (Some (msg_key i, v)) (n, s) = (if overdue ck ttl p then n + 1 else n, s')" "pst_ok K s'"
    "pst_abs K s' = (pst_abs K s)(i \<mapsto> if overdue ck ttl p then expired_version ck p else p)"
    "\<forall>k. k \<noteq> msg_key i \<longrightarrow> kv_get (bk_part K) k (ps_messages s') = kv_get (bk_part K) k (ps_messages s)"
proof (cases "overdue ck ttl p")
  case True
  let ?m = "mark_expired ck (persisted_to_stored ck p)"
  have st: "pm_state p = state_code Pending" using True by (simp add: overdue_def)
  have mi: "m_id ?m = i" using assms(5) by (simp add: persisted_to_stored_def)
  obtain s' where s': "persist_message K ck ?m (if Pending \<noteq> m_state ?m then remove_state_index K Pending i s else s) = (True, s')"
    "pst_ok K s'" "pst_abs K s' = (pst_abs K s)(i \<mapsto> persisted_of ck ?m)"
    "\<forall>k. k \<noteq> msg_key i \<longrightarrow> kv_get (bk_part K) k (ps_messages s') = kv_get (bk_part K) k (ps_messages s)"
    by (rule replace_effect [OF assms(1,2,6) mi st refl, where ck = ck]) blast
  have "expire_item K ck ttl (Some (msg_key i, v)) (n, s) = (n + 1, s')"
    using True s'(1) assms(4,5) by (simp add: expire_item_def Let_def)
  then show ?thesis using that True s' by (simp add: expired_version_def)
next
  case False
  then have "expire_item K ck ttl (Some (msg_key i, v)) (n, s) = (n, s)"
    using assms(4) by (simp add: expire_item_def)
  moreover have "(pst_abs K s)(i \<mapsto> p) = pst_abs K s" using assms(6) by (simp add: map_upd_triv)
  ultimately show ?thesis using that False assms(2) by simp
qed

lemma expire_fold:
  assumes "backend_ok K"
  shows "pst_ok K s \<Longrightarrow> entries_of K xs s \<Longrightarrow>
    pst_ok K (snd (fold (expire_item K ck ttl) (map Some xs) (n, s))) \<and>
    pst_abs K (snd (fold (expire_item K ck ttl) (map Some xs) (n, s))) =
      (\<lambda>i. map_option (\<lambda>p. if msg_key i \<in> fst ` set xs \<and> overdue ck ttl p then expired_version ck p else p) (pst_abs K s i))"
proof (induction xs arbitrary: n s)
  case Nil
  then show ?case by (simp add: map_option.identity)
next
  case (Cons e xs)
  obtain k v where e: "e = (k, v)" by (cases e)
  have g: "kv_get (bk_part K) k (ps_messages s) = Some v" using Cons.prems(2) e by (simp add: entries_of_def)
  obtain i p where i: "k = msg_key i" "bk_dec_msg K v = Some p" "MessageId (pm_id p) = i" "pst_abs K s i = Some p"
    by (rule entry_decodes [OF Cons.prems(1) g])
  obtain s' where s': "expire_item K ck ttl (Some (msg_key i, v)) (n, s) = (if overdue ck ttl p then n + 1 else n, s')" "pst_ok K s'"
    "pst_abs K s' = (pst_abs K s)(i \<mapsto> if overdue ck ttl p then expired_version ck p else p)"
    "\<forall>k. k \<noteq> msg_key i \<longrightarrow> kv_get (bk_part K) k (ps_messages s') = kv_get (bk_part K) k (ps_messages s)"
    by (rule expire_item_effect [OF assms Cons.prems(1) g [unfolded i(1)] i(2-4), where ck = ck and ttl = ttl and n = n])
  have tl: "entries_of K xs s'" "k \<notin> fst ` set xs"
    using entries_of_tl [OF Cons.prems(2) [unfolded e]] s'(4) i(1) by auto
  from Cons.IH [OF s'(2) tl(1), of "if overdue ck ttl p then n + 1 else n"]
  show ?case using s'(1,3) e i tl(2) by (auto simp: fun_eq_iff)
qed

lemma expire_refines:
  assumes "backend_ok K" "pst_ok K s"
  shows "pst_abs K (snd (pst_expire_old K ck ttl s)) =
      (\<lambda>i. map_option (\<lambda>p. if overdue ck ttl p then expired_version ck p else p) (pst_abs K s i))"
    and "pst_ok K (snd (pst_expire_old K ck ttl s))"
proof -
  obtain xs where xs: "kv_iter (bk_part K) (ps_messages s) = map Some xs" "distinct_keys xs"
    "\<And>k v. (k, v) \<in> set xs \<longleftrightarrow> kv_get (bk_part K) k (ps_messages s) = Some v"
    by (rule part_iter [OF backend_okD(1) [OF assms(1)]]) blast
  have "entries_of K xs s" using xs(2,3) by (auto simp: entries_of_def)
  from expire_fold [OF assms this, of ck ttl 0]
  have f: "pst_ok K (snd (pst_expire_old K ck ttl s))" "pst_abs K (snd (pst_expire_old K ck ttl s)) =
      (\<lambda>i. map_option (\<lambda>p. if msg_key i \<in> fst ` set xs \<and> overdue ck ttl p then expired_version ck p else p) (pst_abs K s i))"
    by (simp_all add: pst_expire_old_def xs(1))
  have "msg_key i \<in> fst ` set xs" if "pst_abs K s i = Some p" for i p
    using that xs(3) by (force simp: pst_abs_def bind_eq_Some_conv image_iff)
  then show "pst_abs K (snd (pst_expire_old K ck ttl s)) =
      (\<lambda>i. map_option (\<lambda>p. if overdue ck ttl p then expired_version ck p else p) (pst_abs K s i))"
    unfolding f(2) by (auto simp: fun_eq_iff intro!: map_option_cong)
  show "pst_ok K (snd (pst_expire_old K ck ttl s))" by (rule f(1))
qed

lemma prune_entry:
  assumes "bk_dec_msg K v = Some p" "unat (pm_state p) < 6"
  shows "prunable K ck max_age (Some (k, v)) =
    (if outdated ck max_age p then Some (k, pm_id p, state_of_code (pm_state p)) else None)"
  using assms by (simp add: prunable_def outdated_def terminal_code_def state_of_code_def)

lemma prune_item_effect:
  assumes "backend_ok K" "pst_ok K s" "pst_abs K s i = Some p" "MessageId (pm_id p) = i" "unat (pm_state p) < 6"
  obtains s' where "prune_item K (msg_key i, pm_id p, state_of_code (pm_state p)) (n, s) = (n + 1, s')" "pst_ok K s'"
    "pst_abs K s' = (pst_abs K s)(i := None)"
    "\<forall>k. k \<noteq> msg_key i \<longrightarrow> kv_get (bk_part K) k (ps_messages s') = kv_get (bk_part K) k (ps_messages s)"
proof -
  have st: "pm_state p = state_code (state_of_code (pm_state p))" using assms(5) by (simp add: state_code_of_code)
  obtain q where q: "kv_remove (bk_part K) (msg_key i) (ps_messages (remove_state_index K (state_of_code (pm_state p)) i s)) = Some q"
    "pst_ok K ((remove_state_index K (state_of_code (pm_state p)) i s) \<lparr> ps_messages := q \<rparr>)"
    "pst_abs K ((remove_state_index K (state_of_code (pm_state p)) i s) \<lparr> ps_messages := q \<rparr>) = (pst_abs K s)(i := None)"
    "\<forall>k. kv_get (bk_part K) k q = (if k = msg_key i then None else kv_get (bk_part K) k (ps_messages s))"
    by (rule drop_effect [OF assms(1-3) st]) blast
  then show ?thesis
    using that [of "(remove_state_index K (state_of_code (pm_state p)) i s) \<lparr> ps_messages := q \<rparr>"] assms(4)
    by (simp add: prune_item_def Let_def)
qed

lemma prune_fold:
  assumes "backend_ok K"
  shows "pst_ok K s \<Longrightarrow> entries_of K xs s \<Longrightarrow>
    pst_ok K (snd (fold (prune_item K) (List.map_filter (prunable K ck max_age) (map Some xs)) (n, s))) \<and>
    pst_abs K (snd (fold (prune_item K) (List.map_filter (prunable K ck max_age) (map Some xs)) (n, s))) =
      (\<lambda>i. case pst_abs K s i of None \<Rightarrow> None
        | Some p \<Rightarrow> if msg_key i \<in> fst ` set xs \<and> outdated ck max_age p then None else Some p)"
proof (induction xs arbitrary: n s)
  case Nil
  then show ?case by (auto simp: List.map_filter_def fun_eq_iff split: option.splits)
next
  case (Cons e xs)
  obtain k v where e: "e = (k, v)" by (cases e)
  have g: "kv_get (bk_part K) k (ps_messages s) = Some v" using Cons.prems(2) e by (simp add: entries_of_def)
  obtain i p where i: "k = msg_key i" "bk_dec_msg K v = Some p" "MessageId (pm_id p) = i" "pst_abs K s i = Some p"
    "unat (pm_state p) < 6"
    by (rule entry_decodes [OF Cons.prems(1) g])
  show ?case
  proof (cases "outdated ck max_age p")
    case True
    obtain s' where s': "prune_item K (msg_key i, pm_id p, state_of_code (pm_state p)) (n, s) = (n + 1, s')" "pst_ok K s'"
      "pst_abs K s' = (pst_abs K s)(i := None)"
      "\<forall>k. k \<noteq> msg_key i \<longrightarrow> kv_get (bk_part K) k (ps_messages s') = kv_get (bk_part K) k (ps_messages s)"
      by (rule prune_item_effect [OF assms Cons.prems(1) i(4,3,5), where n = n])
    have tl: "entries_of K xs s'" "k \<notin> fst ` set xs"
      using entries_of_tl [OF Cons.prems(2) [unfolded e]] s'(4) i(1) by auto
    have l: "List.map_filter (prunable K ck max_age) (map Some (e # xs)) =
        (msg_key i, pm_id p, state_of_code (pm_state p)) # List.map_filter (prunable K ck max_age) (map Some xs)"
      using True prune_entry [OF i(2,5)] i(1) e by (simp add: List.map_filter_def)
    from Cons.IH [OF s'(2) tl(1), of "n + 1"] show ?thesis
      unfolding l using s'(1,3) e i True by (auto simp: fun_eq_iff split: option.splits)
  next
    case False
    have l: "List.map_filter (prunable K ck max_age) (map Some (e # xs)) = List.map_filter (prunable K ck max_age) (map Some xs)"
      using False prune_entry [OF i(2,5)] e by (simp add: List.map_filter_def)
    have "entries_of K xs s" using entries_of_tl(1) [OF Cons.prems(2) [unfolded e]] by simp
    from Cons.IH [OF Cons.prems(1) this, of n] show ?thesis
      unfolding l using e i False by (auto simp: fun_eq_iff split: option.splits)
  qed
qed

lemma prune_refines:
  assumes "backend_ok K" "pst_ok K s"
  shows "pst_abs K (snd (pst_prune_terminal K ck max_age s)) =
      (\<lambda>i. case pst_abs K s i of None \<Rightarrow> None | Some p \<Rightarrow> if outdated ck max_age p then None else Some p)"
    and "pst_ok K (snd (pst_prune_terminal K ck max_age s))"
proof -
  obtain xs where xs: "kv_iter (bk_part K) (ps_messages s) = map Some xs" "distinct_keys xs"
    "\<And>k v. (k, v) \<in> set xs \<longleftrightarrow> kv_get (bk_part K) k (ps_messages s) = Some v"
    by (rule part_iter [OF backend_okD(1) [OF assms(1)]]) blast
  have "entries_of K xs s" using xs(2,3) by (auto simp: entries_of_def)
  note f = prune_fold [OF assms this, of ck max_age 0]
  have "msg_key i \<in> fst ` set xs" if "pst_abs K s i = Some p" for i p
    using that xs(3) by (force simp: pst_abs_def bind_eq_Some_conv image_iff)
  with f show "pst_abs K (snd (pst_prune_terminal K ck max_age s)) =
      (\<lambda>i. case pst_abs K s i of None \<Rightarrow> None | Some p \<Rightarrow> if outdated ck max_age p then None else Some p)"
    unfolding pst_prune_terminal_def xs(1) by (auto simp: fun_eq_iff split: option.splits)
  show "pst_ok K (snd (pst_prune_terminal K ck max_age s))"
    unfolding pst_prune_terminal_def xs(1) using f by simp
qed

section \<open>The state index\<close>

definition load_entry :: "('p, 'q, 'b) backend \<Rightarrow> clock \<Rightarrow> ('p, 'q) pst \<Rightarrow> (string \<times> u8 list) option \<Rightarrow> stored_message option" where
  "load_entry K ck s item =
     (case item of None \<Rightarrow> None
      | Some (k, v) \<Rightarrow> if length v = 8 then load_message K ck (MessageId (from_be_bytes v)) s else None)"

lemma load_indexed_take:
  "length results \<le> limit \<Longrightarrow>
   load_indexed K ck limit s items results =
     results @ take (limit - length results) (List.map_filter (load_entry K ck s) items)"
proof (induction items arbitrary: results)
  case (Cons item items)
  show ?case
  proof (cases "limit \<le> length results")
    case False
    then obtain d where d: "limit - length results = Suc d" "limit - Suc (length results) = d"
      by (metis Suc_diff_Suc diff_Suc_Suc not_le diff_diff_left plus_1_eq_Suc add.commute)
    show ?thesis
    proof (cases "load_entry K ck s item")
      case None
      then show ?thesis
        using False Cons by (auto simp: load_entry_def List.map_filter_def split: option.splits if_splits)
    next
      case (Some m)
      then have "load_indexed K ck limit s (item # items) results = load_indexed K ck limit s items (results @ [m])"
        using False by (auto simp: load_entry_def split: option.splits if_splits)
      with Cons.IH [of "results @ [m]"] False d Some show ?thesis by (simp add: List.map_filter_def)
    qed
  qed (use Cons.prems in simp)
qed (simp add: List.map_filter_def)

lemma get_by_state_take:
  "get_by_state K ck st limit s =
     take limit (List.map_filter (load_entry K ck s) (kv_prefix (bk_index K) (state_prefix (state_code st)) (ps_by_state s)))"
  by (simp add: get_by_state_def load_indexed_take)

text \<open>The state index is exact: looking messages up by state returns, up to the limit, every stored
  message that is in the state, each once, and no other.\<close>

lemma by_state_exact:
  assumes "backend_ok K" "pst_ok K s"
  shows "\<exists>ps. distinct ps \<and> set ps = {p. \<exists>i. pst_abs K s i = Some p \<and> pm_state p = state_code st} \<and>
    get_by_state K ck st limit s = take limit (map (persisted_to_stored ck) ps)"
proof -
  let ?A = "pst_abs K s"
  obtain xs where xs: "distinct_keys xs" "\<And>k v. (k, v) \<in> set xs \<longleftrightarrow> kv_get (bk_index K) k (ps_by_state s) = Some v"
    "\<And>pre. kv_prefix (bk_index K) pre (ps_by_state s) = map Some (filter (\<lambda>e. starts_with (fst e) pre) xs)"
    by (rule part_iter [OF backend_okD(2) [OF assms(1)], of "ps_by_state s"]) blast
  have mem: "(k, v) \<in> set xs \<longleftrightarrow> indexed ?A k v" for k v
    using assms(2) xs(2) by (simp add: pst_ok_def index_ok_def)
  have keys: "keys_ok K s" using assms(2) by (simp add: pst_ok_def)
  define ys where "ys = filter (\<lambda>e. starts_with (fst e) (state_prefix (state_code st))) xs"
  define val where "val = (\<lambda>e :: string \<times> u8 list. the (?A (MessageId (from_be_bytes (snd e)))))"
  have ys: "\<exists>i p. e = (state_key (state_code st) i, to_be_bytes (as_u64 i)) \<and> ?A i = Some p \<and> pm_state p = state_code st \<and>
      val e = p \<and> load_entry K ck s (Some e) = Some (persisted_to_stored ck p)"
    if "e \<in> set ys" for e
  proof -
    obtain k v where e: "e = (k, v)" by (cases e)
    with that mem obtain i p where "?A i = Some p" "k = state_key (pm_state p) i" "v = to_be_bytes (as_u64 i)"
      "starts_with k (state_prefix (state_code st))" by (auto simp: ys_def indexed_def)
    then show ?thesis using e by (auto simp: state_prefix_of_key val_def load_entry_def load_message_abs)
  qed
  have "load_entry K ck s (Some e) = Some (persisted_to_stored ck (val e))" if "e \<in> set ys" for e
    using ys [OF that] by blast
  then have "List.map_filter (load_entry K ck s) (map Some ys) = map (\<lambda>x. persisted_to_stored ck (val (the x))) (map Some ys)"
    by (intro map_filter_all) auto
  then have l: "List.map_filter (load_entry K ck s) (map Some ys) = map (persisted_to_stored ck) (map val ys)" by simp
  have "inj_on val (set ys)"
  proof (rule inj_onI)
    fix a b assume ab: "a \<in> set ys" "b \<in> set ys" "val a = val b"
    from ys [OF ab(1)] ys [OF ab(2)] ab(3) abs_code [OF keys] show "a = b"
      by (metis message_id.expand)
  qed
  moreover have "distinct ys" using xs(1) by (auto simp: ys_def distinct_map intro: distinct_filter)
  ultimately have "distinct (map val ys)" by (simp add: distinct_map)
  moreover have "set (map val ys) = {p. \<exists>i. ?A i = Some p \<and> pm_state p = state_code st}"
  proof -
    have "p \<in> val ` set ys" if "?A i = Some p" "pm_state p = state_code st" for i p
    proof
      show "(state_key (state_code st) i, to_be_bytes (as_u64 i)) \<in> set ys"
        using that by (auto simp: ys_def mem indexed_def state_prefix_of_key)
      show "p = val (state_key (state_code st) i, to_be_bytes (as_u64 i))" using that by (simp add: val_def)
    qed
    with ys show ?thesis by fastforce
  qed
  moreover have "get_by_state K ck st limit s = take limit (map (persisted_to_stored ck) (map val ys))"
    by (simp only: get_by_state_take xs(3) l flip: ys_def)
  ultimately show ?thesis by blast
qed

section \<open>Sequences of operations\<close>

datatype pst_op =
    OpStore stored_message | OpUpdate message_id "stored_message \<Rightarrow> stored_message" | OpDelete message_id
  | OpExpire duration | OpPrune duration

fun pst_apply :: "('p, 'q, 'b) backend \<Rightarrow> clock \<Rightarrow> pst_op \<Rightarrow> ('p, 'q) pst \<Rightarrow> ('p, 'q) pst" where
  "pst_apply K ck (OpStore m) s = snd (pst_store K ck m s)"
| "pst_apply K ck (OpUpdate i f) s = snd (pst_update K ck i f s)"
| "pst_apply K ck (OpDelete i) s = snd (pst_delete K ck i s)"
| "pst_apply K ck (OpExpire ttl) s = snd (pst_expire_old K ck ttl s)"
| "pst_apply K ck (OpPrune age) s = snd (pst_prune_terminal K ck age s)"

text \<open>The specification: the same operations on a map.\<close>

fun map_apply :: "clock \<Rightarrow> pst_op \<Rightarrow> message_map \<Rightarrow> message_map" where
  "map_apply ck (OpStore m) A = A(m_id m \<mapsto> persisted_of ck m)"
| "map_apply ck (OpUpdate i f) A =
     (case A i of None \<Rightarrow> A | Some p \<Rightarrow> A(i \<mapsto> persisted_of ck (f (persisted_to_stored ck p))))"
| "map_apply ck (OpDelete i) A = A(i := None)"
| "map_apply ck (OpExpire ttl) A =
     (\<lambda>i. map_option (\<lambda>p. if overdue ck ttl p then expired_version ck p else p) (A i))"
| "map_apply ck (OpPrune age) A =
     (\<lambda>i. case A i of None \<Rightarrow> None | Some p \<Rightarrow> if outdated ck age p then None else Some p)"

text \<open>A message is stored once, under a new id (every caller draws it from the counter), and updates
  keep the id.\<close>

fun op_allowed :: "pst_op \<Rightarrow> message_map \<Rightarrow> bool" where
  "op_allowed (OpStore m) A = (A (m_id m) = None)"
| "op_allowed (OpUpdate i f) A = (\<forall>m. m_id (f m) = m_id m)"
| "op_allowed _ A = True"

fun run_allowed :: "(clock \<times> pst_op) list \<Rightarrow> message_map \<Rightarrow> bool" where
  "run_allowed [] A = True"
| "run_allowed ((ck, op) # ops) A = (op_allowed op A \<and> run_allowed ops (map_apply ck op A))"

definition pst_run :: "('p, 'q, 'b) backend \<Rightarrow> (clock \<times> pst_op) list \<Rightarrow> ('p, 'q) pst \<Rightarrow> ('p, 'q) pst" where
  "pst_run K ops s = fold (\<lambda>(ck, op). pst_apply K ck op) ops s"

definition map_run :: "(clock \<times> pst_op) list \<Rightarrow> message_map \<Rightarrow> message_map" where
  "map_run ops A = fold (\<lambda>(ck, op). map_apply ck op) ops A"

lemma apply_refines:
  assumes "backend_ok K" "pst_ok K s" "op_allowed op (pst_abs K s)"
  shows "pst_abs K (pst_apply K ck op s) = map_apply ck op (pst_abs K s) \<and> pst_ok K (pst_apply K ck op s)"
proof (cases op)
  case (OpStore m)
  then have "\<And>p. pst_abs K s (m_id m) = Some p \<Longrightarrow> pm_state p = state_code (m_state m)" using assms(3) by simp
  from store_refines [OF assms(1,2) this] OpStore show ?thesis by simp
next
  case (OpUpdate i f)
  then have "\<And>m. m_id (f m) = m_id m" using assms(3) by simp
  from update_refines [OF assms(1,2) this] OpUpdate show ?thesis by simp
qed (simp_all add: delete_refines expire_refines prune_refines assms(1,2))


section \<open>Round trip\<close>

lemma restore_persisted:
  assumes "0 \<le> m_created_time m" "as_millis (nat (m_created_time m)) < 2 ^ 64" "as_secs (m_ttl m) < 2 ^ 64"
  shows "persisted_to_stored ck' (persisted_of ck m) =
    m \<lparr> m_ttl := from_secs (as_secs (m_ttl m)), m_created_at := ck_now ck',
        m_created_time := int (from_millis (as_millis (nat (m_created_time m)))),
        m_updated_at := ck_now ck', m_retry_at := None, m_events := [] \<rparr>"
  using assms by (simp add: persisted_to_stored_def persisted_of_def epoch_ms_def unat_of_nat_small)

text \<open>C18: what is stored can be read back.  A stored message is read back unchanged except for what the
  persisted form does not keep: its events and retry time are gone, the monotonic time stamps are the
  time of the read, the time to live is cut to seconds and the creation time to milliseconds.\<close>

theorem store_get_roundtrip:
  assumes "backend_ok K" "pst_ok K s" "pst_abs K s (m_id m) = None"
    and "0 \<le> m_created_time m" "as_millis (nat (m_created_time m)) < 2 ^ 64" "as_secs (m_ttl m) < 2 ^ 64"
  shows "pst_get K ck' (m_id m) (snd (pst_store K ck m s)) =
    Some (m \<lparr> m_ttl := from_secs (as_secs (m_ttl m)), m_created_at := ck_now ck',
        m_created_time := int (from_millis (as_millis (nat (m_created_time m)))),
        m_updated_at := ck_now ck', m_retry_at := None, m_events := [] \<rparr>)"
proof -
  have "\<And>p. pst_abs K s (m_id m) = Some p \<Longrightarrow> pm_state p = state_code (m_state m)" using assms(3) by simp
  from store_refines(1) [OF assms(1,2) this] show ?thesis
    using restore_persisted [OF assms(4-6)] by (simp add: pst_get_def load_message_abs)
qed

section \<open>Restart\<close>

lemma max_key_id_bound:
  "\<exists>r. max_key_id pre (map Some xs) mx = Some r \<and> mx \<le> r \<and>
     (\<forall>e \<in> set xs. \<forall>i. Option.bind (strip_prefix pre (fst e)) parse_u64 = Some i \<longrightarrow> i \<le> r) \<and>
     (r = mx \<or> (\<exists>e \<in> set xs. Option.bind (strip_prefix pre (fst e)) parse_u64 = Some r))"
proof (induction xs arbitrary: mx)
  case (Cons e xs)
  obtain k v where e: "e = (k, v)" by (cases e)
  define mx' where "mx' = (case Option.bind (strip_prefix pre k) parse_u64 of None \<Rightarrow> mx | Some i \<Rightarrow> max mx i)"
  obtain r where r: "max_key_id pre (map Some xs) mx' = Some r" "mx' \<le> r"
    "\<forall>e \<in> set xs. \<forall>i. Option.bind (strip_prefix pre (fst e)) parse_u64 = Some i \<longrightarrow> i \<le> r"
    "r = mx' \<or> (\<exists>e \<in> set xs. Option.bind (strip_prefix pre (fst e)) parse_u64 = Some r)"
    using Cons.IH [of mx'] by blast
  have "mx \<le> mx'" "\<forall>i. Option.bind (strip_prefix pre k) parse_u64 = Some i \<longrightarrow> i \<le> mx'"
    "mx' = mx \<or> Option.bind (strip_prefix pre k) parse_u64 = Some mx'"
    by (auto simp: mx'_def max_def split: option.splits)
  moreover have "max_key_id pre (map Some (e # xs)) mx = Some r" using r(1) e by (simp add: mx'_def)
  ultimately show ?case using r(2-4) e by (auto intro: order_trans)
qed simp

lemma msg_key_id: "Option.bind (strip_prefix ''msg_'' (msg_key i)) parse_u64 = Some (as_u64 i)"
  by (simp add: strip_prefix_def msg_key_def starts_with_code parse_u64_show)


lemma by_state_all:
  assumes "backend_ok K" "pst_ok K s" "finite {p. \<exists>i. pst_abs K s i = Some p}"
    "card {p. \<exists>i. pst_abs K s i = Some p} \<le> limit"
  shows "set (get_by_state K ck st limit s) =
    persisted_to_stored ck ` {p. \<exists>i. pst_abs K s i = Some p \<and> pm_state p = state_code st}"
proof -
  obtain ps where ps: "distinct ps" "set ps = {p. \<exists>i. pst_abs K s i = Some p \<and> pm_state p = state_code st}"
    "get_by_state K ck st limit s = take limit (map (persisted_to_stored ck) ps)"
    using by_state_exact [OF assms(1,2)] by blast
  have "card (set ps) \<le> card {p. \<exists>i. pst_abs K s i = Some p}" using ps(2) by (intro card_mono assms(3)) auto
  then have "length ps \<le> limit" using assms(4) distinct_card [OF ps(1)] by simp
  then show ?thesis using ps(2,3) by simp
qed

text \<open>C20: no live message is lost over a restart: the messages the storage hands out for recovery are
  exactly the stored ones that are pending, in flight or waiting for a retry.\<close>

theorem restart_recovers_live_messages:
  assumes "backend_ok K" "pst_ok K s" "finite {p. \<exists>i. pst_abs K s i = Some p}"
    "card {p. \<exists>i. pst_abs K s i = Some p} < 2 ^ 64"
  shows "set (pst_get_recoverable K ck s) = persisted_to_stored ck `
    {p. (\<exists>i. pst_abs K s i = Some p) \<and> \<not> is_terminal (state_of_code (pm_state p))}"
proof -
  have keys: "keys_ok K s" using assms(2) by (simp add: pst_ok_def)
  have "card {p. \<exists>i. pst_abs K s i = Some p} \<le> 2 ^ 64 - 1" using assms(4) by simp
  note all = by_state_all [OF assms(1-3) this, of ck]
  have live: "\<not> is_terminal (state_of_code (pm_state p)) \<longleftrightarrow> pm_state p \<in> {state_code Pending, state_code InFlight, state_code Retrying}"
    if "pst_abs K s i = Some p" for i p
  proof -
    have c: "state_code (state_of_code (pm_state p)) = pm_state p" using abs_code [OF keys that] by (simp add: state_code_of_code)
    show ?thesis by (subst (2) c [symmetric]) (cases "state_of_code (pm_state p)"; simp)
  qed
  show ?thesis
    unfolding pst_get_recoverable_def set_append all image_Un [symmetric]
    by (rule arg_cong [of _ _ "image (persisted_to_stored ck)"]) (use live in blast)
qed

section \<open>Retries\<close>

text \<open>the persistent storage ignores the delay of a retry.  The retry time is not persisted and
  \<^verbatim>\<open>get_ready_for_retry\<close> selects by state only, so a message scheduled for a later retry is
  handed out at once (as long as at most a thousand messages are retrying).\<close>

theorem persistent_ignores_backoff:
  assumes "backend_ok K" "pst_ok K s" "pst_abs K s (m_id m) = None"
    and "finite {p. \<exists>i. pst_abs K s i = Some p}" "card {p. \<exists>i. pst_abs K s i = Some p} < 1000"
  shows "\<exists>x \<in> set (pst_get_ready_for_retry K ck (snd (pst_store K ck (mark_retry ck delay code err m) s))). m_id x = m_id m"
proof -
  let ?m = "mark_retry ck delay code err m"
  let ?p = "persisted_of ck ?m"
  let ?s = "snd (pst_store K ck ?m s)"
  have m: "m_id ?m = m_id m" "m_state ?m = Retrying" by (simp_all add: msg_ops)
  have "\<And>p. pst_abs K s (m_id ?m) = Some p \<Longrightarrow> pm_state p = state_code (m_state ?m)" using assms(3) m(1) by simp
  note st = store_refines [OF assms(1,2) this]
  obtain ps where ps: "distinct ps" "set ps = {p. \<exists>i. pst_abs K ?s i = Some p \<and> pm_state p = state_code Retrying}"
    "get_by_state K ck Retrying 1000 ?s = take 1000 (map (persisted_to_stored ck) ps)"
    using by_state_exact [OF assms(1) st(2)] by blast
  have sub: "set ps \<subseteq> insert ?p {p. \<exists>i. pst_abs K s i = Some p}"
    using st(1) m(1) by (auto simp: ps(2) split: if_splits)
  have "length ps = card (set ps)" using distinct_card [OF ps(1)] by simp
  also have "\<dots> \<le> Suc (card {p. \<exists>i. pst_abs K s i = Some p})"
    using card_mono [OF _ sub] assms(4) by (simp add: card_insert_if split: if_splits)
  finally have "length ps \<le> 1000" using assms(5) by simp
  moreover have "?p \<in> set ps" using st(1) m by (auto simp: ps(2) intro!: exI [of _ "m_id m"])
  ultimately have "persisted_to_stored ck ?p \<in> set (pst_get_ready_for_retry K ck ?s)"
    by (simp add: pst_get_ready_for_retry_def ps(3))
  moreover have "m_id (persisted_to_stored ck ?p) = m_id m" using m(1) by (simp add: persisted_to_stored_def)
  ultimately show ?thesis by blast
qed

text \<open>The age of a message starts anew at every read, so a message read from the persistent storage is
  never past its time to live.\<close>

lemma loaded_never_expired: "pst_get K ck i s = Some m \<Longrightarrow> \<not> is_expired (ck_now ck) m"
  by (auto simp: pst_get_def load_message_abs is_expired_def persisted_to_stored_def elapsed_def)

section \<open>Witnesses\<close>

text \<open>A backend made of association lists, with the identity as codec.\<close>

datatype sample_blob =
    BlobMessage persisted_message | BlobDecision persisted_decision | BlobOutcome persisted_outcome
  | BlobTarget persisted_target_stats

definition sample_partition :: "((string \<times> 'v) list, 'v) partition" where
  "sample_partition =
     \<lparr> kv_insert = (\<lambda>k v p. Some (AList.update k v p)), kv_get = (\<lambda>k p. map_of p k),
       kv_remove = (\<lambda>k p. Some (AList.delete k p)), kv_iter = (\<lambda>p. map Some (AList.clearjunk p)),
       kv_prefix = (\<lambda>pre p. map Some (filter (\<lambda>e. starts_with (fst e) pre) (AList.clearjunk p))) \<rparr>"

definition sample_backend :: "((string \<times> sample_blob) list, (string \<times> u8 list) list, sample_blob) backend" where
  "sample_backend =
     \<lparr> bk_part = sample_partition, bk_index = sample_partition,
       bk_enc_msg = (\<lambda>p. Some (BlobMessage p)), bk_dec_msg = (\<lambda>b. case b of BlobMessage p \<Rightarrow> Some p | _ \<Rightarrow> None),
       bk_enc_decision = (\<lambda>p. Some (BlobDecision p)), bk_dec_decision = (\<lambda>b. case b of BlobDecision p \<Rightarrow> Some p | _ \<Rightarrow> None),
       bk_enc_outcome = (\<lambda>p. Some (BlobOutcome p)), bk_dec_outcome = (\<lambda>b. case b of BlobOutcome p \<Rightarrow> Some p | _ \<Rightarrow> None),
       bk_enc_target = (\<lambda>p. Some (BlobTarget p)), bk_dec_target = (\<lambda>b. case b of BlobTarget p \<Rightarrow> Some p | _ \<Rightarrow> None) \<rparr>"

definition empty_storage :: "((string \<times> sample_blob) list, (string \<times> u8 list) list) pst" where
  "empty_storage = \<lparr> ps_messages = [], ps_by_state = [], ps_decisions = [], ps_outcomes = [], ps_target_stats = [] \<rparr>"

lemma sample_partition_ok: "partition_ok sample_partition"
proof -
  have "\<exists>xs. map Some (AList.clearjunk p) = map Some xs \<and> distinct_keys xs \<and>
      (\<forall>k v. (k, v) \<in> set xs \<longleftrightarrow> map_of p k = Some v) \<and>
      (\<forall>pre. map Some (filter (\<lambda>e. starts_with (fst e) pre) (AList.clearjunk p)) =
         map Some (filter (\<lambda>e. starts_with (fst e) pre) xs))" for p :: "(string \<times> 'a) list"
    by (rule exI [of _ "AList.clearjunk p"])
       (use in_set_map_of_eq [of "AList.clearjunk p"] distinct_clearjunk [of p] in \<open>simp add: map_of_clearjunk\<close>)
  then show ?thesis
    by (simp add: partition_ok_def sample_partition_def map_of_update map_of_delete)
qed

lemma sample_backend_ok: "backend_ok sample_backend"
  by (simp add: backend_ok_def codec_ok_def sample_partition_ok sample_backend_def)

lemma empty_storage_abs [simp]: "pst_abs sample_backend empty_storage i = None"
  by (simp add: pst_abs_def sample_backend_def sample_partition_def empty_storage_def)

lemma empty_storage_ok: "pst_ok sample_backend empty_storage"
  by (simp add: pst_ok_def keys_ok_def index_ok_def indexed_def)
     (simp add: sample_backend_def sample_partition_def empty_storage_def)

definition sample_stored :: stored_message where
  "sample_stored = stored_message_new \<lparr> ck_now = 5, ck_wall = 5000000 \<rparr> (MessageId 7) ''100'' ''258'' [72] ''esme'' 1"

lemma sample_stored_fields [simp]: "m_id sample_stored = MessageId 7" "m_state sample_stored = Pending"
  "m_created_time sample_stored = 5000000" "m_ttl sample_stored = from_secs 3600"
  by (simp_all add: sample_stored_def stored_message_new_def)

theorem restart_recovers_live_messages_witness:
  "set (pst_get_recoverable sample_backend \<lparr> ck_now = 9, ck_wall = 9 \<rparr>
     (snd (pst_store sample_backend \<lparr> ck_now = 5, ck_wall = 5 \<rparr> sample_stored empty_storage))) =
   {persisted_to_stored \<lparr> ck_now = 9, ck_wall = 9 \<rparr> (persisted_of \<lparr> ck_now = 5, ck_wall = 5 \<rparr> sample_stored)}"
proof -
  let ?p = "persisted_of \<lparr> ck_now = 5, ck_wall = 5 \<rparr> sample_stored"
  let ?s = "snd (pst_store sample_backend \<lparr> ck_now = 5, ck_wall = 5 \<rparr> sample_stored empty_storage)"
  note st = store_refines [OF sample_backend_ok empty_storage_ok, of sample_stored "\<lparr> ck_now = 5, ck_wall = 5 \<rparr>"]
  have all: "{p. \<exists>i. pst_abs sample_backend ?s i = Some p} = {?p}" using st(1) by (auto split: if_splits)
  then have live: "{p. (\<exists>i. pst_abs sample_backend ?s i = Some p) \<and> \<not> is_terminal (state_of_code (pm_state p))} = {?p}"
    by (auto simp: state_of_code_def)
  show ?thesis
    using restart_recovers_live_messages [OF sample_backend_ok st(2), of "\<lparr> ck_now = 9, ck_wall = 9 \<rparr>"]
    unfolding all live by simp
qed


theorem store_get_roundtrip_witness:
  "pst_get sample_backend \<lparr> ck_now = 9, ck_wall = 9 \<rparr> (MessageId 7)
     (snd (pst_store sample_backend \<lparr> ck_now = 5, ck_wall = 5 \<rparr> sample_stored empty_storage)) =
   Some (sample_stored \<lparr> m_created_at := 9, m_updated_at := 9, m_events := [] \<rparr>)"
  using store_get_roundtrip [OF sample_backend_ok empty_storage_ok, of sample_stored
      "\<lparr> ck_now = 9, ck_wall = 9 \<rparr>" "\<lparr> ck_now = 5, ck_wall = 5 \<rparr>"]
  by (simp add: as_millis_def as_secs_def from_secs_def from_millis_def sample_stored_def stored_message_new_def)


theorem persistent_ignores_backoff_witness:
  "\<exists>x \<in> set (pst_get_ready_for_retry sample_backend \<lparr> ck_now = 5, ck_wall = 5 \<rparr>
     (snd (pst_store sample_backend \<lparr> ck_now = 5, ck_wall = 5 \<rparr>
       (mark_retry \<lparr> ck_now = 5, ck_wall = 5 \<rparr> (from_secs 300) None ''down'' sample_stored) empty_storage))).
   m_id x = MessageId 7"
  using persistent_ignores_backoff [OF sample_backend_ok empty_storage_ok, of sample_stored] by simp

end
