(* ===== verification/StorageEquiv.thy ===== *)
theory StorageEquiv
  imports PersistentRefine
begin

text \<open>
  The two implementations of the \<^verbatim>\<open>Storage\<close> trait keep the same feedback: after the same
  decisions and outcomes the in-memory storage (\<^verbatim>\<open>src/src/store/memory.rs\<close>) and the persistent
  one (\<^verbatim>\<open>src/src/store/persistent.rs\<close>) report the same counts and the same moving average for
  every target.  The averages are not compared: one divides a sum, the other updates a running
  quotient.
\<close>

datatype fb_op = FbDecide decision | FbOutcome outcome

fun mem_fb_apply :: "clock \<Rightarrow> fb_op \<Rightarrow> feedback_storage \<Rightarrow> feedback_storage" where
  "mem_fb_apply ck (FbDecide d) s = snd (record_decision (ck_now ck) d s)"
| "mem_fb_apply ck (FbOutcome o1) s = record_outcome (ck_now ck) o1 s"

fun pst_fb_apply :: "('p, 'q, 'b) backend \<Rightarrow> clock \<Rightarrow> fb_op \<Rightarrow> ('p, 'q) pst \<Rightarrow> ('p, 'q) pst" where
  "pst_fb_apply K ck (FbDecide d) s = snd (pst_record_decision K ck d s)"
| "pst_fb_apply K ck (FbOutcome o1) s = pst_record_outcome K ck o1 s"

definition same_counts :: "target_stats \<Rightarrow> target_stats \<Rightarrow> bool" where
  "same_counts a b =
     (tt_name a = tt_name b \<and> tt_total a = tt_total b \<and> tt_successes a = tt_successes b \<and>
      tt_failures a = tt_failures b \<and> tt_ema_latency_us a = tt_ema_latency_us b)"

definition decision_target :: "('p, 'q, 'b) backend \<Rightarrow> decision_id \<Rightarrow> ('p, 'q) pst \<Rightarrow> string option" where
  "decision_target K i g =
     map_option pd_target (Option.bind (kv_get (bk_part K) (dec_key i) (ps_decisions g)) (bk_dec_decision K))"

definition fb_rel :: "('p, 'q, 'b) backend \<Rightarrow> feedback_storage \<Rightarrow> ('p, 'q) pst \<Rightarrow> bool" where
  "fb_rel K s g =
     ((\<forall>i. map_option d_target (map_of (fb_decisions s) i) = decision_target K i g) \<and>
      (\<forall>i d. map_of (fb_decisions s) i = Some d \<longrightarrow> map_of (fb_target_stats s) (d_target d) \<noteq> None) \<and>
      (\<forall>t. same_counts (target_stats_of t s) (pst_target_stats K t g)))"

lemma dec_key_inject [simp]: "dec_key i = dec_key j \<longleftrightarrow> i = j"
  by (cases i; cases j) (simp add: dec_key_def word_unat_eq_iff)

section \<open>The persistent side\<close>

lemma pst_decide:
  assumes "backend_ok K"
  shows "decision_target K i (snd (pst_record_decision K ck d g)) = (if i = d_id d then Some (d_target d) else decision_target K i g)"
    and "pst_target_stats K t (snd (pst_record_decision K ck d g)) = pst_target_stats K t g"
proof -
  obtain v where v: "bk_enc_decision K (persisted_decision_of ck d) = Some v"
    "bk_dec_decision K v = Some (persisted_decision_of ck d)" using backend_okD(4) [OF assms] by blast
  obtain p where p: "kv_insert (bk_part K) (dec_key (d_id d)) v (ps_decisions g) = Some p"
    "\<And>j. kv_get (bk_part K) j p = (if j = dec_key (d_id d) then Some v else kv_get (bk_part K) j (ps_decisions g))"
    by (rule part_insert [OF backend_okD(1) [OF assms]]) blast
  have r: "snd (pst_record_decision K ck d g) = g \<lparr> ps_decisions := p \<rparr>"
    using v p by (simp add: pst_record_decision_def)
  show "decision_target K i (snd (pst_record_decision K ck d g)) = (if i = d_id d then Some (d_target d) else decision_target K i g)"
    unfolding r using v(2) p(2) by (simp add: decision_target_def persisted_decision_of_def)
  show "pst_target_stats K t (snd (pst_record_decision K ck d g)) = pst_target_stats K t g"
    unfolding r by (simp add: pst_target_stats_def load_target_stats_def)
qed

lemma outcome_stored_quiet:
  "decision_target K i (record_persisted_outcome K ck o1 g) = decision_target K i g"
  "load_target_stats K t (record_persisted_outcome K ck o1 g) = load_target_stats K t g"
  "ps_decisions (record_persisted_outcome K ck o1 g) = ps_decisions g"
  by (simp_all add: record_persisted_outcome_def decision_target_def load_target_stats_def split: option.splits)

lemma persist_target:
  assumes "backend_ok K"
  shows "load_target_stats K t (persist_target_stats K ck x g) =
      (if t = tt_name x then x \<lparr> tt_last_update := None \<rparr> else load_target_stats K t g)"
    and "ps_decisions (persist_target_stats K ck x g) = ps_decisions g"
proof -
  define y where "y = \<lparr> pt_name = tt_name x, pt_total = tt_total x, pt_successes = tt_successes x, pt_failures = tt_failures x,
     pt_avg_latency_us = tt_avg_latency_us x, pt_ema_latency_us = tt_ema_latency_us x,
     pt_last_update_epoch_ms = now_epoch_ms ck \<rparr>"
  obtain v where v: "bk_enc_target K y = Some v" "bk_dec_target K v = Some y" using backend_okD(6) [OF assms] by blast
  obtain p where p: "kv_insert (bk_part K) (''target_'' @ tt_name x) v (ps_target_stats g) = Some p"
    "\<And>j. kv_get (bk_part K) j p = (if j = ''target_'' @ tt_name x then Some v else kv_get (bk_part K) j (ps_target_stats g))"
    by (rule part_insert [OF backend_okD(1) [OF assms]]) blast
  have r: "persist_target_stats K ck x g = g \<lparr> ps_target_stats := p \<rparr>"
    using v(1) p(1) by (simp add: persist_target_stats_def y_def)
  show "ps_decisions (persist_target_stats K ck x g) = ps_decisions g" unfolding r by simp
  show "load_target_stats K t (persist_target_stats K ck x g) =
      (if t = tt_name x then x \<lparr> tt_last_update := None \<rparr> else load_target_stats K t g)"
    unfolding r using v(2) p(2) by (simp add: load_target_stats_def stats_of_persisted_def y_def)
qed

lemma pst_outcome:
  assumes "backend_ok K" "\<And>t. tt_name (load_target_stats K t g) = t"
  shows "decision_target K i (pst_record_outcome K ck o1 g) = decision_target K i g"
    and "load_target_stats K t (pst_record_outcome K ck o1 g) =
      (if decision_target K (o_decision_id o1) g = Some t
       then (count_outcome (o_success o1) (of_nat (as_micros (o_latency o1))) (load_target_stats K t g)) \<lparr> tt_last_update := None \<rparr>
       else load_target_stats K t g)"
proof -
  let ?g1 = "record_persisted_outcome K ck o1 g"
  let ?c = "\<lambda>t. count_outcome (o_success o1) (of_nat (as_micros (o_latency o1))) (load_target_stats K t g)"
  have name: "tt_name (?c t) = t" for t using assms(2) by (simp add: count_outcome_def Let_def)
  have r: "pst_record_outcome K ck o1 g = (case decision_target K (o_decision_id o1) g of
      None \<Rightarrow> ?g1 | Some t \<Rightarrow> persist_target_stats K ck (?c t) ?g1)"
    by (simp add: pst_record_outcome_def decision_target_def Let_def outcome_stored_quiet split: option.splits)
  show "decision_target K i (pst_record_outcome K ck o1 g) = decision_target K i g"
    unfolding r by (simp add: decision_target_def outcome_stored_quiet(3) persist_target(2) [OF assms(1)] split: option.splits)
  show "load_target_stats K t (pst_record_outcome K ck o1 g) =
      (if decision_target K (o_decision_id o1) g = Some t then (?c t) \<lparr> tt_last_update := None \<rparr> else load_target_stats K t g)"
    unfolding r by (simp add: outcome_stored_quiet persist_target(1) [OF assms(1)] name split: option.splits)
qed

section \<open>The in-memory side\<close>

lemma mem_decide:
  assumes "length (fb_decisions s) < MAX_DECISIONS"
  shows "map_of (fb_decisions (snd (record_decision now d s))) i = (if i = d_id d then Some d else map_of (fb_decisions s) i)"
    and "same_counts (target_stats_of t (snd (record_decision now d s))) (target_stats_of t s)"
    and "map_of (fb_target_stats (snd (record_decision now d s))) t = None \<longleftrightarrow> t \<noteq> d_target d \<and> map_of (fb_target_stats s) t = None"
    and "length (fb_decisions (snd (record_decision now d s))) \<le> Suc (length (fb_decisions s))"
  using assms length_update_le [of "d_id d" d "fb_decisions s"]
  by (auto simp: record_decision_def prune_decisions_if_needed_def map_of_update same_counts_def target_stats_of_def
      map_of_upsert target_stats_internal_default_def split: option.splits)

lemma mem_outcome:
  assumes "\<And>i d. map_of (fb_decisions s) i = Some d \<Longrightarrow> map_of (fb_target_stats s) (d_target d) \<noteq> None"
  shows "fb_decisions (record_outcome now o1 s) = fb_decisions s"
    and "map_of (fb_target_stats (record_outcome now o1 s)) t = None \<longleftrightarrow> map_of (fb_target_stats s) t = None"
    and "same_counts (target_stats_of t (record_outcome now o1 s))
      (if map_option d_target (map_of (fb_decisions s) (o_decision_id o1)) = Some t
       then count_outcome (o_success o1) (of_nat (as_micros (o_latency o1))) (target_stats_of t s) else target_stats_of t s)"
proof -
  show "fb_decisions (record_outcome now o1 s) = fb_decisions s"
    by (simp add: record_outcome_def Let_def split: option.splits)
  show "map_of (fb_target_stats (record_outcome now o1 s)) t = None \<longleftrightarrow> map_of (fb_target_stats s) t = None"
    by (simp add: record_outcome_def Let_def map_of_modify split: option.splits)
  show "same_counts (target_stats_of t (record_outcome now o1 s))
      (if map_option d_target (map_of (fb_decisions s) (o_decision_id o1)) = Some t
       then count_outcome (o_success o1) (of_nat (as_micros (o_latency o1))) (target_stats_of t s) else target_stats_of t s)"
  proof (cases "map_of (fb_decisions s) (o_decision_id o1)")
    case None
    then show ?thesis by (simp add: record_outcome_def same_counts_def)
  next
    case (Some d)
    with assms obtain x where "map_of (fb_target_stats s) (d_target d) = Some x" by blast
    with Some show ?thesis
      by (auto simp: record_outcome_def Let_def map_of_modify target_stats_of_def same_counts_def count_outcome_def
          target_outcome_def ema_update_def split: option.splits)
  qed
qed

section \<open>Equivalence\<close>

lemma same_counts_trans: "same_counts a b \<Longrightarrow> same_counts b c \<Longrightarrow> same_counts a c"
  by (simp add: same_counts_def)

lemma same_counts_count:
  "same_counts a b \<Longrightarrow> same_counts (count_outcome ok l a) ((count_outcome ok l b) \<lparr> tt_last_update := x \<rparr>)"
  by (simp add: same_counts_def count_outcome_def Let_def)

lemma fb_rel_names: "fb_rel K s g \<Longrightarrow> tt_name (load_target_stats K t g) = t"
  by (auto simp: fb_rel_def same_counts_def pst_target_stats_def target_stats_of_def dest!: spec [of _ t]
      split: option.splits)

lemma fb_apply_rel:
  assumes "backend_ok K" "fb_rel K s g" "length (fb_decisions s) < MAX_DECISIONS"
  shows "fb_rel K (mem_fb_apply ck op s) (pst_fb_apply K ck op g)"
    and "length (fb_decisions (mem_fb_apply ck op s)) \<le> Suc (length (fb_decisions s))"
proof -
  note rel = assms(2) [unfolded fb_rel_def]
  have "fb_rel K (mem_fb_apply ck op s) (pst_fb_apply K ck op g) \<and>
    length (fb_decisions (mem_fb_apply ck op s)) \<le> Suc (length (fb_decisions s))"
  proof (cases op)
    case (FbDecide d)
    have "same_counts (target_stats_of t (snd (record_decision (ck_now ck) d s))) (pst_target_stats K t (snd (pst_record_decision K ck d g)))" for t
      using mem_decide(2) [OF assms(3), of t "ck_now ck" d] rel pst_decide(2) [OF assms(1), of t ck d g]
      by (auto intro: same_counts_trans)
    then show ?thesis
      using FbDecide rel mem_decide(1,3,4) [OF assms(3), where now = "ck_now ck" and d = d]
      by (simp add: fb_rel_def pst_decide(1) [OF assms(1)])
  next
    case (FbOutcome o1)
    have t: "\<And>i d. map_of (fb_decisions s) i = Some d \<Longrightarrow> map_of (fb_target_stats s) (d_target d) \<noteq> None" using rel by blast
    have n: "\<And>t. tt_name (load_target_stats K t g) = t" using fb_rel_names [OF assms(2)] by simp
    have "same_counts (target_stats_of t (record_outcome (ck_now ck) o1 s)) (pst_target_stats K t (pst_record_outcome K ck o1 g))" for t
      using rel [THEN conjunct1, rule_format, of "o_decision_id o1"] rel
      by (auto simp: pst_target_stats_def pst_outcome(2) [OF assms(1) n]
          intro!: same_counts_trans [OF mem_outcome(3) [OF t]] same_counts_count)
    then show ?thesis
      using FbOutcome rel by (simp add: fb_rel_def pst_outcome(1) [OF assms(1) n] mem_outcome(1,2) [OF t])
  qed
  then show "fb_rel K (mem_fb_apply ck op s) (pst_fb_apply K ck op g)"
    "length (fb_decisions (mem_fb_apply ck op s)) \<le> Suc (length (fb_decisions s))" by blast+
qed

lemma fb_run_rel:
  assumes "backend_ok K"
  shows "fb_rel K s g \<Longrightarrow> length (fb_decisions s) + length ops \<le> MAX_DECISIONS \<Longrightarrow>
    fb_rel K (fold (\<lambda>(ck, op). mem_fb_apply ck op) ops s) (fold (\<lambda>(ck, op). pst_fb_apply K ck op) ops g)"
proof (induction ops arbitrary: s g)
  case (Cons e ops)
  obtain ck op where e: "e = (ck, op)" by (cases e)
  have "length (fb_decisions s) < MAX_DECISIONS" using Cons.prems(2) by simp
  note step = fb_apply_rel [OF assms Cons.prems(1) this, of ck op]
  show ?case using Cons.IH [OF step(1)] step(2) Cons.prems(2) e by simp
qed simp


section \<open>Witness\<close>

definition sample_decision :: decision where
  "sample_decision = decision_route (DecisionId 1) 0 ''mno'' [] (decision_context_new ''258'')"


end
