(* ===== verification/Cdr.thy ===== *)
theory Cdr
  imports Decimal
begin

text \<open>
  Call detail records (\<^verbatim>\<open>src/src/cdr/types.rs\<close>), their writers
  (\<^verbatim>\<open>src/src/cdr/writer.rs\<close>) and the processor (\<^verbatim>\<open>src/src/cdr/mod.rs\<close>).  Time stamps and dates
  are the texts the \<^verbatim>\<open>chrono\<close> crate prints; the JSON printer is an argument.  Amounts are 64-bit words read as
  signed numbers.  What a buffered file has already handed to the operating system is an argument of a write.

  A CSV line is shown to be read back by a parser of quoted CSV, the file writer to keep every record in order, and
  the memory writer to hold exactly the most recent records.
\<close>

section \<open>Records (cdr/types.rs)\<close>

datatype cdr_type = CdrSubmit | CdrDelivery | CdrMobileOriginated | CdrQuery

record delivery_info =
  di_submit_date :: "string option"
  di_done_date :: "string option"
  di_delivery_latency_secs :: "u64 option"
  di_error_code :: "u32 option"
  di_error_text :: "string option"

record cdr =
  cdr_cdr_type :: cdr_type
  cdr_message_id :: string
  cdr_smsc_message_id :: "string option"
  cdr_timestamp :: string
  cdr_esme_id :: string
  cdr_source_addr :: string
  cdr_dest_addr :: string
  cdr_content :: "string option"
  cdr_message_length :: u32
  cdr_segments :: u32
  cdr_data_coding :: u8
  cdr_esm_class :: u8
  cdr_route :: "string option"
  cdr_endpoint :: "string option"
  cdr_delivery_status :: "string option"
  cdr_delivery_info :: "delivery_info option"
  cdr_status_code :: u32
  cdr_status_message :: "string option"
  cdr_latency_ms :: "u64 option"
  cdr_cost :: "i64 option"
  cdr_revenue :: "i64 option"
  cdr_currency :: "string option"
  cdr_country_code :: "string option"
  cdr_network :: "string option"
  cdr_mcc :: "string option"
  cdr_mnc :: "string option"
  cdr_ported :: "bool option"
  cdr_firewall_result :: "string option"
  cdr_firewall_rule :: "string option"
  cdr_rate_limited :: "bool option"
  cdr_retry_count :: u32
  cdr_listener :: "string option"
  cdr_connection_id :: "u64 option"
  cdr_client_ip :: "string option"
  cdr_tls :: bool
  cdr_smpp_version :: "string option"
  cdr_custom :: "(string, string) alist"

definition cdr_submit :: "string \<Rightarrow> string \<Rightarrow> string \<Rightarrow> string \<Rightarrow> string \<Rightarrow> cdr" where
  "cdr_submit now message_id esme_id source_addr dest_addr =
     \<lparr> cdr_cdr_type = CdrSubmit, cdr_message_id = message_id, cdr_smsc_message_id = None, cdr_timestamp = now,
       cdr_esme_id = esme_id, cdr_source_addr = source_addr, cdr_dest_addr = dest_addr, cdr_content = None,
       cdr_message_length = 0, cdr_segments = 1, cdr_data_coding = 0, cdr_esm_class = 0, cdr_route = None,
       cdr_endpoint = None, cdr_delivery_status = None, cdr_delivery_info = None, cdr_status_code = 0,
       cdr_status_message = None, cdr_latency_ms = None, cdr_cost = None, cdr_revenue = None, cdr_currency = None,
       cdr_country_code = None, cdr_network = None, cdr_mcc = None, cdr_mnc = None, cdr_ported = None,
       cdr_firewall_result = None, cdr_firewall_rule = None, cdr_rate_limited = None, cdr_retry_count = 0,
       cdr_listener = None, cdr_connection_id = None, cdr_client_ip = None, cdr_tls = False, cdr_smpp_version = None,
       cdr_custom = [] \<rparr>"

definition cdr_delivery :: "string \<Rightarrow> string \<Rightarrow> string \<Rightarrow> string \<Rightarrow> cdr" where
  "cdr_delivery now message_id smsc_message_id status =
     (cdr_submit now message_id [] [] []) \<lparr> cdr_cdr_type := CdrDelivery,
        cdr_smsc_message_id := Some smsc_message_id, cdr_delivery_status := Some status \<rparr>"

text \<open>Strings are UTF-8 bytes; slicing inside a character panics, which is \<open>None\<close>.\<close>

definition is_char_boundary :: "string \<Rightarrow> nat \<Rightarrow> bool" where
  "is_char_boundary s i =
     (i = length s \<or> (i < length s \<and> \<not> (128 \<le> (of_char (s ! i) :: nat) \<and> (of_char (s ! i) :: nat) < 192)))"

definition with_content :: "string \<Rightarrow> nat option \<Rightarrow> cdr \<Rightarrow> cdr option" where
  "with_content content max_len c0 =
     (let c = c0 \<lparr> cdr_message_length := of_nat (length content) \<rparr> in
      case max_len of
        None \<Rightarrow> Some (c \<lparr> cdr_content := Some content \<rparr>)
      | Some m \<Rightarrow>
          if m < length content then
            (if is_char_boundary content m then Some (c \<lparr> cdr_content := Some (take m content @ ''...'') \<rparr>) else None)
          else Some (c \<lparr> cdr_content := Some content \<rparr>))"

definition with_route :: "string \<Rightarrow> string option \<Rightarrow> cdr \<Rightarrow> cdr" where
  "with_route route endpoint c = c \<lparr> cdr_route := Some route, cdr_endpoint := endpoint \<rparr>"

definition with_pricing :: "i64 \<Rightarrow> i64 \<Rightarrow> string \<Rightarrow> cdr \<Rightarrow> cdr" where
  "with_pricing cost revenue currency c =
     c \<lparr> cdr_cost := Some cost, cdr_revenue := Some revenue, cdr_currency := Some currency \<rparr>"

definition with_network :: "string \<Rightarrow> string \<Rightarrow> string \<Rightarrow> string \<Rightarrow> cdr \<Rightarrow> cdr" where
  "with_network country mcc mnc network c =
     c \<lparr> cdr_country_code := Some country, cdr_mcc := Some mcc, cdr_mnc := Some mnc, cdr_network := Some network \<rparr>"

definition with_latency :: "u64 \<Rightarrow> cdr \<Rightarrow> cdr" where
  "with_latency ms c = c \<lparr> cdr_latency_ms := Some ms \<rparr>"

definition with_status :: "u32 \<Rightarrow> string option \<Rightarrow> cdr \<Rightarrow> cdr" where
  "with_status code message c = c \<lparr> cdr_status_code := code, cdr_status_message := message \<rparr>"

definition with_custom :: "string \<Rightarrow> string \<Rightarrow> cdr \<Rightarrow> cdr" where
  "with_custom k v c = c \<lparr> cdr_custom := AList.update k v (cdr_custom c) \<rparr>"

definition margin :: "cdr \<Rightarrow> i64 option" where
  "margin c = (case (cdr_revenue c, cdr_cost c) of (Some r, Some k) \<Rightarrow> Some (r - k) | _ \<Rightarrow> None)"

fun cdr_type_name :: "cdr_type \<Rightarrow> string" where
  "cdr_type_name CdrSubmit = ''Submit''"
| "cdr_type_name CdrDelivery = ''Delivery''"
| "cdr_type_name CdrMobileOriginated = ''MobileOriginated''"
| "cdr_type_name CdrQuery = ''Query''"

definition show_i64 :: "i64 \<Rightarrow> string" where
  "show_i64 w = (if sint w < 0 then CHR ''-'' # show_nat (nat (- sint w)) else show_nat (nat (sint w)))"

definition or_empty :: "string option \<Rightarrow> string" where
  "or_empty x = (case x of None \<Rightarrow> [] | Some s \<Rightarrow> s)"

definition csv_fields :: "cdr \<Rightarrow> string list" where
  "csv_fields c =
     [cdr_type_name (cdr_cdr_type c), cdr_message_id c, or_empty (cdr_smsc_message_id c), cdr_timestamp c, cdr_esme_id c,
      cdr_source_addr c, cdr_dest_addr c, show_nat (unat (cdr_message_length c)), show_nat (unat (cdr_segments c)),
      or_empty (cdr_route c), or_empty (cdr_endpoint c), or_empty (cdr_delivery_status c),
      show_nat (unat (cdr_status_code c)), or_empty (map_option (\<lambda>l. show_nat (unat l)) (cdr_latency_ms c)),
      or_empty (map_option show_i64 (cdr_cost c)), or_empty (map_option show_i64 (cdr_revenue c)),
      or_empty (cdr_currency c), or_empty (cdr_country_code c), or_empty (cdr_network c)]"

abbreviation dquote :: char where
  "dquote \<equiv> CHR 0x22"

abbreviation newline :: char where
  "newline \<equiv> CHR 0x0A"

definition double_quotes :: "string \<Rightarrow> string" where
  "double_quotes f = concat (map (\<lambda>c. if c = dquote then [dquote, dquote] else [c]) f)"

definition csv_escape :: "string \<Rightarrow> string" where
  "csv_escape f =
     (if CHR '','' \<in> set f \<or> dquote \<in> set f \<or> newline \<in> set f then dquote # double_quotes f @ [dquote] else f)"

fun join_comma :: "string list \<Rightarrow> string" where
  "join_comma [] = []"
| "join_comma [f] = f"
| "join_comma (f # fs) = f @ CHR '','' # join_comma fs"

definition to_csv_line :: "cdr \<Rightarrow> string" where
  "to_csv_line c = join_comma (map csv_escape (csv_fields c))"

definition csv_header :: string where
  "csv_header =
     ''type,message_id,smsc_message_id,timestamp,esme_id,source_addr,dest_addr,message_length,segments,'' @
     ''route,endpoint,delivery_status,status_code,latency_ms,cost,revenue,currency,country_code,network''"

text \<open>\<open>parse_rfc3339\<close> is \<^verbatim>\<open>DateTime::parse_from_rfc3339\<close>, as an instant in UTC.\<close>

definition timestamp_datetime :: "(string \<Rightarrow> instant option) \<Rightarrow> cdr \<Rightarrow> instant option" where
  "timestamp_datetime parse_rfc3339 c = parse_rfc3339 (cdr_timestamp c)"

section \<open>Reading CSV back\<close>

text \<open>A reference parser for one CSV record: fields in quotes may hold commas, line breaks and doubled quotes.\<close>

fun csv_start :: "string \<Rightarrow> string list option"
  and csv_plain :: "string \<Rightarrow> string \<Rightarrow> string list option"
  and csv_quoted :: "string \<Rightarrow> string \<Rightarrow> string list option"
  and csv_closed :: "string \<Rightarrow> string \<Rightarrow> string list option" where
  "csv_start [] = Some [[]]"
| "csv_start (x # xs) =
     (if x = dquote then csv_quoted [] xs
      else if x = CHR '','' then map_option (Cons []) (csv_start xs)
      else csv_plain [x] xs)"
| "csv_plain acc [] = Some [acc]"
| "csv_plain acc (x # xs) =
     (if x = CHR '','' then map_option (Cons acc) (csv_start xs)
      else if x = dquote then None
      else csv_plain (acc @ [x]) xs)"
| "csv_quoted acc [] = None"
| "csv_quoted acc (x # xs) = (if x = dquote then csv_closed acc xs else csv_quoted (acc @ [x]) xs)"
| "csv_closed acc [] = Some [acc]"
| "csv_closed acc (x # xs) =
     (if x = dquote then csv_quoted (acc @ [dquote]) xs
      else if x = CHR '','' then map_option (Cons acc) (csv_start xs)
      else None)"

text \<open>What a parser does after a field: the end, or a comma and the next field.\<close>

definition csv_rest :: "string \<Rightarrow> string \<Rightarrow> string list option" where
  "csv_rest acc xs =
     (case xs of [] \<Rightarrow> Some [acc] | x # ys \<Rightarrow> if x = CHR '','' then map_option (Cons acc) (csv_start ys) else None)"

lemma csv_plain_append:
  "CHR '','' \<notin> set f \<Longrightarrow> dquote \<notin> set f \<Longrightarrow> (ys = [] \<or> hd ys = CHR '','') \<Longrightarrow>
     csv_plain acc (f @ ys) = csv_rest (acc @ f) ys"
  by (induction f arbitrary: acc) (auto simp: csv_rest_def split: list.splits)

lemma csv_quoted_append:
  "(ys = [] \<or> hd ys = CHR '','') \<Longrightarrow>
     csv_quoted acc (double_quotes f @ dquote # ys) = csv_rest (acc @ f) ys"
proof (induction f arbitrary: acc)
  case Nil
  then show ?case by (cases ys) (auto simp: double_quotes_def csv_rest_def)
next
  case (Cons x f)
  then show ?case by (auto simp: double_quotes_def)
qed

lemma csv_start_escape:
  assumes "ys = [] \<or> hd ys = CHR '',''"
  shows "csv_start (csv_escape f @ ys) = csv_rest f ys"
proof (cases "CHR '','' \<in> set f \<or> dquote \<in> set f \<or> newline \<in> set f")
  case True
  then show ?thesis using csv_quoted_append [OF assms, of "[]" f] by (simp add: csv_escape_def)
next
  case False
  then show ?thesis
  proof (cases f)
    case Nil
    then show ?thesis using assms by (cases ys) (auto simp: csv_escape_def csv_rest_def)
  next
    case (Cons x g)
    then show ?thesis using False csv_plain_append [of g ys "[x]"] assms by (auto simp: csv_escape_def)
  qed
qed

lemma csv_join: "fs \<noteq> [] \<Longrightarrow> csv_start (join_comma (map csv_escape fs)) = Some fs"
proof (induction fs rule: join_comma.induct)
  case (2 f)
  show ?case using csv_start_escape [of "[]" f] by (simp add: csv_rest_def)
next
  case (3 f g fs)
  then show ?case
    using csv_start_escape [of "CHR '','' # join_comma (map csv_escape (g # fs))" f] by (simp add: csv_rest_def)
qed simp


section \<open>Writers (cdr/writer.rs)\<close>

datatype cdr_error = CdrIo | CdrSerialization string | CdrUnavailable

datatype cdr_format = CdrJson | CdrCsv | CdrDelimited char

record cdr_config =
  cc_format :: cdr_format
  cc_include_content :: bool
  cc_max_content_length :: nat
  cc_rotate_daily :: bool
  cc_compress_rotated :: bool

definition cdr_config_default :: cdr_config where
  "cdr_config_default =
     \<lparr> cc_format = CdrJson, cc_include_content = False, cc_max_content_length = 50, cc_rotate_daily = True,
       cc_compress_rotated = False \<rparr>"

text \<open>An open file: its path, the text still in the buffer, its date and its number of records.\<close>

record current_file =
  cf_path :: string
  cf_buffer :: string
  cf_date :: string
  cf_records :: u64

record file_cdr_writer =
  fw_name :: string
  fw_base_path :: string
  fw_config :: cdr_config
  fw_current_file :: "current_file option"

type_synonym files = "(string, string) alist"

definition file_writer_new :: "string \<Rightarrow> string \<Rightarrow> cdr_config \<Rightarrow> file_cdr_writer" where
  "file_writer_new name base cfg =
     \<lparr> fw_name = name, fw_base_path = base, fw_config = cfg, fw_current_file = None \<rparr>"

text \<open>Dates are given as printed by \<^verbatim>\<open>%Y%m%d\<close>.\<close>

definition filename_for_date :: "file_cdr_writer \<Rightarrow> string \<Rightarrow> string" where
  "filename_for_date w date =
     ''cdr_'' @ date @ ''.'' @
     (case cc_format (fw_config w) of CdrJson \<Rightarrow> ''jsonl'' | CdrCsv \<Rightarrow> ''csv'' | CdrDelimited _ \<Rightarrow> ''txt'')"

fun cdr_type_code :: "cdr_type \<Rightarrow> nat" where
  "cdr_type_code CdrSubmit = 0"
| "cdr_type_code CdrDelivery = 1"
| "cdr_type_code CdrMobileOriginated = 2"
| "cdr_type_code CdrQuery = 3"

definition format_cdr :: "(cdr \<Rightarrow> string + string) \<Rightarrow> cdr_format \<Rightarrow> cdr \<Rightarrow> cdr_error + string" where
  "format_cdr to_json fmt c =
     (case fmt of
        CdrJson \<Rightarrow> (case to_json c of Inl e \<Rightarrow> Inl (CdrSerialization e) | Inr t \<Rightarrow> Inr t)
      | CdrCsv \<Rightarrow> Inr (to_csv_line c)
      | CdrDelimited d \<Rightarrow>
          Inr (cdr_timestamp c @ d # show_nat (cdr_type_code (cdr_cdr_type c)) @ d # cdr_message_id c @ d # cdr_esme_id c @
               d # show_nat (unat (cdr_status_code c))))"

text \<open>What the clock and the operating system do during a call; \<open>ci_spill\<close> is how much of the buffer is handed on
  by a write.\<close>

record cdr_io =
  ci_today :: string
  ci_flush_ok :: bool
  ci_open_ok :: bool
  ci_write_ok :: bool
  ci_spill :: nat

definition append_file :: "string \<Rightarrow> string \<Rightarrow> files \<Rightarrow> files" where
  "append_file p t fs = AList.update p ((case map_of fs p of None \<Rightarrow> [] | Some old \<Rightarrow> old) @ t) fs"

definition flush_buffer :: "current_file \<Rightarrow> files \<Rightarrow> current_file \<times> files" where
  "flush_buffer cf fs = (cf \<lparr> cf_buffer := [] \<rparr>, append_file (cf_path cf) (cf_buffer cf) fs)"

definition day_path :: "file_cdr_writer \<Rightarrow> string \<Rightarrow> string" where
  "day_path w date =
     (let b = fw_base_path w in
      b @ (if b = [] \<or> last b = CHR ''/'' then [] else ''/'') @ filename_for_date w date)"

definition open_day_file :: "cdr_io \<Rightarrow> file_cdr_writer \<times> files \<Rightarrow> (cdr_error + unit) \<times> file_cdr_writer \<times> files" where
  "open_day_file io s =
     (case s of (w, fs) \<Rightarrow>
        let path = day_path w (ci_today io) in
        if \<not> ci_open_ok io then (Inl CdrIo, w \<lparr> fw_current_file := None \<rparr>, fs)
        else (Inr (),
              w \<lparr> fw_current_file := Some \<lparr> cf_path = path,
                    cf_buffer = (if cc_format (fw_config w) = CdrCsv then csv_header @ [newline] else []),
                    cf_date = ci_today io, cf_records = 0 \<rparr> \<rparr>,
              append_file path [] fs))"

definition get_or_create_file ::
  "cdr_io \<Rightarrow> file_cdr_writer \<times> files \<Rightarrow> (cdr_error + unit) \<times> file_cdr_writer \<times> files" where
  "get_or_create_file io s =
     (case s of (w, fs) \<Rightarrow>
        case fw_current_file w of
          None \<Rightarrow> open_day_file io s
        | Some cf \<Rightarrow>
            if cc_rotate_daily (fw_config w) \<and> cf_date cf \<noteq> ci_today io then
              (if \<not> ci_flush_ok io then (Inl CdrIo, w \<lparr> fw_current_file := None \<rparr>, fs)
               else open_day_file io (w, snd (flush_buffer cf fs)))
            else (Inr (), s))"

text \<open>\<^verbatim>\<open>writeln!\<close> on the buffer, which may hand a prefix of its text on.\<close>

definition buffer_line :: "cdr_io \<Rightarrow> string \<Rightarrow> current_file \<Rightarrow> files \<Rightarrow> current_file \<times> files" where
  "buffer_line io line cf fs =
     (let b = cf_buffer cf @ line @ [newline] in
      (cf \<lparr> cf_buffer := drop (ci_spill io) b, cf_records := cf_records cf + 1 \<rparr>,
       append_file (cf_path cf) (take (ci_spill io) b) fs))"

definition file_writer_write ::
  "(cdr \<Rightarrow> string + string) \<Rightarrow> cdr_io \<Rightarrow> cdr \<Rightarrow> file_cdr_writer \<times> files \<Rightarrow>
   (cdr_error + unit) \<times> file_cdr_writer \<times> files" where
  "file_writer_write to_json io c s =
     (case get_or_create_file io s of
        (Inl e, s1) \<Rightarrow> (Inl e, s1)
      | (Inr _, w, fs) \<Rightarrow>
          (case format_cdr to_json (cc_format (fw_config w)) c of
             Inl e \<Rightarrow> (Inl e, w, fs)
           | Inr line \<Rightarrow>
               (case fw_current_file w of
                  None \<Rightarrow> (Inr (), w, fs)
                | Some cf \<Rightarrow>
                    if \<not> ci_write_ok io then (Inl CdrIo, w, fs)
                    else (case buffer_line io line cf fs of
                            (cf', fs') \<Rightarrow> (Inr (), w \<lparr> fw_current_file := Some cf' \<rparr>, fs')))))"

definition file_writer_flush ::
  "cdr_io \<Rightarrow> file_cdr_writer \<times> files \<Rightarrow> (cdr_error + unit) \<times> file_cdr_writer \<times> files" where
  "file_writer_flush io s =
     (case s of (w, fs) \<Rightarrow>
        case fw_current_file w of
          None \<Rightarrow> (Inr (), s)
        | Some cf \<Rightarrow>
            if \<not> ci_flush_ok io then (Inl CdrIo, s)
            else (case flush_buffer cf fs of (cf', fs') \<Rightarrow> (Inr (), w \<lparr> fw_current_file := Some cf' \<rparr>, fs')))"

record memory_cdr_writer =
  mw_name :: string
  mw_records :: "cdr list"
  mw_max_records :: nat

definition memory_writer_new :: "string \<Rightarrow> nat \<Rightarrow> memory_cdr_writer" where
  "memory_writer_new name m = \<lparr> mw_name = name, mw_records = [], mw_max_records = m \<rparr>"

definition recent :: "nat \<Rightarrow> memory_cdr_writer \<Rightarrow> cdr list" where
  "recent n w = take n (rev (mw_records w))"

definition by_esme :: "string \<Rightarrow> nat \<Rightarrow> memory_cdr_writer \<Rightarrow> cdr list" where
  "by_esme esme n w = take n (filter (\<lambda>c. cdr_esme_id c = esme) (rev (mw_records w)))"

definition in_range :: "(string \<Rightarrow> instant option) \<Rightarrow> instant \<Rightarrow> instant \<Rightarrow> memory_cdr_writer \<Rightarrow> cdr list" where
  "in_range parse_rfc3339 start end_time w =
     filter (\<lambda>c. case timestamp_datetime parse_rfc3339 c of None \<Rightarrow> False | Some t \<Rightarrow> start \<le> t \<and> t \<le> end_time)
       (mw_records w)"

record cdr_totals =
  tt_count :: u64
  tt_segments :: u64
  tt_cost :: i64
  tt_revenue :: i64
  tt_margin :: i64

definition add_totals :: "cdr \<Rightarrow> cdr_totals \<Rightarrow> cdr_totals" where
  "add_totals c t =
     t \<lparr> tt_count := tt_count t + 1, tt_segments := tt_segments t + ucast (cdr_segments c),
         tt_cost := tt_cost t + (case cdr_cost c of None \<Rightarrow> 0 | Some k \<Rightarrow> k),
         tt_revenue := tt_revenue t + (case cdr_revenue c of None \<Rightarrow> 0 | Some r \<Rightarrow> r) \<rparr>"

definition cdr_totals :: "memory_cdr_writer \<Rightarrow> cdr_totals" where
  "cdr_totals w =
     (let t = fold add_totals (mw_records w)
                \<lparr> tt_count = 0, tt_segments = 0, tt_cost = 0, tt_revenue = 0, tt_margin = 0 \<rparr>
      in t \<lparr> tt_margin := tt_revenue t - tt_cost t \<rparr>)"

definition memory_writer_clear :: "memory_cdr_writer \<Rightarrow> memory_cdr_writer" where
  "memory_writer_clear w = w \<lparr> mw_records := [] \<rparr>"

definition memory_writer_write :: "cdr \<Rightarrow> memory_cdr_writer \<Rightarrow> (cdr_error + unit) \<times> memory_cdr_writer" where
  "memory_writer_write c w =
     (let rs = (if mw_max_records w \<le> length (mw_records w) then tl (mw_records w) else mw_records w)
      in (Inr (), w \<lparr> mw_records := rs @ [c] \<rparr>))"

section \<open>Handle and processor (cdr/mod.rs)\<close>

record cdr_channel =
  ch_queue :: "cdr list"
  ch_receiver_alive :: bool

definition channel_capacity :: nat where
  "channel_capacity = 10000"

text \<open>A full channel or a stopped processor makes the record disappear with a log line.\<close>

definition try_submit :: "cdr \<Rightarrow> cdr_channel \<Rightarrow> cdr_channel" where
  "try_submit c ch =
     (if ch_receiver_alive ch \<and> length (ch_queue ch) < channel_capacity then ch \<lparr> ch_queue := ch_queue ch @ [c] \<rparr> else ch)"

text \<open>Errors of a writer are logged and the next writer is served.\<close>

definition process_cdr :: "('o \<Rightarrow> cdr \<Rightarrow> 'w \<Rightarrow> (cdr_error + unit) \<times> 'w) \<Rightarrow> 'o \<Rightarrow> cdr \<Rightarrow> 'w list \<Rightarrow> 'w list" where
  "process_cdr write io c ws = map (\<lambda>w. snd (write io c w)) ws"

definition processor_run ::
  "('o \<Rightarrow> cdr \<Rightarrow> 'w \<Rightarrow> (cdr_error + unit) \<times> 'w) \<Rightarrow> ('o \<times> cdr) list \<Rightarrow> 'w list \<Rightarrow> 'w list" where
  "processor_run write cs ws = fold (\<lambda>(io, c). process_cdr write io c) cs ws"

section \<open>What the writers keep\<close>

lemma memory_writer_snoc:
  "mw_records (fold (\<lambda>c w. snd (memory_writer_write c w)) cs (memory_writer_new name m)) =
     drop (length cs - max 1 m) cs \<and>
   mw_max_records (fold (\<lambda>c w. snd (memory_writer_write c w)) cs (memory_writer_new name m)) = m"
proof (induction cs rule: rev_induct)
  case (snoc c cs)
  let ?w = "fold (\<lambda>c w. snd (memory_writer_write c w)) cs (memory_writer_new name m)"
  have l: "length (mw_records ?w) = min (length cs) (max 1 m)" using snoc by auto
  show ?case
  proof (cases "m \<le> length (mw_records ?w)")
    case True
    then have m: "m \<le> min (length cs) (max 1 m)" using l by simp
    have "tl (drop (length cs - max 1 m) cs) = drop (Suc (length cs) - max 1 m) cs"
    proof (cases "max 1 m \<le> length cs")
      case True
      then show ?thesis by (simp add: Suc_diff_le drop_Suc tl_drop)
    next
      case False
      then have "cs = []" using m by (cases cs) auto
      then show ?thesis by simp
    qed
    then show ?thesis using True snoc l by (simp add: memory_writer_write_def)
  next
    case False
    then have "length cs < m" using l by auto
    then show ?thesis using False snoc by (simp add: memory_writer_write_def)
  qed
qed (simp add: memory_writer_new_def)

text \<open>The memory writer holds exactly the most recent records, as many as configured (and at least one).\<close>

theorem memory_writer_keeps_latest:
  "mw_records (fold (\<lambda>c w. snd (memory_writer_write c w)) cs (memory_writer_new name m)) = drop (length cs - max 1 m) cs"
  using memory_writer_snoc by blast

text \<open>The margin of the totals is the sum of the margins of priced records, with the same wrap-around.\<close>

lemma fold_totals:
  "tt_cost (fold add_totals cs t) = tt_cost t + sum_list (map (\<lambda>c. case cdr_cost c of None \<Rightarrow> 0 | Some k \<Rightarrow> k) cs)"
  "tt_revenue (fold add_totals cs t) = tt_revenue t + sum_list (map (\<lambda>c. case cdr_revenue c of None \<Rightarrow> 0 | Some k \<Rightarrow> k) cs)"
  "tt_count (fold add_totals cs t) = tt_count t + of_nat (length cs)"
  by (induction cs arbitrary: t) (simp_all add: add_totals_def algebra_simps)

theorem totals_margin:
  assumes "\<forall>c \<in> set (mw_records w). margin c \<noteq> None"
  shows "tt_margin (cdr_totals w) = sum_list (map (\<lambda>c. the (margin c)) (mw_records w))"
proof -
  have "sum_list (map (\<lambda>c. case cdr_revenue c of None \<Rightarrow> 0 | Some k \<Rightarrow> k) cs) -
        sum_list (map (\<lambda>c. case cdr_cost c of None \<Rightarrow> 0 | Some k \<Rightarrow> k) cs) = sum_list (map (\<lambda>c. the (margin c)) cs)"
    if "\<forall>c \<in> set cs. margin c \<noteq> None" for cs
    using that
  proof (induction cs)
    case (Cons c cs)
    then have "margin c \<noteq> None" by simp
    then obtain r k where "cdr_revenue c = Some r" "cdr_cost c = Some k"
      by (auto simp: margin_def split: option.splits)
    then show ?case using Cons by (simp add: margin_def algebra_simps)
  qed simp
  then show ?thesis using assms by (simp add: cdr_totals_def Let_def fold_totals)
qed

text \<open>The text of a file as far as it was written, in the file and in the buffer.\<close>

definition file_text :: "string \<Rightarrow> files \<Rightarrow> string" where
  "file_text p fs = (case map_of fs p of None \<Rightarrow> [] | Some t \<Rightarrow> t)"

lemma file_text_append: "file_text p (append_file q t fs) = (if p = q then file_text p fs @ t else file_text p fs)"
  by (simp add: file_text_def append_file_def update_conv')

lemma append_file_exists: "map_of (append_file p t fs) p = Some (file_text p fs @ t)"
  by (simp add: file_text_def append_file_def update_conv')

definition open_on :: "string \<Rightarrow> string \<Rightarrow> string \<Rightarrow> cdr_format \<Rightarrow> file_cdr_writer \<times> files \<Rightarrow> bool" where
  "open_on d p T fmt s =
     (\<exists>cf. fw_current_file (fst s) = Some cf \<and> cf_date cf = d \<and> cf_path cf = p \<and> cc_format (fw_config (fst s)) = fmt \<and>
        file_text p (snd s) @ cf_buffer cf = T)"

definition io_good :: "string \<Rightarrow> cdr_io \<Rightarrow> bool" where
  "io_good d io = (ci_today io = d \<and> ci_open_ok io \<and> ci_write_ok io \<and> ci_flush_ok io)"

lemma open_day_file_text:
  assumes "io_good d io"
  shows "fst (open_day_file io (w, fs)) = Inr () \<and>
    open_on d (day_path w d)
      (file_text (day_path w d) fs @ (if cc_format (fw_config w) = CdrCsv then csv_header @ [newline] else []))
      (cc_format (fw_config w)) (snd (open_day_file io (w, fs)))"
  using assms by (simp add: open_day_file_def open_on_def io_good_def Let_def file_text_append)

lemma write_line_text:
  assumes "open_on d p T fmt s" "io_good d io" "format_cdr j fmt c = Inr line"
  shows "fst (file_writer_write j io c s) = Inr () \<and>
    open_on d p (T @ line @ [newline]) fmt (snd (file_writer_write j io c s))"
proof -
  obtain w fs cf where s: "s = (w, fs)" "fw_current_file w = Some cf" "cf_date cf = d" "cf_path cf = p"
    "cc_format (fw_config w) = fmt" "file_text p fs @ cf_buffer cf = T"
    using assms(1) by (cases s) (auto simp: open_on_def)
  have g: "get_or_create_file io s = (Inr (), w, fs)"
    using s assms(2) by (simp add: get_or_create_file_def io_good_def)
  have t: "take n xs @ drop n xs = xs" for n and xs :: string by simp
  show ?thesis
    using s g assms(2,3)
    by (simp add: file_writer_write_def buffer_line_def io_good_def open_on_def Let_def file_text_append
        del: take_append drop_append)
qed

lemma writes_text:
  assumes "open_on d p T fmt s" "\<forall>(io, c) \<in> set xs. io_good d io \<and> (\<exists>l. format_cdr j fmt c = Inr l)"
  shows "open_on d p (T @ concat (map (\<lambda>(io, c). projr (format_cdr j fmt c) @ [newline]) xs)) fmt
    (fold (\<lambda>(io, c) s. snd (file_writer_write j io c s)) xs s)"
  using assms
proof (induction xs arbitrary: s T)
  case (Cons x xs)
  obtain io c where x: "x = (io, c)" by fastforce
  then obtain l where l: "io_good d io" "format_cdr j fmt c = Inr l" using Cons.prems by auto
  have "open_on d p (T @ l @ [newline]) fmt (snd (file_writer_write j io c s))"
    using write_line_text [OF Cons.prems(1) l] by blast
  then show ?case using Cons.IH Cons.prems(2) x l(2) by fastforce
qed simp

text \<open>The file writer loses no record: when writes of one day and the final flush succeed, however much the buffer was
  handed on in between, the file of the day is what it was before, the CSV header if the format has one, and one line
  per record in the order of writing.\<close>

theorem file_writer_complete:
  assumes w0_def: "w0 = file_writer_new name base cfg" and fmt_def: "fmt = cc_format cfg"
    and "xs \<noteq> []" "\<forall>(io, c) \<in> set xs. io_good d io \<and> (\<exists>l. format_cdr j fmt c = Inr l)" "ci_flush_ok io'"
  shows "map_of (snd (snd (file_writer_flush io' (fold (\<lambda>(io, c) s. snd (file_writer_write j io c s)) xs (w0, fs)))))
      (day_path w0 d) =
    Some (file_text (day_path w0 d) fs @ (if fmt = CdrCsv then csv_header @ [newline] else []) @
          concat (map (\<lambda>(io, c). projr (format_cdr j fmt c) @ [newline]) xs))"
proof -
  obtain io c ys where xs: "xs = (io, c) # ys" using assms(3) by (cases xs) auto
  have good: "io_good d io" using assms(4) xs by simp
  let ?p = "day_path w0 d" and ?h = "if fmt = CdrCsv then csv_header @ [newline] else []"
  define s1 where "s1 = snd (open_day_file io (w0, fs))"
  have o: "fst (open_day_file io (w0, fs)) = Inr ()" "open_on d ?p (file_text ?p fs @ ?h) fmt s1"
    using open_day_file_text [OF good, of w0 fs] by (simp_all add: s1_def w0_def fmt_def file_writer_new_def)
  have "get_or_create_file io (w0, fs) = open_day_file io (w0, fs)"
    by (simp add: get_or_create_file_def w0_def file_writer_new_def)
  moreover have "get_or_create_file io s1 = (Inr (), s1)"
    using o(2) good by (auto simp: get_or_create_file_def open_on_def io_good_def split: prod.split)
  ultimately have "get_or_create_file io (w0, fs) = get_or_create_file io s1"
    using o(1) by (metis prod.collapse s1_def)
  then have "file_writer_write j io c (w0, fs) = file_writer_write j io c s1"
    by (simp add: file_writer_write_def)
  then have "fold (\<lambda>(io, c) s. snd (file_writer_write j io c s)) xs (w0, fs) =
      fold (\<lambda>(io, c) s. snd (file_writer_write j io c s)) xs s1" using xs by simp
  moreover have "open_on d ?p ((file_text ?p fs @ ?h) @ concat (map (\<lambda>(io, c). projr (format_cdr j fmt c) @ [newline]) xs))
      fmt (fold (\<lambda>(io, c) s. snd (file_writer_write j io c s)) xs s1)"
    by (rule writes_text [OF o(2) assms(4)])
  ultimately show ?thesis
    using assms(5)
    by (auto simp: open_on_def file_writer_flush_def flush_buffer_def append_file_exists split: prod.splits)
qed

theorem file_writer_complete_witness:
  "let io = \<lparr> ci_today = ''20250101'', ci_flush_ok = True, ci_open_ok = True, ci_write_ok = True, ci_spill = 3 \<rparr>;
       w = file_writer_new ''w'' ''d'' (cdr_config_default \<lparr> cc_format := CdrDelimited CHR ''|'' \<rparr>);
       c = cdr_submit ''t'' ''m'' ''e'' [] []
   in map_of (snd (snd (file_writer_flush io (snd (file_writer_write (\<lambda>_. Inl []) io c (w, [])))))) (day_path w ''20250101'') =
      Some (''t|'' @ show_nat 0 @ ''|m|e|'' @ show_nat 0 @ [newline])"
  (is "let io = ?io; w = ?w; c = ?c in _")
proof -
  have "map_of (snd (snd (file_writer_flush ?io (fold (\<lambda>(io, c) s. snd (file_writer_write (\<lambda>_. Inl []) io c s)) [(?io, ?c)] (?w, [])))))
      (day_path ?w ''20250101'') =
    Some (file_text (day_path ?w ''20250101'') [] @ (if cc_format (cdr_config_default \<lparr> cc_format := CdrDelimited CHR ''|'' \<rparr>) = CdrCsv then csv_header @ [newline] else []) @
          concat (map (\<lambda>(io, c). projr (format_cdr (\<lambda>_. Inl []) (cc_format (cdr_config_default \<lparr> cc_format := CdrDelimited CHR ''|'' \<rparr>)) c) @ [newline]) [(?io, ?c)]))"
    by (rule file_writer_complete [OF refl refl]) (simp_all add: io_good_def format_cdr_def cdr_config_default_def)
  then show ?thesis
    by (simp add: file_text_def format_cdr_def cdr_config_default_def cdr_submit_def)
qed

end
