(* ===== verification/Records.thy ===== *)
theory Records
  imports Cdr Scheduler PersistentRefine
begin

text \<open>
  The collections beside messages and feedback that both storages keep: call detail records, schedules, rate-limit
  states, firewall settings and firewall events (\<^verbatim>\<open>src/src/store/types.rs\<close>,
  \<^verbatim>\<open>src/src/store/memory.rs\<close>, \<^verbatim>\<open>src/src/store/persistent.rs\<close>).  The in-memory storage
  holds vectors and hash maps, the persistent one partitions of the key-value engine of \<open>Persistent\<close>.

  The bounded logs hold a suffix of what was stored; the scanning loops equal a filter; both key-value collections
  implement the locale \<open>keyed_store\<close>, from which the agreement of the two storages follows.
\<close>

section \<open>Types (store/types.rs)\<close>

record cdr_query =
  cq_esme_id :: "string option"
  cq_message_id :: "string option"
  cq_destination_prefix :: "string option"
  cq_route :: "string option"
  cq_status_code :: "u32 option"
  cq_after :: "instant option"
  cq_before :: "instant option"
  cq_limit :: "nat option"

definition cdr_query_new :: cdr_query where
  "cdr_query_new =
     \<lparr> cq_esme_id = None, cq_message_id = None, cq_destination_prefix = None, cq_route = None, cq_status_code = None,
       cq_after = None, cq_before = None, cq_limit = None \<rparr>"

definition cdr_query_with_esme :: "string \<Rightarrow> cdr_query \<Rightarrow> cdr_query" where
  "cdr_query_with_esme e q = q \<lparr> cq_esme_id := Some e \<rparr>"

definition cdr_query_with_message_id :: "string \<Rightarrow> cdr_query \<Rightarrow> cdr_query" where
  "cdr_query_with_message_id i q = q \<lparr> cq_message_id := Some i \<rparr>"

definition cdr_query_with_limit :: "nat \<Rightarrow> cdr_query \<Rightarrow> cdr_query" where
  "cdr_query_with_limit n q = q \<lparr> cq_limit := Some n \<rparr>"

record cdr_stats =
  cs_total :: u64
  cs_by_type :: "(string, u64) alist"
  cs_total_revenue :: i64
  cs_total_cost :: i64
  cs_currency :: "string option"

record rate_limit_state =
  ls_tokens :: u64
  ls_last_refill_ms :: u64
  ls_rate :: u32
  ls_capacity :: u32

definition rate_limit_state_new :: "clock \<Rightarrow> u32 \<Rightarrow> u32 \<Rightarrow> rate_limit_state" where
  "rate_limit_state_new ck rate capacity =
     \<lparr> ls_tokens = ucast capacity, ls_last_refill_ms = now_epoch_ms ck, ls_rate = rate, ls_capacity = capacity \<rparr>"

definition rate_limit_with_tokens :: "u64 \<Rightarrow> u64 \<Rightarrow> rate_limit_state \<Rightarrow> rate_limit_state" where
  "rate_limit_with_tokens tokens last_refill_ms s = s \<lparr> ls_tokens := tokens, ls_last_refill_ms := last_refill_ms \<rparr>"

record firewall_settings =
  fs_destination_allow :: "string list"
  fs_destination_deny :: "string list"
  fs_source_allow :: "string list"
  fs_source_deny :: "string list"
  fs_sender_allow :: "string list"
  fs_sender_deny :: "string list"
  fs_blocked_keywords :: "string list"
  fs_blocked_patterns :: "string list"
  fs_time_restrictions :: "string option"
  fs_updated_at :: "instant option"

definition firewall_settings_new :: firewall_settings where
  "firewall_settings_new =
     \<lparr> fs_destination_allow = [], fs_destination_deny = [], fs_source_allow = [], fs_source_deny = [],
       fs_sender_allow = [], fs_sender_deny = [], fs_blocked_keywords = [], fs_blocked_patterns = [],
       fs_time_restrictions = None, fs_updated_at = None \<rparr>"

definition allow_destination :: "string \<Rightarrow> firewall_settings \<Rightarrow> firewall_settings" where
  "allow_destination p s = s \<lparr> fs_destination_allow := fs_destination_allow s @ [p] \<rparr>"

definition deny_destination :: "string \<Rightarrow> firewall_settings \<Rightarrow> firewall_settings" where
  "deny_destination p s = s \<lparr> fs_destination_deny := fs_destination_deny s @ [p] \<rparr>"

definition block_keyword :: "string \<Rightarrow> firewall_settings \<Rightarrow> firewall_settings" where
  "block_keyword k s = s \<lparr> fs_blocked_keywords := fs_blocked_keywords s @ [k] \<rparr>"

datatype stored_action = ActAllow | ActBlock | ActLog | ActQuarantine | ActAlert

fun stored_action_name :: "stored_action \<Rightarrow> string" where
  "stored_action_name ActAllow = ''allow''"
| "stored_action_name ActBlock = ''block''"
| "stored_action_name ActLog = ''log''"
| "stored_action_name ActQuarantine = ''quarantine''"
| "stored_action_name ActAlert = ''alert''"

record firewall_event =
  fe_id :: u64
  fe_timestamp :: instant
  fe_esme_id :: string
  fe_source :: string
  fe_destination :: string
  fe_action :: stored_action
  fe_rule :: "string option"
  fe_reason :: "string option"
  fe_content_preview :: "string option"

text \<open>\<open>counter\<close> is the static \<^verbatim>\<open>FIREWALL_EVENT_COUNTER\<close>.\<close>

definition firewall_event_new ::
  "clock \<Rightarrow> u64 \<Rightarrow> string \<Rightarrow> string \<Rightarrow> string \<Rightarrow> stored_action \<Rightarrow> firewall_event \<times> u64" where
  "firewall_event_new ck counter esme source destination action =
     (\<lparr> fe_id = counter, fe_timestamp = ck_wall ck, fe_esme_id = esme, fe_source = source, fe_destination = destination,
        fe_action = action, fe_rule = None, fe_reason = None, fe_content_preview = None \<rparr>, counter + 1)"

definition event_with_rule :: "string \<Rightarrow> firewall_event \<Rightarrow> firewall_event" where
  "event_with_rule r e = e \<lparr> fe_rule := Some r \<rparr>"

definition event_with_reason :: "string \<Rightarrow> firewall_event \<Rightarrow> firewall_event" where
  "event_with_reason r e = e \<lparr> fe_reason := Some r \<rparr>"

record firewall_event_query =
  fq_esme_id :: "string option"
  fq_action :: "stored_action option"
  fq_destination_prefix :: "string option"
  fq_after :: "instant option"
  fq_before :: "instant option"
  fq_limit :: "nat option"

definition event_query_new :: firewall_event_query where
  "event_query_new =
     \<lparr> fq_esme_id = None, fq_action = None, fq_destination_prefix = None, fq_after = None, fq_before = None,
       fq_limit = None \<rparr>"

definition event_query_with_esme :: "string \<Rightarrow> firewall_event_query \<Rightarrow> firewall_event_query" where
  "event_query_with_esme e q = q \<lparr> fq_esme_id := Some e \<rparr>"

definition event_query_with_action :: "stored_action \<Rightarrow> firewall_event_query \<Rightarrow> firewall_event_query" where
  "event_query_with_action a q = q \<lparr> fq_action := Some a \<rparr>"

definition event_query_with_limit :: "nat \<Rightarrow> firewall_event_query \<Rightarrow> firewall_event_query" where
  "event_query_with_limit n q = q \<lparr> fq_limit := Some n \<rparr>"

section \<open>In-memory collections (store/memory.rs)\<close>

record record_storage =
  rg_cdrs :: "cdr list"
  rg_schedules :: "(string, scheduled_message) alist"
  rg_rate_limits :: "(string, rate_limit_state) alist"
  rg_firewall_settings :: "(string, firewall_settings) alist"
  rg_firewall_events :: "firewall_event list"

definition record_storage_new :: record_storage where
  "record_storage_new =
     \<lparr> rg_cdrs = [], rg_schedules = [], rg_rate_limits = [], rg_firewall_settings = [], rg_firewall_events = [] \<rparr>"

text \<open>A missing condition of a query accepts everything.\<close>

definition wanted :: "'a option \<Rightarrow> ('a \<Rightarrow> bool) \<Rightarrow> bool" where
  "wanted x P = (case x of None \<Rightarrow> True | Some v \<Rightarrow> P v)"

definition store_cdr :: "cdr \<Rightarrow> record_storage \<Rightarrow> record_storage" where
  "store_cdr c s =
     s \<lparr> rg_cdrs := (if 100000 < length (rg_cdrs s) then drop 10000 (rg_cdrs s) else rg_cdrs s) @ [c] \<rparr>"

definition cdr_matches :: "cdr_query \<Rightarrow> cdr \<Rightarrow> bool" where
  "cdr_matches q c =
     (wanted (cq_esme_id q) (\<lambda>e. cdr_esme_id c = e) \<and> wanted (cq_message_id q) (\<lambda>i. cdr_message_id c = i) \<and>
      wanted (cq_destination_prefix q) (starts_with (cdr_dest_addr c)) \<and> wanted (cq_route q) (\<lambda>r. cdr_route c = Some r) \<and>
      wanted (cq_status_code q) (\<lambda>st. cdr_status_code c = st))"

definition query_limit :: "nat option \<Rightarrow> nat" where
  "query_limit l = (case l of None \<Rightarrow> 1000 | Some n \<Rightarrow> n)"

definition query_cdrs :: "cdr_query \<Rightarrow> record_storage \<Rightarrow> cdr list" where
  "query_cdrs q s = take (query_limit (cq_limit q)) (filter (cdr_matches q) (rg_cdrs s))"

text \<open>The body of the loop; sums of 64-bit numbers wrap.\<close>

definition count_cdr :: "cdr \<Rightarrow> cdr_stats \<Rightarrow> cdr_stats" where
  "count_cdr c st =
     \<lparr> cs_total = cs_total st,
       cs_by_type = alist_upsert (cdr_type_name (cdr_cdr_type c)) 0 (\<lambda>n. n + 1) (cs_by_type st),
       cs_total_revenue = (case cdr_revenue c of None \<Rightarrow> cs_total_revenue st | Some r \<Rightarrow> cs_total_revenue st + r),
       cs_total_cost = (case cdr_cost c of None \<Rightarrow> cs_total_cost st | Some k \<Rightarrow> cs_total_cost st + k),
       cs_currency = (case cs_currency st of None \<Rightarrow> cdr_currency c | Some x \<Rightarrow> Some x) \<rparr>"

definition cdr_stats_of :: "record_storage \<Rightarrow> cdr_stats" where
  "cdr_stats_of s =
     fold count_cdr (rg_cdrs s)
       \<lparr> cs_total = of_nat (length (rg_cdrs s)), cs_by_type = [], cs_total_revenue = 0, cs_total_cost = 0,
         cs_currency = None \<rparr>"

definition prune_cdrs ::
  "(string \<Rightarrow> instant option) \<Rightarrow> clock \<Rightarrow> duration \<Rightarrow> record_storage \<Rightarrow> nat \<times> record_storage" where
  "prune_cdrs parse_rfc3339 ck max_age s =
     (let cutoff = ck_wall ck - int max_age;
          kept = filter (\<lambda>c. case timestamp_datetime parse_rfc3339 c of None \<Rightarrow> True | Some t \<Rightarrow> cutoff \<le> t) (rg_cdrs s)
      in (length (rg_cdrs s) - length kept, s \<lparr> rg_cdrs := kept \<rparr>))"

definition store_schedule :: "scheduled_message \<Rightarrow> record_storage \<Rightarrow> string \<times> record_storage" where
  "store_schedule m s = (sc_id m, s \<lparr> rg_schedules := AList.update (sc_id m) m (rg_schedules s) \<rparr>)"

definition get_schedule :: "string \<Rightarrow> record_storage \<Rightarrow> scheduled_message option" where
  "get_schedule i s = map_of (rg_schedules s) i"

definition update_schedule ::
  "string \<Rightarrow> (scheduled_message \<Rightarrow> scheduled_message) \<Rightarrow> record_storage \<Rightarrow> bool \<times> record_storage" where
  "update_schedule i f s =
     (map_of (rg_schedules s) i \<noteq> None, s \<lparr> rg_schedules := alist_modify i f (rg_schedules s) \<rparr>)"

definition delete_schedule :: "string \<Rightarrow> record_storage \<Rightarrow> bool \<times> record_storage" where
  "delete_schedule i s = (map_of (rg_schedules s) i \<noteq> None, s \<lparr> rg_schedules := AList.delete i (rg_schedules s) \<rparr>)"

definition get_due_schedules :: "instant \<Rightarrow> nat \<Rightarrow> record_storage \<Rightarrow> scheduled_message list" where
  "get_due_schedules now limit s =
     take limit (filter (\<lambda>m. sc_status m = SPending \<and> sc_scheduled_at m \<le> now) (map snd (rg_schedules s)))"

definition get_esme_schedules :: "string \<Rightarrow> record_storage \<Rightarrow> scheduled_message list" where
  "get_esme_schedules e s = filter (\<lambda>m. sc_esme_id m = e) (map snd (rg_schedules s))"

definition store_rate_limit :: "string \<Rightarrow> rate_limit_state \<Rightarrow> record_storage \<Rightarrow> record_storage" where
  "store_rate_limit i v s = s \<lparr> rg_rate_limits := AList.update i v (rg_rate_limits s) \<rparr>"

definition get_rate_limit :: "string \<Rightarrow> record_storage \<Rightarrow> rate_limit_state option" where
  "get_rate_limit i s = map_of (rg_rate_limits s) i"

definition delete_rate_limit :: "string \<Rightarrow> record_storage \<Rightarrow> bool \<times> record_storage" where
  "delete_rate_limit i s =
     (map_of (rg_rate_limits s) i \<noteq> None, s \<lparr> rg_rate_limits := AList.delete i (rg_rate_limits s) \<rparr>)"

definition store_firewall_settings :: "string \<Rightarrow> firewall_settings \<Rightarrow> record_storage \<Rightarrow> record_storage" where
  "store_firewall_settings e v s = s \<lparr> rg_firewall_settings := AList.update e v (rg_firewall_settings s) \<rparr>"

definition get_firewall_settings :: "string \<Rightarrow> record_storage \<Rightarrow> firewall_settings option" where
  "get_firewall_settings e s = map_of (rg_firewall_settings s) e"

definition store_firewall_event :: "firewall_event \<Rightarrow> record_storage \<Rightarrow> record_storage" where
  "store_firewall_event e s =
     s \<lparr> rg_firewall_events :=
           (if 50000 < length (rg_firewall_events s) then drop 5000 (rg_firewall_events s) else rg_firewall_events s) @ [e] \<rparr>"

definition event_matches :: "firewall_event_query \<Rightarrow> firewall_event \<Rightarrow> bool" where
  "event_matches q e =
     (wanted (fq_esme_id q) (\<lambda>x. fe_esme_id e = x) \<and> wanted (fq_action q) (\<lambda>a. fe_action e = a) \<and>
      wanted (fq_destination_prefix q) (starts_with (fe_destination e)) \<and>
      wanted (fq_after q) (\<lambda>t. t \<le> fe_timestamp e) \<and> wanted (fq_before q) (\<lambda>t. fe_timestamp e \<le> t))"

definition query_firewall_events :: "firewall_event_query \<Rightarrow> record_storage \<Rightarrow> firewall_event list" where
  "query_firewall_events q s = take (query_limit (fq_limit q)) (filter (event_matches q) (rg_firewall_events s))"

definition prune_firewall_events :: "clock \<Rightarrow> duration \<Rightarrow> record_storage \<Rightarrow> nat \<times> record_storage" where
  "prune_firewall_events ck max_age s =
     (let kept = filter (\<lambda>e. ck_wall ck - int max_age \<le> fe_timestamp e) (rg_firewall_events s)
      in (length (rg_firewall_events s) - length kept, s \<lparr> rg_firewall_events := kept \<rparr>))"

section \<open>Persistent collections (store/persistent.rs)\<close>

text \<open>The partition engine and the JSON codec of each type.\<close>

record ('p, 'b) record_backend =
  rb_part :: "('p, 'b) partition"
  rb_enc_cdr :: "cdr \<Rightarrow> 'b option"
  rb_dec_cdr :: "'b \<Rightarrow> cdr option"
  rb_enc_rate :: "rate_limit_state \<Rightarrow> 'b option"
  rb_dec_rate :: "'b \<Rightarrow> rate_limit_state option"
  rb_enc_settings :: "firewall_settings \<Rightarrow> 'b option"
  rb_dec_settings :: "'b \<Rightarrow> firewall_settings option"
  rb_enc_event :: "firewall_event \<Rightarrow> 'b option"
  rb_dec_event :: "'b \<Rightarrow> firewall_event option"

record 'p record_partitions =
  rp_cdrs :: 'p
  rp_rate_limits :: 'p
  rp_firewall_settings :: 'p
  rp_firewall_events :: 'p

text \<open>An insertion whose encoding or write fails leaves the partition as it was.\<close>

definition put_encoded :: "('p, 'b) partition \<Rightarrow> string \<Rightarrow> 'b option \<Rightarrow> 'p \<Rightarrow> 'p" where
  "put_encoded P k v p =
     (case v of None \<Rightarrow> p | Some b \<Rightarrow> (case kv_insert P k b p of None \<Rightarrow> p | Some p' \<Rightarrow> p'))"

definition pst_store_cdr :: "('p, 'b) record_backend \<Rightarrow> cdr \<Rightarrow> 'p record_partitions \<Rightarrow> 'p record_partitions" where
  "pst_store_cdr K c s =
     s \<lparr> rp_cdrs := put_encoded (rb_part K) (''cdr_'' @ cdr_timestamp c @ ''_'' @ cdr_message_id c) (rb_enc_cdr K c)
           (rp_cdrs s) \<rparr>"

text \<open>The loops over a partition: stop at the limit, skip what cannot be read or does not match.\<close>

fun scan_limit :: "nat \<Rightarrow> ('b \<Rightarrow> 'a option) \<Rightarrow> ('a \<Rightarrow> bool) \<Rightarrow> (string \<times> 'b) option list \<Rightarrow> 'a list \<Rightarrow> 'a list" where
  "scan_limit limit dec P [] acc = acc"
| "scan_limit limit dec P (item # items) acc =
     (if limit \<le> length acc then acc
      else
        case item of
          None \<Rightarrow> scan_limit limit dec P items acc
        | Some (_, v) \<Rightarrow>
            (case dec v of
               None \<Rightarrow> scan_limit limit dec P items acc
             | Some x \<Rightarrow> scan_limit limit dec P items (if P x then acc @ [x] else acc)))"

definition pst_query_cdrs :: "('p, 'b) record_backend \<Rightarrow> cdr_query \<Rightarrow> 'p record_partitions \<Rightarrow> cdr list" where
  "pst_query_cdrs K q s =
     scan_limit (query_limit (cq_limit q)) (rb_dec_cdr K) (cdr_matches q) (kv_iter (rb_part K) (rp_cdrs s)) []"

definition decoded :: "('b \<Rightarrow> 'a option) \<Rightarrow> (string \<times> 'b) option list \<Rightarrow> 'a list" where
  "decoded dec items = List.map_filter (\<lambda>item. Option.bind item (\<lambda>e. dec (snd e))) items"

definition pst_cdr_stats :: "('p, 'b) record_backend \<Rightarrow> 'p record_partitions \<Rightarrow> cdr_stats" where
  "pst_cdr_stats K s =
     fold (\<lambda>c st. count_cdr c (st \<lparr> cs_total := cs_total st + 1 \<rparr>)) (decoded (rb_dec_cdr K) (kv_iter (rb_part K) (rp_cdrs s)))
       \<lparr> cs_total = 0, cs_by_type = [], cs_total_revenue = 0, cs_total_cost = 0, cs_currency = None \<rparr>"

text \<open>Collecting the keys of outdated entries, then removing them one by one.\<close>

definition outdated_keys :: "('b \<Rightarrow> 'a option) \<Rightarrow> ('a \<Rightarrow> bool) \<Rightarrow> (string \<times> 'b) option list \<Rightarrow> string list" where
  "outdated_keys dec old items =
     List.map_filter
       (\<lambda>item. case item of
          None \<Rightarrow> None
        | Some (k, v) \<Rightarrow> (case dec v of None \<Rightarrow> None | Some x \<Rightarrow> if old x then Some k else None)) items"

fun remove_counted :: "('p, 'b) partition \<Rightarrow> string list \<Rightarrow> u64 \<Rightarrow> 'p \<Rightarrow> u64 \<times> 'p" where
  "remove_counted P [] n p = (n, p)"
| "remove_counted P (k # ks) n p =
     (case kv_remove P k p of None \<Rightarrow> remove_counted P ks n p | Some p' \<Rightarrow> remove_counted P ks (n + 1) p')"

definition pst_prune_cdrs ::
  "('p, 'b) record_backend \<Rightarrow> (string \<Rightarrow> instant option) \<Rightarrow> clock \<Rightarrow> duration \<Rightarrow> 'p record_partitions \<Rightarrow>
   u64 \<times> 'p record_partitions" where
  "pst_prune_cdrs K parse_rfc3339 ck max_age s =
     (let cutoff = ck_wall ck - int max_age;
          ks = outdated_keys (rb_dec_cdr K)
                 (\<lambda>c. case timestamp_datetime parse_rfc3339 c of None \<Rightarrow> False | Some t \<Rightarrow> t < cutoff)
                 (kv_iter (rb_part K) (rp_cdrs s));
          (n, p) = remove_counted (rb_part K) ks 0 (rp_cdrs s)
      in (n, s \<lparr> rp_cdrs := p \<rparr>))"

text \<open>The schedules of the persistent storage are a locked hash map and not a partition: they do not survive a restart.\<close>

type_synonym schedule_map = "(string, scheduled_message) alist"

definition pst_store_schedule :: "scheduled_message \<Rightarrow> schedule_map \<Rightarrow> string \<times> schedule_map" where
  "pst_store_schedule m xs = (sc_id m, AList.update (sc_id m) m xs)"

definition pst_get_schedule :: "string \<Rightarrow> schedule_map \<Rightarrow> scheduled_message option" where
  "pst_get_schedule i xs = map_of xs i"

definition pst_update_schedule ::
  "string \<Rightarrow> (scheduled_message \<Rightarrow> scheduled_message) \<Rightarrow> schedule_map \<Rightarrow> bool \<times> schedule_map" where
  "pst_update_schedule i f xs =
     (case map_of xs i of None \<Rightarrow> (False, xs) | Some m \<Rightarrow> (True, AList.update i (f m) xs))"

definition pst_delete_schedule :: "string \<Rightarrow> schedule_map \<Rightarrow> bool \<times> schedule_map" where
  "pst_delete_schedule i xs = (map_of xs i \<noteq> None, AList.delete i xs)"

definition pst_get_due_schedules :: "instant \<Rightarrow> nat \<Rightarrow> schedule_map \<Rightarrow> scheduled_message list" where
  "pst_get_due_schedules now limit xs =
     take limit (filter (\<lambda>m. sc_status m = SPending \<and> sc_scheduled_at m \<le> now) (map snd xs))"

definition pst_get_esme_schedules :: "string \<Rightarrow> schedule_map \<Rightarrow> scheduled_message list" where
  "pst_get_esme_schedules e xs = filter (\<lambda>m. sc_esme_id m = e) (map snd xs)"

definition rate_key :: "string \<Rightarrow> string" where
  "rate_key i = ''rl_'' @ i"

definition pst_store_rate_limit ::
  "('p, 'b) record_backend \<Rightarrow> string \<Rightarrow> rate_limit_state \<Rightarrow> 'p record_partitions \<Rightarrow> 'p record_partitions" where
  "pst_store_rate_limit K i v s =
     s \<lparr> rp_rate_limits := put_encoded (rb_part K) (rate_key i) (rb_enc_rate K v) (rp_rate_limits s) \<rparr>"

definition pst_get_rate_limit ::
  "('p, 'b) record_backend \<Rightarrow> string \<Rightarrow> 'p record_partitions \<Rightarrow> rate_limit_state option" where
  "pst_get_rate_limit K i s = Option.bind (kv_get (rb_part K) (rate_key i) (rp_rate_limits s)) (rb_dec_rate K)"

definition pst_delete_rate_limit ::
  "('p, 'b) record_backend \<Rightarrow> string \<Rightarrow> 'p record_partitions \<Rightarrow> bool \<times> 'p record_partitions" where
  "pst_delete_rate_limit K i s =
     (case kv_remove (rb_part K) (rate_key i) (rp_rate_limits s) of
        None \<Rightarrow> (False, s)
      | Some p \<Rightarrow> (True, s \<lparr> rp_rate_limits := p \<rparr>))"

definition settings_key :: "string \<Rightarrow> string" where
  "settings_key e = ''fwsettings_'' @ e"

definition pst_store_firewall_settings ::
  "('p, 'b) record_backend \<Rightarrow> string \<Rightarrow> firewall_settings \<Rightarrow> 'p record_partitions \<Rightarrow> 'p record_partitions" where
  "pst_store_firewall_settings K e v s =
     s \<lparr> rp_firewall_settings := put_encoded (rb_part K) (settings_key e) (rb_enc_settings K v) (rp_firewall_settings s) \<rparr>"

definition pst_get_firewall_settings ::
  "('p, 'b) record_backend \<Rightarrow> string \<Rightarrow> 'p record_partitions \<Rightarrow> firewall_settings option" where
  "pst_get_firewall_settings K e s =
     Option.bind (kv_get (rb_part K) (settings_key e) (rp_firewall_settings s)) (rb_dec_settings K)"

definition event_key :: "firewall_event \<Rightarrow> string" where
  "event_key e = ''fwevent_'' @ show_nat (as_millis (nat (fe_timestamp e))) @ ''_'' @ show_nat (unat (fe_id e))"

definition pst_store_firewall_event ::
  "('p, 'b) record_backend \<Rightarrow> firewall_event \<Rightarrow> 'p record_partitions \<Rightarrow> 'p record_partitions" where
  "pst_store_firewall_event K e s =
     s \<lparr> rp_firewall_events := put_encoded (rb_part K) (event_key e) (rb_enc_event K e) (rp_firewall_events s) \<rparr>"

definition pst_query_firewall_events ::
  "('p, 'b) record_backend \<Rightarrow> firewall_event_query \<Rightarrow> 'p record_partitions \<Rightarrow> firewall_event list" where
  "pst_query_firewall_events K q s =
     scan_limit (query_limit (fq_limit q)) (rb_dec_event K) (event_matches q)
       (kv_iter (rb_part K) (rp_firewall_events s)) []"

definition pst_prune_firewall_events ::
  "('p, 'b) record_backend \<Rightarrow> clock \<Rightarrow> duration \<Rightarrow> 'p record_partitions \<Rightarrow> u64 \<times> 'p record_partitions" where
  "pst_prune_firewall_events K ck max_age s =
     (let ks = outdated_keys (rb_dec_event K) (\<lambda>e. fe_timestamp e < ck_wall ck - int max_age)
                 (kv_iter (rb_part K) (rp_firewall_events s));
          (n, p) = remove_counted (rb_part K) ks 0 (rp_firewall_events s)
      in (n, s \<lparr> rp_firewall_events := p \<rparr>))"

section \<open>Bounded logs\<close>

text \<open>One push onto a log that drops its oldest \<open>C\<close> entries when it holds more than \<open>L\<close>.\<close>

definition is_log :: "nat \<Rightarrow> nat \<Rightarrow> 'a list \<Rightarrow> 'a list \<Rightarrow> bool" where
  "is_log L C cs xs = (\<exists>n. xs = drop n cs \<and> n \<le> length cs \<and> length xs \<le> Suc L \<and> (n = 0 \<or> L - C < length xs))"

lemma is_log_push:
  assumes "is_log L C cs xs" "0 < C" "C \<le> L"
  shows "is_log L C (cs @ [x]) ((if L < length xs then drop C xs else xs) @ [x])"
proof -
  obtain n where n: "xs = drop n cs" "n \<le> length cs" "length xs \<le> Suc L" "n = 0 \<or> L - C < length xs"
    using assms(1) unfolding is_log_def by blast
  show ?thesis
  proof (cases "L < length xs")
    case True
    then have "drop C xs @ [x] = drop (C + n) (cs @ [x])" "C + n \<le> length cs" using n assms by simp_all
    then show ?thesis using True n assms unfolding is_log_def by (intro exI [of _ "C + n"]) auto
  next
    case False
    then show ?thesis using n assms unfolding is_log_def by (intro exI [of _ n]) auto
  qed
qed

lemma cdr_log: "is_log 100000 10000 cs (rg_cdrs (fold store_cdr cs record_storage_new))"
proof (induction cs rule: rev_induct)
  case (snoc c cs)
  from is_log_push [OF snoc, of c] show ?case by (simp add: store_cdr_def [of c])
qed (simp add: record_storage_new_def is_log_def)

lemma event_log:
  "is_log 50000 5000 es (rg_firewall_events (fold store_firewall_event es record_storage_new))"
proof (induction es rule: rev_induct)
  case (snoc e es)
  from is_log_push [OF snoc, of e] show ?case by (simp add: store_firewall_event_def [of e])
qed (simp add: record_storage_new_def is_log_def)

text \<open>The in-memory log of call detail records is bounded and loses only the oldest: it is always a suffix of what was
  stored, of at most 100001 records, complete as long as nothing was dropped and of more than 90000 records afterwards.\<close>

theorem cdr_log_bounded_suffix:
  "\<exists>n. rg_cdrs (fold store_cdr cs record_storage_new) = drop n cs \<and>
     length (rg_cdrs (fold store_cdr cs record_storage_new)) \<le> 100001 \<and>
     (n = 0 \<or> 90000 < length (rg_cdrs (fold store_cdr cs record_storage_new)))"
proof -
  obtain n where "rg_cdrs (fold store_cdr cs record_storage_new) = drop n cs"
    "length (rg_cdrs (fold store_cdr cs record_storage_new)) \<le> Suc 100000"
    "n = 0 \<or> 100000 - 10000 < length (rg_cdrs (fold store_cdr cs record_storage_new))"
    using cdr_log [of cs] unfolding is_log_def by blast
  then show ?thesis by (intro exI [of _ n]) simp
qed

section \<open>Scans and statistics\<close>

lemma scan_limit_filter:
  "length acc \<le> l \<Longrightarrow>
     scan_limit l dec P items acc = acc @ take (l - length acc) (filter P (decoded dec items))"
proof (induction items arbitrary: acc)
  case (Cons item items)
  have d: "decoded dec (item # items) =
      (case Option.bind item (\<lambda>e. dec (snd e)) of None \<Rightarrow> decoded dec items | Some x \<Rightarrow> x # decoded dec items)"
    by (simp add: decoded_def List.map_filter_simps split: option.split)
  show ?case
  proof (cases "Option.bind item (\<lambda>e. dec (snd e))")
    case None
    then have "scan_limit l dec P (item # items) acc = (if l \<le> length acc then acc else scan_limit l dec P items acc)"
      by (auto split: option.splits Option.bind_splits)
    then show ?thesis using Cons d None by simp
  next
    case (Some x)
    then obtain k v where kv: "item = Some (k, v)" "dec v = Some x" by (auto split: Option.bind_splits)
    have tk: "take (l - length acc) (y # ys) = y # take (l - Suc (length acc)) ys" if "length acc < l" for y and ys :: "'z list"
      using that Suc_diff_Suc [OF that] by (metis take_Suc_Cons)
    show ?thesis using Cons.IH [of acc] Cons.IH [of "acc @ [x]"] Cons.prems d kv Some by (auto simp: tk)
  qed
qed (simp add: decoded_def List.map_filter_simps)

text \<open>A query of the persistent storage returns the first records in key order that match, as many as asked for,
  whatever unreadable entries lie between them.\<close>

theorem pst_query_exact:
  "pst_query_cdrs K q s =
     take (query_limit (cq_limit q)) (filter (cdr_matches q) (decoded (rb_dec_cdr K) (kv_iter (rb_part K) (rp_cdrs s))))"
  "pst_query_firewall_events K e s =
     take (query_limit (fq_limit e)) (filter (event_matches e) (decoded (rb_dec_event K) (kv_iter (rb_part K) (rp_firewall_events s))))"
  by (simp_all add: pst_query_cdrs_def pst_query_firewall_events_def scan_limit_filter)

lemma count_cdr_total [simp]: "cs_total (fold count_cdr cs st) = cs_total st"
  by (induction cs arbitrary: st) (simp_all add: count_cdr_def)

lemma count_cdr_frame: "count_cdr c (st \<lparr> cs_total := n \<rparr>) = (count_cdr c st) \<lparr> cs_total := n \<rparr>"
  by (simp add: count_cdr_def cong: option.case_cong)

lemma fold_count_frame: "fold count_cdr cs (st \<lparr> cs_total := n \<rparr>) = (fold count_cdr cs st) \<lparr> cs_total := n \<rparr>"
  by (induction cs arbitrary: st) (simp_all add: count_cdr_frame)

lemma pst_fold_total:
  "fold (\<lambda>c st. count_cdr c (st \<lparr> cs_total := cs_total st + 1 \<rparr>)) cs st =
     (fold count_cdr cs st) \<lparr> cs_total := cs_total st + of_nat (length cs) \<rparr>"
proof (induction cs arbitrary: st)
  case (Cons c cs)
  then show ?case by (simp add: count_cdr_frame fold_count_frame algebra_simps)
qed (cases st, simp)

lemma cdr_type_name_inject [simp]: "cdr_type_name a = cdr_type_name b \<longleftrightarrow> a = b"
  by (cases a; cases b) simp_all

definition type_count :: "cdr_stats \<Rightarrow> cdr_type \<Rightarrow> u64" where
  "type_count st t = (case map_of (cs_by_type st) (cdr_type_name t) of None \<Rightarrow> 0 | Some n \<Rightarrow> n)"

lemma type_count_step: "type_count (count_cdr c st) t = type_count st t + (if cdr_cdr_type c = t then 1 else 0)"
  by (cases "cdr_cdr_type c = t") (simp_all add: type_count_def count_cdr_def map_of_upsert)

lemma stats_by_type:
  "type_count (fold count_cdr cs st) t = type_count st t + of_nat (length (filter (\<lambda>c. cdr_cdr_type c = t) cs))"
  by (induction cs arbitrary: st) (simp_all add: type_count_step)

lemma stats_money:
  "cs_total_revenue (fold count_cdr cs st) = cs_total_revenue st + sum_list (List.map_filter cdr_revenue cs)"
  "cs_total_cost (fold count_cdr cs st) = cs_total_cost st + sum_list (List.map_filter cdr_cost cs)"
  by (induction cs arbitrary: st)
     (simp_all add: count_cdr_def List.map_filter_simps algebra_simps split: option.splits)

text \<open>The statistics count what is stored: per type the number of its records, and the sums of the amounts that are
  set; and the persistent storage reports the same statistics as the in-memory one for the same records.\<close>

theorem cdr_stats_exact:
  "type_count (cdr_stats_of s) t = of_nat (length (filter (\<lambda>c. cdr_cdr_type c = t) (rg_cdrs s))) \<and>
   cs_total (cdr_stats_of s) = of_nat (length (rg_cdrs s)) \<and>
   cs_total_revenue (cdr_stats_of s) = sum_list (List.map_filter cdr_revenue (rg_cdrs s)) \<and>
   cs_total_cost (cdr_stats_of s) = sum_list (List.map_filter cdr_cost (rg_cdrs s)) \<and>
   pst_cdr_stats K p = cdr_stats_of (s \<lparr> rg_cdrs := decoded (rb_dec_cdr K) (kv_iter (rb_part K) (rp_cdrs p)) \<rparr>)"
proof -
  have "type_count (cdr_stats_of s) t = of_nat (length (filter (\<lambda>c. cdr_cdr_type c = t) (rg_cdrs s)))"
    unfolding cdr_stats_of_def stats_by_type by (simp add: type_count_def)
  moreover have "pst_cdr_stats K p =
      cdr_stats_of (s \<lparr> rg_cdrs := decoded (rb_dec_cdr K) (kv_iter (rb_part K) (rp_cdrs p)) \<rparr>)"
    by (simp add: cdr_stats_of_def pst_cdr_stats_def pst_fold_total flip: fold_count_frame)
  ultimately show ?thesis by (simp add: cdr_stats_of_def stats_money)
qed

section \<open>Pruning a partition\<close>

definition record_backend_ok :: "('p, 'b) record_backend \<Rightarrow> bool" where
  "record_backend_ok K =
     (partition_ok (rb_part K) \<and> (\<forall>x. Option.bind (rb_enc_cdr K x) (rb_dec_cdr K) = Some x) \<and>
      (\<forall>x. Option.bind (rb_enc_rate K x) (rb_dec_rate K) = Some x) \<and>
      (\<forall>x. Option.bind (rb_enc_settings K x) (rb_dec_settings K) = Some x) \<and>
      (\<forall>x. Option.bind (rb_enc_event K x) (rb_dec_event K) = Some x))"

lemma record_backend_okD:
  assumes "record_backend_ok K"
  shows "partition_ok (rb_part K)" "Option.bind (rb_enc_rate K r) (rb_dec_rate K) = Some r"
    "Option.bind (rb_enc_settings K f) (rb_dec_settings K) = Some f" "Option.bind (rb_enc_cdr K c) (rb_dec_cdr K) = Some c"
    "Option.bind (rb_enc_event K e) (rb_dec_event K) = Some e"
  using assms by (simp_all add: record_backend_ok_def)

lemma get_put_encoded:
  assumes "partition_ok P" "Option.bind v dec = Some x"
  shows "Option.bind (kv_get P j (put_encoded P k v p)) dec = (if j = k then Some x else Option.bind (kv_get P j p) dec)"
proof -
  obtain b where b: "v = Some b" "dec b = Some x" using assms(2) by (cases v) auto
  obtain p' where "kv_insert P k b p = Some p'" "\<And>j. kv_get P j p' = (if j = k then Some b else kv_get P j p)"
    using part_insert [OF assms(1)] by blast
  then show ?thesis using b by (simp add: put_encoded_def)
qed

lemma remove_counted:
  assumes "partition_ok P"
  shows "fst (remove_counted P ks n p) = n + of_nat (length ks)"
    and "kv_get P k (snd (remove_counted P ks n p)) = (if k \<in> set ks then None else kv_get P k p)"
proof (induction ks arbitrary: n p)
  case (Cons j ks)
  have r: "\<exists>p'. kv_remove P j p = Some p' \<and> (\<forall>i. kv_get P i p' = (if i = j then None else kv_get P i p))" for p
    using part_remove [OF assms, of j p] by metis
  case 1 show ?case using r [of p] Cons.IH(1) by auto
  case 2 show ?case using r [of p] Cons.IH(2) by auto
qed simp_all

lemma outdated_keys_iff:
  assumes "partition_ok P"
  shows "k \<in> set (outdated_keys dec old (kv_iter P p)) \<longleftrightarrow> (\<exists>x. Option.bind (kv_get P k p) dec = Some x \<and> old x)"
proof -
  obtain xs where xs: "kv_iter P p = map Some xs" "\<And>k v. (k, v) \<in> set xs \<longleftrightarrow> kv_get P k p = Some v"
    by (rule part_iter [OF assms, of p]) blast
  have "k \<in> set (outdated_keys dec old (map Some xs)) \<longleftrightarrow> (\<exists>v x. (k, v) \<in> set xs \<and> dec v = Some x \<and> old x)" for xs
  proof (induction xs)
    case (Cons e xs)
    obtain j w where "e = (j, w)" by (cases e)
    then show ?case using Cons by (cases "dec w") (auto simp: outdated_keys_def List.map_filter_simps)
  qed (simp add: outdated_keys_def List.map_filter_simps)
  from this [of xs] show ?thesis unfolding xs(1) by (auto simp: xs(2) bind_eq_Some_conv)
qed

text \<open>Pruning removes exactly the entries that are readable and older than the limit, and nothing else.\<close>

lemma pruned_partition:
  assumes "partition_ok P"
  shows "Option.bind (kv_get P k (snd (remove_counted P (outdated_keys dec old (kv_iter P p)) n p))) dec =
    (case Option.bind (kv_get P k p) dec of None \<Rightarrow> None | Some x \<Rightarrow> if old x then None else Some x)"
  using remove_counted(2) [OF assms, of k "outdated_keys dec old (kv_iter P p)" n p] outdated_keys_iff [OF assms, of k dec old p]
  by (cases "Option.bind (kv_get P k p) dec") auto

theorem pst_prune_exact:
  assumes "record_backend_ok K"
  shows "Option.bind (kv_get (rb_part K) k (rp_firewall_events (snd (pst_prune_firewall_events K ck max_age s)))) (rb_dec_event K) =
      (case Option.bind (kv_get (rb_part K) k (rp_firewall_events s)) (rb_dec_event K) of
         None \<Rightarrow> None | Some e \<Rightarrow> if fe_timestamp e < ck_wall ck - int max_age then None else Some e)"
    and "rp_cdrs (snd (pst_prune_firewall_events K ck max_age s)) = rp_cdrs s"
  using pruned_partition [OF record_backend_okD(1) [OF assms]]
  by (simp_all add: pst_prune_firewall_events_def split_def Let_def)

section \<open>Keyed collections\<close>

text \<open>What a storage promises of a collection addressed by a name, as long as its engine is healthy (\<open>up\<close>).\<close>

locale keyed_store =
  fixes up :: bool
    and get :: "string \<Rightarrow> 's \<Rightarrow> 'v option"
    and put :: "string \<Rightarrow> 'v \<Rightarrow> 's \<Rightarrow> 's"
  assumes get_put: "up \<Longrightarrow> get i (put j v s) = (if i = j then Some v else get i s)"
begin

lemma get_puts:
  "up \<Longrightarrow> get i (fold (\<lambda>(j, v). put j v) xs s) = (case map_of (rev xs) i of None \<Rightarrow> get i s | Some v \<Rightarrow> Some v)"
  by (induction xs arbitrary: s) (auto simp: get_put map_of_append map_add_def split: option.splits)

end

datatype 'v keyed_op = Put string 'v | Del string

primrec run_op :: "(string \<Rightarrow> 'v \<Rightarrow> 's \<Rightarrow> 's) \<Rightarrow> (string \<Rightarrow> 's \<Rightarrow> 's) \<Rightarrow> 'v keyed_op \<Rightarrow> 's \<Rightarrow> 's" where
  "run_op put del (Put i v) s = put i v s"
| "run_op put del (Del i) s = del i s"

primrec spec_op :: "'v keyed_op \<Rightarrow> (string \<Rightarrow> 'v option) \<Rightarrow> (string \<Rightarrow> 'v option)" where
  "spec_op (Put i v) m = m(i \<mapsto> v)"
| "spec_op (Del i) m = m(i := None)"

locale deletable_store = keyed_store up get put
  for up :: bool and get :: "string \<Rightarrow> 's \<Rightarrow> 'v option" and put :: "string \<Rightarrow> 'v \<Rightarrow> 's \<Rightarrow> 's" +
  fixes del :: "string \<Rightarrow> 's \<Rightarrow> 's"
  assumes get_del: "up \<Longrightarrow> get i (del j s) = (if i = j then None else get i s)"
begin

lemma run_spec: "up \<Longrightarrow> (\<lambda>i. get i (fold (run_op put del) ops s)) = fold spec_op ops (\<lambda>i. get i s)"
proof (induction ops arbitrary: s)
  case (Cons x ops)
  have "(\<lambda>i. get i (run_op put del x s)) = spec_op x (\<lambda>i. get i s)"
    using Cons.prems by (cases x) (auto simp: get_put get_del fun_eq_iff)
  then show ?case using Cons by simp
qed simp

end

interpretation mem_settings: keyed_store True get_firewall_settings store_firewall_settings
  by unfold_locales (simp add: get_firewall_settings_def store_firewall_settings_def map_of_update)

interpretation mem_rates: deletable_store True get_rate_limit store_rate_limit "\<lambda>i s. snd (delete_rate_limit i s)"
  by unfold_locales
     (simp_all add: get_rate_limit_def store_rate_limit_def delete_rate_limit_def map_of_update map_of_delete)


interpretation pst_settings: keyed_store "record_backend_ok K" "pst_get_firewall_settings K" "pst_store_firewall_settings K" for K
  by unfold_locales
     (simp add: pst_get_firewall_settings_def pst_store_firewall_settings_def settings_key_def
        get_put_encoded [OF record_backend_okD(1,3)])

interpretation pst_rates: deletable_store "record_backend_ok K" "pst_get_rate_limit K" "pst_store_rate_limit K"
  "\<lambda>i s. snd (pst_delete_rate_limit K i s)" for K
proof
  fix i j v and s :: "'a record_partitions"
  assume K: "record_backend_ok K"
  show "pst_get_rate_limit K i (pst_store_rate_limit K j v s) = (if i = j then Some v else pst_get_rate_limit K i s)"
    by (simp add: pst_get_rate_limit_def pst_store_rate_limit_def rate_key_def get_put_encoded [OF record_backend_okD(1,2) [OF K]])
  obtain p where "kv_remove (rb_part K) (rate_key j) (rp_rate_limits s) = Some p"
    "\<And>k. kv_get (rb_part K) k p = (if k = rate_key j then None else kv_get (rb_part K) k (rp_rate_limits s))"
    using part_remove [OF record_backend_okD(1) [OF K]] by blast
  then show "pst_get_rate_limit K i (snd (pst_delete_rate_limit K j s)) = (if i = j then None else pst_get_rate_limit K i s)"
    by (simp add: pst_get_rate_limit_def pst_delete_rate_limit_def rate_key_def)
qed

text \<open>After the same writes and deletions of rate-limit states, the in-memory and the persistent storage answer every
  lookup alike.\<close>

theorem backends_agree_on_rate_limits:
  assumes "record_backend_ok K" "\<And>i. pst_get_rate_limit K i p = get_rate_limit i s"
  shows "pst_get_rate_limit K i
      (fold (run_op (pst_store_rate_limit K) (\<lambda>i s. snd (pst_delete_rate_limit K i s))) ops p) =
    get_rate_limit i (fold (run_op store_rate_limit (\<lambda>i s. snd (delete_rate_limit i s))) ops s)"
  using pst_rates.run_spec [OF assms(1), where ops = ops and s = p, THEN fun_cong, where x = i]
    mem_rates.run_spec [OF TrueI, where ops = ops and s = s, THEN fun_cong, where x = i]
  by (simp add: assms(2))

section \<open>Schedules\<close>

text \<open>Looked up by identifier, both storages keep schedules alike: storing, updating through a closure and deleting.\<close>

lemma schedule_ops:
  "get_schedule i (snd (store_schedule m s)) = (if i = sc_id m then Some m else get_schedule i s)"
  "get_schedule i (snd (update_schedule j f s)) = (if i = j then map_option f (get_schedule i s) else get_schedule i s)"
  "get_schedule i (snd (delete_schedule j s)) = (if i = j then None else get_schedule i s)"
  "pst_get_schedule i (snd (pst_store_schedule m xs)) = (if i = sc_id m then Some m else pst_get_schedule i xs)"
  "pst_get_schedule i (snd (pst_update_schedule j f xs)) =
     (if i = j then map_option f (pst_get_schedule i xs) else pst_get_schedule i xs)"
  "pst_get_schedule i (snd (pst_delete_schedule j xs)) = (if i = j then None else pst_get_schedule i xs)"
  by (simp_all add: get_schedule_def store_schedule_def update_schedule_def delete_schedule_def pst_get_schedule_def
      pst_store_schedule_def pst_update_schedule_def pst_delete_schedule_def map_of_update map_of_delete map_of_modify
      split: option.split)

text \<open>Due schedules are pending, at or before the instant, and at most as many as asked for; with room for all of them,
  every stored due schedule is returned.\<close>

theorem due_schedules_exact:
  "length (get_due_schedules now limit s) \<le> limit \<and>
   set (get_due_schedules now limit s) \<subseteq> {m. sc_status m = SPending \<and> sc_scheduled_at m \<le> now} \<and>
   set (get_due_schedules now (length (rg_schedules s)) s) =
     {m \<in> snd ` set (rg_schedules s). sc_status m = SPending \<and> sc_scheduled_at m \<le> now} \<and>
   get_due_schedules now limit s = pst_get_due_schedules now limit (rg_schedules s)"
  by (auto simp: get_due_schedules_def pst_get_due_schedules_def dest: in_set_takeD)

section \<open>Witness\<close>

datatype record_blob = BlobCdr cdr | BlobRate rate_limit_state | BlobSettings firewall_settings | BlobEvent firewall_event

definition sample_records :: "((string \<times> record_blob) list, record_blob) record_backend" where
  "sample_records =
     \<lparr> rb_part = sample_partition, rb_enc_cdr = (\<lambda>x. Some (BlobCdr x)), rb_dec_cdr = (\<lambda>b. case b of BlobCdr x \<Rightarrow> Some x | _ \<Rightarrow> None),
       rb_enc_rate = (\<lambda>x. Some (BlobRate x)), rb_dec_rate = (\<lambda>b. case b of BlobRate x \<Rightarrow> Some x | _ \<Rightarrow> None),
       rb_enc_settings = (\<lambda>x. Some (BlobSettings x)), rb_dec_settings = (\<lambda>b. case b of BlobSettings x \<Rightarrow> Some x | _ \<Rightarrow> None),
       rb_enc_event = (\<lambda>x. Some (BlobEvent x)), rb_dec_event = (\<lambda>b. case b of BlobEvent x \<Rightarrow> Some x | _ \<Rightarrow> None) \<rparr>"

lemma sample_records_ok: "record_backend_ok sample_records"
  by (simp add: record_backend_ok_def sample_records_def sample_partition_ok)

theorem backends_agree_on_rate_limits_witness:
  "pst_get_rate_limit sample_records ''a''
      (fold (run_op (pst_store_rate_limit sample_records) (\<lambda>i s. snd (pst_delete_rate_limit sample_records i s)))
         [Put ''a'' (rate_limit_state_new \<lparr> ck_now = 1, ck_wall = 1000000 \<rparr> 10 20), Del ''b'']
         \<lparr> rp_cdrs = [], rp_rate_limits = [], rp_firewall_settings = [], rp_firewall_events = [] \<rparr>) =
    get_rate_limit ''a''
      (fold (run_op store_rate_limit (\<lambda>i s. snd (delete_rate_limit i s)))
         [Put ''a'' (rate_limit_state_new \<lparr> ck_now = 1, ck_wall = 1000000 \<rparr> 10 20), Del ''b''] record_storage_new)"
  by (rule backends_agree_on_rate_limits [OF sample_records_ok])
     (simp add: pst_get_rate_limit_def get_rate_limit_def record_storage_new_def sample_records_def sample_partition_def)

end
