(* ===== verification/Pricing.thy ===== *)
theory Pricing
  imports Float64
begin

text \<open>
  Cost-based routing (\<^verbatim>\<open>src/src/router/pricing.rs\<close>): the price table with its three levels of lookup, loading it
  from the configuration, the scores of the four strategies and the selection of a route.  Scores are double-precision
  numbers and are computed with \<open>Float64\<close>; prices are 64-bit signed integers and wrap.

  The lemmas show what a lookup finds after a table is loaded, in whatever order its hash maps are iterated, and that
  the least-cost and the maximal-margin strategies return the first of the cheapest candidates.
\<close>

section \<open>Prices\<close>

record route_pricing =
  rp_cost :: i64
  rp_currency :: string
  rp_quality_score :: f64
  rp_latency_ms :: u64
  rp_delivery_rate :: f64

definition route_pricing_default :: route_pricing where
  "route_pricing_default =
     \<lparr> rp_cost = 10, rp_currency = ''MZN'', rp_quality_score = round64 (9 / 10), rp_latency_ms = 500,
       rp_delivery_rate = round64 (95 / 100) \<rparr>"

record pricing_key =
  pk_cluster :: string
  pk_country :: string
  pk_network :: "string option"

definition pricing_key_new :: "string \<Rightarrow> string \<Rightarrow> string option \<Rightarrow> pricing_key" where
  "pricing_key_new cluster country network = \<lparr> pk_cluster = cluster, pk_country = country, pk_network = network \<rparr>"

definition without_network :: "pricing_key \<Rightarrow> pricing_key" where
  "without_network k = k \<lparr> pk_network := None \<rparr>"

record pricing_store =
  pr_pricing :: "(pricing_key, route_pricing) alist"
  pr_defaults :: "(string, route_pricing) alist"

definition pricing_store_new :: pricing_store where
  "pricing_store_new = \<lparr> pr_pricing = [], pr_defaults = [] \<rparr>"

definition set_pricing :: "pricing_key \<Rightarrow> route_pricing \<Rightarrow> pricing_store \<Rightarrow> pricing_store" where
  "set_pricing k p s = s \<lparr> pr_pricing := AList.update k p (pr_pricing s) \<rparr>"

definition set_default :: "string \<Rightarrow> route_pricing \<Rightarrow> pricing_store \<Rightarrow> pricing_store" where
  "set_default cluster p s = s \<lparr> pr_defaults := AList.update cluster p (pr_defaults s) \<rparr>"

definition get_pricing :: "pricing_key \<Rightarrow> pricing_store \<Rightarrow> route_pricing option" where
  "get_pricing k s =
     (case map_of (pr_pricing s) k of
        Some p \<Rightarrow> Some p
      | None \<Rightarrow>
          (case (if pk_network k \<noteq> None then map_of (pr_pricing s) (without_network k) else None) of
             Some p \<Rightarrow> Some p
           | None \<Rightarrow> map_of (pr_defaults s) (pk_cluster k)))"

definition get_cost :: "string \<Rightarrow> string \<Rightarrow> string option \<Rightarrow> pricing_store \<Rightarrow> i64 option" where
  "get_cost cluster country network s = map_option rp_cost (get_pricing (pricing_key_new cluster country network) s)"

record cluster_pricing =
  cp_default :: route_pricing
  cp_countries :: "(string, route_pricing) alist"
  cp_networks :: "(string, (string, route_pricing) alist) alist"

definition cluster_pricing_default :: cluster_pricing where
  "cluster_pricing_default = \<lparr> cp_default = route_pricing_default, cp_countries = [], cp_networks = [] \<rparr>"

definition load_cluster :: "string \<times> cluster_pricing \<Rightarrow> pricing_store \<Rightarrow> pricing_store" where
  "load_cluster e s =
     (case e of (cluster, cp) \<Rightarrow>
        fold (\<lambda>(country, networks). fold (\<lambda>(network, p). set_pricing (pricing_key_new cluster country (Some network)) p) networks)
          (cp_networks cp)
          (fold (\<lambda>(country, p). set_pricing (pricing_key_new cluster country None) p) (cp_countries cp)
             (set_default cluster (cp_default cp) s)))"

definition load_from_map :: "(string, cluster_pricing) alist \<Rightarrow> pricing_store \<Rightarrow> pricing_store" where
  "load_from_map pricing_map s = fold load_cluster pricing_map s"

section \<open>Strategies\<close>

datatype cost_routing_strategy = LeastCost | QualityFirst | Balanced | MaxMargin

definition cost_routing_strategy_default :: cost_routing_strategy where
  "cost_routing_strategy_default = Balanced"

record route_candidate =
  ra_cluster :: string
  ra_pricing :: route_pricing
  ra_effective_cost :: i64
  ra_score :: f64

definition f64_of_i64 :: "i64 \<Rightarrow> f64" where
  "f64_of_i64 w = f64_of_int (sint w)"

definition least_cost_score :: "i64 \<Rightarrow> f64" where
  "least_cost_score c = fdiv (Fin 1) (fadd (f64_of_i64 c) (Fin 1))"

definition strategy_score :: "cost_routing_strategy \<Rightarrow> i64 option \<Rightarrow> route_candidate \<Rightarrow> f64" where
  "strategy_score strategy revenue r =
     (case strategy of
        LeastCost \<Rightarrow> least_cost_score (ra_effective_cost r)
      | QualityFirst \<Rightarrow>
          fsub (fmul (rp_quality_score (ra_pricing r)) (f64_of_int 1000))
            (fdiv (f64_of_i64 (ra_effective_cost r)) (f64_of_int 100))
      | Balanced \<Rightarrow>
          (let cost_score = fdiv (Fin 1) (fadd (fdiv (f64_of_i64 (ra_effective_cost r)) (f64_of_int 10)) (Fin 1))
           in fadd (fadd (fmul (round64 (4 / 10)) (rp_quality_score (ra_pricing r))) (fmul (round64 (3 / 10)) cost_score))
                (fmul (round64 (3 / 10)) (rp_delivery_rate (ra_pricing r))))
      | MaxMargin \<Rightarrow>
          (case revenue of
             Some v \<Rightarrow> f64_of_i64 (v - ra_effective_cost r)
           | None \<Rightarrow> least_cost_score (ra_effective_cost r)))"

definition calculate_score :: "cost_routing_strategy \<Rightarrow> i64 option \<Rightarrow> route_candidate \<Rightarrow> route_candidate" where
  "calculate_score strategy revenue r = r \<lparr> ra_score := strategy_score strategy revenue r \<rparr>"

record cost_router =
  cr_pricing_store :: pricing_store
  cr_default_strategy :: cost_routing_strategy

definition cost_router_new :: cost_router where
  "cost_router_new = \<lparr> cr_pricing_store = pricing_store_new, cr_default_strategy = Balanced \<rparr>"

definition with_strategy :: "cost_routing_strategy \<Rightarrow> cost_router" where
  "with_strategy st = \<lparr> cr_pricing_store = pricing_store_new, cr_default_strategy = st \<rparr>"

definition effective_pricing :: "pricing_store \<Rightarrow> string \<Rightarrow> string option \<Rightarrow> string \<Rightarrow> route_pricing" where
  "effective_pricing s country network cluster =
     (case get_pricing (pricing_key_new cluster country network) s of None \<Rightarrow> route_pricing_default | Some p \<Rightarrow> p)"

definition candidate_of :: "pricing_store \<Rightarrow> string \<Rightarrow> string option \<Rightarrow> string \<Rightarrow> route_candidate" where
  "candidate_of s country network cluster =
     (let p = effective_pricing s country network cluster
      in \<lparr> ra_cluster = cluster, ra_pricing = p, ra_effective_cost = rp_cost p, ra_score = Fin 0 \<rparr>)"

definition select_route_with_strategy ::
  "cost_router \<Rightarrow> string list \<Rightarrow> string \<Rightarrow> string option \<Rightarrow> i64 option \<Rightarrow> cost_routing_strategy \<Rightarrow> string option" where
  "select_route_with_strategy r candidates country network revenue strategy =
     (if candidates = [] then None
      else
        let cs = map (candidate_of (cr_pricing_store r) country network) candidates;
            cs = map (calculate_score strategy revenue) cs;
            cs = sort_desc ra_score cs
        in case cs of [] \<Rightarrow> None | c # _ \<Rightarrow> Some (ra_cluster c))"

definition select_route ::
  "cost_router \<Rightarrow> string list \<Rightarrow> string \<Rightarrow> string option \<Rightarrow> i64 option \<Rightarrow> string option" where
  "select_route r candidates country network revenue =
     select_route_with_strategy r candidates country network revenue (cr_default_strategy r)"

definition rank_routes ::
  "cost_router \<Rightarrow> string list \<Rightarrow> string \<Rightarrow> string option \<Rightarrow> i64 option \<Rightarrow> route_candidate list" where
  "rank_routes r candidates country network revenue =
     sort_desc ra_score
       (map (calculate_score (cr_default_strategy r) revenue)
          (map (candidate_of (cr_pricing_store r) country network) candidates))"

section \<open>What a loaded table answers\<close>

lemma pricing_key_eq [simp]: "pricing_key_new a b c = pricing_key_new a' b' c' \<longleftrightarrow> a = a' \<and> b = b' \<and> c = c'"
  by (simp add: pricing_key_new_def)

lemma key_fields [simp]:
  "pk_cluster (pricing_key_new a b c) = a" "pk_network (pricing_key_new a b c) = c"
  "without_network (pricing_key_new a b c) = pricing_key_new a b None"
  by (simp_all add: pricing_key_new_def without_network_def)

lemma pr_set_default [simp]: "pr_pricing (set_default c p s) = pr_pricing s"
  by (simp add: set_default_def)

lemma map_of_set_pricing: "map_of (pr_pricing (set_pricing k p s)) j = (if j = k then Some p else map_of (pr_pricing s) j)"
  by (simp add: set_pricing_def map_of_update)

lemma defaults_set_pricing [simp]: "pr_defaults (set_pricing k p s) = pr_defaults s"
  by (simp add: set_pricing_def)

definition or_old :: "'a option \<Rightarrow> 'a option \<Rightarrow> 'a option" where
  "or_old x y = (case x of None \<Rightarrow> y | Some v \<Rightarrow> Some v)"

lemma fold_set_pricing:
  assumes "distinct_keys xs" "\<And>a b. f a = f b \<longleftrightarrow> a = b"
  shows "map_of (pr_pricing (fold (\<lambda>(a, p). set_pricing (f a) p) xs s)) (f b) = or_old (map_of xs b) (map_of (pr_pricing s) (f b))"
  using assms(1)
proof (induction xs arbitrary: s)
  case (Cons e xs)
  obtain a p where e: "e = (a, p)" by (cases e)
  have "map_of xs a = None" using Cons.prems e by (simp add: map_of_eq_None_iff)
  then show ?case using Cons e by (auto simp: map_of_set_pricing assms(2) or_old_def split: option.splits)
qed (simp add: or_old_def)

lemma fold_set_pricing_other:
  assumes "\<And>a. f a \<noteq> k"
  shows "map_of (pr_pricing (fold (\<lambda>(a, p). set_pricing (f a) p) xs s)) k = map_of (pr_pricing s) k"
proof (induction xs arbitrary: s)
  case (Cons e xs)
  show ?case using assms Cons by (cases e) (simp add: map_of_set_pricing, metis)
qed simp

lemma fold_defaults [simp]: "pr_defaults (fold (\<lambda>(a, p). set_pricing (f a) p) xs s) = pr_defaults s"
  by (induction xs arbitrary: s) auto

definition load_networks :: "string \<Rightarrow> string \<times> (string, route_pricing) alist \<Rightarrow> pricing_store \<Rightarrow> pricing_store" where
  "load_networks c e = (case e of (country, ns) \<Rightarrow> fold (\<lambda>(n, p). set_pricing (pricing_key_new c country (Some n)) p) ns)"

lemma load_networks_other:
  assumes "pk_cluster k \<noteq> c \<or> pk_network k = None"
  shows "map_of (pr_pricing (fold (load_networks c) nss s)) k = map_of (pr_pricing s) k"
proof (induction nss arbitrary: s)
  case (Cons e nss)
  have "pricing_key_new c co (Some n) \<noteq> k" for co n using assms by (auto simp: pricing_key_new_def)
  then show ?case using Cons by (cases e) (simp add: load_networks_def fold_set_pricing_other)
qed simp

lemma load_networks_lookup:
  assumes "distinct_keys nss" "\<forall>e \<in> set nss. distinct_keys (snd e)"
  shows "map_of (pr_pricing (fold (load_networks c) nss s)) (pricing_key_new c co (Some n)) =
    or_old (Option.bind (map_of nss co) (\<lambda>ns. map_of ns n)) (map_of (pr_pricing s) (pricing_key_new c co (Some n)))"
  using assms
proof (induction nss arbitrary: s)
  case (Cons e nss)
  obtain a ns where e: "e = (a, ns)" by (cases e)
  have none: "map_of nss a = None" using Cons.prems e by (simp add: map_of_eq_None_iff)
  have "map_of (pr_pricing (load_networks c e s)) (pricing_key_new c co (Some n)) =
      (if a = co then or_old (map_of ns n) (map_of (pr_pricing s) (pricing_key_new c co (Some n)))
       else map_of (pr_pricing s) (pricing_key_new c co (Some n)))"
    using Cons.prems e fold_set_pricing [of ns "\<lambda>n. pricing_key_new c co (Some n)" s n]
    by (simp add: load_networks_def fold_set_pricing_other)
  moreover have "distinct_keys nss" "\<forall>e \<in> set nss. distinct_keys (snd e)" using Cons.prems by simp_all
  ultimately show ?case using Cons.IH [of "load_networks c e s"] none e by (auto simp: or_old_def)
qed (simp add: or_old_def)

lemma fold_load_networks_defaults [simp]: "pr_defaults (fold (load_networks c) nss s) = pr_defaults s"
  by (induction nss arbitrary: s) (auto simp: load_networks_def split: prod.splits)

definition pricing_ok :: "cluster_pricing \<Rightarrow> bool" where
  "pricing_ok cp =
     (distinct_keys (cp_countries cp) \<and> distinct_keys (cp_networks cp) \<and> (\<forall>e \<in> set (cp_networks cp). distinct_keys (snd e)))"

text \<open>The price a cluster's configuration gives a destination before its default.\<close>

definition configured_price :: "cluster_pricing \<Rightarrow> string \<Rightarrow> string option \<Rightarrow> route_pricing option" where
  "configured_price cp co net =
     (case net of
        None \<Rightarrow> map_of (cp_countries cp) co
      | Some n \<Rightarrow> Option.bind (map_of (cp_networks cp) co) (\<lambda>ns. map_of ns n))"

lemma load_cluster_eq:
  "load_cluster (c, cp) s =
     fold (load_networks c) (cp_networks cp)
       (fold (\<lambda>(country, p). set_pricing (pricing_key_new c country None) p) (cp_countries cp) (set_default c (cp_default cp) s))"
  unfolding load_cluster_def load_networks_def by (simp add: case_prod_unfold)

lemma load_cluster_lookup:
  assumes "pricing_ok cp"
  shows "map_of (pr_pricing (load_cluster (c, cp) s)) (pricing_key_new d co net) =
    (if d = c then or_old (configured_price cp co net) (map_of (pr_pricing s) (pricing_key_new d co net))
     else map_of (pr_pricing s) (pricing_key_new d co net))"
proof (cases "d = c")
  case True
  note ok = assms [unfolded pricing_ok_def]
  show ?thesis
  proof (cases net)
    case None
    then show ?thesis
      using True ok fold_set_pricing [of "cp_countries cp" "\<lambda>co. pricing_key_new c co None" "set_default c (cp_default cp) s" co]
      by (simp add: load_cluster_eq load_networks_other configured_price_def)
  next
    case (Some n)
    then show ?thesis using True ok
      by (simp add: load_cluster_eq load_networks_lookup fold_set_pricing_other configured_price_def)
  qed
qed (simp add: load_cluster_eq load_networks_other fold_set_pricing_other)

lemma load_cluster_defaults:
  "map_of (pr_defaults (load_cluster (c, cp) s)) d = (if d = c then Some (cp_default cp) else map_of (pr_defaults s) d)"
  by (simp add: load_cluster_eq) (simp add: set_default_def map_of_update)

lemma load_lookup:
  assumes "distinct_keys m" "\<forall>e \<in> set m. pricing_ok (snd e)"
  shows "map_of (pr_pricing (load_from_map m s)) (pricing_key_new d co net) =
      or_old (Option.bind (map_of m d) (\<lambda>cp. configured_price cp co net)) (map_of (pr_pricing s) (pricing_key_new d co net)) \<and>
    map_of (pr_defaults (load_from_map m s)) d = or_old (map_option cp_default (map_of m d)) (map_of (pr_defaults s) d)"
  using assms
proof (induction m arbitrary: s)
  case (Cons e m)
  obtain c cp where e: "e = (c, cp)" by (cases e)
  have none: "map_of m c = None" using Cons.prems e by (simp add: map_of_eq_None_iff)
  have ok: "distinct_keys m" "\<forall>e \<in> set m. pricing_ok (snd e)" "pricing_ok cp" using Cons.prems e by simp_all
  show ?case using Cons.IH [OF ok(1,2), of "load_cluster (c, cp) s"] none e ok(3)
    by (auto simp: load_from_map_def load_cluster_lookup load_cluster_defaults or_old_def)
qed (simp add: load_from_map_def or_old_def)

text \<open>after loading a pricing configuration into an empty table, a lookup finds the price of the network when
  one is configured, else the price of the country, else the default of the cluster, and nothing for an unknown
  cluster, in whatever order the hash maps are iterated.\<close>

theorem loaded_price_lookup:
  assumes "distinct_keys m" "\<forall>e \<in> set m. pricing_ok (snd e)"
  shows "get_pricing (pricing_key_new c co net) (load_from_map m pricing_store_new) =
    (case map_of m c of
       None \<Rightarrow> None
     | Some cp \<Rightarrow>
         Some (case configured_price cp co net of
                 Some p \<Rightarrow> p
               | None \<Rightarrow> (case map_of (cp_countries cp) co of Some p \<Rightarrow> p | None \<Rightarrow> cp_default cp)))"
  using load_lookup [OF assms, of pricing_store_new c co net] load_lookup [OF assms, of pricing_store_new c co None]
  by (cases net) (auto simp: get_pricing_def pricing_store_new_def or_old_def configured_price_def split: option.splits)

theorem loaded_price_lookup_witness:
  "get_pricing (pricing_key_new ''vodacom'' ''MZ'' (Some ''mcel''))
     (load_from_map [(''vodacom'', \<lparr> cp_default = route_pricing_default, cp_countries = [(''MZ'', route_pricing_default \<lparr> rp_cost := 7 \<rparr>)],
        cp_networks = [(''MZ'', [(''Vodacom'', route_pricing_default \<lparr> rp_cost := 5 \<rparr>)])] \<rparr>)] pricing_store_new) =
   Some (route_pricing_default \<lparr> rp_cost := 7 \<rparr>)"
  using loaded_price_lookup [of "[(''vodacom'', \<lparr> cp_default = route_pricing_default,
      cp_countries = [(''MZ'', route_pricing_default \<lparr> rp_cost := 7 \<rparr>)],
      cp_networks = [(''MZ'', [(''Vodacom'', route_pricing_default \<lparr> rp_cost := 5 \<rparr>)])] \<rparr>)]" "''vodacom''" "''MZ''" "Some ''mcel''"]
  by (simp add: pricing_ok_def configured_price_def)

section \<open>The cheapest candidate\<close>

definition small_cost :: "i64 \<Rightarrow> bool" where
  "small_cost c = (0 \<le> sint c \<and> sint c \<le> 2 ^ 50)"

lemma i64_exact: "\<bar>sint w\<bar> < 2 ^ 53 \<Longrightarrow> f64_of_i64 w = Fin (of_int (sint w))"
  by (simp add: f64_of_i64_def f64_of_int_exact)

lemma least_cost_eq:
  assumes "small_cost c"
  shows "least_cost_score c = round64 (1 / of_int (sint c + 1))"
proof -
  define n where "n = sint c + 1"
  have c: "\<bar>sint c\<bar> < 2 ^ 53" "\<bar>n\<bar> < 2 ^ 53" "n \<noteq> 0" using assms by (simp_all add: small_cost_def n_def)
  have "fadd (f64_of_i64 c) (Fin 1) = round64 (of_int n)" using i64_exact [OF c(1)] by (simp add: n_def)
  then have "fadd (f64_of_i64 c) (Fin 1) = Fin (of_int n)" using round64_int [OF c(2)] by simp
  then show ?thesis using c(3) by (simp add: least_cost_score_def flip: n_def)
qed

lemma reciprocal_near:
  assumes "0 < n" "n \<le> 2 ^ 51"
  obtains r where "round64 (1 / of_int n) = Fin r" "\<bar>r - 1 / of_int n\<bar> \<le> 1 / of_int n * unit_roundoff"
proof (rule round64_near)
  have n: "(0::rat) < of_int n" "(1::rat) \<le> of_int n" using assms(1) by simp_all
  have "(of_int n :: rat) \<le> of_int (2 ^ 51)" using assms(2) unfolding of_int_le_iff .
  then have "1 / (2 ^ 51 :: rat) \<le> 1 / of_int n" using n by (intro divide_left_mono) simp_all
  moreover have "2 powi (- 1022) \<le> (1 / 2 ^ 51 :: rat)" by (simp add: power_int_minus_divide)
  ultimately show "2 powi (- 1022) \<le> (1 / of_int n :: rat)" by linarith
  have "1 / of_int n \<le> (1 :: rat)" using n by simp
  then show "1 / of_int n \<le> (2 powi 1000 :: rat)" by (rule order.trans) simp
qed

text \<open>Different reciprocals of numbers up to \<open>2^51\<close> stay different after rounding.\<close>

lemma reciprocal_strict:
  assumes "0 < m" "m < n" "n \<le> 2 ^ 51"
  shows "fless (round64 (1 / of_int n)) (round64 (1 / of_int m))"
proof -
  let ?m = "of_int m :: rat" and ?n = "of_int n :: rat"
  obtain r where r: "round64 (1 / ?n) = Fin r" "\<bar>r - 1 / ?n\<bar> \<le> 1 / ?n * unit_roundoff"
    using reciprocal_near [of n] assms by auto
  obtain t where t: "round64 (1 / ?m) = Fin t" "\<bar>t - 1 / ?m\<bar> \<le> 1 / ?m * unit_roundoff"
    using reciprocal_near [of m] assms by auto
  have pos: "0 < ?m" "0 < ?n" using assms by simp_all
  have mn: "?m + 1 \<le> ?n" using assms(2) by (metis of_int_1 of_int_add of_int_le_iff zless_imp_add1_zle)
  have "?n \<le> of_int (2 ^ 51)" using assms(3) unfolding of_int_le_iff .
  then have n51: "?n \<le> 2 ^ 51" by simp
  have u: "0 < unit_roundoff" by (simp add: unit_roundoff_def)
  have "(?m + ?n) * unit_roundoff \<le> (2 ^ 51 + 2 ^ 51) * unit_roundoff" using mn n51 u by (intro mult_right_mono) simp_all
  also have "\<dots> < 1" by (simp add: unit_roundoff_def)
  finally have "(?m + ?n) * unit_roundoff < ?n - ?m" using mn by linarith
  then have "(?m + ?n) * unit_roundoff / (?m * ?n) < (?n - ?m) / (?m * ?n)" using pos by (intro divide_strict_right_mono) simp_all
  moreover have "(?m + ?n) * unit_roundoff / (?m * ?n) = 1 / ?n * unit_roundoff + 1 / ?m * unit_roundoff"
    using pos by (simp add: field_simps)
  moreover have "(?n - ?m) / (?m * ?n) = 1 / ?m - 1 / ?n" using pos by (simp add: field_simps)
  ultimately have "1 / ?n * unit_roundoff + 1 / ?m * unit_roundoff < 1 / ?m - 1 / ?n" by simp
  then have "r < t" using r(2) t(2) by linarith
  then show ?thesis using r(1) t(1) by simp
qed

lemma least_cost_order:
  assumes "small_cost c" "small_cost d"
  shows "fless (least_cost_score c) (least_cost_score d) \<longleftrightarrow> sint d < sint c"
proof -
  have strict: "fless (least_cost_score a) (least_cost_score b)" if "small_cost a" "small_cost b" "sint b < sint a" for a b
    unfolding least_cost_eq [OF that(1)] least_cost_eq [OF that(2)]
    using that by (intro reciprocal_strict) (simp_all add: small_cost_def)
  show ?thesis
  proof
    assume l: "fless (least_cost_score c) (least_cost_score d)"
    show "sint d < sint c"
    proof (rule ccontr)
      assume "\<not> sint d < sint c"
      then consider "sint c = sint d" | "sint c < sint d" by linarith
      then show False
        using l strict [OF assms(2,1)] fless_asym
        by cases (auto simp: least_cost_eq [OF assms(1)] least_cost_eq [OF assms(2)])
    qed
  qed (rule strict [OF assms])
qed

lemma sint_diff:
  assumes "- (2 ^ 63) \<le> sint a - sint b" "sint a - sint b < 2 ^ 63"
  shows "sint (a - b :: i64) = sint a - sint b"
  using assms by (simp add: sint_word_ariths signed_take_bit_int_eq_self)

text \<open>Strategies whose score depends on the cost alone, with prices and revenues in a range where they are exact.\<close>

definition cost_driven :: "cost_routing_strategy \<Rightarrow> i64 option \<Rightarrow> bool" where
  "cost_driven strategy revenue =
     (strategy = LeastCost \<or> strategy = MaxMargin \<and> (case revenue of None \<Rightarrow> True | Some v \<Rightarrow> \<bar>sint v\<bar> \<le> 2 ^ 50))"

lemma strategy_score_order:
  assumes "cost_driven strategy revenue" "small_cost (ra_effective_cost a)" "small_cost (ra_effective_cost b)"
  shows "fless (strategy_score strategy revenue a) (strategy_score strategy revenue b) \<longleftrightarrow>
      sint (ra_effective_cost b) < sint (ra_effective_cost a)"
proof (cases "strategy = LeastCost \<or> revenue = None")
  case True
  then show ?thesis using assms least_cost_order [OF assms(2,3)]
    by (cases strategy) (auto simp: strategy_score_def cost_driven_def)
next
  case False
  then obtain v where v: "strategy = MaxMargin" "revenue = Some v" "\<bar>sint v\<bar> \<le> 2 ^ 50"
    using assms(1) by (auto simp: cost_driven_def split: option.splits)
  have e: "f64_of_i64 (v - ra_effective_cost r) = Fin (of_int (sint v - sint (ra_effective_cost r)))"
    if "small_cost (ra_effective_cost r)" for r
  proof -
    have "sint (v - ra_effective_cost r) = sint v - sint (ra_effective_cost r)"
      using that v(3) by (intro sint_diff) (auto simp: small_cost_def)
    moreover have "\<bar>sint v - sint (ra_effective_cost r)\<bar> < 2 ^ 53" using that v(3) by (auto simp: small_cost_def)
    ultimately show ?thesis using i64_exact [of "v - ra_effective_cost r"] by metis
  qed
  have sc: "strategy_score strategy revenue r = f64_of_i64 (v - ra_effective_cost r)" for r using v(1,2) by (simp add: strategy_score_def)
  show ?thesis unfolding sc e [OF assms(2)] e [OF assms(3)] fless.simps of_int_less_iff by simp
qed

lemma cost_driven_not_nan:
  assumes "cost_driven strategy revenue"
  shows "strategy_score strategy revenue r \<noteq> NaN"
proof -
  have i: "f64_of_i64 w \<noteq> NaN" for w by (simp add: f64_of_i64_def f64_of_int_def)
  have "fadd x (Fin 1) \<noteq> NaN" if "x \<noteq> NaN" for x using that by (cases x) simp_all
  moreover have "fdiv (Fin 1) x \<noteq> NaN" if "x \<noteq> NaN" for x using that by (cases x) (simp_all add: finf_def)
  ultimately have "least_cost_score w \<noteq> NaN" for w using i by (simp add: least_cost_score_def)
  then show ?thesis using i assms by (cases strategy) (auto simp: strategy_score_def cost_driven_def split: option.splits)
qed

text \<open>C11: the least-cost strategy, and the maximal-margin strategy for a given revenue, return the first of the
  cheapest candidates, for prices from 0 to \<open>2^50\<close> units: double-precision scores keep different prices apart.\<close>

theorem cheapest_route_selected:
  assumes "candidates \<noteq> []" "cost_driven strategy revenue"
    and "\<forall>c \<in> set candidates. small_cost (rp_cost (effective_pricing (cr_pricing_store r) country network c))"
  shows "\<exists>pre c post. select_route_with_strategy r candidates country network revenue strategy = Some c \<and>
    candidates = pre @ c # post \<and>
    (\<forall>x \<in> set pre. sint (rp_cost (effective_pricing (cr_pricing_store r) country network c)) <
       sint (rp_cost (effective_pricing (cr_pricing_store r) country network x))) \<and>
    (\<forall>x \<in> set post. sint (rp_cost (effective_pricing (cr_pricing_store r) country network c)) \<le>
       sint (rp_cost (effective_pricing (cr_pricing_store r) country network x)))"
proof -
  define f where "f = calculate_score strategy revenue \<circ> candidate_of (cr_pricing_store r) country network"
  define cost where "cost = (\<lambda>c. sint (rp_cost (effective_pricing (cr_pricing_store r) country network c)))"
  define best where "best = hd (sort_desc ra_score (map f candidates))"
  have sc: "ra_score (f c) = strategy_score strategy revenue (candidate_of (cr_pricing_store r) country network c)"
    and cl: "ra_cluster (f c) = c"
    and ec: "sint (ra_effective_cost (candidate_of (cr_pricing_store r) country network c)) = cost c" for c
    by (simp_all add: f_def calculate_score_def candidate_of_def Let_def cost_def)
  have nan: "\<forall>x \<in> set (map f candidates). ra_score x \<noteq> NaN" using cost_driven_not_nan [OF assms(2)] by (simp add: sc)
  have ne: "map f candidates \<noteq> []" using assms(1) by simp
  obtain pre post where h: "map f candidates = pre @ best # post"
    "\<forall>x \<in> set pre. fless (ra_score x) (ra_score best)" "\<forall>x \<in> set post. \<not> fless (ra_score best) (ra_score x)"
    by (rule hd_sort_desc [OF ne nan, folded best_def])
  obtain us c vs where c: "candidates = us @ c # vs" "map f us = pre" "f c = best" "map f vs = post"
    using h(1) by (auto simp: map_eq_append_conv map_eq_Cons_conv)
  have order: "fless (ra_score (f x)) (ra_score (f y)) \<longleftrightarrow> cost y < cost x" if "x \<in> set candidates" "y \<in> set candidates" for x y
    unfolding sc ec [symmetric] using that assms(3) by (intro strategy_score_order [OF assms(2)]) (simp_all add: candidate_of_def Let_def)
  have "sort_desc ra_score (map f candidates) \<noteq> []" using assms(1) by (metis map_is_Nil_conv mset_sort_desc mset_zero_iff)
  then have "select_route_with_strategy r candidates country network revenue strategy = Some (ra_cluster best)"
    using assms(1) unfolding select_route_with_strategy_def best_def f_def by (simp add: Let_def split: list.splits)
  then have "select_route_with_strategy r candidates country network revenue strategy = Some c" by (simp add: cl flip: c(3))
  moreover have "cost c < cost x" if "x \<in> set us" for x
    using order [of x c] bspec [OF h(2), of "f x"] that c by auto
  moreover have "cost c \<le> cost x" if "x \<in> set vs" for x
    using order [of c x] bspec [OF h(3), of "f x"] that c by (auto simp: not_less)
  ultimately show ?thesis using c(1) unfolding cost_def by blast
qed

definition sample_router :: cost_router where
  "sample_router =
     \<lparr> cr_pricing_store = set_default ''movitel'' (route_pricing_default \<lparr> rp_cost := 8 \<rparr>)
         (set_default ''vodacom'' (route_pricing_default \<lparr> rp_cost := 15 \<rparr>) pricing_store_new),
       cr_default_strategy = LeastCost \<rparr>"

theorem cheapest_route_selected_witness:
  "select_route_with_strategy sample_router [''vodacom'', ''movitel''] ''MZ'' None None LeastCost = Some ''movitel''"
proof -
  have p: "rp_cost (effective_pricing (cr_pricing_store sample_router) ''MZ'' None ''movitel'') = 8"
    "rp_cost (effective_pricing (cr_pricing_store sample_router) ''MZ'' None ''vodacom'') = 15"
    by (simp_all add: effective_pricing_def sample_router_def get_pricing_def set_default_def pricing_store_new_def)
  then have "\<forall>c \<in> set [''vodacom'', ''movitel'']. small_cost (rp_cost (effective_pricing (cr_pricing_store sample_router) ''MZ'' None c))"
    by (simp add: small_cost_def)
  from cheapest_route_selected [OF _ _ this, of LeastCost None] obtain pre c post where
    "select_route_with_strategy sample_router [''vodacom'', ''movitel''] ''MZ'' None None LeastCost = Some c"
    "[''vodacom'', ''movitel''] = pre @ c # post"
    "\<forall>x \<in> set pre. sint (rp_cost (effective_pricing (cr_pricing_store sample_router) ''MZ'' None c)) <
       sint (rp_cost (effective_pricing (cr_pricing_store sample_router) ''MZ'' None x))"
    "\<forall>x \<in> set post. sint (rp_cost (effective_pricing (cr_pricing_store sample_router) ''MZ'' None c)) \<le>
       sint (rp_cost (effective_pricing (cr_pricing_store sample_router) ''MZ'' None x))"
    by (auto simp: cost_driven_def)
  then show ?thesis using p by (auto simp: Cons_eq_append_conv)
qed

text \<open>A negative price (a rebate) of two units or more ranks behind every price that is not negative: its reciprocal is
  below zero.\<close>

lemma rebate_ranks_last: "fless (least_cost_score (- 2)) (least_cost_score 1000)"
proof -
  have a: "f64_of_i64 (- 2) = Fin (- 2)" using i64_exact [of "- 2"] by simp
  have b: "round64 (- 1) = Fin (- 1)" using round64_int [of "- 1"] by simp
  obtain r where r: "least_cost_score 1000 = Fin r" "\<bar>r - 1 / of_int 1001\<bar> \<le> 1 / of_int 1001 * unit_roundoff"
    using reciprocal_near [of 1001] least_cost_eq [of 1000] by (auto simp: small_cost_def)
  have "1 / of_int 1001 * unit_roundoff < (1 / of_int 1001 :: rat)" by (simp add: unit_roundoff_def)
  then have "0 < r" using r(2) by linarith
  then show ?thesis using a b r(1) by (simp add: least_cost_score_def)
qed

end
