(* ===== verification/Plugins.thy ===== *)
theory Plugins
  imports Message Float64
begin

text \<open>
  Plugins (\<^verbatim>\<open>src/src/plugins/\<close>): hook points and their registry, the execution contexts, the plugin manager and the
  HTTP webhook plugin.  A plugin and a hook handler are foreign code: a handler is a function of the hook context and a
  world \<open>'w\<close> it may change, a plugin a value \<open>'p\<close> with the operations of \<open>plugin_ops\<close>.  YAML values are an opaque type \<open>'y\<close>
  with the accessors the code uses (\<open>yaml\<close>); answers of an HTTP server are a function of the attempt.

  The lemmas show the order in which handlers run and where a chain ends, what unloading leaves, and how often and how
  long the webhook client tries.
\<close>

section \<open>Types (plugins/types.rs)\<close>

type_synonym i32 = "32 word"

datatype plugin_type = PtLua | PtWasm | PtNative | PtWebhook

fun plugin_type_name :: "plugin_type \<Rightarrow> string" where
  "plugin_type_name PtLua = ''lua''"
| "plugin_type_name PtWasm = ''wasm''"
| "plugin_type_name PtNative = ''native''"
| "plugin_type_name PtWebhook = ''webhook''"

record plugin_capabilities =
  pc_can_filter :: bool
  pc_can_route :: bool
  pc_can_transform :: bool
  pc_can_store :: bool
  pc_can_hook :: bool

record plugin_limits =
  pl_memory_mb :: u64
  pl_timeout_ms :: u64
  pl_fuel :: "u64 option"

definition plugin_limits_default :: plugin_limits where
  "plugin_limits_default = \<lparr> pl_memory_mb = 64, pl_timeout_ms = 1000, pl_fuel = None \<rparr>"

record 'y plugin_config =
  pg_name :: string
  pg_plugin_type :: plugin_type
  pg_path :: "string option"
  pg_url :: "string option"
  pg_enabled :: bool
  pg_priority :: i32
  pg_limits :: plugin_limits
  pg_config :: "(string, 'y) alist"

record 'y plugins_config =
  px_directory :: "string option"
  px_instances :: "'y plugin_config list"

datatype plugin_error =
    NotFound string
  | LoadFailed string
  | InitFailed string
  | ExecutionFailed string
  | PluginTimeout duration
  | MemoryLimitExceeded
  | InvalidConfig string
  | HookNotSupported string
  | LuaError string
  | WasmError string
  | NativeError string
  | WebhookError string
  | PluginIo

datatype log_level = LvTrace | LvDebug | LvInfo | LvWarn | LvError

datatype filter_action =
    FaContinue
  | FaAccept
  | FaReject u32 "string option"
  | FaDrop
  | FaLog log_level string
  | FaQuarantine
  | FaModify

record 'y plugin_candidate =
  pa_route_name :: string
  pa_cluster_name :: string
  pa_priority :: i32
  pa_weight :: u32
  pa_fallback :: "string list"
  pa_quality_score :: "f64 option"
  pa_cost :: "i64 option"
  pa_latency_ms :: "u64 option"
  pa_metadata :: "(string, 'y) alist"

section \<open>Hooks (plugins/hooks.rs)\<close>

datatype hook_point =
    OnMessageReceived | BeforeFilter | AfterFilter | BeforeRoute | AfterRoute | BeforeForward | AfterForward
  | OnDeliveryReceipt | OnMessageFailed | OnMessageDelivered | OnConfigReload | OnEndpointDown | OnEndpointUp | OnShutdown

fun hook_name :: "hook_point \<Rightarrow> string" where
  "hook_name OnMessageReceived = ''on_message_received''"
| "hook_name BeforeFilter = ''before_filter''"
| "hook_name AfterFilter = ''after_filter''"
| "hook_name BeforeRoute = ''before_route''"
| "hook_name AfterRoute = ''after_route''"
| "hook_name BeforeForward = ''before_forward''"
| "hook_name AfterForward = ''after_forward''"
| "hook_name OnDeliveryReceipt = ''on_delivery_receipt''"
| "hook_name OnMessageFailed = ''on_message_failed''"
| "hook_name OnMessageDelivered = ''on_message_delivered''"
| "hook_name OnConfigReload = ''on_config_reload''"
| "hook_name OnEndpointDown = ''on_endpoint_down''"
| "hook_name OnEndpointUp = ''on_endpoint_up''"
| "hook_name OnShutdown = ''on_shutdown''"

datatype hook_action = HookContinue | HookStop | HookSkipPriority

record hook_context =
  hx_hook_point :: hook_point
  hx_message :: "stored_message option"
  hx_route_name :: "string option"
  hx_cluster_name :: "string option"
  hx_endpoint :: "string option"
  hx_error :: "string option"
  hx_data :: "(string, string) alist"

definition hook_context_new :: "hook_point \<Rightarrow> hook_context" where
  "hook_context_new p =
     \<lparr> hx_hook_point = p, hx_message = None, hx_route_name = None, hx_cluster_name = None, hx_endpoint = None,
       hx_error = None, hx_data = [] \<rparr>"

definition hook_context_for_message :: "hook_point \<Rightarrow> stored_message \<Rightarrow> hook_context" where
  "hook_context_for_message p m =
     \<lparr> hx_hook_point = p, hx_message = Some m, hx_route_name = None, hx_cluster_name = None, hx_endpoint = None,
       hx_error = None, hx_data = [] \<rparr>"

definition hook_with_route :: "string \<Rightarrow> string \<Rightarrow> hook_context \<Rightarrow> hook_context" where
  "hook_with_route route cluster x = x \<lparr> hx_route_name := Some route, hx_cluster_name := Some cluster \<rparr>"

definition hook_with_endpoint :: "string \<Rightarrow> hook_context \<Rightarrow> hook_context" where
  "hook_with_endpoint e x = x \<lparr> hx_endpoint := Some e \<rparr>"

definition hook_with_error :: "string \<Rightarrow> hook_context \<Rightarrow> hook_context" where
  "hook_with_error e x = x \<lparr> hx_error := Some e \<rparr>"

definition hook_with_data :: "string \<Rightarrow> string \<Rightarrow> hook_context \<Rightarrow> hook_context" where
  "hook_with_data k v x = x \<lparr> hx_data := AList.update k v (hx_data x) \<rparr>"

record 'w hook_handler =
  hh_plugin_name :: string
  hh_priority :: i32
  hh_handler :: "hook_context \<Rightarrow> 'w \<Rightarrow> (plugin_error + hook_action) \<times> 'w"

type_synonym 'w hook_registry = "(hook_point, 'w hook_handler list) alist"

definition handlers_at :: "hook_point \<Rightarrow> 'w hook_registry \<Rightarrow> 'w hook_handler list" where
  "handlers_at p r = (case map_of r p of None \<Rightarrow> [] | Some hs \<Rightarrow> hs)"

definition register_hook :: "hook_point \<Rightarrow> 'w hook_handler \<Rightarrow> 'w hook_registry \<Rightarrow> 'w hook_registry" where
  "register_hook p h r = alist_upsert p [] (\<lambda>hs. sort_key (\<lambda>h. sint (hh_priority h)) (hs @ [h])) r"

definition unregister_plugin :: "string \<Rightarrow> 'w hook_registry \<Rightarrow> 'w hook_registry" where
  "unregister_plugin name r = map (\<lambda>(p, hs). (p, filter (\<lambda>h. hh_plugin_name h \<noteq> name) hs)) r"

fun run_handlers :: "hook_context \<Rightarrow> 'w hook_handler list \<Rightarrow> 'w \<Rightarrow> (plugin_error + unit) \<times> 'w" where
  "run_handlers x [] w = (Inr (), w)"
| "run_handlers x (h # hs) w =
     (case hh_handler h x w of
        (Inl e, w') \<Rightarrow> (Inl e, w')
      | (Inr HookContinue, w') \<Rightarrow> run_handlers x hs w'
      | (Inr HookStop, w') \<Rightarrow> (Inr (), w')
      | (Inr HookSkipPriority, w') \<Rightarrow> run_handlers x hs w')"

definition execute_hooks :: "hook_context \<Rightarrow> 'w hook_registry \<Rightarrow> 'w \<Rightarrow> (plugin_error + unit) \<times> 'w" where
  "execute_hooks x r w =
     (case map_of r (hx_hook_point x) of None \<Rightarrow> (Inr (), w) | Some hs \<Rightarrow> run_handlers x hs w)"

definition has_handlers :: "hook_point \<Rightarrow> 'w hook_registry \<Rightarrow> bool" where
  "has_handlers p r = (case map_of r p of None \<Rightarrow> False | Some hs \<Rightarrow> hs \<noteq> [])"

definition handler_count :: "'w hook_registry \<Rightarrow> nat" where
  "handler_count r = sum_list (map (\<lambda>e. length (snd e)) r)"

definition handler_count_for :: "hook_point \<Rightarrow> 'w hook_registry \<Rightarrow> nat" where
  "handler_count_for p r = (case map_of r p of None \<Rightarrow> 0 | Some hs \<Rightarrow> length hs)"

section \<open>Contexts (plugins/context.rs)\<close>

text \<open>The accessors of YAML values.\<close>

record 'y yaml =
  ya_as_str :: "'y \<Rightarrow> string option"
  ya_as_i64 :: "'y \<Rightarrow> i64 option"
  ya_as_u64 :: "'y \<Rightarrow> u64 option"
  ya_as_f64 :: "'y \<Rightarrow> f64 option"
  ya_as_bool :: "'y \<Rightarrow> bool option"
  ya_as_sequence :: "'y \<Rightarrow> 'y list option"

record 'y plugin_context =
  pz_plugin_name :: string
  pz_config :: "(string, 'y) alist"
  pz_plugin_dir :: "string option"
  pz_debug :: bool

definition plugin_context_new :: "string \<Rightarrow> 'y plugin_context" where
  "plugin_context_new name = \<lparr> pz_plugin_name = name, pz_config = [], pz_plugin_dir = None, pz_debug = False \<rparr>"

definition plugin_with_config :: "(string, 'y) alist \<Rightarrow> 'y plugin_context \<Rightarrow> 'y plugin_context" where
  "plugin_with_config c x = x \<lparr> pz_config := c \<rparr>"

definition plugin_with_dir :: "string \<Rightarrow> 'y plugin_context \<Rightarrow> 'y plugin_context" where
  "plugin_with_dir d x = x \<lparr> pz_plugin_dir := Some d \<rparr>"

definition plugin_with_debug :: "bool \<Rightarrow> 'y plugin_context \<Rightarrow> 'y plugin_context" where
  "plugin_with_debug b x = x \<lparr> pz_debug := b \<rparr>"

definition get_string :: "'y yaml \<Rightarrow> string \<Rightarrow> 'y plugin_context \<Rightarrow> string option" where
  "get_string Y k x = Option.bind (map_of (pz_config x) k) (ya_as_str Y)"

definition get_i64 :: "'y yaml \<Rightarrow> string \<Rightarrow> 'y plugin_context \<Rightarrow> i64 option" where
  "get_i64 Y k x = Option.bind (map_of (pz_config x) k) (ya_as_i64 Y)"

definition get_f64 :: "'y yaml \<Rightarrow> string \<Rightarrow> 'y plugin_context \<Rightarrow> f64 option" where
  "get_f64 Y k x = Option.bind (map_of (pz_config x) k) (ya_as_f64 Y)"

definition get_bool :: "'y yaml \<Rightarrow> string \<Rightarrow> 'y plugin_context \<Rightarrow> bool option" where
  "get_bool Y k x = Option.bind (map_of (pz_config x) k) (ya_as_bool Y)"

record filter_context =
  fc_message :: stored_message
  fc_source :: string
  fc_destination :: string
  fc_sender_id :: string
  fc_system_id :: string
  fc_content :: string
  fc_esm_class :: u8
  fc_protocol_id :: u8
  fc_data_coding :: u8
  fc_client_ip :: "string option"
  fc_tls_enabled :: bool
  fc_metadata :: "(string, string) alist"
  fc_modified :: bool

text \<open>\<open>utf8_lossy\<close> replaces what is not UTF-8; strings are the bytes of their UTF-8 form.\<close>

definition filter_from_message :: "(u8 list \<Rightarrow> string) \<Rightarrow> stored_message \<Rightarrow> string \<Rightarrow> filter_context" where
  "filter_from_message utf8_lossy m system_id =
     \<lparr> fc_message = m, fc_source = m_source m, fc_destination = m_destination m, fc_sender_id = m_source m,
       fc_system_id = system_id, fc_content = utf8_lossy (m_short_message m), fc_esm_class = m_esm_class m,
       fc_protocol_id = 0, fc_data_coding = m_data_coding m, fc_client_ip = None, fc_tls_enabled = False,
       fc_metadata = [], fc_modified = False \<rparr>"

definition filter_with_esm_class :: "u8 \<Rightarrow> filter_context \<Rightarrow> filter_context" where
  "filter_with_esm_class v x = x \<lparr> fc_esm_class := v \<rparr>"

definition filter_with_protocol_id :: "u8 \<Rightarrow> filter_context \<Rightarrow> filter_context" where
  "filter_with_protocol_id v x = x \<lparr> fc_protocol_id := v \<rparr>"

definition filter_with_data_coding :: "u8 \<Rightarrow> filter_context \<Rightarrow> filter_context" where
  "filter_with_data_coding v x = x \<lparr> fc_data_coding := v \<rparr>"

definition filter_with_client_ip :: "string \<Rightarrow> filter_context \<Rightarrow> filter_context" where
  "filter_with_client_ip v x = x \<lparr> fc_client_ip := Some v \<rparr>"

definition filter_with_tls :: "bool \<Rightarrow> filter_context \<Rightarrow> filter_context" where
  "filter_with_tls v x = x \<lparr> fc_tls_enabled := v \<rparr>"

definition filter_with_metadata :: "string \<Rightarrow> string \<Rightarrow> filter_context \<Rightarrow> filter_context" where
  "filter_with_metadata k v x = x \<lparr> fc_metadata := AList.update k v (fc_metadata x) \<rparr>"

definition mark_modified :: "filter_context \<Rightarrow> filter_context" where
  "mark_modified x = x \<lparr> fc_modified := True \<rparr>"

definition set_destination :: "string \<Rightarrow> filter_context \<Rightarrow> filter_context" where
  "set_destination d x =
     x \<lparr> fc_destination := d, fc_message := (fc_message x) \<lparr> m_destination := d \<rparr>, fc_modified := True \<rparr>"

definition set_source :: "string \<Rightarrow> filter_context \<Rightarrow> filter_context" where
  "set_source v x = x \<lparr> fc_source := v, fc_message := (fc_message x) \<lparr> m_source := v \<rparr>, fc_modified := True \<rparr>"

definition set_content :: "string \<Rightarrow> filter_context \<Rightarrow> filter_context" where
  "set_content c x =
     x \<lparr> fc_content := c, fc_message := (fc_message x) \<lparr> m_short_message := map (\<lambda>ch. of_char ch) c \<rparr>, fc_modified := True \<rparr>"

record plugin_route_context =
  rx_destination :: string
  rx_source :: "string option"
  rx_sender_id :: "string option"
  rx_system_id :: "string option"
  rx_service_type :: "string option"
  rx_esm_class :: "u8 option"
  rx_data_coding :: "u8 option"
  rx_priority :: i32
  rx_metadata :: "(string, string) alist"

definition route_context_new :: "string \<Rightarrow> plugin_route_context" where
  "route_context_new d =
     \<lparr> rx_destination = d, rx_source = None, rx_sender_id = None, rx_system_id = None, rx_service_type = None,
       rx_esm_class = None, rx_data_coding = None, rx_priority = 0, rx_metadata = [] \<rparr>"

definition route_with_source :: "string \<Rightarrow> plugin_route_context \<Rightarrow> plugin_route_context" where
  "route_with_source v x = x \<lparr> rx_source := Some v \<rparr>"

definition route_with_sender_id :: "string \<Rightarrow> plugin_route_context \<Rightarrow> plugin_route_context" where
  "route_with_sender_id v x = x \<lparr> rx_sender_id := Some v \<rparr>"

definition route_with_system_id :: "string \<Rightarrow> plugin_route_context \<Rightarrow> plugin_route_context" where
  "route_with_system_id v x = x \<lparr> rx_system_id := Some v \<rparr>"

definition route_with_service_type :: "string \<Rightarrow> plugin_route_context \<Rightarrow> plugin_route_context" where
  "route_with_service_type v x = x \<lparr> rx_service_type := Some v \<rparr>"

definition route_with_esm_class :: "u8 \<Rightarrow> plugin_route_context \<Rightarrow> plugin_route_context" where
  "route_with_esm_class v x = x \<lparr> rx_esm_class := Some v \<rparr>"

definition route_with_data_coding :: "u8 \<Rightarrow> plugin_route_context \<Rightarrow> plugin_route_context" where
  "route_with_data_coding v x = x \<lparr> rx_data_coding := Some v \<rparr>"

definition route_with_priority :: "i32 \<Rightarrow> plugin_route_context \<Rightarrow> plugin_route_context" where
  "route_with_priority v x = x \<lparr> rx_priority := v \<rparr>"

definition route_with_metadata :: "string \<Rightarrow> string \<Rightarrow> plugin_route_context \<Rightarrow> plugin_route_context" where
  "route_with_metadata k v x = x \<lparr> rx_metadata := AList.update k v (rx_metadata x) \<rparr>"

section \<open>Webhooks (plugins/loader/webhook.rs)\<close>

record 'y webhook_plugin =
  wh_name :: string
  wh_url :: string
  wh_config :: "'y plugin_config"
  wh_timeout :: duration
  wh_retry_count :: u32
  wh_events :: "string list"

text \<open>\<open>build\<close> is the construction of the HTTP client with its timeout.\<close>

definition webhook_new ::
  "'y yaml \<Rightarrow> (duration \<Rightarrow> string option) \<Rightarrow> string \<Rightarrow> string \<Rightarrow> 'y plugin_config \<Rightarrow> plugin_error + 'y webhook_plugin" where
  "webhook_new Y build name url c =
     (let timeout = from_millis (unat (pl_timeout_ms (pg_limits c))) in
      case build timeout of
        Some e \<Rightarrow> Inl (LoadFailed (''failed to create HTTP client: '' @ e))
      | None \<Rightarrow>
          Inr \<lparr> wh_name = name, wh_url = url, wh_config = c, wh_timeout = timeout,
                wh_retry_count = ucast (case Option.bind (map_of (pg_config c) ''retry_count'') (ya_as_u64 Y) of None \<Rightarrow> 3 | Some n \<Rightarrow> n),
                wh_events = (case Option.bind (map_of (pg_config c) ''events'') (ya_as_sequence Y) of
                    None \<Rightarrow> [] | Some seq \<Rightarrow> List.map_filter (ya_as_str Y) seq) \<rparr>)"

datatype 'b http_answer = HttpStatus nat 'b | HttpTimedOut | HttpNoConnection string | HttpRequestFailed string

text \<open>The loop over the attempts; the delays it waits are returned with the result.  \<open>2u64.pow\<close> wraps.\<close>

definition retry_delay :: "nat \<Rightarrow> u64" where
  "retry_delay attempt = 100 * 2 ^ (attempt - 1)"

fun send_attempts ::
  "(nat \<Rightarrow> string) \<Rightarrow> ('b \<Rightarrow> string + 'r) \<Rightarrow> (nat \<Rightarrow> 'b http_answer) \<Rightarrow> duration \<Rightarrow> nat list \<Rightarrow> plugin_error option \<Rightarrow>
   (plugin_error + 'r) \<times> u64 list" where
  "send_attempts status_text parse post timeout [] last_error =
     (Inl (case last_error of None \<Rightarrow> WebhookError ''unknown error'' | Some e \<Rightarrow> e), [])"
| "send_attempts status_text parse post timeout (attempt # rest) last_error =
     (let waits = (if 0 < attempt then [retry_delay attempt] else []);
          again = (\<lambda>e. case send_attempts status_text parse post timeout rest (Some e) of (r, ds) \<Rightarrow> (r, waits @ ds))
      in case post attempt of
           HttpStatus code body \<Rightarrow>
             if 200 \<le> code \<and> code < 300 then
               (case parse body of
                  Inl e \<Rightarrow> (Inl (WebhookError (''failed to parse response: '' @ e)), waits)
                | Inr r \<Rightarrow> (Inr r, waits))
             else if code = 429 then again (WebhookError ''rate limited'')
             else if 500 \<le> code \<and> code < 600 then again (WebhookError (''server error: '' @ status_text code))
             else (Inl (WebhookError (''webhook returned status '' @ status_text code)), waits)
         | HttpTimedOut \<Rightarrow> again (PluginTimeout timeout)
         | HttpNoConnection e \<Rightarrow> again (WebhookError (''connection failed: '' @ e))
         | HttpRequestFailed e \<Rightarrow> again (WebhookError (''request failed: '' @ e)))"

definition trim_end_slashes :: "string \<Rightarrow> string" where
  "trim_end_slashes url = rev (dropWhile (\<lambda>c. c = CHR ''/'') (rev url))"

definition send_request ::
  "(nat \<Rightarrow> string) \<Rightarrow> ('b \<Rightarrow> string + 'r) \<Rightarrow> (string \<Rightarrow> nat \<Rightarrow> 'b http_answer) \<Rightarrow> string \<Rightarrow> 'y webhook_plugin \<Rightarrow>
   (plugin_error + 'r) \<times> u64 list" where
  "send_request status_text parse post endpoint w =
     send_attempts status_text parse (post (trim_end_slashes (wh_url w) @ ''/'' @ endpoint)) (wh_timeout w)
       [0 ..< Suc (unat (wh_retry_count w))] None"

definition webhook_capabilities :: "'y webhook_plugin \<Rightarrow> plugin_capabilities" where
  "webhook_capabilities w =
     \<lparr> pc_can_filter = True, pc_can_route = True, pc_can_transform = True, pc_can_store = False,
       pc_can_hook = (wh_events w \<noteq> []) \<rparr>"

text \<open>A failed ping is only logged.  The result lists the delays of the ping's retries.\<close>

definition webhook_initialize ::
  "'y yaml \<Rightarrow> (nat \<Rightarrow> string) \<Rightarrow> ('b \<Rightarrow> string + bool) \<Rightarrow> (string \<Rightarrow> nat \<Rightarrow> 'b http_answer) \<Rightarrow> 'y plugin_context \<Rightarrow>
   'y webhook_plugin \<Rightarrow> (plugin_error + unit) \<times> u64 list" where
  "webhook_initialize Y status_text parse post x w =
     (if Option.bind (map_of (pz_config x) ''verify_on_init'') (ya_as_bool Y) = Some True
      then (Inr (), snd (send_request status_text parse post ''ping'' w))
      else (Inr (), []))"

definition webhook_shutdown :: "'y webhook_plugin \<Rightarrow> (plugin_error + unit) \<times> 'y webhook_plugin" where
  "webhook_shutdown w = (Inr (), w)"

record filter_response =
  fp_action :: string
  fp_status :: "u32 option"
  fp_reason :: "string option"

definition filter_action_of :: "filter_response \<Rightarrow> filter_action" where
  "filter_action_of r =
     (if fp_action r = ''continue'' then FaContinue
      else if fp_action r = ''accept'' then FaAccept
      else if fp_action r = ''drop'' then FaDrop
      else if fp_action r = ''quarantine'' then FaQuarantine
      else if fp_action r = ''modify'' then FaModify
      else if fp_action r = ''reject'' then
        FaReject (case fp_status r of None \<Rightarrow> 8 | Some st \<Rightarrow> st) (fp_reason r)
      else FaContinue)"

text \<open>\<open>post\<close> includes the payload of the request.\<close>

definition webhook_filter ::
  "(nat \<Rightarrow> string) \<Rightarrow> ('b \<Rightarrow> string + filter_response) \<Rightarrow> (filter_context \<Rightarrow> string \<Rightarrow> nat \<Rightarrow> 'b http_answer) \<Rightarrow>
   filter_context \<Rightarrow> 'y webhook_plugin \<Rightarrow> plugin_error + filter_action" where
  "webhook_filter status_text parse post x w =
     (case fst (send_request status_text parse (post x) ''filter'' w) of
        Inl e \<Rightarrow> Inl e
      | Inr r \<Rightarrow> Inr (filter_action_of r))"

definition webhook_select_route ::
  "(nat \<Rightarrow> string) \<Rightarrow> ('b \<Rightarrow> string + string option) \<Rightarrow>
   (plugin_route_context \<Rightarrow> 'y plugin_candidate list \<Rightarrow> string \<Rightarrow> nat \<Rightarrow> 'b http_answer) \<Rightarrow>
   plugin_route_context \<Rightarrow> 'y plugin_candidate list \<Rightarrow> 'y webhook_plugin \<Rightarrow> plugin_error + string option" where
  "webhook_select_route status_text parse post x cs w = fst (send_request status_text parse (post x cs) ''select_route'' w)"

definition webhook_on_hook ::
  "(nat \<Rightarrow> string) \<Rightarrow> ('b \<Rightarrow> string + string option) \<Rightarrow> (hook_context \<Rightarrow> string \<Rightarrow> nat \<Rightarrow> 'b http_answer) \<Rightarrow>
   hook_context \<Rightarrow> 'y webhook_plugin \<Rightarrow> plugin_error + hook_action" where
  "webhook_on_hook status_text parse post x w =
     (if wh_events w \<noteq> [] \<and> hook_name (hx_hook_point x) \<notin> set (wh_events w) then Inr HookContinue
      else
        case fst (send_request status_text parse (post x) ''hook'' w) of
          Inl e \<Rightarrow> Inl e
        | Inr a \<Rightarrow>
            Inr (if a = Some ''stop'' then HookStop else if a = Some ''skip_priority'' then HookSkipPriority else HookContinue))"

section \<open>Order of handlers\<close>

abbreviation prio :: "'w hook_handler \<Rightarrow> int" where
  "prio h \<equiv> sint (hh_priority h)"

definition registered :: "(hook_point \<times> 'w hook_handler) list \<Rightarrow> 'w hook_registry" where
  "registered regs = fold (\<lambda>(p, h). register_hook p h) regs []"

lemma handlers_at_register:
  "handlers_at q (register_hook p h r) = (if q = p then sort_key prio (handlers_at p r @ [h]) else handlers_at q r)"
  by (simp add: handlers_at_def register_hook_def map_of_upsert)

lemma handlers_at_registered: "handlers_at p (registered regs) = sort_key prio (map snd (filter (\<lambda>e. fst e = p) regs))"
proof (induction regs rule: rev_induct)
  case Nil
  then show ?case by (simp add: handlers_at_def registered_def)
next
  case (snoc e regs)
  have "registered (regs @ [e]) = register_hook (fst e) (snd e) (registered regs)"
    by (simp add: registered_def case_prod_unfold)
  then show ?case
    using snoc.IH by (cases "fst e = p") (simp_all add: handlers_at_register sort_key_append_sorted)
qed

lemma handlers_at_unregister:
  "handlers_at p (unregister_plugin name r) = filter (\<lambda>h. hh_plugin_name h \<noteq> name) (handlers_at p r)"
  by (induction r) (auto simp: handlers_at_def unregister_plugin_def)

lemma execute_is_run: "execute_hooks x r w = run_handlers x (handlers_at (hx_hook_point x) r) w"
  by (simp add: execute_hooks_def handlers_at_def split: option.split)

lemma count_is_length: "handler_count_for p r = length (handlers_at p r)"
  by (simp add: handler_count_for_def handlers_at_def split: option.split)

lemma has_handlers_iff: "has_handlers p r \<longleftrightarrow> handlers_at p r \<noteq> []"
  by (simp add: has_handlers_def handlers_at_def split: option.split)

text \<open>A chain goes through the handlers whose action lets it go on, and ends at the first that stops or fails.\<close>

definition goes_on :: "(plugin_error + hook_action) \<Rightarrow> bool" where
  "goes_on r = (r = Inr HookContinue \<or> r = Inr HookSkipPriority)"

fun pass :: "hook_context \<Rightarrow> 'w hook_handler list \<Rightarrow> 'w \<Rightarrow> 'w option" where
  "pass x [] w = Some w"
| "pass x (h # hs) w =
     (if goes_on (fst (hh_handler h x w)) then pass x hs (snd (hh_handler h x w)) else None)"

definition chain_end :: "(plugin_error + hook_action) \<Rightarrow> plugin_error + unit" where
  "chain_end r = (case r of Inl e \<Rightarrow> Inl e | Inr _ \<Rightarrow> Inr ())"

lemma run_handlers_step:
  "run_handlers x (h # hs) w =
     (if goes_on (fst (hh_handler h x w)) then run_handlers x hs (snd (hh_handler h x w))
      else (chain_end (fst (hh_handler h x w)), snd (hh_handler h x w)))"
  by (cases "hh_handler h x w") (auto simp: goes_on_def chain_end_def split: sum.splits hook_action.splits)

lemma run_handlers_pass: "pass x ks w = Some v \<Longrightarrow> run_handlers x (ks @ hs) w = run_handlers x hs v"
  by (induction ks arbitrary: w) (auto simp: run_handlers_step simp del: run_handlers.simps(2) split: if_splits)

lemma run_handlers_ends:
  obtains (through) v where "pass x hs w = Some v" "run_handlers x hs w = (Inr (), v)"
  | (ended) ks h rest v where "hs = ks @ h # rest" "pass x ks w = Some v" "\<not> goes_on (fst (hh_handler h x v))"
      "run_handlers x hs w = (chain_end (fst (hh_handler h x v)), snd (hh_handler h x v))"
proof (induction hs arbitrary: w thesis)
  case (Cons h hs)
  show ?case
  proof (cases "goes_on (fst (hh_handler h x w))")
    case True
    note step = run_handlers_step [of x h hs w] True
    show ?thesis
    proof (rule Cons.IH [of "snd (hh_handler h x w)"])
      fix v
      assume "pass x hs (snd (hh_handler h x w)) = Some v" "run_handlers x hs (snd (hh_handler h x w)) = (Inr (), v)"
      with step show thesis by (intro Cons.prems(1) [of v]) simp_all
    next
      fix ks k rest v
      assume "hs = ks @ k # rest" "pass x ks (snd (hh_handler h x w)) = Some v" "\<not> goes_on (fst (hh_handler k x v))"
        "run_handlers x hs (snd (hh_handler h x w)) = (chain_end (fst (hh_handler k x v)), snd (hh_handler k x v))"
      with step show thesis by (intro Cons.prems(2) [of "h # ks" k rest v]) simp_all
    qed
  next
    case False
    with run_handlers_step [of x h hs w] show ?thesis by (intro Cons.prems(2) [of "[]" h hs w]) simp_all
  qed
qed simp

section \<open>Attempts of the webhook client\<close>

text \<open>The answers after which the client tries again, and the error it then remembers.\<close>

fun retryable :: "'b http_answer \<Rightarrow> bool" where
  "retryable (HttpStatus code _) = (code = 429 \<or> (500 \<le> code \<and> code < 600))"
| "retryable HttpTimedOut = True"
| "retryable (HttpNoConnection _) = True"
| "retryable (HttpRequestFailed _) = True"

fun answer_error :: "(nat \<Rightarrow> string) \<Rightarrow> duration \<Rightarrow> 'b http_answer \<Rightarrow> plugin_error" where
  "answer_error st d (HttpStatus code _) =
     (if code = 429 then WebhookError ''rate limited''
      else if 500 \<le> code \<and> code < 600 then WebhookError (''server error: '' @ st code)
      else WebhookError (''webhook returned status '' @ st code))"
| "answer_error st d HttpTimedOut = PluginTimeout d"
| "answer_error st d (HttpNoConnection e) = WebhookError (''connection failed: '' @ e)"
| "answer_error st d (HttpRequestFailed e) = WebhookError (''request failed: '' @ e)"

fun final_answer :: "(nat \<Rightarrow> string) \<Rightarrow> ('b \<Rightarrow> string + 'r) \<Rightarrow> 'b http_answer \<Rightarrow> plugin_error + 'r" where
  "final_answer st parse (HttpStatus code b) =
     (if 200 \<le> code \<and> code < 300
      then (case parse b of Inl e \<Rightarrow> Inl (WebhookError (''failed to parse response: '' @ e)) | Inr r \<Rightarrow> Inr r)
      else Inl (WebhookError (''webhook returned status '' @ st code)))"
| "final_answer st parse _ = Inl (WebhookError ''unknown error'')"

definition waits_before :: "nat \<Rightarrow> u64 list" where
  "waits_before attempt = (if 0 < attempt then [retry_delay attempt] else [])"

lemma send_attempts_step:
  "send_attempts st parse post d (a # as) le =
     (if retryable (post a)
      then apsnd (\<lambda>ds. waits_before a @ ds) (send_attempts st parse post d as (Some (answer_error st d (post a))))
      else (final_answer st parse (post a), waits_before a))"
  by (cases "post a") (auto simp: waits_before_def Let_def apsnd_def map_prod_def split: prod.splits sum.splits)

lemma send_attempts_retry:
  "\<forall>a \<in> set as. retryable (post a) \<Longrightarrow>
   send_attempts st parse post d (as @ bs) le =
     apsnd (\<lambda>ds. concat (map waits_before as) @ ds)
       (send_attempts st parse post d bs (if as = [] then le else Some (answer_error st d (post (last as)))))"
  by (induction as arbitrary: le) (auto simp: send_attempts_step prod_eq_iff simp del: send_attempts.simps(2) split: prod.splits)

lemma concat_waits_before: "concat (map waits_before [0 ..< n]) = map retry_delay [1 ..< n]"
  by (induction n) (auto simp: waits_before_def)

text \<open>Every request ends: at the first answer that is not retried, or after \<open>retry_count + 1\<close> requests with the error of
  the last; the client waits once before every request but the first.\<close>

lemma send_request_outcome:
  "send_request st parse post ep w =
     (let ask = post (trim_end_slashes (wh_url w) @ ''/'' @ ep); n = unat (wh_retry_count w)
      in case find (\<lambda>a. \<not> retryable (ask a)) [0 ..< Suc n] of
           Some k \<Rightarrow> (final_answer st parse (ask k), map retry_delay [1 ..< Suc k])
         | None \<Rightarrow> (Inl (answer_error st (wh_timeout w) (ask n)), map retry_delay [1 ..< Suc n]))"
proof -
  let ?ask = "post (trim_end_slashes (wh_url w) @ ''/'' @ ep)" and ?n = "unat (wh_retry_count w)"
  show ?thesis
  proof (cases "find (\<lambda>a. \<not> retryable (?ask a)) [0 ..< Suc ?n]")
    case None
    then have "\<forall>a \<in> set [0 ..< Suc ?n]. retryable (?ask a)" by (auto simp: find_None_iff)
    from send_attempts_retry [OF this, of st parse "wh_timeout w" "[]" None] None show ?thesis
      by (simp add: send_request_def Let_def concat_waits_before del: upt_Suc)
  next
    case (Some k)
    then have k: "k < Suc ?n" "\<not> retryable (?ask k)" "\<forall>a < k. retryable (?ask a)"
      by (auto simp: find_Some_iff simp del: upt_Suc)
    then have split: "[0 ..< Suc ?n] = [0 ..< k] @ k # [Suc k ..< Suc ?n]"
      by (metis upt_conv_Cons upt_add_eq_append le_add1 zero_le less_imp_le_nat le_add_diff_inverse)
    have "\<forall>a \<in> set [0 ..< k]. retryable (?ask a)" using k(3) by simp
    from send_attempts_retry [OF this, of st parse "wh_timeout w" "k # [Suc k ..< Suc ?n]" None] k(2)
    have "send_attempts st parse ?ask (wh_timeout w) ([0 ..< k] @ k # [Suc k ..< Suc ?n]) None =
        (final_answer st parse (?ask k), map retry_delay [1 ..< k] @ waits_before k)"
      by (simp add: send_attempts_step concat_waits_before del: upt_Suc send_attempts.simps(2))
    moreover have "map retry_delay [1 ..< k] @ waits_before k = map retry_delay [1 ..< Suc k]"
      by (cases k) (simp_all add: waits_before_def)
    ultimately show ?thesis
      using Some by (simp only: send_request_def Let_def split [symmetric] option.simps)
  qed
qed

text \<open>Up to 58 retries no delay overflows and the waits of a request that fails \<open>n\<close> times add up to \<open>100 (2\<^sup>n - 1)\<close>
  milliseconds.\<close>

lemma unat_retry_delay: "0 < k \<Longrightarrow> k \<le> 58 \<Longrightarrow> unat (retry_delay k) = 100 * 2 ^ (k - 1)"
proof -
  assume k: "0 < k" "k \<le> 58"
  then have "(2::nat) ^ (k - 1) \<le> 2 ^ 57" by (intro power_increasing) auto
  then have "100 * (2::nat) ^ (k - 1) < 2 ^ 64" by simp
  moreover have "retry_delay k = of_nat (100 * 2 ^ (k - 1))" by (simp add: retry_delay_def)
  ultimately show ?thesis by (simp add: unsigned_of_nat take_bit_nat_eq_self del: of_nat_mult of_nat_power of_nat_numeral)
qed

lemma total_backoff: "n \<le> 58 \<Longrightarrow> (\<Sum>d \<leftarrow> map retry_delay [1 ..< Suc n]. unat d) = 100 * (2 ^ n - 1)"
  by (induction n) (auto simp: unat_retry_delay algebra_simps)

section \<open>Properties\<close>


lemma skip_priority_runs_next_handler:
  "fst (hh_handler h x w) = Inr HookSkipPriority \<Longrightarrow>
   run_handlers x (h # k # hs) w = run_handlers x (k # hs) (snd (hh_handler h x w))"
  by (cases "hh_handler h x w") auto

end
