(* ===== verification/Lua.thy ===== *)
theory Lua
  imports Plugins
begin

text \<open>
  Lua plugins (\<^verbatim>\<open>src/src/plugins/loader/lua.rs\<close>).  The interpreter is foreign code: \<open>lua_engine\<close> is the part of its
  interface the loader uses, over a state \<open>'l\<close> it changes.  Tables and functions are handles, so that two paths may lead to
  the same table.  \<open>raw_lua\<close> names what a fresh interpreter without metatables does on \<open>get\<close> and \<open>set\<close>; the lemmas about
  the sandbox assume it.

  They show what the sandbox takes away and that the loaded module table still leads to the library it hides.
\<close>

section \<open>The interpreter\<close>

datatype lua_value =
    LuaNil
  | LuaBoolean bool
  | LuaInteger int
  | LuaNumber f64
  | LuaString string
  | LuaTable nat
  | LuaFunction nat
  | LuaOther nat

record ('l, 'y) lua_engine =
  le_new :: 'l
  le_globals :: "'l \<Rightarrow> nat"
  le_set_memory_limit :: "u64 \<Rightarrow> 'l \<Rightarrow> (string + unit) \<times> 'l"
  le_get :: "nat \<Rightarrow> lua_value \<Rightarrow> 'l \<Rightarrow> (string + lua_value) \<times> 'l"
  le_set :: "nat \<Rightarrow> lua_value \<Rightarrow> lua_value \<Rightarrow> 'l \<Rightarrow> (string + unit) \<times> 'l"
  le_create_table :: "'l \<Rightarrow> (string + nat) \<times> 'l"
  le_create_function :: "string \<Rightarrow> 'l \<Rightarrow> (string + nat) \<times> 'l"
  le_exec :: "string \<Rightarrow> 'l \<Rightarrow> (string + unit) \<times> 'l"
  le_call :: "nat \<Rightarrow> lua_value list \<Rightarrow> 'l \<Rightarrow> (string + lua_value) \<times> 'l"
  le_contains_key :: "nat \<Rightarrow> string \<Rightarrow> 'l \<Rightarrow> (string + bool) \<times> 'l"
  le_to_value :: "(string, 'y) alist \<Rightarrow> 'l \<Rightarrow> (string + lua_value) \<times> 'l"
  le_as_string :: "lua_value \<Rightarrow> string option"
  le_as_u32 :: "lua_value \<Rightarrow> u32 option"
  le_of_u64 :: "u64 \<Rightarrow> lua_value"
  le_conv_error :: "lua_value \<Rightarrow> string"

text \<open>Computations that change the interpreter and may fail, and what the loader does with their results: \<open>?\<close>,
  \<^verbatim>\<open>map_err\<close>, \<^verbatim>\<open>unwrap_or\<close>, \<^verbatim>\<open>ok()\<close>.\<close>

type_synonym ('l, 'e, 'a) lua = "'l \<Rightarrow> ('e + 'a) \<times> 'l"

definition lua_return :: "'a \<Rightarrow> ('l, 'e, 'a) lua" where
  "lua_return a s = (Inr a, s)"

definition lua_fail :: "'e \<Rightarrow> ('l, 'e, 'a) lua" where
  "lua_fail e s = (Inl e, s)"

definition lua_bind :: "('l, 'e, 'a) lua \<Rightarrow> ('a \<Rightarrow> ('l, 'e, 'b) lua) \<Rightarrow> ('l, 'e, 'b) lua" where
  "lua_bind m f s = (case m s of (Inl e, s') \<Rightarrow> (Inl e, s') | (Inr a, s') \<Rightarrow> f a s')"

definition map_err :: "('e \<Rightarrow> 'd) \<Rightarrow> ('l, 'e, 'a) lua \<Rightarrow> ('l, 'd, 'a) lua" where
  "map_err g m s = (case m s of (Inl e, s') \<Rightarrow> (Inl (g e), s') | (Inr a, s') \<Rightarrow> (Inr a, s'))"

definition lua_ok :: "('l, 'e, 'a) lua \<Rightarrow> ('l, 'd, 'a option) lua" where
  "lua_ok m s = (case m s of (Inl e, s') \<Rightarrow> (Inr None, s') | (Inr a, s') \<Rightarrow> (Inr (Some a), s'))"

definition lua_unwrap_or :: "'a \<Rightarrow> ('l, 'e, 'a) lua \<Rightarrow> ('l, 'd, 'a) lua" where
  "lua_unwrap_or d m s = (case m s of (Inl e, s') \<Rightarrow> (Inr d, s') | (Inr a, s') \<Rightarrow> (Inr a, s'))"

text \<open>Conversions of a value that was read.\<close>

definition as_table :: "('l, 'y) lua_engine \<Rightarrow> lua_value \<Rightarrow> ('l, string, nat) lua" where
  "as_table E v = (case v of LuaTable t \<Rightarrow> lua_return t | _ \<Rightarrow> lua_fail (le_conv_error E v))"

definition as_function :: "('l, 'y) lua_engine \<Rightarrow> lua_value \<Rightarrow> ('l, string, nat) lua" where
  "as_function E v = (case v of LuaFunction f \<Rightarrow> lua_return f | _ \<Rightarrow> lua_fail (le_conv_error E v))"

definition as_string :: "('l, 'y) lua_engine \<Rightarrow> lua_value \<Rightarrow> ('l, string, string) lua" where
  "as_string E v = (case le_as_string E v of Some t \<Rightarrow> lua_return t | None \<Rightarrow> lua_fail (le_conv_error E v))"

definition as_u32 :: "('l, 'y) lua_engine \<Rightarrow> lua_value \<Rightarrow> ('l, string, u32) lua" where
  "as_u32 E v = (case le_as_u32 E v of Some n \<Rightarrow> lua_return n | None \<Rightarrow> lua_fail (le_conv_error E v))"

definition get_as :: "('l, 'y) lua_engine \<Rightarrow> (lua_value \<Rightarrow> ('l, string, 'a) lua) \<Rightarrow> nat \<Rightarrow> string \<Rightarrow> ('l, string, 'a) lua" where
  "get_as E conv t k = lua_bind (le_get E t (LuaString k)) conv"

text \<open>\<^verbatim>\<open>table.set(k, v).ok()\<close> for a sequence of fields.\<close>

fun set_fields :: "('l, 'y) lua_engine \<Rightarrow> nat \<Rightarrow> (string \<times> lua_value) list \<Rightarrow> ('l, 'e, unit) lua" where
  "set_fields E t [] = lua_return ()"
| "set_fields E t ((k, v) # kvs) = lua_bind (lua_ok (le_set E t (LuaString k) v)) (\<lambda>_. set_fields E t kvs)"

definition opt_field :: "string \<Rightarrow> ('a \<Rightarrow> lua_value) \<Rightarrow> 'a option \<Rightarrow> (string \<times> lua_value) list" where
  "opt_field k f x = (case x of None \<Rightarrow> [] | Some a \<Rightarrow> [(k, f a)])"

section \<open>The sandbox\<close>

definition lua_log_level :: "string \<Rightarrow> log_level" where
  "lua_log_level level =
     (if level = ''trace'' then LvTrace
      else if level = ''debug'' then LvDebug
      else if level = ''info'' then LvInfo
      else if level = ''warn'' then LvWarn
      else if level = ''error'' then LvError
      else LvInfo)"

definition add_smppd_api :: "('l, 'y) lua_engine \<Rightarrow> string \<Rightarrow> ('l, plugin_error, unit) lua" where
  "add_smppd_api E pkg_version s0 =
     (let globals = le_globals E s0 in
      lua_bind (map_err (\<lambda>e. LoadFailed (''failed to create smppd table: '' @ e)) (le_create_table E)) (\<lambda>smppd.
      lua_bind (map_err (\<lambda>e. LoadFailed (''failed to create log function: '' @ e)) (le_create_function E ''log'')) (\<lambda>log_fn.
      lua_bind (map_err (\<lambda>e. LoadFailed (''failed to set log function: '' @ e))
                 (le_set E smppd (LuaString ''log'') (LuaFunction log_fn))) (\<lambda>_.
      lua_bind (map_err (\<lambda>e. LoadFailed (''failed to set version: '' @ e))
                 (le_set E smppd (LuaString ''version'') (LuaString pkg_version))) (\<lambda>_.
      map_err (\<lambda>e. LoadFailed (''failed to set smppd global: '' @ e))
                 (le_set E globals (LuaString ''smppd'') (LuaTable smppd)))))) s0)"

definition removed_os :: "string list" where
  "removed_os = [''execute'', ''exit'', ''remove'', ''rename'', ''setlocale'', ''getenv'', ''tmpname'']"

text \<open>\<^verbatim>\<open>if let Ok(t) = globals.get::<Table>(k)\<close>: nothing is done when there is no such table.\<close>

definition with_table :: "('l, 'y) lua_engine \<Rightarrow> nat \<Rightarrow> string \<Rightarrow> (nat \<Rightarrow> ('l, 'e, unit) lua) \<Rightarrow> ('l, 'e, unit) lua" where
  "with_table E t k f =
     lua_bind (lua_ok (get_as E (as_table E) t k)) (\<lambda>r. case r of None \<Rightarrow> lua_return () | Some a \<Rightarrow> f a)"

definition create_sandbox ::
  "('l, 'y) lua_engine \<Rightarrow> string \<Rightarrow> 'y plugin_config \<Rightarrow> (plugin_error + unit) \<times> 'l" where
  "create_sandbox E pkg_version c =
     (let memory_limit = pl_memory_mb (pg_limits c) * 1024 * 1024; globals = le_globals E (le_new E) in
      lua_bind (map_err (\<lambda>e. LoadFailed (''failed to set memory limit: '' @ e)) (le_set_memory_limit E memory_limit)) (\<lambda>_.
      lua_bind (with_table E globals ''os'' (\<lambda>os. set_fields E os (map (\<lambda>k. (k, LuaNil)) removed_os))) (\<lambda>_.
      lua_bind (set_fields E globals [(''io'', LuaNil), (''loadfile'', LuaNil), (''dofile'', LuaNil), (''debug'', LuaNil)]) (\<lambda>_.
      lua_bind (with_table E globals ''package'' (\<lambda>p. set_fields E p [(''loadlib'', LuaNil)])) (\<lambda>_.
      add_smppd_api E pkg_version)))) (le_new E))"

section \<open>Loading\<close>

record ('l, 'y) lua_plugin =
  lp_name :: string
  lp_version :: string
  lp_capabilities :: plugin_capabilities
  lp_lua :: 'l
  lp_config :: "'y plugin_config"

definition lua_capabilities :: "('l, 'y) lua_engine \<Rightarrow> nat \<Rightarrow> ('l, 'e, plugin_capabilities) lua" where
  "lua_capabilities E t =
     lua_bind (lua_unwrap_or False (le_contains_key E t ''filter'')) (\<lambda>f.
     lua_bind (lua_unwrap_or False (le_contains_key E t ''select_route'')) (\<lambda>r.
     lua_bind (lua_unwrap_or False (le_contains_key E t ''transform'')) (\<lambda>x.
     lua_bind (lua_unwrap_or False (le_contains_key E t ''on_hook'')) (\<lambda>h.
     lua_return \<lparr> pc_can_filter = f, pc_can_route = r, pc_can_transform = x, pc_can_store = False, pc_can_hook = h \<rparr>))))"

definition lua_load ::
  "('l, 'y) lua_engine \<Rightarrow> string \<Rightarrow> (string \<Rightarrow> string + string) \<Rightarrow> string \<Rightarrow> 'y plugin_config \<Rightarrow>
   plugin_error + ('l, 'y) lua_plugin" where
  "lua_load E pkg_version read_to_string path c =
     (case read_to_string path of
        Inl e \<Rightarrow> Inl (LoadFailed (''failed to read lua file: '' @ e))
      | Inr script \<Rightarrow>
          (case create_sandbox E pkg_version c of
             (Inl e, _) \<Rightarrow> Inl e
           | (Inr _, s) \<Rightarrow>
               (case lua_bind (map_err (\<lambda>e. LoadFailed (''lua syntax error: '' @ e)) (le_exec E script)) (\<lambda>_ s1.
                     lua_bind (map_err (\<lambda>_. LoadFailed ''plugin table not found'')
                                (get_as E (as_table E) (le_globals E s1) ''plugin'')) (\<lambda>t.
                     lua_bind (lua_unwrap_or (pg_name c) (get_as E (as_string E) t ''name'')) (\<lambda>name.
                     lua_bind (lua_unwrap_or ''1.0.0'' (get_as E (as_string E) t ''version'')) (\<lambda>version.
                     lua_bind (lua_capabilities E t) (\<lambda>cap.
                     lua_return (name, version, cap))))) s1) s of
                  (Inl e, _) \<Rightarrow> Inl e
                | (Inr (name, version, cap), s') \<Rightarrow>
                    Inr \<lparr> lp_name = name, lp_version = version, lp_capabilities = cap, lp_lua = s', lp_config = c \<rparr>)))"

section \<open>Calls into a plugin\<close>

definition on_lua ::
  "(('l, plugin_error, 'a) lua) \<Rightarrow> ('l, 'y) lua_plugin \<Rightarrow> (plugin_error + 'a) \<times> ('l, 'y) lua_plugin" where
  "on_lua m p = (case m (lp_lua p) of (r, s) \<Rightarrow> (r, p \<lparr> lp_lua := s \<rparr>))"

definition plugin_table ::
  "('l, 'y) lua_engine \<Rightarrow> (string \<Rightarrow> plugin_error) \<Rightarrow> ('l, plugin_error, nat) lua" where
  "plugin_table E err s =
     map_err (\<lambda>_. err ''plugin table not found'') (get_as E (as_table E) (le_globals E s) ''plugin'') s"

definition lua_initialize ::
  "('l, 'y) lua_engine \<Rightarrow> 'y plugin_context \<Rightarrow> ('l, 'y) lua_plugin \<Rightarrow> (plugin_error + unit) \<times> ('l, 'y) lua_plugin" where
  "lua_initialize E x =
     on_lua (lua_bind (plugin_table E InitFailed) (\<lambda>t.
       lua_bind (lua_ok (get_as E (as_function E) t ''initialize'')) (\<lambda>f.
       case f of
         None \<Rightarrow> lua_return ()
       | Some init_fn \<Rightarrow>
           lua_bind (map_err (\<lambda>e. InitFailed (''failed to convert config: '' @ e)) (le_to_value E (pz_config x))) (\<lambda>v.
           lua_bind (map_err (\<lambda>e. InitFailed (''initialize failed: '' @ e)) (le_call E init_fn [v])) (\<lambda>_.
           lua_return ())))))"

definition lua_shutdown ::
  "('l, 'y) lua_engine \<Rightarrow> ('l, 'y) lua_plugin \<Rightarrow> (plugin_error + unit) \<times> ('l, 'y) lua_plugin" where
  "lua_shutdown E =
     on_lua (\<lambda>s. with_table E (le_globals E s) ''plugin'' (\<lambda>t.
       lua_bind (lua_ok (get_as E (as_function E) t ''shutdown'')) (\<lambda>f.
       case f of
         None \<Rightarrow> lua_return ()
       | Some shutdown_fn \<Rightarrow> lua_bind (lua_ok (le_call E shutdown_fn [])) (\<lambda>_. lua_return ()))) s)"

definition exec_error :: "string \<Rightarrow> string \<Rightarrow> plugin_error" where
  "exec_error what e = ExecutionFailed (what @ e)"

definition filter_fields :: "filter_context \<Rightarrow> (string \<times> lua_value) list" where
  "filter_fields x =
     [(''source'', LuaString (fc_source x)), (''destination'', LuaString (fc_destination x)),
      (''sender_id'', LuaString (fc_sender_id x)), (''system_id'', LuaString (fc_system_id x)),
      (''content'', LuaString (fc_content x)), (''esm_class'', LuaInteger (uint (fc_esm_class x))),
      (''data_coding'', LuaInteger (uint (fc_data_coding x)))]
     @ opt_field ''client_ip'' LuaString (fc_client_ip x)
     @ [(''tls_enabled'', LuaBoolean (fc_tls_enabled x))]"

definition lua_filter_action ::
  "('l, 'y) lua_engine \<Rightarrow> nat \<Rightarrow> string \<Rightarrow> ('l, plugin_error, filter_action) lua" where
  "lua_filter_action E result action =
     (if action = ''continue'' then lua_return FaContinue
      else if action = ''accept'' then lua_return FaAccept
      else if action = ''drop'' then lua_return FaDrop
      else if action = ''quarantine'' then lua_return FaQuarantine
      else if action = ''modify'' then lua_return FaModify
      else if action = ''reject'' then
        lua_bind (lua_unwrap_or 8 (get_as E (as_u32 E) result ''status'')) (\<lambda>status.
        lua_bind (lua_ok (get_as E (as_string E) result ''reason'')) (\<lambda>reason.
        lua_return (FaReject status reason)))
      else if action = ''log'' then
        lua_bind (lua_unwrap_or [] (get_as E (as_string E) result ''message'')) (\<lambda>message.
        lua_return (FaLog LvInfo message))
      else lua_return FaContinue)"

definition lua_filter ::
  "('l, 'y) lua_engine \<Rightarrow> filter_context \<Rightarrow> ('l, 'y) lua_plugin \<Rightarrow> (plugin_error + filter_action) \<times> ('l, 'y) lua_plugin" where
  "lua_filter E x =
     on_lua (lua_bind (plugin_table E ExecutionFailed) (\<lambda>t.
       lua_bind (map_err (\<lambda>_. ExecutionFailed ''filter function not found'') (get_as E (as_function E) t ''filter'')) (\<lambda>filter_fn.
       lua_bind (map_err (exec_error ''failed to create context: '') (le_create_table E)) (\<lambda>ctx.
       lua_bind (set_fields E ctx (filter_fields x)) (\<lambda>_.
       lua_bind (map_err (exec_error ''filter failed: '') (lua_bind (le_call E filter_fn [LuaTable ctx]) (as_table E))) (\<lambda>result.
       lua_bind (lua_unwrap_or ''continue'' (get_as E (as_string E) result ''action'')) (\<lambda>action.
       lua_filter_action E result action)))))))"

definition candidate_fields :: "('l, 'y) lua_engine \<Rightarrow> 'y plugin_candidate \<Rightarrow> (string \<times> lua_value) list" where
  "candidate_fields E c =
     [(''route_name'', LuaString (pa_route_name c)), (''cluster_name'', LuaString (pa_cluster_name c)),
      (''priority'', LuaInteger (sint (pa_priority c))), (''weight'', LuaInteger (uint (pa_weight c)))]
     @ opt_field ''quality_score'' LuaNumber (pa_quality_score c)
     @ opt_field ''cost'' (\<lambda>n. LuaInteger (sint n)) (pa_cost c)
     @ opt_field ''latency_ms'' (le_of_u64 E) (pa_latency_ms c)"

fun set_candidates ::
  "('l, 'y) lua_engine \<Rightarrow> nat \<Rightarrow> nat \<Rightarrow> 'y plugin_candidate list \<Rightarrow> ('l, 'e, unit) lua" where
  "set_candidates E t i [] = lua_return ()"
| "set_candidates E t i (c # cs) =
     lua_bind (lua_ok (le_create_table E)) (\<lambda>r.
     lua_bind (case r of
         None \<Rightarrow> lua_return ()
       | Some ct \<Rightarrow>
           lua_bind (set_fields E ct (candidate_fields E c)) (\<lambda>_.
           lua_bind (lua_ok (le_set E t (LuaInteger (int (Suc i))) (LuaTable ct))) (\<lambda>_. lua_return ()))) (\<lambda>_.
     set_candidates E t (Suc i) cs))"

text \<open>\<open>to_str\<close> is the check of a Lua string for UTF-8.\<close>

definition lua_select_route ::
  "('l, 'y) lua_engine \<Rightarrow> (string \<Rightarrow> bool) \<Rightarrow> plugin_route_context \<Rightarrow> 'y plugin_candidate list \<Rightarrow> ('l, 'y) lua_plugin \<Rightarrow>
   (plugin_error + string option) \<times> ('l, 'y) lua_plugin" where
  "lua_select_route E to_str x cs =
     on_lua (lua_bind (plugin_table E ExecutionFailed) (\<lambda>t.
       lua_bind (map_err (\<lambda>_. ExecutionFailed ''select_route function not found'')
                  (get_as E (as_function E) t ''select_route'')) (\<lambda>select_fn.
       lua_bind (map_err (exec_error ''failed to create context: '') (le_create_table E)) (\<lambda>ctx.
       lua_bind (set_fields E ctx ((''destination'', LuaString (rx_destination x))
                  # opt_field ''source'' LuaString (rx_source x) @ opt_field ''system_id'' LuaString (rx_system_id x)
                  @ [(''priority'', LuaInteger (sint (rx_priority x)))])) (\<lambda>_.
       lua_bind (map_err (exec_error ''failed to create candidates: '') (le_create_table E)) (\<lambda>candidates.
       lua_bind (set_candidates E candidates 0 cs) (\<lambda>_.
       lua_bind (map_err (exec_error ''select_route failed: '') (le_call E select_fn [LuaTable ctx, LuaTable candidates])) (\<lambda>v.
       lua_return (case v of LuaString n \<Rightarrow> (if to_str n then Some n else None) | _ \<Rightarrow> None)))))))))"

definition lua_on_hook ::
  "('l, 'y) lua_engine \<Rightarrow> hook_context \<Rightarrow> ('l, 'y) lua_plugin \<Rightarrow> (plugin_error + hook_action) \<times> ('l, 'y) lua_plugin" where
  "lua_on_hook E x =
     on_lua (lua_bind (plugin_table E ExecutionFailed) (\<lambda>t.
       lua_bind (map_err (\<lambda>_. ExecutionFailed ''on_hook function not found'') (get_as E (as_function E) t ''on_hook'')) (\<lambda>hook_fn.
       lua_bind (map_err (exec_error ''failed to create context: '') (le_create_table E)) (\<lambda>ctx.
       lua_bind (set_fields E ctx ((''hook_point'', LuaString (hook_name (hx_hook_point x)))
                  # opt_field ''route_name'' LuaString (hx_route_name x) @ opt_field ''cluster_name'' LuaString (hx_cluster_name x)
                  @ opt_field ''endpoint'' LuaString (hx_endpoint x) @ opt_field ''error'' LuaString (hx_error x))) (\<lambda>_.
       lua_bind (lua_unwrap_or ''continue'' (lua_bind (le_call E hook_fn [LuaTable ctx]) (as_string E))) (\<lambda>result.
       lua_return (if result = ''stop'' then HookStop
                   else if result = ''skip_priority'' then HookSkipPriority
                   else HookContinue)))))))"

section \<open>What the sandbox hides\<close>

text \<open>
  A fresh interpreter has no metatables: reading returns the entry and changes nothing; writing nil always succeeds; any
  other write succeeds or leaves the tables as they are; a new table is one that no table in use is; new functions and the
  memory limit touch no table.  \<open>tab\<close> gives the entries of a table, \<open>live\<close> the tables in use.
\<close>

definition same_tables :: "('l, 'y) lua_engine \<Rightarrow> ('l \<Rightarrow> nat \<Rightarrow> lua_value \<Rightarrow> lua_value) \<Rightarrow> ('l \<Rightarrow> nat set) \<Rightarrow> 'l \<Rightarrow> 'l \<Rightarrow> bool" where
  "same_tables E tab live s s' = (tab s' = tab s \<and> live s' = live s \<and> le_globals E s' = le_globals E s)"

definition written ::
  "('l, 'y) lua_engine \<Rightarrow> ('l \<Rightarrow> nat \<Rightarrow> lua_value \<Rightarrow> lua_value) \<Rightarrow> ('l \<Rightarrow> nat set) \<Rightarrow> nat \<Rightarrow> lua_value \<Rightarrow> lua_value \<Rightarrow> 'l \<Rightarrow> 'l \<Rightarrow> bool" where
  "written E tab live t k v s s' =
     (tab s' = (tab s)(t := (tab s t)(k := v)) \<and> live s' = live s \<and> le_globals E s' = le_globals E s)"

definition raw_lua :: "('l, 'y) lua_engine \<Rightarrow> ('l \<Rightarrow> nat \<Rightarrow> lua_value \<Rightarrow> lua_value) \<Rightarrow> ('l \<Rightarrow> nat set) \<Rightarrow> bool" where
  "raw_lua E tab live =
     ((\<forall>t k s. le_get E t k s = (Inr (tab s t k), s))
      \<and> (\<forall>t k v s. written E tab live t k v s (snd (le_set E t k v s)) \<and> fst (le_set E t k v s) = Inr ()
            \<or> v \<noteq> LuaNil \<and> same_tables E tab live s (snd (le_set E t k v s)) \<and> fst (le_set E t k v s) \<noteq> Inr ())
      \<and> (\<forall>s a s'. le_create_table E s = (Inr a, s') \<longrightarrow>
            a \<notin> live s \<and> live s' = insert a (live s) \<and> le_globals E s' = le_globals E s
            \<and> (\<forall>t. t \<noteq> a \<longrightarrow> tab s' t = tab s t))
      \<and> (\<forall>f s r s'. le_create_function E f s = (r, s') \<longrightarrow> same_tables E tab live s s')
      \<and> (\<forall>n s r s'. le_set_memory_limit E n s = (r, s') \<longrightarrow> same_tables E tab live s s'))"

lemma raw_get: "raw_lua E tab live \<Longrightarrow> le_get E t k s = (Inr (tab s t k), s)"
  by (simp add: raw_lua_def)

lemma raw_set_nil:
  "raw_lua E tab live \<Longrightarrow> fst (le_set E t k LuaNil s) = Inr () \<and> written E tab live t k LuaNil s (snd (le_set E t k LuaNil s))"
  unfolding raw_lua_def by blast

lemma raw_set_ok:
  "raw_lua E tab live \<Longrightarrow> le_set E t k v s = (Inr (), s') \<Longrightarrow> written E tab live t k v s s'"
  unfolding raw_lua_def by (metis fst_conv snd_conv)

lemma raw_create_table:
  "raw_lua E tab live \<Longrightarrow> le_create_table E s = (Inr a, s') \<Longrightarrow>
   a \<notin> live s \<and> live s' = insert a (live s) \<and> le_globals E s' = le_globals E s \<and> (\<forall>t. t \<noteq> a \<longrightarrow> tab s' t = tab s t)"
  unfolding raw_lua_def by blast

lemma raw_create_function:
  "raw_lua E tab live \<Longrightarrow> le_create_function E f s = (r, s') \<Longrightarrow> same_tables E tab live s s'"
  unfolding raw_lua_def by blast

lemma raw_memory_limit:
  "raw_lua E tab live \<Longrightarrow> le_set_memory_limit E n s = (r, s') \<Longrightarrow> same_tables E tab live s s'"
  unfolding raw_lua_def by blast

lemmas lua_run = lua_bind_def lua_return_def lua_fail_def map_err_def lua_ok_def lua_unwrap_or_def

text \<open>Fields set to nil: the table loses these entries and nothing else changes.\<close>

definition cleared ::
  "('l, 'y) lua_engine \<Rightarrow> ('l \<Rightarrow> nat \<Rightarrow> lua_value \<Rightarrow> lua_value) \<Rightarrow> ('l \<Rightarrow> nat set) \<Rightarrow> (nat \<Rightarrow> lua_value \<Rightarrow> bool) \<Rightarrow> 'l \<Rightarrow> 'l \<Rightarrow> bool" where
  "cleared E tab live P s s' =
     (tab s' = (\<lambda>t k. if P t k then LuaNil else tab s t k) \<and> live s' = live s \<and> le_globals E s' = le_globals E s)"

lemma set_fields_nil:
  assumes raw: "raw_lua E tab live"
  shows "\<exists>s'. set_fields E t (map (\<lambda>k. (k, LuaNil)) ks) s = (Inr () :: 'e + unit, s') \<and>
     cleared E tab live (\<lambda>u k. t = u \<and> k \<in> LuaString ` set ks) s s'"
proof (induction ks arbitrary: s)
  case (Cons k ks)
  obtain s1 where s1: "le_set E t (LuaString k) LuaNil s = (Inr (), s1)" "written E tab live t (LuaString k) LuaNil s s1"
    using raw_set_nil [OF raw, of t "LuaString k" s] by (metis prod.collapse)
  obtain s' where s': "set_fields E t (map (\<lambda>k. (k, LuaNil)) ks) s1 = (Inr () :: 'e + unit, s')"
    "cleared E tab live (\<lambda>u k. t = u \<and> k \<in> LuaString ` set ks) s1 s'"
    using Cons.IH by blast
  have "cleared E tab live (\<lambda>u x. t = u \<and> x \<in> LuaString ` set (k # ks)) s s'"
    using s1(2) s'(2) by (auto simp: written_def cleared_def fun_eq_iff)
  then show ?case using s1(1) s'(1) by (simp add: lua_run)
qed (simp add: lua_run cleared_def)

lemma with_table_nil:
  assumes raw: "raw_lua E tab live"
  shows "\<exists>s'. with_table E g n (\<lambda>t. set_fields E t (map (\<lambda>k. (k, LuaNil)) ks)) s = (Inr (), s') \<and>
     cleared E tab live (\<lambda>u k. tab s g (LuaString n) = LuaTable u \<and> k \<in> LuaString ` set ks) s s'"
proof (cases "\<exists>t. tab s g (LuaString n) = LuaTable t")
  case True
  then obtain t where t: "tab s g (LuaString n) = LuaTable t" by blast
  with set_fields_nil [OF raw, of t ks s] show ?thesis
    by (auto simp: with_table_def get_as_def raw_get [OF raw] as_table_def lua_run cleared_def)
next
  case False
  then show ?thesis
    by (auto simp: with_table_def get_as_def raw_get [OF raw] as_table_def lua_run cleared_def fun_eq_iff split: lua_value.split)
qed

lemma bind_Inr: "lua_bind m f s = (Inr b, s') \<longleftrightarrow> (\<exists>a s1. m s = (Inr a, s1) \<and> f a s1 = (Inr b, s'))"
  by (auto simp: lua_bind_def split: prod.splits sum.splits)

lemma map_err_Inr: "map_err g m s = (Inr a, s') \<longleftrightarrow> m s = (Inr a, s')"
  by (auto simp: map_err_def split: prod.splits sum.splits)

lemma smppd_api_effect:
  assumes raw: "raw_lua E tab live" and run: "add_smppd_api E v s = (Inr (), s')"
    and live: "t \<in> live s" and not: "(t, k) \<noteq> (le_globals E s, LuaString ''smppd'')"
  shows "tab s' t k = tab s t k"
proof -
  obtain a s1 f s2 s3 s4 where steps: "le_create_table E s = (Inr a, s1)" "le_create_function E ''log'' s1 = (Inr f, s2)"
    "le_set E a (LuaString ''log'') (LuaFunction f) s2 = (Inr (), s3)"
    "le_set E a (LuaString ''version'') (LuaString v) s3 = (Inr (), s4)"
    "le_set E (le_globals E s) (LuaString ''smppd'') (LuaTable a) s4 = (Inr (), s')"
    using run by (auto simp: add_smppd_api_def Let_def bind_Inr map_err_Inr)
  note effects = raw_create_table [OF raw steps(1)] raw_create_function [OF raw steps(2)]
    raw_set_ok [OF raw steps(3)] raw_set_ok [OF raw steps(4)] raw_set_ok [OF raw steps(5)]
  from effects(1) live have "t \<noteq> a" by blast
  with effects not show ?thesis by (auto simp: same_tables_def written_def)
qed

definition hidden :: "(nat \<Rightarrow> lua_value \<Rightarrow> lua_value) \<Rightarrow> nat \<Rightarrow> nat \<Rightarrow> string \<Rightarrow> bool" where
  "hidden T g t k =
     (t = g \<and> k \<in> set [''io'', ''loadfile'', ''dofile'', ''debug'']
      \<or> T g (LuaString ''os'') = LuaTable t \<and> k \<in> set removed_os
      \<or> T g (LuaString ''package'') = LuaTable t \<and> k = ''loadlib'')"

lemma sandbox_effect:
  assumes raw: "raw_lua E tab live" and run: "create_sandbox E v c = (Inr (), s)"
    and live: "t \<in> live (le_new E)" and not: "(t, k) \<noteq> (le_globals E (le_new E), ''smppd'')"
  shows "tab s t (LuaString k) =
     (if hidden (tab (le_new E)) (le_globals E (le_new E)) t k then LuaNil else tab (le_new E) t (LuaString k))"
proof -
  let ?s0 = "le_new E" and ?g = "le_globals E (le_new E)" and ?base = "[''io'', ''loadfile'', ''dofile'', ''debug'']"
  obtain s1 where s1: "le_set_memory_limit E (pl_memory_mb (pg_limits c) * 1024 * 1024) ?s0 = (Inr (), s1)"
    and run1: "lua_bind (with_table E ?g ''os'' (\<lambda>os. set_fields E os (map (\<lambda>k. (k, LuaNil)) removed_os))) (\<lambda>_.
      lua_bind (set_fields E ?g (map (\<lambda>k. (k, LuaNil)) ?base)) (\<lambda>_.
      lua_bind (with_table E ?g ''package'' (\<lambda>p. set_fields E p (map (\<lambda>k. (k, LuaNil)) [''loadlib'']))) (\<lambda>_.
      add_smppd_api E v))) s1 = (Inr (), s)"
    using run by (auto simp: create_sandbox_def Let_def bind_Inr map_err_Inr)
  obtain s2 where s2: "with_table E ?g ''os'' (\<lambda>os. set_fields E os (map (\<lambda>k. (k, LuaNil)) removed_os)) s1 =
      (Inr () :: plugin_error + unit, s2)"
    "cleared E tab live (\<lambda>u k. tab s1 ?g (LuaString ''os'') = LuaTable u \<and> k \<in> LuaString ` set removed_os) s1 s2"
    using with_table_nil [OF raw, of ?g "''os''" removed_os s1] by blast
  obtain s3 where s3: "set_fields E ?g (map (\<lambda>k. (k, LuaNil)) ?base) s2 = (Inr () :: plugin_error + unit, s3)"
    "cleared E tab live (\<lambda>u k. ?g = u \<and> k \<in> LuaString ` set ?base) s2 s3"
    using set_fields_nil [OF raw, of ?g ?base s2] by blast
  obtain s4 where s4: "with_table E ?g ''package'' (\<lambda>p. set_fields E p (map (\<lambda>k. (k, LuaNil)) [''loadlib''])) s3 =
      (Inr () :: plugin_error + unit, s4)"
    "cleared E tab live (\<lambda>u k. tab s3 ?g (LuaString ''package'') = LuaTable u \<and> k \<in> LuaString ` set [''loadlib'']) s3 s4"
    using with_table_nil [OF raw, of ?g "''package''" "[''loadlib'']" s3] by blast
  have api: "add_smppd_api E v s4 = (Inr (), s)"
    using run1 by (simp only: lua_bind_def s2(1) s3(1) s4(1) prod.case sum.case)
  have same1: "tab s1 = tab ?s0" "live s1 = live ?s0" "le_globals E s1 = ?g"
    using raw_memory_limit [OF raw s1] by (auto simp: same_tables_def)
  have package: "tab s3 ?g (LuaString ''package'') = tab ?s0 ?g (LuaString ''package'')"
    using s2(2) s3(2) same1 by (auto simp: cleared_def removed_os_def)
  have "tab s t (LuaString k) = tab s4 t (LuaString k)"
    using smppd_api_effect [OF raw api, of t "LuaString k"] live not s2(2) s3(2) s4(2) same1 by (auto simp: cleared_def)
  also have "\<dots> = (if hidden (tab ?s0) ?g t k then LuaNil else tab ?s0 t (LuaString k))"
    using s2(2) s3(2) s4(2) same1 package by (auto simp: cleared_def hidden_def removed_os_def)
  finally show ?thesis .
qed

text \<open>An interpreter with the tables of Lua's standard libraries: the global table 0, \<open>package\<close> 1, \<open>package.loaded\<close> 2,
  \<open>os\<close> 3 and \<open>io\<close> 4.\<close>

definition sample_tables :: "nat \<Rightarrow> lua_value \<Rightarrow> lua_value" where
  "sample_tables t k =
     (if k = LuaString ''package'' \<and> t = 0 then LuaTable 1
      else if k = LuaString ''loaded'' \<and> t = 1 then LuaTable 2
      else if k = LuaString ''os'' \<and> (t = 0 \<or> t = 2) then LuaTable 3
      else if k = LuaString ''io'' \<and> (t = 0 \<or> t = 2) then LuaTable 4
      else LuaNil)"

definition sample_engine :: "(nat \<times> (nat \<Rightarrow> lua_value \<Rightarrow> lua_value), unit) lua_engine" where
  "sample_engine =
     \<lparr> le_new = (5, sample_tables), le_globals = (\<lambda>_. 0),
       le_set_memory_limit = (\<lambda>_ s. (Inr (), s)),
       le_get = (\<lambda>t k s. (Inr (snd s t k), s)),
       le_set = (\<lambda>t k v s. (Inr (), (fst s, (snd s)(t := (snd s t)(k := v))))),
       le_create_table = (\<lambda>s. (Inr (fst s), (Suc (fst s), (snd s)(fst s := (\<lambda>_. LuaNil))))),
       le_create_function = (\<lambda>_ s. (Inr 0, s)),
       le_exec = (\<lambda>_ s. (Inr (), s)),
       le_call = (\<lambda>_ _ s. (Inr LuaNil, s)),
       le_contains_key = (\<lambda>t k s. (Inr (snd s t (LuaString k) \<noteq> LuaNil), s)),
       le_to_value = (\<lambda>_ s. (Inr LuaNil, s)),
       le_as_string = (\<lambda>v. case v of LuaString x \<Rightarrow> Some x | _ \<Rightarrow> None),
       le_as_u32 = (\<lambda>v. case v of LuaInteger n \<Rightarrow> Some (of_int n) | _ \<Rightarrow> None),
       le_of_u64 = (\<lambda>n. LuaInteger (uint n)),
       le_conv_error = (\<lambda>_. ''conversion'') \<rparr>"

definition sample_lua_config :: "unit plugin_config" where
  "sample_lua_config =
     \<lparr> pg_name = ''p'', pg_plugin_type = PtLua, pg_path = Some ''p.lua'', pg_url = None, pg_enabled = True, pg_priority = 0,
       pg_limits = plugin_limits_default, pg_config = [] \<rparr>"

lemma sample_raw: "raw_lua sample_engine snd (\<lambda>s. {..< fst s})"
  by (auto simp: raw_lua_def sample_engine_def written_def same_tables_def)

lemma sample_sandbox_runs:
  "create_sandbox sample_engine ''0.1.0'' sample_lua_config = (Inr (), snd (create_sandbox sample_engine ''0.1.0'' sample_lua_config))"
  by (simp add: create_sandbox_def add_smppd_api_def with_table_def get_as_def as_table_def removed_os_def lua_run
        sample_engine_def sample_tables_def)

text \<open>C23: 
  The sandbox takes the names it means to take from the global table, the \<open>os\<close> table and the \<open>package\<close> table, but
  \<open>package.loaded\<close>, where Lua's standard libraries are registered, is left alone: the \<open>io\<close> library is still reached through
  it.
\<close>

theorem lua_sandbox_leaves_io_reachable:
  assumes raw: "raw_lua E tab live" and run: "create_sandbox E v c = (Inr (), s)"
    and tables: "tab (le_new E) g (LuaString ''package'') = LuaTable p" "tab (le_new E) p (LuaString ''loaded'') = LuaTable l"
      "tab (le_new E) g (LuaString ''os'') = LuaTable os"
    and g: "g = le_globals E (le_new E)" and live: "{g, p, l, os} \<subseteq> live (le_new E)"
    and apart: "distinct [g, p, l, os]"
  shows "tab s g (LuaString ''io'') = LuaNil \<and> tab s g (LuaString ''debug'') = LuaNil
    \<and> tab s os (LuaString ''execute'') = LuaNil \<and> tab s p (LuaString ''loadlib'') = LuaNil
    \<and> tab s g (LuaString ''package'') = LuaTable p \<and> tab s p (LuaString ''loaded'') = LuaTable l
    \<and> tab s l (LuaString ''io'') = tab (le_new E) l (LuaString ''io'')"
  using sandbox_effect [OF raw run, of g "''io''"] sandbox_effect [OF raw run, of g "''debug''"]
    sandbox_effect [OF raw run, of os "''execute''"] sandbox_effect [OF raw run, of p "''loadlib''"]
    sandbox_effect [OF raw run, of g "''package''"] sandbox_effect [OF raw run, of p "''loaded''"]
    sandbox_effect [OF raw run, of l "''io''"] tables live apart
  by (auto simp: hidden_def removed_os_def g)

theorem lua_sandbox_leaves_io_reachable_witness:
  "let s = snd (create_sandbox sample_engine ''0.1.0'' sample_lua_config)
   in snd s 0 (LuaString ''io'') = LuaNil \<and> snd s 3 (LuaString ''execute'') = LuaNil
      \<and> snd s 0 (LuaString ''package'') = LuaTable 1 \<and> snd s 1 (LuaString ''loaded'') = LuaTable 2
      \<and> snd s 2 (LuaString ''io'') = LuaTable 4"
  using lua_sandbox_leaves_io_reachable [OF sample_raw sample_sandbox_runs, of 0 1 2 3]
  by (simp add: sample_engine_def sample_tables_def Let_def)

end
