(* ===== verification/PluginManager.thy ===== *)
theory PluginManager
  imports Lua
begin

text \<open>
  The plugin manager (\<^verbatim>\<open>src/src/plugins/mod.rs\<close>): loading from a configuration, unloading, reloading and shutting
  down, over the Lua and webhook plugins.  \<open>plugin_env\<close> collects what the loaders need of the outside: the interpreter, the
  file system, YAML access and the HTTP client.

  The lemmas show which plugins a configuration leaves loaded, that unloading leaves no handler of the plugin behind, and
  what a failed reload costs.
\<close>

section \<open>Plugins and instances\<close>

datatype ('l, 'y) plugin = PluginLua "('l, 'y) lua_plugin" | PluginWebhook "'y webhook_plugin"

record ('l, 'y) plugin_instance =
  pi_plugin :: "('l, 'y) plugin"
  pi_config :: "'y plugin_config"
  pi_enabled :: bool

record ('l, 'y, 'b) plugin_env =
  pe_engine :: "('l, 'y) lua_engine"
  pe_version :: string
  pe_read :: "string \<Rightarrow> string + string"
  pe_yaml :: "'y yaml"
  pe_build :: "duration \<Rightarrow> string option"
  pe_status_text :: "nat \<Rightarrow> string"
  pe_parse_ping :: "'b \<Rightarrow> string + bool"
  pe_post :: "string \<Rightarrow> nat \<Rightarrow> 'b http_answer"

record ('l, 'y, 'w) plugin_manager =
  pm_plugins :: "(string, ('l, 'y) plugin_instance) alist"
  pm_hooks :: "'w hook_registry"
  pm_filter_plugins :: "('l, 'y) plugin list"
  pm_route_plugins :: "('l, 'y) plugin list"
  pm_plugin_dir :: "string option"

definition plugin_manager_new :: "('l, 'y, 'w) plugin_manager" where
  "plugin_manager_new = \<lparr> pm_plugins = [], pm_hooks = [], pm_filter_plugins = [], pm_route_plugins = [], pm_plugin_dir = None \<rparr>"

definition manager_with_plugin_dir :: "string \<Rightarrow> ('l, 'y, 'w) plugin_manager \<Rightarrow> ('l, 'y, 'w) plugin_manager" where
  "manager_with_plugin_dir d m = m \<lparr> pm_plugin_dir := Some d \<rparr>"

fun plugin_initialize ::
  "('l, 'y, 'b) plugin_env \<Rightarrow> 'y plugin_context \<Rightarrow> ('l, 'y) plugin \<Rightarrow> (plugin_error + unit) \<times> ('l, 'y) plugin" where
  "plugin_initialize V x (PluginLua p) = (case lua_initialize (pe_engine V) x p of (r, p') \<Rightarrow> (r, PluginLua p'))"
| "plugin_initialize V x (PluginWebhook w) =
     (fst (webhook_initialize (pe_yaml V) (pe_status_text V) (pe_parse_ping V) (pe_post V) x w), PluginWebhook w)"

fun plugin_shutdown :: "('l, 'y, 'b) plugin_env \<Rightarrow> ('l, 'y) plugin \<Rightarrow> (plugin_error + unit) \<times> ('l, 'y) plugin" where
  "plugin_shutdown V (PluginLua p) = (case lua_shutdown (pe_engine V) p of (r, p') \<Rightarrow> (r, PluginLua p'))"
| "plugin_shutdown V (PluginWebhook w) = (case webhook_shutdown w of (r, w') \<Rightarrow> (r, PluginWebhook w'))"

section \<open>Loading\<close>

definition resolve_path :: "string option \<Rightarrow> string option \<Rightarrow> plugin_error + string" where
  "resolve_path path base_dir =
     (case path of
        None \<Rightarrow> Inl (InvalidConfig ''plugin path required'')
      | Some p \<Rightarrow>
          if path_is_absolute p then Inr p
          else (case base_dir of Some base \<Rightarrow> Inr (path_join base p) | None \<Rightarrow> Inr p))"

definition create_plugin ::
  "('l, 'y, 'b) plugin_env \<Rightarrow> 'y plugin_config \<Rightarrow> string option \<Rightarrow> plugin_error + ('l, 'y) plugin" where
  "create_plugin V c base_dir =
     (case pg_plugin_type c of
        PtLua \<Rightarrow>
          (case resolve_path (pg_path c) base_dir of
             Inl e \<Rightarrow> Inl e
           | Inr path \<Rightarrow>
               (case lua_load (pe_engine V) (pe_version V) (pe_read V) path c of Inl e \<Rightarrow> Inl e | Inr p \<Rightarrow> Inr (PluginLua p)))
      | PtWasm \<Rightarrow> Inl (LoadFailed ''WASM plugins not yet implemented'')
      | PtNative \<Rightarrow> Inl (LoadFailed ''Native plugins not yet implemented'')
      | PtWebhook \<Rightarrow>
          (case pg_url c of
             None \<Rightarrow> Inl (InvalidConfig ''webhook requires url'')
           | Some url \<Rightarrow>
               (case webhook_new (pe_yaml V) (pe_build V) (pg_name c) url c of Inl e \<Rightarrow> Inl e | Inr w \<Rightarrow> Inr (PluginWebhook w))))"

definition load_plugin ::
  "('l, 'y, 'b) plugin_env \<Rightarrow> 'y plugin_config \<Rightarrow> string option \<Rightarrow> ('l, 'y, 'w) plugin_manager \<Rightarrow>
   (plugin_error + unit) \<times> ('l, 'y, 'w) plugin_manager" where
  "load_plugin V c base_dir m =
     (case create_plugin V c base_dir of
        Inl e \<Rightarrow> (Inl e, m)
      | Inr p \<Rightarrow>
          (let ctx = plugin_with_config (pg_config c) (plugin_context_new (pg_name c));
               ctx = (case base_dir of Some d \<Rightarrow> plugin_with_dir d ctx | None \<Rightarrow> ctx)
           in case plugin_initialize V ctx p of
                (Inl e, _) \<Rightarrow> (Inl e, m)
              | (Inr _, p') \<Rightarrow>
                  (Inr (), m \<lparr> pm_plugins :=
                     AList.update (pg_name c) \<lparr> pi_plugin = p', pi_config = c, pi_enabled = True \<rparr> (pm_plugins m) \<rparr>)))"

fun load_instances ::
  "('l, 'y, 'b) plugin_env \<Rightarrow> string option \<Rightarrow> 'y plugin_config list \<Rightarrow> ('l, 'y, 'w) plugin_manager \<Rightarrow> ('l, 'y, 'w) plugin_manager" where
  "load_instances V base_dir [] m = m"
| "load_instances V base_dir (c # cs) m =
     load_instances V base_dir cs (if pg_enabled c then snd (load_plugin V c base_dir m) else m)"

definition load_from_config ::
  "('l, 'y, 'b) plugin_env \<Rightarrow> 'y plugins_config \<Rightarrow> ('l, 'y, 'w) plugin_manager \<Rightarrow>
   (plugin_error + unit) \<times> ('l, 'y, 'w) plugin_manager" where
  "load_from_config V cfg m =
     (Inr (), load_instances V (case px_directory cfg of Some d \<Rightarrow> Some d | None \<Rightarrow> pm_plugin_dir m) (px_instances cfg) m)"

section \<open>Unloading, reloading, shutdown\<close>

definition unload_plugin ::
  "('l, 'y, 'b) plugin_env \<Rightarrow> string \<Rightarrow> ('l, 'y, 'w) plugin_manager \<Rightarrow> (plugin_error + unit) \<times> ('l, 'y, 'w) plugin_manager" where
  "unload_plugin V name m =
     (case map_of (pm_plugins m) name of
        None \<Rightarrow> (Inl (NotFound name), m)
      | Some i \<Rightarrow>
          (let m' = m \<lparr> pm_plugins := AList.delete name (pm_plugins m) \<rparr>
           in case fst (plugin_shutdown V (pi_plugin i)) of
                Inl e \<Rightarrow> (Inl e, m')
              | Inr _ \<Rightarrow> (Inr (), m' \<lparr> pm_hooks := unregister_plugin name (pm_hooks m') \<rparr>)))"

definition reload_plugin ::
  "('l, 'y, 'b) plugin_env \<Rightarrow> string \<Rightarrow> ('l, 'y, 'w) plugin_manager \<Rightarrow> (plugin_error + unit) \<times> ('l, 'y, 'w) plugin_manager" where
  "reload_plugin V name m =
     (case map_of (pm_plugins m) name of
        None \<Rightarrow> (Inl (NotFound name), m)
      | Some i \<Rightarrow>
          (case unload_plugin V name m of
             (Inl e, m') \<Rightarrow> (Inl e, m')
           | (Inr _, m') \<Rightarrow> load_plugin V (pi_config i) (pm_plugin_dir m') m'))"

text \<open>The names of the plugins whose shutdown failed are only logged.\<close>

definition manager_shutdown ::
  "('l, 'y, 'b) plugin_env \<Rightarrow> ('l, 'y, 'w) plugin_manager \<Rightarrow>
   string list \<times> (plugin_error + unit) \<times> ('l, 'y, 'w) plugin_manager" where
  "manager_shutdown V m =
     (List.map_filter (\<lambda>(name, i). case fst (plugin_shutdown V (pi_plugin i)) of Inl _ \<Rightarrow> Some name | Inr _ \<Rightarrow> None) (pm_plugins m),
      Inr (), m \<lparr> pm_plugins := [] \<rparr>)"

definition execute_hook :: "hook_context \<Rightarrow> ('l, 'y, 'w) plugin_manager \<Rightarrow> 'w \<Rightarrow> (plugin_error + unit) \<times> 'w" where
  "execute_hook x m w = execute_hooks x (pm_hooks m) w"

definition plugin_count :: "('l, 'y, 'w) plugin_manager \<Rightarrow> nat" where
  "plugin_count m = length (pm_plugins m)"

definition has_plugin :: "string \<Rightarrow> ('l, 'y, 'w) plugin_manager \<Rightarrow> bool" where
  "has_plugin name m = (map_of (pm_plugins m) name \<noteq> None)"

definition plugin_names :: "('l, 'y, 'w) plugin_manager \<Rightarrow> string list" where
  "plugin_names m = map fst (pm_plugins m)"

section \<open>Lemmas\<close>

text \<open>Neither kind of plugin reports an error on shutdown, so unloading always unregisters.\<close>

lemma lua_shutdown_ok: "fst (lua_shutdown E p) = Inr ()"
  by (auto simp: lua_shutdown_def on_lua_def with_table_def lua_run split: prod.splits sum.splits option.splits)

lemma plugin_shutdown_ok: "fst (plugin_shutdown V p) = Inr ()"
  using lua_shutdown_ok [of "pe_engine V"]
  by (cases p) (auto simp: webhook_shutdown_def split: prod.splits dest: spec, metis fst_conv)

lemma unload_plugin_result:
  "unload_plugin V name m =
     (if has_plugin name m
      then (Inr (), m \<lparr> pm_plugins := AList.delete name (pm_plugins m), pm_hooks := unregister_plugin name (pm_hooks m) \<rparr>)
      else (Inl (NotFound name), m))"
  by (auto simp: unload_plugin_def has_plugin_def plugin_shutdown_ok Let_def split: option.splits)

lemma load_plugin_cases:
  obtains e where "load_plugin V c d m = (Inl e, m)"
  | p where "load_plugin V c d m =
      (Inr (), m \<lparr> pm_plugins := AList.update (pg_name c) \<lparr> pi_plugin = p, pi_config = c, pi_enabled = True \<rparr> (pm_plugins m) \<rparr>)"
proof (cases "create_plugin V c d")
  case (Inr p)
  define x where "x = (case d of
      Some d \<Rightarrow> plugin_with_dir d (plugin_with_config (pg_config c) (plugin_context_new (pg_name c)))
    | None \<Rightarrow> plugin_with_config (pg_config c) (plugin_context_new (pg_name c)))"
  show ?thesis
  proof (cases "plugin_initialize V x p")
    case (Pair r p')
    with Inr that show ?thesis by (cases r) (auto simp: load_plugin_def Let_def x_def [symmetric])
  qed
qed (auto simp: load_plugin_def intro: that(1))

text \<open>Whether a configuration loads does not depend on what is loaded already.\<close>

definition loadable :: "('l, 'y, 'b) plugin_env \<Rightarrow> string option \<Rightarrow> 'y plugin_config \<Rightarrow> bool" where
  "loadable V d c = (fst (load_plugin V c d (plugin_manager_new :: ('l, 'y, unit) plugin_manager)) = Inr ())"

lemma load_plugin_fst: "fst (load_plugin V c d m) = fst (load_plugin V c d m')"
  by (auto simp: load_plugin_def Let_def split: sum.splits prod.splits)

lemma loadable_iff: "fst (load_plugin V c d m) = Inr () \<longleftrightarrow> loadable V d c"
  unfolding loadable_def by (rule arg_cong [where f = "\<lambda>r. r = Inr ()"], rule load_plugin_fst)

lemma config_after_load:
  "map_option pi_config (map_of (pm_plugins (snd (load_plugin V c d m))) n) =
     (if loadable V d c \<and> pg_name c = n then Some c else map_option pi_config (map_of (pm_plugins m) n))"
  using loadable_iff [of V c d m] by (cases rule: load_plugin_cases [of V c d m, case_names bad ok]) (auto simp: map_of_update)

lemma config_after_instances:
  "map_option pi_config (map_of (pm_plugins (load_instances V d cs m)) n) =
     (let ok = filter (\<lambda>c. pg_enabled c \<and> loadable V d c \<and> pg_name c = n) cs
      in if ok = [] then map_option pi_config (map_of (pm_plugins m) n) else Some (last ok))"
  by (induction cs arbitrary: m) (auto simp: config_after_load Let_def simp del: map_option_eq_Some)

lemma wasm_native_not_loadable: "pg_plugin_type c = PtWasm \<or> pg_plugin_type c = PtNative \<Longrightarrow> \<not> loadable V d c"
  by (auto simp: loadable_def load_plugin_def create_plugin_def)

section \<open>Properties\<close>

text \<open>Loading a configuration never fails as a whole; afterwards a plugin name is loaded exactly when an
  enabled instance of that name can be loaded, and it runs the last such instance.\<close>

theorem configuration_decides_loaded_plugins:
  "fst (load_from_config V cfg (plugin_manager_new :: ('l, 'y, 'w) plugin_manager)) = Inr ()
   \<and> map_option pi_config (map_of (pm_plugins (snd (load_from_config V cfg (plugin_manager_new :: ('l, 'y, 'w) plugin_manager)))) n) =
     (let ok = filter (\<lambda>c. pg_enabled c \<and> loadable V (px_directory cfg) c \<and> pg_name c = n) (px_instances cfg)
      in if ok = [] then None else Some (last ok))"
proof -
  have "(case px_directory cfg of Some d \<Rightarrow> Some d | None \<Rightarrow> pm_plugin_dir (plugin_manager_new :: ('l, 'y, 'w) plugin_manager)) =
    px_directory cfg"
    by (simp add: plugin_manager_new_def split: option.split)
  then show ?thesis
    by (simp add: load_from_config_def config_after_instances Let_def) (simp add: plugin_manager_new_def)
qed

text \<open>Unloading a loaded plugin succeeds, removes it and every handler it registered, and leaves the other
  plugins and their handlers as they were.\<close>

theorem unloaded_plugin_leaves_nothing:
  assumes "has_plugin name m" "unload_plugin V name m = (r, m')"
  shows "r = Inr () \<and> \<not> has_plugin name m'
    \<and> (\<forall>p. handlers_at p (pm_hooks m') = filter (\<lambda>h. hh_plugin_name h \<noteq> name) (handlers_at p (pm_hooks m)))
    \<and> map_of (pm_plugins m') = (map_of (pm_plugins m))(name := None)"
  using assms
  by (auto simp: unload_plugin_result has_plugin_def map_of_delete handlers_at_unregister)

text \<open>A reload whose load fails returns the error and leaves the plugin unloaded.\<close>

theorem failed_reload_loses_plugin:
  assumes "map_of (pm_plugins m) name = Some i" "pg_name (pi_config i) = name" "\<not> loadable V (pm_plugin_dir m) (pi_config i)"
  shows "(\<exists>e. fst (reload_plugin V name m) = Inl e) \<and> \<not> has_plugin name (snd (reload_plugin V name m))"
proof -
  define m' where "m' = m \<lparr> pm_plugins := AList.delete name (pm_plugins m), pm_hooks := unregister_plugin name (pm_hooks m) \<rparr>"
  have reload: "reload_plugin V name m = load_plugin V (pi_config i) (pm_plugin_dir m) m'"
    using assms(1) by (simp add: reload_plugin_def unload_plugin_result has_plugin_def m'_def)
  have "\<not> has_plugin name m'" by (simp add: has_plugin_def m'_def map_of_delete)
  with reload loadable_iff [of V "pi_config i" "pm_plugin_dir m" m'] assms(3) show ?thesis
    by (cases rule: load_plugin_cases [of V "pi_config i" "pm_plugin_dir m" m', case_names bad ok]) auto
qed

end
