(* ===== verification/ForeignPlugins.thy ===== *)
theory ForeignPlugins
  imports Plugins Decimal
begin

text \<open>
  The loaders of WebAssembly and native plugins (\<^verbatim>\<open>src/src/plugins/loader/wasm.rs\<close>,
  \<^verbatim>\<open>src/src/plugins/loader/native.rs\<close>).  The plugin manager refuses both kinds at the moment.  The WebAssembly runtime and
  a loaded library are foreign code: what is modelled is what the gateway's side does with their memory, buffers and result
  codes.  An outcome the language leaves undefined, or a panic in the host, is a value of its own.

  The lemmas show that the configuration lookup of a WebAssembly plugin writes only where it was told to, when it brings the
  host down, and when the result buffer of a native plugin is read beyond its end.
\<close>

section \<open>WebAssembly (loader/wasm.rs)\<close>

definition wasm_log_level :: "i32 \<Rightarrow> log_level" where
  "wasm_log_level level =
     (if level = 0 then LvTrace else if level = 1 then LvDebug else if level = 2 then LvInfo else if level = 3 then LvWarn
      else if level = 4 then LvError else LvInfo)"

text \<open>\<^verbatim>\<open>x as usize\<close> of a signed 32-bit number extends its sign; a vector of more than \<open>isize::MAX\<close> bytes panics.\<close>

definition as_usize :: "i32 \<Rightarrow> nat" where
  "as_usize x = unat (scast x :: usize)"

definition alloc_panics :: "nat \<Rightarrow> bool" where
  "alloc_panics n = (2 ^ 63 \<le> n)"

definition memory_read :: "nat \<Rightarrow> nat \<Rightarrow> u8 list \<Rightarrow> u8 list option" where
  "memory_read p n m = (if p + n \<le> length m then Some (take n (drop p m)) else None)"

definition memory_write :: "nat \<Rightarrow> u8 list \<Rightarrow> u8 list \<Rightarrow> u8 list option" where
  "memory_write p bs m =
     (if p + length bs \<le> length m then Some (take p m @ bs @ drop (p + length bs) m) else None)"

datatype 'a host = HostPanic | HostError string | HostReturn 'a

definition wasm_log ::
  "(u8 list \<Rightarrow> string) \<Rightarrow> i32 \<Rightarrow> i32 \<Rightarrow> i32 \<Rightarrow> u8 list option \<Rightarrow> (log_level \<times> string) host" where
  "wasm_log utf8_lossy level ptr len mem =
     (case mem of
        None \<Rightarrow> HostError ''memory export not found''
      | Some m \<Rightarrow>
          if alloc_panics (as_usize len) then HostPanic
          else (case memory_read (as_usize ptr) (as_usize len) m of
                  None \<Rightarrow> HostError ''failed to read memory''
                | Some bs \<Rightarrow> HostReturn (wasm_log_level level, utf8_lossy bs)))"

text \<open>The result and the plugin's memory afterwards.\<close>

definition wasm_get_config ::
  "(u8 list \<Rightarrow> string) \<Rightarrow> ('y \<Rightarrow> u8 list) \<Rightarrow> (string, 'y) alist \<Rightarrow> i32 \<Rightarrow> i32 \<Rightarrow> i32 \<Rightarrow> i32 \<Rightarrow> u8 list option \<Rightarrow>
   (i32 \<times> u8 list option) host" where
  "wasm_get_config utf8_lossy to_json cfg key_ptr key_len out_ptr max_len mem =
     (case mem of
        None \<Rightarrow> HostReturn (- 1, None)
      | Some m \<Rightarrow>
          if alloc_panics (as_usize key_len) then HostPanic
          else
            (case memory_read (as_usize key_ptr) (as_usize key_len) m of
               None \<Rightarrow> HostReturn (- 1, Some m)
             | Some bs \<Rightarrow>
                 (case map_of cfg (utf8_lossy bs) of
                    None \<Rightarrow> HostReturn (0, Some m)
                  | Some v \<Rightarrow>
                      let value = to_json v in
                      if as_usize max_len < length value then HostReturn (- 2, Some m)
                      else
                        (case memory_write (as_usize out_ptr) value m of
                           None \<Rightarrow> HostReturn (- 1, Some m)
                         | Some m' \<Rightarrow> HostReturn (of_nat (length value), Some m')))))"

text \<open>The calls of a plugin: \<open>instantiate\<close> is the result of a fresh instance, \<open>call\<close> that of its exported function.\<close>

definition wasm_action :: "i32 \<Rightarrow> filter_action" where
  "wasm_action code =
     (if code = 0 then FaContinue else if code = 1 then FaAccept else if code = 2 then FaDrop
      else if code = 3 then FaQuarantine else if code = 4 then FaModify else FaContinue)"

record wasm_instance =
  wi_has_filter :: bool
  wi_filter :: "string + (string + i32)"

definition wasm_filter :: "string + wasm_instance \<Rightarrow> plugin_error + filter_action" where
  "wasm_filter instantiate =
     (case instantiate of
        Inl e \<Rightarrow> Inl (ExecutionFailed (''failed to instantiate: '' @ e))
      | Inr i \<Rightarrow>
          if \<not> wi_has_filter i then Inl (ExecutionFailed ''filter function not found'')
          else
            (case wi_filter i of
               Inl e \<Rightarrow> Inl (ExecutionFailed (''filter has wrong signature: '' @ e))
             | Inr (Inl e) \<Rightarrow> Inl (ExecutionFailed (''filter failed: '' @ e))
             | Inr (Inr code) \<Rightarrow> Inr (wasm_action code)))"

definition wasm_select_route :: "plugin_route_context \<Rightarrow> 'y plugin_candidate list \<Rightarrow> plugin_error + string option" where
  "wasm_select_route x cs = Inr None"

definition wasm_on_hook :: "hook_context \<Rightarrow> plugin_error + hook_action" where
  "wasm_on_hook x = Inr HookContinue"

section \<open>Native libraries (loader/native.rs)\<close>

text \<open>The symbols of a library; a call that fills a buffer of the given length returns its code and the bytes it wrote.\<close>

record native_library =
  nl_name :: "u8 list option option"
  nl_version :: "u8 list option option"
  nl_initialize :: "(string \<Rightarrow> i32) option"
  nl_filter :: "(string \<Rightarrow> nat \<Rightarrow> i32 \<times> u8 list) option"
  nl_select_route :: "(string \<Rightarrow> string \<Rightarrow> nat \<Rightarrow> i32 \<times> u8 list) option"
  nl_transform :: bool
  nl_on_hook :: "(string \<Rightarrow> i32) option"

datatype 'a native = NativeUndefined | NativeValue 'a

text \<open>\<^verbatim>\<open>CString::new\<close> refuses interior zero bytes.\<close>

definition cstring_ok :: "string \<Rightarrow> bool" where
  "cstring_ok t = (CHR 0x00 \<notin> set t)"

text \<open>The symbol is absent, it returns a null pointer, or a string that has to be UTF-8.\<close>

definition get_plugin_string :: "(u8 list \<Rightarrow> string option) \<Rightarrow> u8 list option option \<Rightarrow> string option" where
  "get_plugin_string to_str f = (case f of Some (Some bs) \<Rightarrow> to_str bs | _ \<Rightarrow> None)"

record 'y native_plugin =
  np_name :: string
  np_version :: string
  np_capabilities :: plugin_capabilities
  np_library :: native_library
  np_config :: "'y plugin_config"

definition native_load ::
  "(u8 list \<Rightarrow> string option) \<Rightarrow> (string \<Rightarrow> string + native_library) \<Rightarrow> string \<Rightarrow> 'y plugin_config \<Rightarrow>
   plugin_error + 'y native_plugin" where
  "native_load to_str open_library path c =
     (case open_library path of
        Inl e \<Rightarrow> Inl (LoadFailed (''failed to load library: '' @ e))
      | Inr lib \<Rightarrow>
          Inr \<lparr> np_name = (case get_plugin_string to_str (nl_name lib) of Some n \<Rightarrow> n | None \<Rightarrow> pg_name c),
                np_version = (case get_plugin_string to_str (nl_version lib) of Some v \<Rightarrow> v | None \<Rightarrow> ''1.0.0''),
                np_capabilities =
                  \<lparr> pc_can_filter = (nl_filter lib \<noteq> None), pc_can_route = (nl_select_route lib \<noteq> None),
                    pc_can_transform = nl_transform lib, pc_can_store = False, pc_can_hook = (nl_on_hook lib \<noteq> None) \<rparr>,
                np_library = lib, np_config = c \<rparr>)"

definition show_i32 :: "i32 \<Rightarrow> string" where
  "show_i32 x = (if sint x < 0 then CHR ''-'' # show_nat (nat (- sint x)) else show_nat (nat (sint x)))"

definition native_initialize ::
  "((string, 'y) alist \<Rightarrow> string + string) \<Rightarrow> string \<Rightarrow> 'y plugin_context \<Rightarrow> 'y native_plugin \<Rightarrow> plugin_error + unit" where
  "native_initialize to_json nul_error x p =
     (case to_json (pz_config x) of
        Inl e \<Rightarrow> Inl (InitFailed (''failed to serialize config: '' @ e))
      | Inr json \<Rightarrow>
          if \<not> cstring_ok json then Inl (InitFailed (''invalid config string: '' @ nul_error))
          else
            (case nl_initialize (np_library p) of
               None \<Rightarrow> Inl (InitFailed ''plugin_initialize not found'')
             | Some f \<Rightarrow>
                 let result = f json in
                 if result \<noteq> 0 then Inl (InitFailed (''plugin_initialize returned error code: '' @ show_i32 result))
                 else Inr ()))"

text \<open>A buffer of zeros, overwritten from its start by what the library wrote, and the string that starts there.  Without a
  terminating zero the read runs past the end of the buffer.\<close>

definition filled :: "nat \<Rightarrow> u8 list \<Rightarrow> u8 list" where
  "filled n bs = take n (bs @ replicate n 0)"

definition read_cstr :: "u8 list \<Rightarrow> u8 list option" where
  "read_cstr buf = (if 0 \<in> set buf then Some (takeWhile (\<lambda>b. b \<noteq> 0) buf) else None)"

definition native_reject ::
  "(u8 list \<Rightarrow> string option) \<Rightarrow> i32 \<Rightarrow> u8 list \<Rightarrow> (plugin_error + filter_action) native" where
  "native_reject to_str code buf =
     (case read_cstr buf of
        None \<Rightarrow> NativeUndefined
      | Some bs \<Rightarrow>
          NativeValue (Inr (FaReject (code - 100)
            (case to_str bs of Some [] \<Rightarrow> None | Some t \<Rightarrow> Some t | None \<Rightarrow> None))))"

definition native_filter ::
  "(u8 list \<Rightarrow> string option) \<Rightarrow> (filter_context \<Rightarrow> string + string) \<Rightarrow> string \<Rightarrow> filter_context \<Rightarrow> 'y native_plugin \<Rightarrow>
   (plugin_error + filter_action) native" where
  "native_filter to_str to_json nul_error x p =
     (case to_json x of
        Inl e \<Rightarrow> NativeValue (Inl (ExecutionFailed (''failed to serialize context: '' @ e)))
      | Inr json \<Rightarrow>
          if \<not> cstring_ok json then NativeValue (Inl (ExecutionFailed (''invalid context string: '' @ nul_error)))
          else
            (case nl_filter (np_library p) of
               None \<Rightarrow> NativeValue (Inl (ExecutionFailed ''plugin_filter not found''))
             | Some f \<Rightarrow>
                 (case f json 4096 of
                    (code, bs) \<Rightarrow>
                      if code = 0 then NativeValue (Inr FaContinue)
                      else if code = 1 then NativeValue (Inr FaAccept)
                      else if code = 2 then NativeValue (Inr FaDrop)
                      else if code = 3 then NativeValue (Inr FaQuarantine)
                      else if code = 4 then NativeValue (Inr FaModify)
                      else if 100 \<le> sint code \<and> sint code \<le> 199 then native_reject to_str code (filled 4096 bs)
                      else NativeValue (Inr FaContinue))))"

definition native_select_route ::
  "(u8 list \<Rightarrow> string option) \<Rightarrow> (plugin_route_context \<Rightarrow> string + string) \<Rightarrow> ('y plugin_candidate list \<Rightarrow> string + string) \<Rightarrow>
   string \<Rightarrow> plugin_route_context \<Rightarrow> 'y plugin_candidate list \<Rightarrow> 'y native_plugin \<Rightarrow> (plugin_error + string option) native" where
  "native_select_route to_str ctx_json cs_json nul_error x cs p =
     (case ctx_json x of
        Inl e \<Rightarrow> NativeValue (Inl (ExecutionFailed (''failed to serialize context: '' @ e)))
      | Inr cj \<Rightarrow>
          (case cs_json cs of
             Inl e \<Rightarrow> NativeValue (Inl (ExecutionFailed (''failed to serialize candidates: '' @ e)))
           | Inr sj \<Rightarrow>
               if \<not> cstring_ok cj then NativeValue (Inl (ExecutionFailed (''invalid context string: '' @ nul_error)))
               else if \<not> cstring_ok sj then NativeValue (Inl (ExecutionFailed (''invalid candidates string: '' @ nul_error)))
               else
                 (case nl_select_route (np_library p) of
                    None \<Rightarrow> NativeValue (Inl (ExecutionFailed ''plugin_select_route not found''))
                  | Some f \<Rightarrow>
                      (case f cj sj 256 of
                         (len, bs) \<Rightarrow>
                           if sint len \<le> 0 then NativeValue (Inr None)
                           else
                             (case read_cstr (filled 256 bs) of
                                None \<Rightarrow> NativeUndefined
                              | Some r \<Rightarrow> NativeValue (Inr (to_str r)))))))"

definition native_on_hook ::
  "(hook_context \<Rightarrow> string + string) \<Rightarrow> string \<Rightarrow> hook_context \<Rightarrow> 'y native_plugin \<Rightarrow> plugin_error + hook_action" where
  "native_on_hook to_json nul_error x p =
     (case to_json x of
        Inl e \<Rightarrow> Inl (ExecutionFailed (''failed to serialize context: '' @ e))
      | Inr json \<Rightarrow>
          if \<not> cstring_ok json then Inl (ExecutionFailed (''invalid context string: '' @ nul_error))
          else
            (case nl_on_hook (np_library p) of
               None \<Rightarrow> Inl (ExecutionFailed ''plugin_on_hook not found'')
             | Some f \<Rightarrow>
                 (let code = f json in
                  Inr (if code = 0 then HookContinue else if code = 1 then HookStop else if code = 2 then HookSkipPriority
                       else HookContinue))))"

section \<open>Lemmas\<close>

lemma as_usize_mod: "as_usize x = nat (sint x mod 2 ^ 64)"
  by (simp only: as_usize_def scast_eq unsigned_of_int) (simp add: take_bit_eq_mod)

lemma sint_i32_range: "- (2 ^ 31) \<le> sint (x :: i32)" "sint (x :: i32) < 2 ^ 31"
  using sint_ge [of x] sint_lt [of x] by simp_all

lemma as_usize_nonneg: "0 \<le> sint x \<Longrightarrow> as_usize x = nat (sint x)"
  using sint_i32_range(2) [of x] by (simp add: as_usize_mod)

lemma as_usize_neg: "sint x < 0 \<Longrightarrow> as_usize x = nat (sint x + 2 ^ 64)"
proof -
  assume neg: "sint x < 0"
  have "sint x mod 2 ^ 64 = (sint x + 2 ^ 64) mod 2 ^ 64" by simp
  also have "\<dots> = sint x + 2 ^ 64" using neg sint_i32_range(1) [of x] by (intro mod_pos_pos_trivial) auto
  finally show ?thesis by (simp add: as_usize_mod)
qed

text \<open>A negative length brings the host down, a length that is not negative never does.\<close>

lemma alloc_panics_iff: "alloc_panics (as_usize x) \<longleftrightarrow> sint x < 0"
  using sint_i32_range [of x] by (cases "sint x < 0") (auto simp: alloc_panics_def as_usize_neg as_usize_nonneg nat_le_iff le_nat_iff)

lemma get_config_panics_iff:
  "wasm_get_config u j cfg kp kl op ml mem = HostPanic \<longleftrightarrow> mem \<noteq> None \<and> sint kl < 0"
  by (auto simp: wasm_get_config_def alloc_panics_iff Let_def split: option.splits)

text \<open>Otherwise the memory keeps its size and changes only in the bytes the result counts, from the output pointer on; when
  the capacity is not negative these are at most that many.\<close>

lemma memory_write_frame:
  "memory_write p bs m = Some m' \<Longrightarrow>
   length m' = length m \<and> p + length bs \<le> length m \<and> take p m' = take p m \<and> drop (p + length bs) m' = drop (p + length bs) m"
  by (auto simp: memory_write_def split: if_splits)

theorem wasm_get_config_writes_in_bounds:
  assumes "wasm_get_config u j cfg kp kl op ml (Some m) = HostReturn (r, mem)" "\<forall>v \<in> ran (map_of cfg). length (j v) < 2 ^ 31"
  obtains m' where "mem = Some m'" "length m' = length m"
    "m' = m \<or> take (as_usize op) m' = take (as_usize op) m
       \<and> drop (as_usize op + nat (sint r)) m' = drop (as_usize op + nat (sint r)) m
       \<and> (0 \<le> sint ml \<longrightarrow> sint r \<le> sint ml)"
proof -
  consider "mem = Some m"
    | k v m' where "map_of cfg k = Some v" "length (j v) \<le> as_usize ml" "memory_write (as_usize op) (j v) m = Some m'"
      "r = of_nat (length (j v))" "mem = Some m'"
    using assms(1) by (fastforce simp: wasm_get_config_def Let_def split: option.splits if_splits)
  then show thesis
  proof cases
    case 2
    have "length (j v) < 2 ^ 31" using assms(2) 2(1) by (auto simp: ran_def)
    then have r: "sint r = int (length (j v))"
      by (simp add: 2(4) signed_of_nat signed_take_bit_int_eq_self)
    have "sint r \<le> sint ml" if "0 \<le> sint ml"
      using 2(2) that by (simp add: r as_usize_nonneg le_nat_iff)
    with memory_write_frame [OF 2(3)] r 2(5) show thesis by (intro that [of m']) auto
  qed (use that in auto)
qed

text \<open>The buffer of a native plugin is read beyond its end exactly when the plugin fills it without a zero byte.\<close>

lemma read_filled_undefined_iff:
  "0 < n \<Longrightarrow> length bs \<le> n \<Longrightarrow> read_cstr (filled n bs) = None \<longleftrightarrow> length bs = n \<and> 0 \<notin> set bs"
  by (cases "length bs = n") (auto simp: read_cstr_def filled_def)

end
