(* ===== verification/Telemetry.thy ===== *)
theory Telemetry
  imports Decimal Float64
begin

text \<open>
  Telemetry (\<^verbatim>\<open>src/src/telemetry/metrics.rs\<close>): the readiness state of the metrics server with its endpoints, and the
  recording functions.  The exporter is foreign code: a recording function is what it hands to the exporter, a measurement
  on an instrument with its labels, appended to a log; before an instrument has been created a recording is lost.

  The lemmas show that readiness follows the reported health of the registered clusters, that no two instruments share a
  cell or an exported name, and how receipts and deliveries are counted.
\<close>

section \<open>Readiness (AdminState)\<close>

record dependency_status =
  ds_name :: string
  ds_healthy :: bool
  ds_message :: "string option"

record telemetry_state =
  ts_start_time :: instant
  ts_healthy :: bool
  ts_ready :: bool
  ts_active_connections :: u64
  ts_total_connections :: u64
  ts_messages_submitted :: u64
  ts_messages_delivered :: u64
  ts_messages_failed :: u64
  ts_cluster_health :: "(string, bool) alist"
  ts_required_clusters :: "string list"

definition telemetry_state_new :: "instant \<Rightarrow> telemetry_state" where
  "telemetry_state_new now =
     \<lparr> ts_start_time = now, ts_healthy = True, ts_ready = True, ts_active_connections = 0, ts_total_connections = 0,
       ts_messages_submitted = 0, ts_messages_delivered = 0, ts_messages_failed = 0, ts_cluster_health = [],
       ts_required_clusters = [] \<rparr>"

definition ts_uptime_secs :: "instant \<Rightarrow> telemetry_state \<Rightarrow> nat" where
  "ts_uptime_secs now s = elapsed now (ts_start_time s) div nanos_per_sec"

definition ts_set_ready :: "bool \<Rightarrow> telemetry_state \<Rightarrow> telemetry_state" where
  "ts_set_ready b s = s \<lparr> ts_ready := b \<rparr>"

definition ts_inc_connections :: "telemetry_state \<Rightarrow> telemetry_state" where
  "ts_inc_connections s =
     s \<lparr> ts_active_connections := ts_active_connections s + 1, ts_total_connections := ts_total_connections s + 1 \<rparr>"

definition ts_dec_connections :: "telemetry_state \<Rightarrow> telemetry_state" where
  "ts_dec_connections s = s \<lparr> ts_active_connections := ts_active_connections s - 1 \<rparr>"

definition ts_inc_submitted :: "telemetry_state \<Rightarrow> telemetry_state" where
  "ts_inc_submitted s = s \<lparr> ts_messages_submitted := ts_messages_submitted s + 1 \<rparr>"

definition ts_inc_delivered :: "telemetry_state \<Rightarrow> telemetry_state" where
  "ts_inc_delivered s = s \<lparr> ts_messages_delivered := ts_messages_delivered s + 1 \<rparr>"

definition ts_inc_failed :: "telemetry_state \<Rightarrow> telemetry_state" where
  "ts_inc_failed s = s \<lparr> ts_messages_failed := ts_messages_failed s + 1 \<rparr>"

definition cluster_healthy :: "telemetry_state \<Rightarrow> string \<Rightarrow> bool" where
  "cluster_healthy s c = (case map_of (ts_cluster_health s) c of None \<Rightarrow> False | Some h \<Rightarrow> h)"

definition update_readiness :: "telemetry_state \<Rightarrow> telemetry_state" where
  "update_readiness s =
     (if ts_required_clusters s = [] then s \<lparr> ts_ready := True \<rparr>
      else s \<lparr> ts_ready := list_all (cluster_healthy s) (ts_required_clusters s) \<rparr>)"

definition register_cluster :: "string \<Rightarrow> telemetry_state \<Rightarrow> telemetry_state" where
  "register_cluster c s =
     update_readiness
       (s \<lparr> ts_required_clusters :=
              (if c \<in> set (ts_required_clusters s) then ts_required_clusters s else ts_required_clusters s @ [c]),
            ts_cluster_health :=
              (case map_of (ts_cluster_health s) c of None \<Rightarrow> AList.update c False (ts_cluster_health s)
               | Some _ \<Rightarrow> ts_cluster_health s) \<rparr>)"

definition set_cluster_health :: "string \<Rightarrow> bool \<Rightarrow> telemetry_state \<Rightarrow> telemetry_state" where
  "set_cluster_health c h s = update_readiness (s \<lparr> ts_cluster_health := AList.update c h (ts_cluster_health s) \<rparr>)"

definition get_dependency_status :: "telemetry_state \<Rightarrow> dependency_status list" where
  "get_dependency_status s =
     map (\<lambda>name. \<lparr> ds_name = name, ds_healthy = cluster_healthy s name,
            ds_message = (if cluster_healthy s name then None else Some ''cluster unhealthy or unreachable'') \<rparr>)
       (ts_required_clusters s)"

definition mark_ready :: "telemetry_state \<Rightarrow> telemetry_state" where
  "mark_ready s = s \<lparr> ts_ready := True \<rparr>"

section \<open>Endpoints\<close>

record health_response =
  hr_status :: string
  hr_version :: string

record readiness_response =
  rr_ready :: bool
  rr_dependencies :: "dependency_status list"

record telemetry_stats =
  tt_uptime_seconds :: nat
  tt_active :: u64
  tt_total :: u64
  tt_submitted :: u64
  tt_delivered :: u64
  tt_failed :: u64

definition healthz_handler :: "string \<Rightarrow> telemetry_state \<Rightarrow> nat \<times> health_response" where
  "healthz_handler pkg_version s =
     (let response = \<lparr> hr_status = (if ts_healthy s then ''healthy'' else ''unhealthy''), hr_version = pkg_version \<rparr>
      in if ts_healthy s then (200, response) else (503, response))"

definition livez_handler :: nat where
  "livez_handler = 200"

definition readyz_handler :: "telemetry_state \<Rightarrow> nat \<times> readiness_response" where
  "readyz_handler s =
     (let response = \<lparr> rr_ready = ts_ready s, rr_dependencies = get_dependency_status s \<rparr>
      in if ts_ready s then (200, response) else (503, response))"

definition telemetry_stats_handler :: "instant \<Rightarrow> telemetry_state \<Rightarrow> telemetry_stats" where
  "telemetry_stats_handler now s =
     \<lparr> tt_uptime_seconds = ts_uptime_secs now s, tt_active = ts_active_connections s, tt_total = ts_total_connections s,
       tt_submitted = ts_messages_submitted s, tt_delivered = ts_messages_delivered s, tt_failed = ts_messages_failed s \<rparr>"

section \<open>Instruments\<close>

named_theorems recorders \<open>definitions of the recording functions\<close>

datatype instrument_kind = U64Counter | I64Gauge | F64Gauge | F64Histogram

datatype measurement =
    CounterAdd string u64 "(string \<times> string) list"
  | GaugeSet string i64 "(string \<times> string) list"
  | GaugeSetF64 string f64 "(string \<times> string) list"
  | HistogramRecord string f64 "(string \<times> string) list"

text \<open>The cells that hold instruments, with kind and exported name, and what has been recorded.\<close>

record metrics =
  mx_cells :: "(string \<times> instrument_kind \<times> string) list"
  mx_log :: "measurement list"

definition metrics_new :: metrics where
  "metrics_new = \<lparr> mx_cells = [], mx_log = [] \<rparr>"

definition recorded :: "string \<Rightarrow> measurement \<Rightarrow> metrics \<Rightarrow> metrics" where
  "recorded cell x m = (if map_of (mx_cells m) cell = None then m else m \<lparr> mx_log := mx_log m @ [x] \<rparr>)"

definition counter_add :: "string \<Rightarrow> u64 \<Rightarrow> (string \<times> string) list \<Rightarrow> metrics \<Rightarrow> metrics" where
  "counter_add cell n labels m = recorded cell (CounterAdd cell n labels) m"

definition gauge_set :: "string \<Rightarrow> i64 \<Rightarrow> (string \<times> string) list \<Rightarrow> metrics \<Rightarrow> metrics" where
  "gauge_set cell v labels m = recorded cell (GaugeSet cell v labels) m"

definition gauge_set_f64 :: "string \<Rightarrow> f64 \<Rightarrow> (string \<times> string) list \<Rightarrow> metrics \<Rightarrow> metrics" where
  "gauge_set_f64 cell v labels m = recorded cell (GaugeSetF64 cell v labels) m"

definition histogram_record :: "string \<Rightarrow> f64 \<Rightarrow> (string \<times> string) list \<Rightarrow> metrics \<Rightarrow> metrics" where
  "histogram_record cell v labels m = recorded cell (HistogramRecord cell v labels) m"

definition listener_instruments :: "(string \<times> instrument_kind \<times> string) list" where
  "listener_instruments =
     [(''LISTENER_CONNECTIONS_TOTAL'', U64Counter, ''smpp_listener_connections_total''),
      (''LISTENER_CONNECTIONS_ACTIVE'', I64Gauge, ''smpp_listener_connections_active''),
      (''LISTENER_BINDS_TOTAL'', U64Counter, ''smpp_listener_binds_total''),
      (''LISTENER_BIND_DURATION'', F64Histogram, ''smpp_listener_bind_duration_seconds''),
      (''LISTENER_SESSION_DURATION'', F64Histogram, ''smpp_listener_session_duration_seconds''),
      (''LISTENER_UNBINDS_TOTAL'', U64Counter, ''smpp_listener_unbinds_total'')]"

definition upstream_instruments :: "(string \<times> instrument_kind \<times> string) list" where
  "upstream_instruments =
     [(''UPSTREAM_CONNECTIONS_TOTAL'', U64Counter, ''smpp_upstream_connections_total''),
      (''UPSTREAM_CONNECTIONS_ACTIVE'', I64Gauge, ''smpp_upstream_connections_active''),
      (''UPSTREAM_POOL_SIZE'', I64Gauge, ''smpp_upstream_pool_size''),
      (''UPSTREAM_POOL_AVAILABLE'', I64Gauge, ''smpp_upstream_pool_available''),
      (''UPSTREAM_POOL_WAITING'', I64Gauge, ''smpp_upstream_pool_waiting''),
      (''UPSTREAM_POOL_ACQUIRE_DURATION'', F64Histogram, ''smpp_upstream_pool_acquire_duration_seconds''),
      (''UPSTREAM_HEALTH_STATUS'', I64Gauge, ''smpp_upstream_health_status''),
      (''UPSTREAM_HEALTH_CHECKS_TOTAL'', U64Counter, ''smpp_upstream_health_checks_total''),
      (''UPSTREAM_REQUEST_DURATION'', F64Histogram, ''smpp_upstream_request_duration_seconds''),
      (''UPSTREAM_ERRORS_TOTAL'', U64Counter, ''smpp_upstream_errors_total''),
      (''UPSTREAM_RECONNECTS_TOTAL'', U64Counter, ''smpp_upstream_reconnects_total''),
      (''UPSTREAM_CIRCUIT_BREAKER_STATE'', I64Gauge, ''smpp_upstream_circuit_breaker_state'')]"

definition route_instruments :: "(string \<times> instrument_kind \<times> string) list" where
  "route_instruments =
     [(''ROUTE_MATCHES_TOTAL'', U64Counter, ''smpp_route_matches_total''),
      (''ROUTE_NO_MATCH_TOTAL'', U64Counter, ''smpp_route_no_match_total''),
      (''ROUTE_EVALUATION_DURATION'', F64Histogram, ''smpp_route_evaluation_duration_seconds'')]"

definition pdu_instruments :: "(string \<times> instrument_kind \<times> string) list" where
  "pdu_instruments =
     [(''PDU_RECEIVED_TOTAL'', U64Counter, ''smpp_pdu_received_total''),
      (''PDU_SENT_TOTAL'', U64Counter, ''smpp_pdu_sent_total''),
      (''PDU_ERRORS_TOTAL'', U64Counter, ''smpp_pdu_errors_total''),
      (''PDU_SIZE_BYTES'', F64Histogram, ''smpp_pdu_size_bytes''),
      (''PDU_PARSE_DURATION'', F64Histogram, ''smpp_pdu_parse_duration_seconds'')]"

definition message_instruments :: "(string \<times> instrument_kind \<times> string) list" where
  "message_instruments =
     [(''MESSAGES_SUBMITTED_TOTAL'', U64Counter, ''smpp_messages_submitted_total''),
      (''MESSAGES_DELIVERED_TOTAL'', U64Counter, ''smpp_messages_delivered_total''),
      (''MESSAGES_FAILED_TOTAL'', U64Counter, ''smpp_messages_failed_total''),
      (''MESSAGES_EXPIRED_TOTAL'', U64Counter, ''smpp_messages_expired_total''),
      (''MESSAGE_PARTS_TOTAL'', U64Counter, ''smpp_message_parts_total''),
      (''MESSAGE_SUBMIT_DURATION'', F64Histogram, ''smpp_message_submit_duration_seconds''),
      (''MESSAGE_SIZE_BYTES'', F64Histogram, ''smpp_message_size_bytes''),
      (''MESSAGE_QUEUE_DEPTH'', I64Gauge, ''smpp_message_queue_depth''),
      (''MESSAGE_QUEUE_LATENCY'', F64Histogram, ''smpp_message_queue_latency_seconds'')]"

definition dlr_instruments :: "(string \<times> instrument_kind \<times> string) list" where
  "dlr_instruments =
     [(''DLR_RECEIVED_TOTAL'', U64Counter, ''smpp_dlr_received_total''),
      (''DLR_LATENCY'', F64Histogram, ''smpp_dlr_latency_seconds''),
      (''DLR_PENDING'', I64Gauge, ''smpp_dlr_pending'')]"

definition throughput_instruments :: "(string \<times> instrument_kind \<times> string) list" where
  "throughput_instruments =
     [(''THROUGHPUT_TPS'', F64Gauge, ''smpp_throughput_messages_per_second''),
      (''THROUGHPUT_BYTES_IN'', U64Counter, ''smpp_throughput_bytes_received_total''),
      (''THROUGHPUT_BYTES_OUT'', U64Counter, ''smpp_throughput_bytes_sent_total'')]"

definition window_flow_control_instruments :: "(string \<times> instrument_kind \<times> string) list" where
  "window_flow_control_instruments =
     [(''WINDOW_SIZE'', I64Gauge, ''smpp_window_size''),
      (''WINDOW_PENDING'', I64Gauge, ''smpp_window_pending''),
      (''WINDOW_FULL_TOTAL'', U64Counter, ''smpp_window_full_total''),
      (''THROTTLE_EVENTS_TOTAL'', U64Counter, ''smpp_throttle_events_total''),
      (''BACKPRESSURE_EVENTS_TOTAL'', U64Counter, ''smpp_backpressure_events_total'')]"

definition session_state_instruments :: "(string \<times> instrument_kind \<times> string) list" where
  "session_state_instruments =
     [(''SESSION_STATE'', I64Gauge, ''smpp_session_state''),
      (''SESSION_TRANSITIONS_TOTAL'', U64Counter, ''smpp_session_transitions_total''),
      (''ENQUIRE_LINK_SENT_TOTAL'', U64Counter, ''smpp_enquire_link_sent_total''),
      (''ENQUIRE_LINK_RECEIVED_TOTAL'', U64Counter, ''smpp_enquire_link_received_total''),
      (''ENQUIRE_LINK_TIMEOUT_TOTAL'', U64Counter, ''smpp_enquire_link_timeout_total''),
      (''ENQUIRE_LINK_LATENCY'', F64Histogram, ''smpp_enquire_link_latency_seconds'')]"

definition error_breakdown_instruments :: "(string \<times> instrument_kind \<times> string) list" where
  "error_breakdown_instruments =
     [(''ERRORS_TOTAL'', U64Counter, ''smpp_errors_total''),
      (''TIMEOUT_ERRORS_TOTAL'', U64Counter, ''smpp_timeout_errors_total''),
      (''PROTOCOL_ERRORS_TOTAL'', U64Counter, ''smpp_protocol_errors_total''),
      (''NETWORK_ERRORS_TOTAL'', U64Counter, ''smpp_network_errors_total''),
      (''INVALID_PDU_TOTAL'', U64Counter, ''smpp_invalid_pdu_total'')]"

definition filter_middleware_instruments :: "(string \<times> instrument_kind \<times> string) list" where
  "filter_middleware_instruments =
     [(''FILTER_EXECUTIONS_TOTAL'', U64Counter, ''smpp_filter_executions_total''),
      (''FILTER_REJECTIONS_TOTAL'', U64Counter, ''smpp_filter_rejections_total''),
      (''FILTER_DURATION'', F64Histogram, ''smpp_filter_duration_seconds''),
      (''FILTER_ERRORS_TOTAL'', U64Counter, ''smpp_filter_errors_total'')]"

definition rate_limiting_instruments :: "(string \<times> instrument_kind \<times> string) list" where
  "rate_limiting_instruments =
     [(''RATE_LIMIT_ALLOWED_TOTAL'', U64Counter, ''smpp_rate_limit_allowed_total''),
      (''RATE_LIMIT_DENIED_TOTAL'', U64Counter, ''smpp_rate_limit_denied_total''),
      (''RATE_LIMIT_CURRENT'', F64Gauge, ''smpp_rate_limit_current''),
      (''RATE_LIMIT_CAPACITY'', F64Gauge, ''smpp_rate_limit_capacity'')]"

definition auth_instruments :: "(string \<times> instrument_kind \<times> string) list" where
  "auth_instruments =
     [(''AUTH_ATTEMPTS_TOTAL'', U64Counter, ''smpp_auth_attempts_total''),
      (''AUTH_SUCCESS_TOTAL'', U64Counter, ''smpp_auth_success_total''),
      (''AUTH_FAILURE_TOTAL'', U64Counter, ''smpp_auth_failure_total''),
      (''AUTH_DURATION'', F64Histogram, ''smpp_auth_duration_seconds'')]"

definition tls_instruments :: "(string \<times> instrument_kind \<times> string) list" where
  "tls_instruments =
     [(''TLS_HANDSHAKES_TOTAL'', U64Counter, ''smpp_tls_handshakes_total''),
      (''TLS_HANDSHAKE_DURATION'', F64Histogram, ''smpp_tls_handshake_duration_seconds''),
      (''TLS_ERRORS_TOTAL'', U64Counter, ''smpp_tls_errors_total''),
      (''TLS_CONNECTIONS_ACTIVE'', I64Gauge, ''smpp_tls_connections_active'')]"

definition encoding_instruments :: "(string \<times> instrument_kind \<times> string) list" where
  "encoding_instruments =
     [(''ENCODING_CONVERSIONS_TOTAL'', U64Counter, ''smpp_encoding_conversions_total''),
      (''ENCODING_ERRORS_TOTAL'', U64Counter, ''smpp_encoding_errors_total'')]"

definition credit_billing_instruments :: "(string \<times> instrument_kind \<times> string) list" where
  "credit_billing_instruments =
     [(''CREDITS_CHECKED_TOTAL'', U64Counter, ''smpp_credits_checked_total''),
      (''CREDITS_DEDUCTED_TOTAL'', U64Counter, ''smpp_credits_deducted_total''),
      (''CREDITS_INSUFFICIENT_TOTAL'', U64Counter, ''smpp_credits_insufficient_total''),
      (''CREDITS_BALANCE'', F64Gauge, ''smpp_credits_balance'')]"

definition sender_id_instruments :: "(string \<times> instrument_kind \<times> string) list" where
  "sender_id_instruments =
     [(''SENDER_ID_LOOKUPS_TOTAL'', U64Counter, ''smpp_sender_id_lookups_total''),
      (''SENDER_ID_REWRITES_TOTAL'', U64Counter, ''smpp_sender_id_rewrites_total''),
      (''SENDER_ID_BLOCKED_TOTAL'', U64Counter, ''smpp_sender_id_blocked_total'')]"

definition system_instruments :: "(string \<times> instrument_kind \<times> string) list" where
  "system_instruments =
     [(''SERVER_INFO'', I64Gauge, ''smpp_server_info''),
      (''SERVER_START_TIME'', I64Gauge, ''smpp_server_start_time_seconds''),
      (''CONFIG_RELOADS_TOTAL'', U64Counter, ''smpp_config_reloads_total''),
      (''CONFIG_RELOAD_ERRORS_TOTAL'', U64Counter, ''smpp_config_reload_errors_total''),
      (''WORKERS_ACTIVE'', I64Gauge, ''smpp_workers_active''),
      (''SHUTDOWN_DRAIN_CONNECTIONS'', I64Gauge, ''smpp_shutdown_drain_connections'')]"

definition resource_instruments :: "(string \<times> instrument_kind \<times> string) list" where
  "resource_instruments =
     [(''BUFFER_POOL_SIZE'', I64Gauge, ''smpp_buffer_pool_size''),
      (''BUFFER_POOL_AVAILABLE'', I64Gauge, ''smpp_buffer_pool_available''),
      (''BUFFER_ALLOCATIONS_TOTAL'', U64Counter, ''smpp_buffer_allocations_total''),
      (''PENDING_RESPONSES'', I64Gauge, ''smpp_pending_responses''),
      (''ACTIVE_TASKS'', I64Gauge, ''smpp_active_tasks'')]"

definition all_instruments :: "(string \<times> instrument_kind \<times> string) list" where
  "all_instruments =
     listener_instruments @ upstream_instruments @ route_instruments @ pdu_instruments @ message_instruments @ dlr_instruments @ throughput_instruments
     @ window_flow_control_instruments @ session_state_instruments @ error_breakdown_instruments @ filter_middleware_instruments @ rate_limiting_instruments @ auth_instruments @ tls_instruments
     @ encoding_instruments @ credit_billing_instruments @ sender_id_instruments @ system_instruments @ resource_instruments"

text \<open>\<^verbatim>\<open>OnceLock::set\<close> keeps an instrument that is there already.\<close>

definition set_cell :: "string \<times> instrument_kind \<times> string \<Rightarrow> metrics \<Rightarrow> metrics" where
  "set_cell c m = (if map_of (mx_cells m) (fst c) = None then m \<lparr> mx_cells := mx_cells m @ [c] \<rparr> else m)"

definition counters_init :: "string \<Rightarrow> instant \<Rightarrow> metrics \<Rightarrow> metrics" where
  "counters_init pkg_version wall m =
     gauge_set ''SERVER_START_TIME'' (of_int (wall div int nanos_per_sec)) []
       (gauge_set ''SERVER_INFO'' 1 [(''version'', pkg_version)] (fold set_cell all_instruments m))"

section \<open>Recording functions\<close>

definition mt_listener_connection_opened :: "string \<Rightarrow> metrics \<Rightarrow> metrics" where [recorders]:
  "mt_listener_connection_opened listener m =
     counter_add ''LISTENER_CONNECTIONS_TOTAL'' 1 [(''listener'', listener), (''status'', ''accepted'')] m"

definition mt_listener_connection_rejected :: "string \<Rightarrow> string \<Rightarrow> metrics \<Rightarrow> metrics" where [recorders]:
  "mt_listener_connection_rejected listener reason m =
     counter_add ''LISTENER_CONNECTIONS_TOTAL'' 1 [(''listener'', listener), (''status'', ''rejected''), (''reason'', reason)] m"

definition mt_listener_connections_active_set :: "string \<Rightarrow> i64 \<Rightarrow> metrics \<Rightarrow> metrics" where [recorders]:
  "mt_listener_connections_active_set listener n m =
     gauge_set ''LISTENER_CONNECTIONS_ACTIVE'' n [(''listener'', listener)] m"

definition mt_listener_bind :: "string \<Rightarrow> string \<Rightarrow> string \<Rightarrow> f64 \<Rightarrow> metrics \<Rightarrow> metrics" where [recorders]:
  "mt_listener_bind listener bind_type result duration_secs m =
     histogram_record ''LISTENER_BIND_DURATION'' duration_secs [(''listener'', listener), (''bind_type'', bind_type)] 
       (counter_add ''LISTENER_BINDS_TOTAL'' 1 [(''listener'', listener), (''bind_type'', bind_type), (''result'', result)] m)"

definition mt_listener_session_closed :: "string \<Rightarrow> f64 \<Rightarrow> metrics \<Rightarrow> metrics" where [recorders]:
  "mt_listener_session_closed listener duration_secs m =
     histogram_record ''LISTENER_SESSION_DURATION'' duration_secs [(''listener'', listener)] m"

definition mt_listener_unbind :: "string \<Rightarrow> string \<Rightarrow> metrics \<Rightarrow> metrics" where [recorders]:
  "mt_listener_unbind listener reason m =
     counter_add ''LISTENER_UNBINDS_TOTAL'' 1 [(''listener'', listener), (''reason'', reason)] m"

definition mt_upstream_connection_opened :: "string \<Rightarrow> string \<Rightarrow> metrics \<Rightarrow> metrics" where [recorders]:
  "mt_upstream_connection_opened cluster endpoint m =
     counter_add ''UPSTREAM_CONNECTIONS_TOTAL'' 1 [(''cluster'', cluster), (''endpoint'', endpoint), (''status'', ''connected'')] m"

definition mt_upstream_connection_failed :: "string \<Rightarrow> string \<Rightarrow> string \<Rightarrow> metrics \<Rightarrow> metrics" where [recorders]:
  "mt_upstream_connection_failed cluster endpoint reason m =
     counter_add ''UPSTREAM_CONNECTIONS_TOTAL'' 1 [(''cluster'', cluster), (''endpoint'', endpoint), (''status'', ''failed''), (''reason'', reason)] m"

definition mt_upstream_connections_active_set :: "string \<Rightarrow> i64 \<Rightarrow> metrics \<Rightarrow> metrics" where [recorders]:
  "mt_upstream_connections_active_set cluster n m =
     gauge_set ''UPSTREAM_CONNECTIONS_ACTIVE'' n [(''cluster'', cluster)] m"

definition mt_upstream_pool_update :: "string \<Rightarrow> i64 \<Rightarrow> i64 \<Rightarrow> i64 \<Rightarrow> metrics \<Rightarrow> metrics" where [recorders]:
  "mt_upstream_pool_update cluster sz available waiting m =
     gauge_set ''UPSTREAM_POOL_WAITING'' waiting [(''cluster'', cluster)] 
       (gauge_set ''UPSTREAM_POOL_AVAILABLE'' available [(''cluster'', cluster)] 
       (gauge_set ''UPSTREAM_POOL_SIZE'' sz [(''cluster'', cluster)] m))"

definition mt_upstream_pool_acquire :: "string \<Rightarrow> f64 \<Rightarrow> metrics \<Rightarrow> metrics" where [recorders]:
  "mt_upstream_pool_acquire cluster duration_secs m =
     histogram_record ''UPSTREAM_POOL_ACQUIRE_DURATION'' duration_secs [(''cluster'', cluster)] m"

definition mt_upstream_health_set :: "string \<Rightarrow> string \<Rightarrow> bool \<Rightarrow> metrics \<Rightarrow> metrics" where [recorders]:
  "mt_upstream_health_set cluster endpoint healthy m =
     gauge_set ''UPSTREAM_HEALTH_STATUS'' (if healthy then 1 else 0) [(''cluster'', cluster), (''endpoint'', endpoint)] m"

definition mt_upstream_health_check :: "string \<Rightarrow> string \<Rightarrow> bool \<Rightarrow> metrics \<Rightarrow> metrics" where [recorders]:
  "mt_upstream_health_check cluster endpoint success m =
     counter_add ''UPSTREAM_HEALTH_CHECKS_TOTAL'' 1 [(''cluster'', cluster), (''endpoint'', endpoint), (''result'', if success then ''success'' else ''failure'')] m"

definition mt_upstream_request_duration :: "string \<Rightarrow> string \<Rightarrow> f64 \<Rightarrow> metrics \<Rightarrow> metrics" where [recorders]:
  "mt_upstream_request_duration cluster command duration_secs m =
     histogram_record ''UPSTREAM_REQUEST_DURATION'' duration_secs [(''cluster'', cluster), (''command'', command)] m"

definition mt_upstream_error :: "string \<Rightarrow> string \<Rightarrow> metrics \<Rightarrow> metrics" where [recorders]:
  "mt_upstream_error cluster error_type m =
     counter_add ''UPSTREAM_ERRORS_TOTAL'' 1 [(''cluster'', cluster), (''type'', error_type)] m"

definition mt_upstream_reconnect :: "string \<Rightarrow> string \<Rightarrow> u32 \<Rightarrow> metrics \<Rightarrow> metrics" where [recorders]:
  "mt_upstream_reconnect cluster endpoint attempt m =
     counter_add ''UPSTREAM_RECONNECTS_TOTAL'' 1 [(''cluster'', cluster), (''endpoint'', endpoint), (''attempt'', show_nat (unat attempt))] m"

definition mt_upstream_circuit_breaker :: "string \<Rightarrow> string \<Rightarrow> metrics \<Rightarrow> metrics" where [recorders]:
  "mt_upstream_circuit_breaker cluster state m =
     gauge_set ''UPSTREAM_CIRCUIT_BREAKER_STATE'' (if state = ''closed'' then 0 else if state = ''open'' then 1 else if state = ''half-open'' then 2 else -1) [(''cluster'', cluster)] m"

definition mt_route_matched :: "string \<Rightarrow> string \<Rightarrow> metrics \<Rightarrow> metrics" where [recorders]:
  "mt_route_matched route cluster m =
     counter_add ''ROUTE_MATCHES_TOTAL'' 1 [(''route'', route), (''cluster'', cluster)] m"

definition mt_route_no_match :: "string \<Rightarrow> metrics \<Rightarrow> metrics" where [recorders]:
  "mt_route_no_match destination m =
     counter_add ''ROUTE_NO_MATCH_TOTAL'' 1 [(''destination_prefix'', destination)] m"

definition mt_route_evaluation :: "f64 \<Rightarrow> usize \<Rightarrow> metrics \<Rightarrow> metrics" where [recorders]:
  "mt_route_evaluation duration_secs route_count m =
     histogram_record ''ROUTE_EVALUATION_DURATION'' duration_secs [(''routes_evaluated'', show_nat (unat route_count))] m"

definition mt_pdu_received :: "string \<Rightarrow> string \<Rightarrow> metrics \<Rightarrow> metrics" where [recorders]:
  "mt_pdu_received listener command m =
     counter_add ''PDU_RECEIVED_TOTAL'' 1 [(''listener'', listener), (''command'', command)] m"

definition mt_pdu_received_with_size :: "string \<Rightarrow> string \<Rightarrow> u64 \<Rightarrow> metrics \<Rightarrow> metrics" where [recorders]:
  "mt_pdu_received_with_size listener command size_bytes m =
     histogram_record ''PDU_SIZE_BYTES'' (f64_of_int (uint size_bytes)) [(''direction'', ''in''), (''command'', command)] 
       (mt_pdu_received listener command m)"

definition mt_pdu_sent :: "string \<Rightarrow> string \<Rightarrow> metrics \<Rightarrow> metrics" where [recorders]:
  "mt_pdu_sent listener command m =
     counter_add ''PDU_SENT_TOTAL'' 1 [(''listener'', listener), (''command'', command)] m"

definition mt_pdu_sent_with_size :: "string \<Rightarrow> string \<Rightarrow> u64 \<Rightarrow> metrics \<Rightarrow> metrics" where [recorders]:
  "mt_pdu_sent_with_size cluster command size_bytes m =
     histogram_record ''PDU_SIZE_BYTES'' (f64_of_int (uint size_bytes)) [(''direction'', ''out''), (''command'', command)] 
       (counter_add ''PDU_SENT_TOTAL'' 1 [(''cluster'', cluster), (''command'', command)] m)"

definition mt_pdu_error :: "string \<Rightarrow> string \<Rightarrow> metrics \<Rightarrow> metrics" where [recorders]:
  "mt_pdu_error listener error_type m =
     counter_add ''PDU_ERRORS_TOTAL'' 1 [(''listener'', listener), (''type'', error_type)] m"

definition mt_pdu_error_with_status :: "string \<Rightarrow> u32 \<Rightarrow> string \<Rightarrow> metrics \<Rightarrow> metrics" where [recorders]:
  "mt_pdu_error_with_status command status_code status_name m =
     counter_add ''PDU_ERRORS_TOTAL'' 1 [(''command'', command), (''status_code'', show_nat (unat status_code)), (''status'', status_name)] m"

definition mt_pdu_parse :: "f64 \<Rightarrow> string \<Rightarrow> metrics \<Rightarrow> metrics" where [recorders]:
  "mt_pdu_parse duration_secs command m =
     histogram_record ''PDU_PARSE_DURATION'' duration_secs [(''command'', command)] m"

definition mt_message_submitted :: "string \<Rightarrow> metrics \<Rightarrow> metrics" where [recorders]:
  "mt_message_submitted listener m =
     counter_add ''MESSAGES_SUBMITTED_TOTAL'' 1 [(''listener'', listener)] m"

definition mt_message_submitted_with_details :: "string \<Rightarrow> string \<Rightarrow> string \<Rightarrow> u64 \<Rightarrow> metrics \<Rightarrow> metrics" where [recorders]:
  "mt_message_submitted_with_details cluster source dest_prefix size_bytes m =
     histogram_record ''MESSAGE_SIZE_BYTES'' (f64_of_int (uint size_bytes)) [(''cluster'', cluster)] 
       (counter_add ''MESSAGES_SUBMITTED_TOTAL'' 1 [(''cluster'', cluster), (''source'', source), (''destination_prefix'', dest_prefix)] m)"

definition mt_message_delivered :: "string \<Rightarrow> metrics \<Rightarrow> metrics" where [recorders]:
  "mt_message_delivered listener m =
     counter_add ''MESSAGES_DELIVERED_TOTAL'' 1 [(''listener'', listener)] m"

definition mt_message_failed :: "string \<Rightarrow> string \<Rightarrow> metrics \<Rightarrow> metrics" where [recorders]:
  "mt_message_failed cluster reason m =
     counter_add ''MESSAGES_FAILED_TOTAL'' 1 [(''cluster'', cluster), (''reason'', reason)] m"

definition mt_message_expired :: "string \<Rightarrow> metrics \<Rightarrow> metrics" where [recorders]:
  "mt_message_expired cluster m =
     counter_add ''MESSAGES_EXPIRED_TOTAL'' 1 [(''cluster'', cluster)] m"

definition mt_message_parts :: "string \<Rightarrow> u64 \<Rightarrow> metrics \<Rightarrow> metrics" where [recorders]:
  "mt_message_parts cluster parts m =
     counter_add ''MESSAGE_PARTS_TOTAL'' parts [(''cluster'', cluster)] m"

definition mt_message_submit_duration :: "string \<Rightarrow> f64 \<Rightarrow> metrics \<Rightarrow> metrics" where [recorders]:
  "mt_message_submit_duration cluster duration_secs m =
     histogram_record ''MESSAGE_SUBMIT_DURATION'' duration_secs [(''cluster'', cluster)] m"

definition mt_message_queue_update :: "string \<Rightarrow> i64 \<Rightarrow> metrics \<Rightarrow> metrics" where [recorders]:
  "mt_message_queue_update queue depth m =
     gauge_set ''MESSAGE_QUEUE_DEPTH'' depth [(''queue'', queue)] m"

definition mt_message_queue_latency :: "string \<Rightarrow> f64 \<Rightarrow> metrics \<Rightarrow> metrics" where [recorders]:
  "mt_message_queue_latency queue latency_secs m =
     histogram_record ''MESSAGE_QUEUE_LATENCY'' latency_secs [(''queue'', queue)] m"

definition mt_dlr_received :: "string \<Rightarrow> string \<Rightarrow> metrics \<Rightarrow> metrics" where [recorders]:
  "mt_dlr_received status cluster m =
     counter_add ''DLR_RECEIVED_TOTAL'' 1 [(''status'', status), (''cluster'', cluster)] m"

definition mt_dlr_latency :: "string \<Rightarrow> f64 \<Rightarrow> metrics \<Rightarrow> metrics" where [recorders]:
  "mt_dlr_latency cluster latency_secs m =
     histogram_record ''DLR_LATENCY'' latency_secs [(''cluster'', cluster)] m"

definition mt_dlr_pending_set :: "i64 \<Rightarrow> metrics \<Rightarrow> metrics" where [recorders]:
  "mt_dlr_pending_set n m =
     gauge_set ''DLR_PENDING'' n [] m"

definition mt_dlr_orphaned :: "string \<Rightarrow> metrics \<Rightarrow> metrics" where [recorders]:
  "mt_dlr_orphaned cluster m =
     counter_add ''DLR_RECEIVED_TOTAL'' 1 [(''cluster'', cluster), (''status'', ''orphaned'')] m"

definition mt_dlr_forwarded :: "string \<Rightarrow> metrics \<Rightarrow> metrics" where [recorders]:
  "mt_dlr_forwarded system_id m =
     counter_add ''DLR_RECEIVED_TOTAL'' 1 [(''system_id'', system_id), (''status'', ''forwarded'')] m"

definition mt_message_delivered_dlr :: "metrics \<Rightarrow> metrics" where [recorders]:
  "mt_message_delivered_dlr m =
     counter_add ''MESSAGES_DELIVERED_TOTAL'' 1 [(''source'', ''dlr'')] m"

definition mt_message_failed_dlr :: "metrics \<Rightarrow> metrics" where [recorders]:
  "mt_message_failed_dlr m =
     counter_add ''MESSAGES_FAILED_TOTAL'' 1 [(''reason'', ''dlr_failed'')] m"

definition mt_throughput_set :: "f64 \<Rightarrow> metrics \<Rightarrow> metrics" where [recorders]:
  "mt_throughput_set tps m =
     gauge_set_f64 ''THROUGHPUT_TPS'' tps [] m"

definition mt_bytes_received :: "string \<Rightarrow> u64 \<Rightarrow> metrics \<Rightarrow> metrics" where [recorders]:
  "mt_bytes_received listener bytes m =
     counter_add ''THROUGHPUT_BYTES_IN'' bytes [(''listener'', listener)] m"

definition mt_bytes_sent :: "string \<Rightarrow> u64 \<Rightarrow> metrics \<Rightarrow> metrics" where [recorders]:
  "mt_bytes_sent cluster bytes m =
     counter_add ''THROUGHPUT_BYTES_OUT'' bytes [(''cluster'', cluster)] m"

definition mt_window_update :: "string \<Rightarrow> i64 \<Rightarrow> i64 \<Rightarrow> metrics \<Rightarrow> metrics" where [recorders]:
  "mt_window_update session sz pending m =
     gauge_set ''WINDOW_PENDING'' pending [(''session'', session)] 
       (gauge_set ''WINDOW_SIZE'' sz [(''session'', session)] m)"

definition mt_window_full :: "string \<Rightarrow> metrics \<Rightarrow> metrics" where [recorders]:
  "mt_window_full session m =
     counter_add ''WINDOW_FULL_TOTAL'' 1 [(''session'', session)] m"

definition mt_throttle_event :: "string \<Rightarrow> string \<Rightarrow> metrics \<Rightarrow> metrics" where [recorders]:
  "mt_throttle_event source reason m =
     counter_add ''THROTTLE_EVENTS_TOTAL'' 1 [(''source'', source), (''reason'', reason)] m"

definition mt_backpressure_event :: "string \<Rightarrow> metrics \<Rightarrow> metrics" where [recorders]:
  "mt_backpressure_event component m =
     counter_add ''BACKPRESSURE_EVENTS_TOTAL'' 1 [(''component'', component)] m"

definition mt_session_state_set :: "string \<Rightarrow> string \<Rightarrow> metrics \<Rightarrow> metrics" where [recorders]:
  "mt_session_state_set session state m =
     gauge_set ''SESSION_STATE'' (if state = ''open'' then 0 else if state = ''binding'' then 1 else if state = ''bound'' then 2 else if state = ''unbinding'' then 3 else if state = ''closed'' then 4 else -1) [(''session'', session)] m"

definition mt_session_transition :: "string \<Rightarrow> string \<Rightarrow> string \<Rightarrow> metrics \<Rightarrow> metrics" where [recorders]:
  "mt_session_transition session from_state to_state m =
     counter_add ''SESSION_TRANSITIONS_TOTAL'' 1 [(''session'', session), (''from'', from_state), (''to'', to_state)] m"

definition mt_enquire_link_sent :: "string \<Rightarrow> metrics \<Rightarrow> metrics" where [recorders]:
  "mt_enquire_link_sent session m =
     counter_add ''ENQUIRE_LINK_SENT_TOTAL'' 1 [(''session'', session)] m"

definition mt_enquire_link_received :: "string \<Rightarrow> metrics \<Rightarrow> metrics" where [recorders]:
  "mt_enquire_link_received session m =
     counter_add ''ENQUIRE_LINK_RECEIVED_TOTAL'' 1 [(''session'', session)] m"

definition mt_enquire_link_timeout :: "string \<Rightarrow> metrics \<Rightarrow> metrics" where [recorders]:
  "mt_enquire_link_timeout session m =
     counter_add ''ENQUIRE_LINK_TIMEOUT_TOTAL'' 1 [(''session'', session)] m"

definition mt_enquire_link_latency :: "string \<Rightarrow> f64 \<Rightarrow> metrics \<Rightarrow> metrics" where [recorders]:
  "mt_enquire_link_latency session latency_secs m =
     histogram_record ''ENQUIRE_LINK_LATENCY'' latency_secs [(''session'', session)] m"

definition mt_error :: "string \<Rightarrow> string \<Rightarrow> metrics \<Rightarrow> metrics" where [recorders]:
  "mt_error category error_type m =
     counter_add ''ERRORS_TOTAL'' 1 [(''category'', category), (''type'', error_type)] m"

definition mt_timeout_error :: "string \<Rightarrow> string \<Rightarrow> metrics \<Rightarrow> metrics" where [recorders]:
  "mt_timeout_error operation timeout_type m =
     counter_add ''TIMEOUT_ERRORS_TOTAL'' 1 [(''operation'', operation), (''type'', timeout_type)] m"

definition mt_protocol_error :: "string \<Rightarrow> string \<Rightarrow> metrics \<Rightarrow> metrics" where [recorders]:
  "mt_protocol_error command err m =
     counter_add ''PROTOCOL_ERRORS_TOTAL'' 1 [(''command'', command), (''error'', err)] m"

definition mt_network_error :: "string \<Rightarrow> string \<Rightarrow> metrics \<Rightarrow> metrics" where [recorders]:
  "mt_network_error endpoint err m =
     counter_add ''NETWORK_ERRORS_TOTAL'' 1 [(''endpoint'', endpoint), (''error'', err)] m"

definition mt_invalid_pdu :: "string \<Rightarrow> string \<Rightarrow> metrics \<Rightarrow> metrics" where [recorders]:
  "mt_invalid_pdu listener reason m =
     counter_add ''INVALID_PDU_TOTAL'' 1 [(''listener'', listener), (''reason'', reason)] m"

definition mt_filter_executed :: "string \<Rightarrow> string \<Rightarrow> f64 \<Rightarrow> metrics \<Rightarrow> metrics" where [recorders]:
  "mt_filter_executed filter_name result duration_secs m =
     histogram_record ''FILTER_DURATION'' duration_secs [(''filter'', filter_name)] 
       (counter_add ''FILTER_EXECUTIONS_TOTAL'' 1 [(''filter'', filter_name), (''result'', result)] m)"

definition mt_filter_rejected :: "string \<Rightarrow> string \<Rightarrow> metrics \<Rightarrow> metrics" where [recorders]:
  "mt_filter_rejected filter_name reason m =
     counter_add ''FILTER_REJECTIONS_TOTAL'' 1 [(''filter'', filter_name), (''reason'', reason)] m"

definition mt_filter_error :: "string \<Rightarrow> string \<Rightarrow> metrics \<Rightarrow> metrics" where [recorders]:
  "mt_filter_error filter_name err m =
     counter_add ''FILTER_ERRORS_TOTAL'' 1 [(''filter'', filter_name), (''error'', err)] m"

definition mt_rate_limit_allowed :: "string \<Rightarrow> metrics \<Rightarrow> metrics" where [recorders]:
  "mt_rate_limit_allowed key m =
     counter_add ''RATE_LIMIT_ALLOWED_TOTAL'' 1 [(''key'', key)] m"

definition mt_rate_limit_denied :: "string \<Rightarrow> string \<Rightarrow> metrics \<Rightarrow> metrics" where [recorders]:
  "mt_rate_limit_denied key limit m =
     counter_add ''RATE_LIMIT_DENIED_TOTAL'' 1 [(''key'', key), (''limit'', limit)] m"

definition mt_rate_limit_update :: "string \<Rightarrow> f64 \<Rightarrow> f64 \<Rightarrow> metrics \<Rightarrow> metrics" where [recorders]:
  "mt_rate_limit_update key current capacity m =
     gauge_set_f64 ''RATE_LIMIT_CAPACITY'' capacity [(''key'', key)] 
       (gauge_set_f64 ''RATE_LIMIT_CURRENT'' current [(''key'', key)] m)"

definition mt_auth_attempt :: "string \<Rightarrow> string \<Rightarrow> metrics \<Rightarrow> metrics" where [recorders]:
  "mt_auth_attempt listener system_id m =
     counter_add ''AUTH_ATTEMPTS_TOTAL'' 1 [(''listener'', listener), (''system_id'', system_id)] m"

definition mt_auth_success :: "string \<Rightarrow> string \<Rightarrow> f64 \<Rightarrow> metrics \<Rightarrow> metrics" where [recorders]:
  "mt_auth_success listener system_id duration_secs m =
     histogram_record ''AUTH_DURATION'' duration_secs [(''listener'', listener), (''result'', ''success'')] 
       (counter_add ''AUTH_SUCCESS_TOTAL'' 1 [(''listener'', listener), (''system_id'', system_id)] m)"

definition mt_auth_failure :: "string \<Rightarrow> string \<Rightarrow> string \<Rightarrow> f64 \<Rightarrow> metrics \<Rightarrow> metrics" where [recorders]:
  "mt_auth_failure listener system_id reason duration_secs m =
     histogram_record ''AUTH_DURATION'' duration_secs [(''listener'', listener), (''result'', ''failure'')] 
       (counter_add ''AUTH_FAILURE_TOTAL'' 1 [(''listener'', listener), (''system_id'', system_id), (''reason'', reason)] m)"

definition mt_tls_handshake :: "string \<Rightarrow> string \<Rightarrow> f64 \<Rightarrow> metrics \<Rightarrow> metrics" where [recorders]:
  "mt_tls_handshake listener result duration_secs m =
     histogram_record ''TLS_HANDSHAKE_DURATION'' duration_secs [(''listener'', listener)] 
       (counter_add ''TLS_HANDSHAKES_TOTAL'' 1 [(''listener'', listener), (''result'', result)] m)"

definition mt_tls_error :: "string \<Rightarrow> string \<Rightarrow> metrics \<Rightarrow> metrics" where [recorders]:
  "mt_tls_error listener error_type m =
     counter_add ''TLS_ERRORS_TOTAL'' 1 [(''listener'', listener), (''type'', error_type)] m"

definition mt_tls_connections_active_set :: "string \<Rightarrow> i64 \<Rightarrow> metrics \<Rightarrow> metrics" where [recorders]:
  "mt_tls_connections_active_set listener n m =
     gauge_set ''TLS_CONNECTIONS_ACTIVE'' n [(''listener'', listener)] m"

definition mt_encoding_conversion :: "string \<Rightarrow> string \<Rightarrow> metrics \<Rightarrow> metrics" where [recorders]:
  "mt_encoding_conversion from_state to_state m =
     counter_add ''ENCODING_CONVERSIONS_TOTAL'' 1 [(''from'', from_state), (''to'', to_state)] m"

definition mt_encoding_error :: "string \<Rightarrow> string \<Rightarrow> metrics \<Rightarrow> metrics" where [recorders]:
  "mt_encoding_error encoding err m =
     counter_add ''ENCODING_ERRORS_TOTAL'' 1 [(''encoding'', encoding), (''error'', err)] m"

definition mt_credit_check :: "string \<Rightarrow> string \<Rightarrow> metrics \<Rightarrow> metrics" where [recorders]:
  "mt_credit_check account result m =
     counter_add ''CREDITS_CHECKED_TOTAL'' 1 [(''account'', account), (''result'', result)] m"

definition mt_credit_deduct :: "string \<Rightarrow> u64 \<Rightarrow> metrics \<Rightarrow> metrics" where [recorders]:
  "mt_credit_deduct account amount m =
     counter_add ''CREDITS_DEDUCTED_TOTAL'' amount [(''account'', account)] m"

definition mt_credit_insufficient :: "string \<Rightarrow> metrics \<Rightarrow> metrics" where [recorders]:
  "mt_credit_insufficient account m =
     counter_add ''CREDITS_INSUFFICIENT_TOTAL'' 1 [(''account'', account)] m"

definition mt_credit_balance_set :: "string \<Rightarrow> f64 \<Rightarrow> metrics \<Rightarrow> metrics" where [recorders]:
  "mt_credit_balance_set account balance m =
     gauge_set_f64 ''CREDITS_BALANCE'' balance [(''account'', account)] m"

definition mt_sender_id_lookup :: "string \<Rightarrow> string \<Rightarrow> metrics \<Rightarrow> metrics" where [recorders]:
  "mt_sender_id_lookup sender_id result m =
     counter_add ''SENDER_ID_LOOKUPS_TOTAL'' 1 [(''sender_id'', sender_id), (''result'', result)] m"

definition mt_sender_id_rewrite :: "string \<Rightarrow> string \<Rightarrow> metrics \<Rightarrow> metrics" where [recorders]:
  "mt_sender_id_rewrite original rewritten m =
     counter_add ''SENDER_ID_REWRITES_TOTAL'' 1 [(''original'', original), (''rewritten'', rewritten)] m"

definition mt_sender_id_blocked :: "string \<Rightarrow> string \<Rightarrow> metrics \<Rightarrow> metrics" where [recorders]:
  "mt_sender_id_blocked sender_id reason m =
     counter_add ''SENDER_ID_BLOCKED_TOTAL'' 1 [(''sender_id'', sender_id), (''reason'', reason)] m"

definition mt_config_reloaded :: "metrics \<Rightarrow> metrics" where [recorders]:
  "mt_config_reloaded m =
     counter_add ''CONFIG_RELOADS_TOTAL'' 1 [] m"

definition mt_config_reload_error :: "string \<Rightarrow> metrics \<Rightarrow> metrics" where [recorders]:
  "mt_config_reload_error reason m =
     counter_add ''CONFIG_RELOAD_ERRORS_TOTAL'' 1 [(''reason'', reason)] m"

definition mt_workers_active_set :: "i64 \<Rightarrow> metrics \<Rightarrow> metrics" where [recorders]:
  "mt_workers_active_set n m =
     gauge_set ''WORKERS_ACTIVE'' n [] m"

definition mt_shutdown_drain_set :: "i64 \<Rightarrow> metrics \<Rightarrow> metrics" where [recorders]:
  "mt_shutdown_drain_set connections m =
     gauge_set ''SHUTDOWN_DRAIN_CONNECTIONS'' connections [] m"

definition mt_buffer_pool_update :: "i64 \<Rightarrow> i64 \<Rightarrow> metrics \<Rightarrow> metrics" where [recorders]:
  "mt_buffer_pool_update sz available m =
     gauge_set ''BUFFER_POOL_AVAILABLE'' available [] 
       (gauge_set ''BUFFER_POOL_SIZE'' sz [] m)"

definition mt_buffer_allocated :: "metrics \<Rightarrow> metrics" where [recorders]:
  "mt_buffer_allocated m =
     counter_add ''BUFFER_ALLOCATIONS_TOTAL'' 1 [] m"

definition mt_pending_responses_set :: "i64 \<Rightarrow> metrics \<Rightarrow> metrics" where [recorders]:
  "mt_pending_responses_set n m =
     gauge_set ''PENDING_RESPONSES'' n [] m"

definition mt_active_tasks_set :: "i64 \<Rightarrow> metrics \<Rightarrow> metrics" where [recorders]:
  "mt_active_tasks_set n m =
     gauge_set ''ACTIVE_TASKS'' n [] m"

definition mt_message_forwarded :: "metrics \<Rightarrow> metrics" where [recorders]:
  "mt_message_forwarded m =
     counter_add ''MESSAGES_DELIVERED_TOTAL'' 1 [(''result'', ''forwarded'')] m"

definition mt_message_forward_failed :: "metrics \<Rightarrow> metrics" where [recorders]:
  "mt_message_forward_failed m =
     counter_add ''MESSAGES_FAILED_TOTAL'' 1 [(''reason'', ''forward_failed'')] m"

definition mt_message_retried :: "metrics \<Rightarrow> metrics" where [recorders]:
  "mt_message_retried m =
     counter_add ''MESSAGES_SUBMITTED_TOTAL'' 1 [(''type'', ''retry'')] m"

definition mt_message_failed_simple :: "metrics \<Rightarrow> metrics" where [recorders]:
  "mt_message_failed_simple m =
     counter_add ''MESSAGES_FAILED_TOTAL'' 1 [(''reason'', ''failed'')] m"

definition mt_message_expired_simple :: "metrics \<Rightarrow> metrics" where [recorders]:
  "mt_message_expired_simple m =
     counter_add ''MESSAGES_EXPIRED_TOTAL'' 1 [] m"

definition mt_listener_started :: "string \<Rightarrow> metrics \<Rightarrow> metrics" where [recorders]:
  "mt_listener_started listener m =
     m"

definition mt_listener_accept_error :: "string \<Rightarrow> metrics \<Rightarrow> metrics" where [recorders]:
  "mt_listener_accept_error listener m =
     counter_add ''LISTENER_CONNECTIONS_TOTAL'' 1 [(''listener'', listener), (''status'', ''error'')] m"

definition mt_tls_handshake_success :: "string \<Rightarrow> metrics \<Rightarrow> metrics" where [recorders]:
  "mt_tls_handshake_success listener m =
     mt_tls_handshake listener ''success'' (f64_of_int 0) m"

definition mt_tls_handshake_error :: "string \<Rightarrow> metrics \<Rightarrow> metrics" where [recorders]:
  "mt_tls_handshake_error listener m =
     mt_tls_handshake listener ''error'' (f64_of_int 0) m"

definition mt_listener_connection_accepted :: "string \<Rightarrow> metrics \<Rightarrow> metrics" where [recorders]:
  "mt_listener_connection_accepted listener m =
     mt_listener_connection_opened listener m"

definition mt_listener_connection_closed :: "string \<Rightarrow> metrics \<Rightarrow> metrics" where [recorders]:
  "mt_listener_connection_closed listener m =
     counter_add ''LISTENER_CONNECTIONS_TOTAL'' 1 [(''listener'', listener), (''status'', ''closed'')] m"

definition mt_bind_received :: "string \<Rightarrow> string \<Rightarrow> metrics \<Rightarrow> metrics" where [recorders]:
  "mt_bind_received listener bind_type m =
     counter_add ''LISTENER_BINDS_TOTAL'' 1 [(''listener'', listener), (''bind_type'', bind_type), (''result'', ''received'')] m"

definition mt_bind_success :: "string \<Rightarrow> string \<Rightarrow> metrics \<Rightarrow> metrics" where [recorders]:
  "mt_bind_success listener bind_type m =
     counter_add ''LISTENER_BINDS_TOTAL'' 1 [(''listener'', listener), (''bind_type'', bind_type), (''result'', ''success'')] m"

definition mt_bind_failed :: "string \<Rightarrow> string \<Rightarrow> metrics \<Rightarrow> metrics" where [recorders]:
  "mt_bind_failed listener bind_type m =
     counter_add ''LISTENER_BINDS_TOTAL'' 1 [(''listener'', listener), (''bind_type'', bind_type), (''result'', ''failed'')] m"

definition mt_unbind :: "string \<Rightarrow> metrics \<Rightarrow> metrics" where [recorders]:
  "mt_unbind listener m =
     mt_listener_unbind listener ''client'' m"

definition mt_request_timeout :: "string \<Rightarrow> metrics \<Rightarrow> metrics" where [recorders]:
  "mt_request_timeout listener m =
     counter_add ''ERRORS_TOTAL'' 1 [(''listener'', listener), (''type'', ''timeout'')] m"

definition mt_upstream_health_changed :: "string \<Rightarrow> string \<Rightarrow> bool \<Rightarrow> metrics \<Rightarrow> metrics" where [recorders]:
  "mt_upstream_health_changed cluster endpoint healthy m =
     mt_upstream_health_set cluster endpoint healthy m"

definition mt_upstream_pool_timeout :: "string \<Rightarrow> metrics \<Rightarrow> metrics" where [recorders]:
  "mt_upstream_pool_timeout cluster m =
     counter_add ''UPSTREAM_ERRORS_TOTAL'' 1 [(''cluster'', cluster), (''type'', ''pool_timeout'')] m"

definition mt_upstream_connection_created :: "string \<Rightarrow> metrics \<Rightarrow> metrics" where [recorders]:
  "mt_upstream_connection_created cluster m =
     counter_add ''UPSTREAM_CONNECTIONS_TOTAL'' 1 [(''cluster'', cluster), (''status'', ''created'')] m"

definition mt_upstream_no_healthy_endpoints :: "string \<Rightarrow> metrics \<Rightarrow> metrics" where [recorders]:
  "mt_upstream_no_healthy_endpoints cluster m =
     counter_add ''UPSTREAM_ERRORS_TOTAL'' 1 [(''cluster'', cluster), (''type'', ''no_healthy_endpoints'')] m"

definition mt_upstream_connection_acquired :: "string \<Rightarrow> metrics \<Rightarrow> metrics" where [recorders]:
  "mt_upstream_connection_acquired cluster m =
     counter_add ''UPSTREAM_CONNECTIONS_TOTAL'' 1 [(''cluster'', cluster), (''status'', ''acquired'')] m"

section \<open>Lemmas\<close>

lemma instruments_distinct: "distinct (map fst all_instruments)"
  by code_simp

lemma exported_names_distinct: "distinct (map (\<lambda>c. snd (snd c)) all_instruments)"
  by code_simp

text \<open>An instrument, once created, stays; after \<open>counters_init\<close> all of them are there.\<close>

lemma cell_after_set: "map_of (mx_cells (fold set_cell cs m)) c = None \<longleftrightarrow> map_of (mx_cells m) c = None \<and> c \<notin> fst ` set cs"
proof (induction cs arbitrary: m)
  case (Cons x cs)
  then show ?case by (cases x) (auto simp: set_cell_def map_add_def split: option.splits)
qed simp

lemma cells_recorded: "mx_cells (recorded c x m) = mx_cells m"
  by (simp add: recorded_def)

lemma cells_counter_add: "mx_cells (counter_add c n ls m) = mx_cells m"
  by (simp add: counter_add_def cells_recorded)

lemma initialised: "c \<in> fst ` set all_instruments \<Longrightarrow> map_of (mx_cells (counters_init v w m)) c \<noteq> None"
  by (simp add: counters_init_def gauge_set_def cells_recorded cell_after_set)

text \<open>The total a counter shows over all its label sets.\<close>

definition added :: "string \<Rightarrow> measurement \<Rightarrow> nat" where
  "added cell x = (case x of CounterAdd c n _ \<Rightarrow> if c = cell then unat n else 0 | _ \<Rightarrow> 0)"

definition counter_total :: "string \<Rightarrow> metrics \<Rightarrow> nat" where
  "counter_total cell m = sum_list (map (added cell) (mx_log m))"

lemma counter_total_add:
  "map_of (mx_cells m) cell \<noteq> None \<Longrightarrow>
   counter_total c (counter_add cell n ls m) = counter_total c m + (if cell = c then unat n else 0)"
  by (auto simp: counter_total_def counter_add_def recorded_def added_def)

lemma counter_monotone: "counter_total c m \<le> counter_total c (recorded cell x m)"
  by (simp add: counter_total_def recorded_def)

section \<open>Properties\<close>

datatype readiness_op = Register string | Report string bool

fun apply_op :: "readiness_op \<Rightarrow> telemetry_state \<Rightarrow> telemetry_state" where
  "apply_op (Register c) s = register_cluster c s"
| "apply_op (Report c h) s = set_cluster_health c h s"

text \<open>The last health reported of a cluster; without a report it is unhealthy.\<close>

definition last_report :: "readiness_op list \<Rightarrow> string \<Rightarrow> bool" where
  "last_report ops c = fold (\<lambda>op b. case op of Report d h \<Rightarrow> if d = c then h else b | Register _ \<Rightarrow> b) ops False"

lemma last_report_Nil: "\<not> last_report [] c"
  by (simp add: last_report_def)

lemma last_report_snoc:
  "last_report (ops @ [Register d]) c = last_report ops c"
  "last_report (ops @ [Report d h]) c = (if d = c then h else last_report ops c)"
  by (simp_all add: last_report_def)

definition readiness_inv :: "readiness_op list \<Rightarrow> telemetry_state \<Rightarrow> bool" where
  "readiness_inv ops s =
     ((\<forall>c. cluster_healthy s c = last_report ops c)
      \<and> set (ts_required_clusters s) = {c. Register c \<in> set ops}
      \<and> ts_ready s = list_all (cluster_healthy s) (ts_required_clusters s))"

lemma update_readiness_state:
  "ts_required_clusters (update_readiness s) = ts_required_clusters s"
  "cluster_healthy (update_readiness s) c = cluster_healthy s c"
  "ts_ready (update_readiness s) = list_all (cluster_healthy s) (ts_required_clusters s)"
  by (simp_all add: update_readiness_def cluster_healthy_def)

lemma healthy_or_insert:
  "cluster_healthy (s \<lparr> ts_required_clusters := rs,
     ts_cluster_health := (case map_of (ts_cluster_health s) d of
       None \<Rightarrow> AList.update d False (ts_cluster_health s) | Some _ \<Rightarrow> ts_cluster_health s) \<rparr>) = cluster_healthy s"
  by (auto simp: cluster_healthy_def map_of_update fun_eq_iff split: option.splits)

lemma register_cluster_state:
  "cluster_healthy (register_cluster d s) c = cluster_healthy s c"
  "set (ts_required_clusters (register_cluster d s)) = insert d (set (ts_required_clusters s))"
  "ts_ready (register_cluster d s) = list_all (cluster_healthy s) (ts_required_clusters (register_cluster d s))"
  by (simp_all only: register_cluster_def update_readiness_state healthy_or_insert) auto

lemma healthy_update:
  "cluster_healthy (s \<lparr> ts_cluster_health := AList.update d h (ts_cluster_health s) \<rparr>) c =
     (if d = c then h else cluster_healthy s c)"
  by (simp add: cluster_healthy_def map_of_update)

lemma set_health_state:
  "cluster_healthy (set_cluster_health d h s) c = (if d = c then h else cluster_healthy s c)"
  "ts_required_clusters (set_cluster_health d h s) = ts_required_clusters s"
  "ts_ready (set_cluster_health d h s) = list_all (\<lambda>c. if d = c then h else cluster_healthy s c) (ts_required_clusters s)"
  by (simp_all add: set_cluster_health_def update_readiness_state healthy_update list_all_iff)

lemma readiness_step: "readiness_inv ops s \<Longrightarrow> readiness_inv (ops @ [op]) (apply_op op s)"
proof (cases op)
  case (Register d)
  assume "readiness_inv ops s"
  with Register show ?thesis
    by (auto simp: readiness_inv_def register_cluster_state last_report_snoc list_all_iff)
next
  case (Report d h)
  assume "readiness_inv ops s"
  with Report show ?thesis
    by (auto simp: readiness_inv_def set_health_state last_report_snoc list_all_iff)
qed

lemma readiness_after: "readiness_inv ops (fold apply_op ops (telemetry_state_new now))"
proof (induction ops rule: rev_induct)
  case Nil
  then show ?case
    by (simp add: readiness_inv_def telemetry_state_new_def cluster_healthy_def last_report_Nil)
next
  case (snoc op ops)
  then show ?case using readiness_step by simp
qed

text \<open>However clusters are registered and their health is reported, the readiness endpoint answers 200 exactly
  when the last report of every registered cluster is healthy, and lists exactly the registered clusters with that health.\<close>

theorem readiness_follows_reports:
  "let s = fold apply_op ops (telemetry_state_new now); (code, r) = readyz_handler s
   in (code = 200 \<longleftrightarrow> (\<forall>c. Register c \<in> set ops \<longrightarrow> last_report ops c)) \<and> (code = 200 \<or> code = 503)
      \<and> (\<lambda>d. (ds_name d, ds_healthy d)) ` set (rr_dependencies r) = {(c, last_report ops c) | c. Register c \<in> set ops}"
  using readiness_after [of ops now]
  by (auto simp: readiness_inv_def readyz_handler_def get_dependency_status_def Let_def list_all_iff image_iff)

text \<open>
  The receipt processor calls \<^verbatim>\<open>counters::dlr_received(&event.cluster, status)\<close> while the function takes the status first:
  the labels of the measurement are exchanged.
\<close>

theorem dlr_labels_exchanged:
  "mx_log (mt_dlr_received cluster status (counters_init v w m)) =
     mx_log (counters_init v w m)
       @ [CounterAdd ''DLR_RECEIVED_TOTAL'' 1 [(''status'', cluster), (''cluster'', status)]]"
proof -
  have "''DLR_RECEIVED_TOTAL'' \<in> fst ` set all_instruments" by code_simp
  from initialised [OF this, of v w m] show ?thesis
    by (auto simp: mt_dlr_received_def counter_add_def recorded_def)
qed

text \<open>A message that is forwarded and then confirmed by its receipt counts twice as delivered.\<close>

theorem delivered_message_counts_twice:
  "counter_total ''MESSAGES_DELIVERED_TOTAL'' (mt_message_delivered_dlr (mt_message_forwarded (counters_init v w m))) =
     counter_total ''MESSAGES_DELIVERED_TOTAL'' (counters_init v w m) + 2"
proof -
  have "''MESSAGES_DELIVERED_TOTAL'' \<in> fst ` set all_instruments" by code_simp
  from initialised [OF this, of v w m] show ?thesis
    by (simp add: mt_message_delivered_dlr_def mt_message_forwarded_def counter_total_add cells_counter_add del: not_None_eq)
qed

end
