(* ===== verification/Configuration.thy ===== *)
theory Configuration
  imports Cluster Router Auth MessageStore
begin

text \<open>
  The configuration of the gateway (\<^verbatim>\<open>src/src/config/types.rs\<close>), its validation and loading
  (\<^verbatim>\<open>src/src/config/loader.rs\<close>) and the two configuration stores
  (\<^verbatim>\<open>src/src/config/store/\<close>).  The YAML, JSON and TOML libraries are the argument \<open>codec\<close>; the file
  system is an association list from paths to contents, and the outcome of a write or a rename is an argument.
  Addresses and filter parameters are kept as text.

  Validation is characterised by an independent well-formedness predicate; the trait
  \<^verbatim>\<open>ConfigStore\<close> is the locale \<open>config_store\<close>, which both stores implement.
\<close>

section \<open>Types and defaults (config/types.rs)\<close>

datatype protocol = PrSmpp | PrHttp | PrGrpc

datatype filter_type =
    FtAuth | FtRateLimit | FtFirewall | FtTransform | FtCredit | FtOtp | FtConsent | FtDlt | FtSenderId | FtLua

record filter_config =
  fc_filter_type :: filter_type
  fc_config :: "(string, string) alist"

record connection_limits =
  cn_max_connections :: nat
  cn_idle_timeout :: duration
  cn_request_timeout :: duration

definition connection_limits_default :: connection_limits where
  "connection_limits_default =
     \<lparr> cn_max_connections = 10000, cn_idle_timeout = from_secs 60, cn_request_timeout = from_secs 30 \<rparr>"

record listener_config =
  ln_name :: string
  ln_address :: string
  ln_protocol :: protocol
  ln_tls :: "tls_config option"
  ln_filters :: "filter_config list"
  ln_limits :: connection_limits

definition health_check_config_default :: health_check_config where
  "health_check_config_default =
     \<lparr> hc_interval = from_secs 30, hc_timeout = from_secs 5, hc_unhealthy_threshold = 3, hc_healthy_threshold = 2 \<rparr>"

definition pool_config_default :: pool_config where
  "pool_config_default = \<lparr> pc_min_connections = 1, pc_max_connections = 10, pc_acquire_timeout = from_secs 5 \<rparr>"

definition condition_prefix :: "string \<Rightarrow> match_condition" where
  "condition_prefix v = \<lparr> mcd_prefix = Some v, mcd_regex = None, mcd_exact = None, mcd_any = None \<rparr>"

definition condition_regex :: "string \<Rightarrow> match_condition" where
  "condition_regex v = \<lparr> mcd_prefix = None, mcd_regex = Some v, mcd_exact = None, mcd_any = None \<rparr>"

definition condition_exact :: "string \<Rightarrow> match_condition" where
  "condition_exact v = \<lparr> mcd_prefix = None, mcd_regex = None, mcd_exact = Some v, mcd_any = None \<rparr>"

definition condition_any :: match_condition where
  "condition_any = \<lparr> mcd_prefix = None, mcd_regex = None, mcd_exact = None, mcd_any = Some True \<rparr>"

definition primary_cluster :: "route_config \<Rightarrow> string option" where
  "primary_cluster r = rc_cluster r"

record admin_config =
  ad_address :: string
  ad_metrics :: bool
  ad_health :: bool

definition admin_config_default :: admin_config where
  "admin_config_default = \<lparr> ad_address = ''0.0.0.0:9090'', ad_metrics = True, ad_health = True \<rparr>"

record shutdown_config =
  sc_drain_timeout :: duration
  sc_parent_shutdown_timeout :: duration

definition shutdown_config_default :: shutdown_config where
  "shutdown_config_default = \<lparr> sc_drain_timeout = from_secs 30, sc_parent_shutdown_timeout = from_secs 60 \<rparr>"

datatype storage_backend = BackendMemory | BackendFjall

definition memory_store_config_default :: memory_store_config where
  "memory_store_config_default = \<lparr> mc_max_messages = 1000000, mc_max_memory_mb = 512, mc_prune_percent = 10 \<rparr>"

record fjall_store_config =
  fj_path :: "string option"
  fj_max_messages :: nat
  fj_block_cache_mb :: nat
  fj_write_buffer_mb :: nat
  fj_fsync :: bool
  fj_compression :: bool

definition fjall_store_config_default :: fjall_store_config where
  "fjall_store_config_default =
     \<lparr> fj_path = None, fj_max_messages = 1000000, fj_block_cache_mb = 64, fj_write_buffer_mb = 32, fj_fsync = False,
       fj_compression = True \<rparr>"

record store_config =
  so_backend :: storage_backend
  so_memory :: memory_store_config
  so_fjall :: fjall_store_config

definition store_config_default :: store_config where
  "store_config_default =
     \<lparr> so_backend = BackendFjall, so_memory = memory_store_config_default, so_fjall = fjall_store_config_default \<rparr>"

fun backend_name :: "storage_backend \<Rightarrow> string" where
  "backend_name BackendMemory = ''memory''"
| "backend_name BackendFjall = ''fjall''"

definition store_config_memory :: store_config where
  "store_config_memory = store_config_default \<lparr> so_backend := BackendMemory \<rparr>"

definition store_config_fjall :: store_config where
  "store_config_fjall = store_config_default \<lparr> so_backend := BackendFjall \<rparr>"

record settings =
  se_shutdown :: shutdown_config
  se_store :: store_config

definition settings_default :: settings where
  "settings_default = \<lparr> se_shutdown = shutdown_config_default, se_store = store_config_default \<rparr>"

record telemetry_config =
  tm_workers :: nat
  tm_worker_stack_size :: nat
  tm_bus_capacity :: nat
  tm_json_logs :: bool
  tm_log_level :: string
  tm_otlp_endpoint :: "string option"
  tm_trace_sample_rate :: f64

text \<open>The default sample rate 1.0 has the bit pattern \<open>0x3FF0000000000000\<close>.\<close>

definition telemetry_config_default :: telemetry_config where
  "telemetry_config_default =
     \<lparr> tm_workers = 0, tm_worker_stack_size = 2 * 1024 * 1024, tm_bus_capacity = 1024, tm_json_logs = False,
       tm_log_level = ''info'', tm_otlp_endpoint = None, tm_trace_sample_rate = Fin 1 \<rparr>"

record config =
  cg_listeners :: "listener_config list"
  cg_clusters :: "cluster_config list"
  cg_routes :: "route_config list"
  cg_clients :: "client_config list"
  cg_admin :: admin_config
  cg_settings :: settings
  cg_telemetry :: telemetry_config

section \<open>Validation (config/loader.rs)\<close>

datatype violation =
    NoListener | DuplicateListener string | DuplicateCluster string | RouteUnknownCluster string string
  | SplitUnknownCluster string string | FallbackUnknownCluster string string | RouteNoTarget string
  | RouteTwoTargets string | ClusterNoEndpoint string

fun violation_text :: "violation \<Rightarrow> string" where
  "violation_text NoListener = ''at least one listener must be defined''"
| "violation_text (DuplicateListener n) = ''duplicate listener name: '' @ n"
| "violation_text (DuplicateCluster n) = ''duplicate cluster name: '' @ n"
| "violation_text (RouteUnknownCluster r c) = ''route '' @ [CHR 0x27] @ r @ [CHR 0x27] @ '' references unknown cluster: '' @ c"
| "violation_text (SplitUnknownCluster r c) =
     ''route '' @ [CHR 0x27] @ r @ [CHR 0x27] @ '' references unknown cluster in split: '' @ c"
| "violation_text (FallbackUnknownCluster r c) =
     ''route '' @ [CHR 0x27] @ r @ [CHR 0x27] @ '' references unknown fallback cluster: '' @ c"
| "violation_text (RouteNoTarget r) =
     ''route '' @ [CHR 0x27] @ r @ [CHR 0x27] @ '' must have either 'cluster' or 'split' target''"
| "violation_text (RouteTwoTargets r) =
     ''route '' @ [CHR 0x27] @ r @ [CHR 0x27] @ '' cannot have both 'cluster' and 'split' targets''"
| "violation_text (ClusterNoEndpoint c) =
     ''cluster '' @ [CHR 0x27] @ c @ [CHR 0x27] @ '' must have at least one endpoint or mock configuration''"

text \<open>Inserting names into a set until one is already there.\<close>

fun first_duplicate :: "string list \<Rightarrow> string list \<Rightarrow> string option" where
  "first_duplicate seen [] = None"
| "first_duplicate seen (n # ns) = (if n \<in> set seen then Some n else first_duplicate (n # seen) ns)"

fun first_violation :: "('a \<Rightarrow> violation option) \<Rightarrow> 'a list \<Rightarrow> violation option" where
  "first_violation f [] = None"
| "first_violation f (x # xs) = (case f x of Some v \<Rightarrow> Some v | None \<Rightarrow> first_violation f xs)"

definition or_else :: "'a option \<Rightarrow> 'a option \<Rightarrow> 'a option" where
  "or_else x y = (case x of Some v \<Rightarrow> Some v | None \<Rightarrow> y)"

definition validate_route :: "string list \<Rightarrow> route_config \<Rightarrow> violation option" where
  "validate_route names r =
     or_else (first_violation (\<lambda>c. if c \<in> set names then None else Some (RouteUnknownCluster (rc_name r) c))
               (case rc_cluster r of None \<Rightarrow> [] | Some c \<Rightarrow> [c]))
    (or_else (first_violation (\<lambda>(c, w). if c \<in> set names then None else Some (SplitUnknownCluster (rc_name r) c))
               (case rc_split r of None \<Rightarrow> [] | Some cs \<Rightarrow> cs))
    (or_else (first_violation (\<lambda>c. if c \<in> set names then None else Some (FallbackUnknownCluster (rc_name r) c))
               (case rc_fallback r of None \<Rightarrow> [] | Some cs \<Rightarrow> cs))
    (or_else (if rc_cluster r = None \<and> rc_split r = None then Some (RouteNoTarget (rc_name r)) else None)
             (if rc_cluster r \<noteq> None \<and> rc_split r \<noteq> None then Some (RouteTwoTargets (rc_name r)) else None))))"

definition validate_cluster :: "cluster_config \<Rightarrow> violation option" where
  "validate_cluster c =
     (if kc_endpoints c = [] \<and> kc_mock c = None then Some (ClusterNoEndpoint (kc_name c)) else None)"

definition validate :: "config \<Rightarrow> violation + unit" where
  "validate cfg =
     (let names = map kc_name (cg_clusters cfg) in
      case or_else (if cg_listeners cfg = [] then Some NoListener else None)
          (or_else (map_option DuplicateListener (first_duplicate [] (map ln_name (cg_listeners cfg))))
          (or_else (map_option DuplicateCluster (first_duplicate [] names))
          (or_else (first_violation (validate_route names) (cg_routes cfg))
                   (first_violation validate_cluster (cg_clusters cfg))))) of
        None \<Rightarrow> Inr ()
      | Some v \<Rightarrow> Inl v)"

section \<open>Formats and loading\<close>

datatype format = Yaml | Json | Toml

text \<open>\<^verbatim>\<open>Path::file_name\<close>: the last component, if there is one and it is not a parent reference.\<close>

definition path_components :: "string \<Rightarrow> string list" where
  "path_components p = filter (\<lambda>c. c \<noteq> [] \<and> c \<noteq> ''.'') (split_on CHR ''/'' p)"

definition file_name :: "string \<Rightarrow> string option" where
  "file_name p =
     (let cs = path_components p in if cs = [] \<or> last cs = ''..'' then None else Some (last cs))"

text \<open>The part behind the last dot, unless the name has no dot or only a leading one.\<close>

definition name_extension :: "string \<Rightarrow> string option" where
  "name_extension n =
     (let ps = split_on CHR ''.'' n in
      if length ps = 1 \<or> (length ps = 2 \<and> hd ps = []) then None else Some (last ps))"

definition path_extension :: "string \<Rightarrow> string option" where
  "path_extension p = Option.bind (file_name p) name_extension"

definition ascii_lower :: "char \<Rightarrow> char" where
  "ascii_lower c = (if 65 \<le> (of_char c :: nat) \<and> (of_char c :: nat) \<le> 90 then char_of ((of_char c :: nat) + 32) else c)"

definition format_from_path :: "string \<Rightarrow> format option" where
  "format_from_path p =
     (case path_extension p of
        None \<Rightarrow> None
      | Some e \<Rightarrow>
          let x = map ascii_lower e in
          if x = ''yaml'' \<or> x = ''yml'' then Some Yaml
          else if x = ''json'' then Some Json
          else if x = ''toml'' then Some Toml
          else None)"

record codec =
  cd_parse :: "format \<Rightarrow> string \<Rightarrow> string + config"
  cd_print :: "format \<Rightarrow> config \<Rightarrow> string + string"

datatype load_error =
    UnsupportedFormat string | ReadFailed string | ParseFailed format string | Invalid violation

definition config_from_text :: "codec \<Rightarrow> format \<Rightarrow> string \<Rightarrow> load_error + config" where
  "config_from_text K f text =
     (case cd_parse K f text of
        Inl e \<Rightarrow> Inl (ParseFailed f e)
      | Inr cfg \<Rightarrow> (case validate cfg of Inl v \<Rightarrow> Inl (Invalid v) | Inr _ \<Rightarrow> Inr cfg))"

definition config_load :: "codec \<Rightarrow> string \<Rightarrow> (string, string) alist \<Rightarrow> load_error + config" where
  "config_load K path files =
     (case format_from_path path of
        None \<Rightarrow> Inl (UnsupportedFormat path)
      | Some f \<Rightarrow>
          (case map_of files path of
             None \<Rightarrow> Inl (ReadFailed path)
           | Some text \<Rightarrow> config_from_text K f text))"

section \<open>Configuration stores (config/store/)\<close>

datatype config_error =
    LoadFailed load_error | SaveFailed string | ValidationFailed violation | ConfigIo string | Serialization string
  | BackendError string

record file_config_store =
  fs_path :: string
  fs_format :: format

definition file_store_new :: "string \<Rightarrow> config_error + file_config_store" where
  "file_store_new path =
     (case format_from_path path of
        None \<Rightarrow> Inl (LoadFailed (UnsupportedFormat path))
      | Some f \<Rightarrow> Inr \<lparr> fs_path = path, fs_format = f \<rparr>)"

definition file_store_with_format :: "string \<Rightarrow> format \<Rightarrow> file_config_store" where
  "file_store_with_format path f = \<lparr> fs_path = path, fs_format = f \<rparr>"

definition serialize :: "codec \<Rightarrow> file_config_store \<Rightarrow> config \<Rightarrow> config_error + string" where
  "serialize K st cfg = (case cd_print K (fs_format st) cfg of Inl e \<Rightarrow> Inl (Serialization e) | Inr t \<Rightarrow> Inr t)"

text \<open>\<^verbatim>\<open>Path::with_extension\<close> on a path with a file name: the text before the name, the name without its
  extension, and the new one.  Trailing separators and current-directory components do not count.\<close>

definition name_stem :: "string \<Rightarrow> string" where
  "name_stem n =
     (case name_extension n of None \<Rightarrow> n | Some e \<Rightarrow> take (length n - length e - 1) n)"

fun strip_front :: "string \<Rightarrow> string" where
  "strip_front p =
     (case p of
        c # q \<Rightarrow>
          if c = CHR ''/'' then strip_front q
          else if c = CHR ''.'' \<and> q \<noteq> [] \<and> hd q = CHR ''/'' then strip_front (tl q)
          else p
      | [] \<Rightarrow> [])"

definition with_extension :: "string \<Rightarrow> string \<Rightarrow> string" where
  "with_extension p ext =
     (case file_name p of
        None \<Rightarrow> p
      | Some n \<Rightarrow>
          let q = rev (strip_front (rev p)) in take (length q - length n) q @ name_stem n @ ''.'' @ ext)"

text \<open>What the operating system does with the two calls of a save: a failed write may leave some text behind.\<close>

datatype write_outcome = Written | WriteFailed "string option"

record save_io =
  io_write :: write_outcome
  io_rename_ok :: bool

definition file_store_load :: "codec \<Rightarrow> file_config_store \<times> (string, string) alist \<Rightarrow> config_error + config" where
  "file_store_load K s =
     (case config_load K (fs_path (fst s)) (snd s) of Inl e \<Rightarrow> Inl (LoadFailed e) | Inr cfg \<Rightarrow> Inr cfg)"

definition file_store_save ::
  "codec \<Rightarrow> save_io \<Rightarrow> config \<Rightarrow> file_config_store \<times> (string, string) alist \<Rightarrow>
   (config_error + unit) \<times> file_config_store \<times> (string, string) alist" where
  "file_store_save K io cfg s =
     (case s of (st, files) \<Rightarrow>
      case validate cfg of
        Inl v \<Rightarrow> (Inl (ValidationFailed v), st, files)
      | Inr _ \<Rightarrow>
          (case serialize K st cfg of
             Inl e \<Rightarrow> (Inl e, st, files)
           | Inr contents \<Rightarrow>
               let temp = with_extension (fs_path st) ''tmp'' in
               case io_write io of
                 WriteFailed left \<Rightarrow>
                   (Inl (ConfigIo ''write''), st,
                    (case left of None \<Rightarrow> files | Some t \<Rightarrow> AList.update temp t files))
               | Written \<Rightarrow>
                   let files1 = AList.update temp contents files in
                   if \<not> io_rename_ok io then (Inl (ConfigIo ''rename''), st, files1)
                   else (Inr (), st, AList.update (fs_path st) contents
                           (if temp = fs_path st then files1 else AList.delete temp files1))))"

record memory_config_store =
  mg_config :: config
  mg_watch :: config

definition memory_store_new :: "config \<Rightarrow> memory_config_store" where
  "memory_store_new cfg = \<lparr> mg_config = cfg, mg_watch = cfg \<rparr>"

definition memory_store_update :: "config \<Rightarrow> memory_config_store \<Rightarrow> (config_error + unit) \<times> memory_config_store" where
  "memory_store_update cfg s =
     (case validate cfg of
        Inl v \<Rightarrow> (Inl (ValidationFailed v), s)
      | Inr _ \<Rightarrow> (Inr (), s \<lparr> mg_config := cfg, mg_watch := cfg \<rparr>))"

definition memory_store_current :: "memory_config_store \<Rightarrow> config" where
  "memory_store_current s = mg_config s"

definition memory_store_from_text :: "codec \<Rightarrow> format \<Rightarrow> string \<Rightarrow> config_error + memory_config_store" where
  "memory_store_from_text K f text =
     (case config_from_text K f text of Inl e \<Rightarrow> Inl (LoadFailed e) | Inr cfg \<Rightarrow> Inr (memory_store_new cfg))"

definition memory_store_load :: "memory_config_store \<Rightarrow> config_error + config" where
  "memory_store_load s = Inr (memory_store_current s)"

definition memory_store_save ::
  "unit \<Rightarrow> config \<Rightarrow> memory_config_store \<Rightarrow> (config_error + unit) \<times> memory_config_store" where
  "memory_store_save io cfg s = memory_store_update cfg s"

section \<open>What validation accepts\<close>

definition route_ok :: "string list \<Rightarrow> route_config \<Rightarrow> bool" where
  "route_ok names r =
     ((rc_cluster r = None) \<noteq> (rc_split r = None) \<and>
      (\<forall>c. rc_cluster r = Some c \<longrightarrow> c \<in> set names) \<and>
      (\<forall>cs. rc_split r = Some cs \<longrightarrow> fst ` set cs \<subseteq> set names) \<and>
      (\<forall>cs. rc_fallback r = Some cs \<longrightarrow> set cs \<subseteq> set names))"

definition config_ok :: "config \<Rightarrow> bool" where
  "config_ok cfg =
     (cg_listeners cfg \<noteq> [] \<and> distinct (map ln_name (cg_listeners cfg)) \<and> distinct (map kc_name (cg_clusters cfg)) \<and>
      (\<forall>r \<in> set (cg_routes cfg). route_ok (map kc_name (cg_clusters cfg)) r) \<and>
      (\<forall>c \<in> set (cg_clusters cfg). kc_endpoints c \<noteq> [] \<or> kc_mock c \<noteq> None))"

lemma or_else_None [simp]: "or_else x y = None \<longleftrightarrow> x = None \<and> y = None"
  by (cases x) (simp_all add: or_else_def)

lemma first_duplicate_None: "first_duplicate seen ns = None \<longleftrightarrow> distinct ns \<and> set ns \<inter> set seen = {}"
  by (induction ns arbitrary: seen) auto

lemma first_violation_None [simp]: "first_violation f xs = None \<longleftrightarrow> (\<forall>x \<in> set xs. f x = None)"
  by (induction xs) (auto split: option.splits)

lemma validate_route_None: "validate_route names r = None \<longleftrightarrow> route_ok names r"
  by (cases "rc_cluster r"; cases "rc_split r"; cases "rc_fallback r")
     (auto simp: validate_route_def route_ok_def image_subset_iff subset_iff case_prod_unfold split: if_splits)

lemma report_Inr: "(case x of None \<Rightarrow> Inr () | Some v \<Rightarrow> Inl v) = Inr u \<longleftrightarrow> x = None"
  by (cases x) simp_all

lemma validate_Inr: "validate cfg = Inr u \<longleftrightarrow> config_ok cfg"
proof -
  have "validate_cluster c = None \<longleftrightarrow> kc_endpoints c \<noteq> [] \<or> kc_mock c \<noteq> None" for c
    by (auto simp: validate_cluster_def)
  moreover have "(if b then Some v else None) = None \<longleftrightarrow> \<not> b" for b and v :: violation
    by simp
  ultimately show ?thesis
    by (simp add: validate_def config_ok_def Let_def report_Inr first_duplicate_None validate_route_None)
qed

lemma validate_Inl: "validate cfg = Inl v \<Longrightarrow> \<not> config_ok cfg"
  by (metis Inl_Inr_False validate_Inr)

text \<open>C33: A configuration passes validation exactly when it has a listener, listener and cluster names are unique, every
  route has one target and refers to configured clusters only, and every cluster has an endpoint or is a mock.\<close>

theorem validate_iff_well_formed: "validate cfg = Inr () \<longleftrightarrow> config_ok cfg"
  by (rule validate_Inr)

section \<open>The interface of configuration stores\<close>

text \<open>The trait \<^verbatim>\<open>ConfigStore\<close>.  \<open>io\<close> is what the environment does during a save.\<close>

locale config_store =
  fixes load :: "'s \<Rightarrow> config_error + config"
    and save :: "'o \<Rightarrow> config \<Rightarrow> 's \<Rightarrow> (config_error + unit) \<times> 's"
    and inv :: "'s \<Rightarrow> bool"
  assumes load_valid: "inv s \<Longrightarrow> load s = Inr cfg \<Longrightarrow> config_ok cfg"
    and save_load: "inv s \<Longrightarrow> fst (save io cfg s) = Inr () \<Longrightarrow> load (snd (save io cfg s)) = Inr cfg"
    and save_failed: "inv s \<Longrightarrow> fst (save io cfg s) = Inl e \<Longrightarrow> load (snd (save io cfg s)) = load s"
    and save_invalid: "inv s \<Longrightarrow> \<not> config_ok cfg \<Longrightarrow> \<exists>v. fst (save io cfg s) = Inl (ValidationFailed v)"
    and save_inv: "inv s \<Longrightarrow> inv (snd (save io cfg s))"
begin

primrec saves :: "('o \<times> config) list \<Rightarrow> 's \<Rightarrow> 's \<times> config list" where
  "saves [] s = (s, [])"
| "saves (x # xs) s =
     (case saves xs (snd (save (fst x) (snd x) s)) of
        (s', saved) \<Rightarrow> (s', (if fst (save (fst x) (snd x) s) = Inr () then snd x # saved else saved)))"

lemma saves_inv: "inv s \<Longrightarrow> inv (fst (saves xs s))"
proof (induction xs arbitrary: s)
  case (Cons x xs)
  then show ?case using save_inv [OF Cons.prems, of "fst x" "snd x"] by (auto split: prod.splits) (metis fst_conv)
qed simp

lemma last_save_wins:
  assumes "inv s" "saves xs s = (s', saved)"
  shows "load s' = (if saved = [] then load s else Inr (last saved))"
  using assms
proof (induction xs arbitrary: s saved)
  case (Cons x xs)
  let ?r = "save (fst x) (snd x) s"
  obtain d where d: "saves xs (snd ?r) = (s', d)" "saved = (if fst ?r = Inr () then snd x # d else d)"
    using Cons.prems(2) by (auto split: prod.splits)
  have IH: "load s' = (if d = [] then load (snd ?r) else Inr (last d))"
    by (rule Cons.IH [OF save_inv [OF Cons.prems(1)] d(1)])
  show ?case
  proof (cases "fst ?r")
    case (Inl e)
    then show ?thesis using IH d(2) save_failed [OF Cons.prems(1) Inl] by simp
  next
    case (Inr u)
    then show ?thesis using IH d(2) save_load [OF Cons.prems(1), of "fst x" "snd x"] by simp
  qed
qed simp

end

lemma memory_store_ok:
  "config_store memory_store_load memory_store_save (\<lambda>s. config_ok (mg_config s))"
  by unfold_locales
     (auto simp: memory_store_load_def memory_store_current_def memory_store_save_def memory_store_update_def
       validate_Inr dest: validate_Inl split: sum.splits)

interpretation memory_cfg: config_store memory_store_load memory_store_save "\<lambda>s. config_ok (mg_config s)"
  by (rule memory_store_ok)

text \<open>What the file store relies on: the library reads back what it printed, the format is the one the extension
  announces, and the temporary file is another one.\<close>

definition codec_ok :: "codec \<Rightarrow> bool" where
  "codec_ok K = (\<forall>f cfg text. cd_print K f cfg = Inr text \<longrightarrow> cd_parse K f text = Inr cfg)"

definition file_store_ok :: "codec \<Rightarrow> file_config_store \<times> (string, string) alist \<Rightarrow> bool" where
  "file_store_ok K s =
     (codec_ok K \<and> format_from_path (fs_path (fst s)) = Some (fs_format (fst s)) \<and>
      with_extension (fs_path (fst s)) ''tmp'' \<noteq> fs_path (fst s))"

lemma file_save_cases:
  assumes "file_store_ok K s"
  obtains (invalid) v where "file_store_save K io cfg s = (Inl (ValidationFailed v), s)" "\<not> config_ok cfg"
  | (failed) e files where "file_store_save K io cfg s = (Inl e, fst s, files)" "config_ok cfg"
      "map_of files (fs_path (fst s)) = map_of (snd s) (fs_path (fst s))"
  | (saved) body files where "file_store_save K io cfg s = (Inr (), fst s, files)" "config_ok cfg"
      "cd_print K (fs_format (fst s)) cfg = Inr body" "map_of files (fs_path (fst s)) = Some body"
proof (cases "validate cfg")
  case (Inl v)
  then have "file_store_save K io cfg s = (Inl (ValidationFailed v), s)" by (cases s) (simp add: file_store_save_def)
  then show ?thesis using validate_Inl [OF Inl] by (rule invalid)
next
  case (Inr u)
  note ok = Inr [unfolded validate_Inr]
  let ?t = "with_extension (fs_path (fst s)) ''tmp''"
  have t: "?t \<noteq> fs_path (fst s)" using assms by (simp add: file_store_ok_def)
  show ?thesis
  proof (cases "cd_print K (fs_format (fst s)) cfg")
    case (Inl e)
    then have "file_store_save K io cfg s = (Inl (Serialization e), fst s, snd s)"
      using \<open>validate cfg = Inr u\<close> by (cases s) (simp add: file_store_save_def serialize_def)
    then show ?thesis using ok by (rule failed) simp
  next
    case (Inr body)
    show ?thesis
    proof (cases "io_write io = Written \<and> io_rename_ok io")
      case True
      have "file_store_save K io cfg s = (Inr (), fst s, AList.update (fs_path (fst s)) body
          (AList.delete ?t (AList.update ?t body (snd s))))"
        using True Inr \<open>validate cfg = Inr u\<close> t by (cases s) (simp add: file_store_save_def serialize_def Let_def)
      then show ?thesis using saved ok Inr by (simp add: update_conv')
    next
      case False
      then have "\<exists>e files. file_store_save K io cfg s = (Inl e, fst s, files) \<and>
          (files = snd s \<or> (\<exists>x. files = AList.update ?t x (snd s)))"
        using Inr \<open>validate cfg = Inr u\<close>
        by (cases s; cases "io_write io")
           (auto simp: file_store_save_def serialize_def Let_def split: option.split)
      then obtain e files where f: "file_store_save K io cfg s = (Inl e, fst s, files)"
        "files = snd s \<or> (\<exists>x. files = AList.update ?t x (snd s))" by blast
      then show ?thesis using failed ok t by (auto simp: update_conv')
    qed
  qed
qed

interpretation file_cfg: config_store "file_store_load K" "file_store_save K" "file_store_ok K" for K
proof
  fix s :: "file_config_store \<times> (string, string) alist" and io cfg e
  assume ok: "file_store_ok K s"
  note load_defs = file_store_load_def config_load_def config_from_text_def
  show "config_ok cfg" if "file_store_load K s = Inr cfg"
    using that by (auto simp: load_defs validate_Inr split: sum.splits option.splits)
  show "file_store_load K (snd (file_store_save K io cfg s)) = Inr cfg" if "fst (file_store_save K io cfg s) = Inr ()"
    using ok
  proof (cases rule: file_save_cases [where io = io and cfg = cfg])
    case (saved body files)
    then have "cd_parse K (fs_format (fst s)) body = Inr cfg" using ok by (simp add: file_store_ok_def codec_ok_def)
    moreover have "validate cfg = Inr ()" using saved by (simp add: validate_Inr)
    ultimately show ?thesis using saved ok by (simp add: load_defs file_store_ok_def)
  qed (use that in auto)
  show "file_store_load K (snd (file_store_save K io cfg s)) = file_store_load K s" if "fst (file_store_save K io cfg s) = Inl e"
    using ok by (cases rule: file_save_cases [where io = io and cfg = cfg]) (use that in \<open>auto simp: load_defs cong: option.case_cong\<close>)
  show "\<exists>v. fst (file_store_save K io cfg s) = Inl (ValidationFailed v)" if "\<not> config_ok cfg"
    using ok by (cases rule: file_save_cases [where io = io and cfg = cfg]) (use that in auto)
  show "file_store_ok K (snd (file_store_save K io cfg s))"
    using ok by (cases rule: file_save_cases [where io = io and cfg = cfg]) (use ok in \<open>auto simp: file_store_ok_def\<close>)
qed

section \<open>Properties of the stores\<close>

text \<open>The temporary file of a store that recognised its own format is never the configuration file.\<close>

lemma with_extension_suffix:
  assumes "file_name p = Some n"
  shows "\<exists>q. with_extension p ''tmp'' = q @ ''.tmp''"
  using assms by (auto simp: with_extension_def Let_def)

lemma tmp_extension: "path_extension (q @ ''.tmp'') = None \<or> path_extension (q @ ''.tmp'') = Some ''tmp''"
proof -
  let ?l = "last (split_on CHR ''/'' q) @ ''.tmp''"
  have l: "split_on CHR ''/'' (q @ ''.tmp'') = butlast (split_on CHR ''/'' q) @ [?l]"
    by (rule split_on_append) simp
  have "?l \<noteq> []" "?l \<noteq> ''.''" "?l \<noteq> ''..''" by (auto simp: append_eq_Cons_conv)
  then have f: "file_name (q @ ''.tmp'') = Some ?l"
    unfolding file_name_def path_components_def l by (simp add: Let_def)
  have "last (split_on CHR ''.'' ?l) = ''tmp''"
    using split_on_last [of "CHR ''.''" "''tmp''" "last (split_on CHR ''/'' q)"] by simp
  then have "name_extension ?l = None \<or> name_extension ?l = Some ''tmp''"
    by (simp add: name_extension_def Let_def)
  then show ?thesis by (simp add: path_extension_def f)
qed

lemma temp_differs:
  assumes "format_from_path p = Some f"
  shows "with_extension p ''tmp'' \<noteq> p"
proof
  assume e: "with_extension p ''tmp'' = p"
  obtain n where "file_name p = Some n"
    using assms by (auto simp: format_from_path_def path_extension_def split: option.splits Option.bind_splits)
  then obtain q where "p = q @ ''.tmp''" using with_extension_suffix [of p n] e by auto
  then have "path_extension p = None \<or> path_extension p = Some ''tmp''" using tmp_extension [of q] by simp
  then show False using assms by (auto simp: format_from_path_def ascii_lower_def)
qed

lemma file_store_new_ok: "file_store_new p = Inr st \<Longrightarrow> codec_ok K \<Longrightarrow> file_store_ok K (st, files)"
  by (auto simp: file_store_new_def file_store_ok_def temp_differs split: option.splits)

text \<open>C34: Saving is atomic for the readers of the file: whatever the operating system does, the configuration file
  afterwards holds the complete new text, on success, or what it held before, on any error.\<close>

theorem file_save_atomic:
  assumes "file_store_new p = Inr st" "file_store_save K io cfg (st, files) = (r, st', files')"
  shows "st' = st \<and>
    (case r of
       Inr _ \<Rightarrow> config_ok cfg \<and> (\<exists>body. cd_print K (fs_format st) cfg = Inr body \<and> map_of files' p = Some body)
     | Inl _ \<Rightarrow> map_of files' p = map_of files p)"
proof -
  have st: "st = \<lparr> fs_path = p, fs_format = fs_format st \<rparr>" "format_from_path p = Some (fs_format st)"
    using assms(1) by (auto simp: file_store_new_def split: option.splits)
  then have p: "fs_path st = p" by (metis file_config_store.select_convs(1))
  have t: "with_extension p ''tmp'' \<noteq> p" using st(2) by (rule temp_differs)
  show ?thesis
    using assms(2) t p
    by (auto simp: file_store_save_def serialize_def Let_def update_conv' validate_Inr
        split: sum.splits write_outcome.splits option.splits if_splits)
qed

text \<open>The file store keeps what was saved last: after any saves, some of them failing, loading gives the last
  configuration whose save succeeded, and what the file held at first when there is none.\<close>

theorem file_last_save_wins:
  assumes "codec_ok K" "file_store_new p = Inr st" "file_cfg.saves K xs (st, files) = (s', cs)"
  shows "file_store_load K s' = (if cs = [] then file_store_load K (st, files) else Inr (last cs))"
  by (rule file_cfg.last_save_wins [OF file_store_new_ok [OF assms(2,1)] assms(3)])

text \<open>The same contract for the in-memory store.\<close>

theorem memory_last_save_wins:
  assumes "config_ok cfg" "memory_cfg.saves xs (memory_store_new cfg) = (s', cs)"
  shows "memory_store_load s' = (if cs = [] then Inr cfg else Inr (last cs))"
  using memory_cfg.last_save_wins [of "memory_store_new cfg" xs s' cs] assms
  by (simp add: memory_store_new_def memory_store_load_def memory_store_current_def)

text \<open>A store created with an explicit format ignores it when loading: the format comes from the extension.\<close>

theorem explicit_format_not_loadable:
  assumes "format_from_path p = None"
  shows "file_store_load K (file_store_with_format p f, files) = Inl (LoadFailed (UnsupportedFormat p))"
  using assms by (simp add: file_store_load_def config_load_def file_store_with_format_def)

section \<open>Examples\<close>

definition sample_cfg :: config where
  "sample_cfg =
     \<lparr> cg_listeners = [\<lparr> ln_name = ''default'', ln_address = ''0.0.0.0:2775'', ln_protocol = PrSmpp, ln_tls = None,
         ln_filters = [], ln_limits = connection_limits_default \<rparr>],
       cg_clusters = [\<lparr> kc_name = ''mock'', kc_endpoints = [], kc_load_balancer = LbRoundRobin,
         kc_health_check = health_check_config_default, kc_pool = pool_config_default,
         kc_mock = Some \<lparr> mk_response = MrSuccess, mk_latency = 0 \<rparr> \<rparr>],
       cg_routes = [\<lparr> rc_name = ''default'', rc_match = \<lparr> rm_destination = Some condition_any, rm_source = None,
           rm_sender_id = None, rm_system_id = None, rm_service_type = None, rm_esm_class = None, rm_data_coding = None,
           rm_time_window = None, rm_prefix = None, rm_regex = None \<rparr>,
         rc_cluster = Some ''mock'', rc_split = None, rc_fallback = Some [''mock''], rc_priority = 0 \<rparr>],
       cg_clients = [], cg_admin = admin_config_default, cg_settings = settings_default,
       cg_telemetry = telemetry_config_default \<rparr>"

lemma sample_cfg_ok: "config_ok sample_cfg"
  by (simp add: config_ok_def sample_cfg_def route_ok_def)

definition sample_codec :: codec where
  "sample_codec =
     \<lparr> cd_parse = (\<lambda>f t. if t = ''sample'' then Inr sample_cfg else Inl ''syntax''),
       cd_print = (\<lambda>f c. if c = sample_cfg then Inr ''sample'' else Inl ''unsupported'') \<rparr>"

lemma sample_codec_ok: "codec_ok sample_codec"
  by (simp add: codec_ok_def sample_codec_def)

definition sample_file_store :: file_config_store where
  "sample_file_store = \<lparr> fs_path = ''/etc/c.yaml'', fs_format = Yaml \<rparr>"

lemma sample_file_store_new: "file_store_new ''/etc/c.yaml'' = Inr sample_file_store"
  by (simp add: file_store_new_def sample_file_store_def format_from_path_def path_extension_def file_name_def
      path_components_def name_extension_def ascii_lower_def)

lemma sample_temp: "with_extension ''/etc/c.yaml'' ''tmp'' = ''/etc/c.tmp''"
  by (simp add: with_extension_def file_name_def path_components_def name_stem_def name_extension_def)

theorem file_save_atomic_witness:
  "\<exists>st' files'. file_store_save sample_codec \<lparr> io_write = Written, io_rename_ok = False \<rparr> sample_cfg
       (sample_file_store, [(''/etc/c.yaml'', ''old'')]) = (Inl (ConfigIo ''rename''), st', files') \<and>
     map_of files' ''/etc/c.yaml'' = Some ''old''"
proof -
  have "validate sample_cfg = Inr ()" using sample_cfg_ok by (simp add: validate_Inr)
  then have "\<exists>st' files'. file_store_save sample_codec \<lparr> io_write = Written, io_rename_ok = False \<rparr> sample_cfg
       (sample_file_store, [(''/etc/c.yaml'', ''old'')]) = (Inl (ConfigIo ''rename''), st', files')"
    by (simp add: file_store_save_def serialize_def sample_codec_def Let_def)
  then obtain st' files' where r: "file_store_save sample_codec \<lparr> io_write = Written, io_rename_ok = False \<rparr> sample_cfg
       (sample_file_store, [(''/etc/c.yaml'', ''old'')]) = (Inl (ConfigIo ''rename''), st', files')" by blast
  show ?thesis using r file_save_atomic [OF sample_file_store_new r] by simp
qed

theorem file_last_save_wins_witness:
  "file_store_load sample_codec (fst (file_cfg.saves sample_codec
      [(\<lparr> io_write = Written, io_rename_ok = True \<rparr>, sample_cfg)] (sample_file_store, []))) = Inr sample_cfg"
proof -
  have v: "validate sample_cfg = Inr ()" using sample_cfg_ok by (simp add: validate_Inr)
  obtain s' cs where r: "file_cfg.saves sample_codec [(\<lparr> io_write = Written, io_rename_ok = True \<rparr>, sample_cfg)]
      (sample_file_store, []) = (s', cs)" by fastforce
  then have "cs = [sample_cfg]"
    using v by (auto simp: file_store_save_def serialize_def sample_codec_def Let_def split: prod.splits if_splits)
  with r show ?thesis
    using file_last_save_wins [OF sample_codec_ok sample_file_store_new r] by simp
qed

end
