(* ===== verification/Gateway.thy ===== *)
theory Gateway
  imports Configuration Feedback
begin

text \<open>
  The shared gateway state with start-up and reload (\<^verbatim>\<open>src/src/bootstrap/state.rs\<close>), the choice of the
  storage (\<^verbatim>\<open>src/src/store/factory.rs\<close>)
  and the administration state
  (\<^verbatim>\<open>src/src/admin/server.rs\<close>, \<^verbatim>\<open>src/src/admin/handlers.rs\<close>).  Directories of the user, the
  creation of a directory and the opening of a persistent storage are arguments.

  The main theorem composes validation, clusters and router: on a gateway started from a validated configuration every
  routing decision names clusters that exist.  It fails after a reload, which is shown as well.
\<close>

section \<open>Storage factory (store/factory.rs)\<close>

record environment =
  ev_current_dir :: "string option"
  ev_is_root :: bool
  ev_data_dir :: "string option"
  ev_home_dir :: "string option"

definition resolve_data_dir :: "environment \<Rightarrow> string option \<Rightarrow> string" where
  "resolve_data_dir ev path =
     (case path of
        Some p \<Rightarrow>
          if path_is_absolute p then p
          else path_join (case ev_current_dir ev of Some d \<Rightarrow> d | None \<Rightarrow> ''.'') p
      | None \<Rightarrow>
          if ev_is_root ev then ''/var/lib/smppd''
          else
            (case ev_data_dir ev of
               Some d \<Rightarrow> path_join d ''smppd''
             | None \<Rightarrow>
                 (case ev_home_dir ev of
                    Some h \<Rightarrow> path_join h ''.local/share/smppd''
                  | None \<Rightarrow> ''./data'')))"

datatype 'p storage = MemoryStorage feedback_storage | PersistentStorage 'p

datatype start_error = RouterFailed router_error | CreateDirFailed string | OpenFailed string

definition memory_storage_new :: feedback_storage where
  "memory_storage_new = storage_with_config memory_store_config_default"

definition create_storage ::
  "environment \<Rightarrow> (string \<Rightarrow> bool) \<Rightarrow> (string \<Rightarrow> string + 'p) \<Rightarrow> store_config \<Rightarrow> start_error + 'p storage" where
  "create_storage ev mkdir_ok open_storage c =
     (case so_backend c of
        BackendMemory \<Rightarrow> Inr (MemoryStorage memory_storage_new)
      | BackendFjall \<Rightarrow>
          let dir = resolve_data_dir ev (fj_path (so_fjall c)) in
          if \<not> mkdir_ok dir then Inl (CreateDirFailed dir)
          else (case open_storage dir of Inl e \<Rightarrow> Inl (OpenFailed e) | Inr p \<Rightarrow> Inr (PersistentStorage p)))"

section \<open>Gateway state (bootstrap/state.rs)\<close>

text \<open>A router keeps the clusters it was built with.\<close>

record router =
  rt_routes :: "route list"
  rt_clusters :: "(string, cluster) alist"

record 'p gateway_state =
  gs_storage :: "'p storage"
  gs_router :: router
  gs_clusters :: "(string, cluster) alist"
  gs_config :: config

definition build_router :: "regex_engine \<Rightarrow> config \<Rightarrow> router_error + router" where
  "build_router R cfg =
     (case router_new R (cg_routes cfg) of
        Inl e \<Rightarrow> Inl e
      | Inr rs \<Rightarrow> Inr \<lparr> rt_routes = rs, rt_clusters = clusters_new (cg_clusters cfg) \<rparr>)"

definition gateway_state_new ::
  "regex_engine \<Rightarrow> environment \<Rightarrow> (string \<Rightarrow> bool) \<Rightarrow> (string \<Rightarrow> string + 'p) \<Rightarrow> config \<Rightarrow>
   start_error + 'p gateway_state" where
  "gateway_state_new R ev mkdir_ok open_storage cfg =
     (case build_router R cfg of
        Inl e \<Rightarrow> Inl (RouterFailed e)
      | Inr rt \<Rightarrow>
          (case create_storage ev mkdir_ok open_storage (se_store (cg_settings cfg)) of
             Inl e \<Rightarrow> Inl e
           | Inr st \<Rightarrow> Inr \<lparr> gs_storage = st, gs_router = rt, gs_clusters = rt_clusters rt, gs_config = cfg \<rparr>))"

definition gateway_reload ::
  "regex_engine \<Rightarrow> config \<Rightarrow> 'p gateway_state \<Rightarrow> (router_error + unit) \<times> 'p gateway_state" where
  "gateway_reload R cfg g =
     (case build_router R cfg of
        Inl e \<Rightarrow> (Inl e, g)
      | Inr rt \<Rightarrow> (Inr (), g \<lparr> gs_router := rt \<rparr>))"

text \<open>One routing decision on the gateway.\<close>

definition gateway_route ::
  "regex_engine \<Rightarrow> tz_database \<Rightarrow> match_context \<Rightarrow> 'p gateway_state \<Rightarrow> route_result option \<times> 'p gateway_state" where
  "gateway_route R tz ctx g =
     (case route_context R tz ctx (rt_routes (gs_router g)) of
        (res, rs) \<Rightarrow> (res, g \<lparr> gs_router := (gs_router g) \<lparr> rt_routes := rs \<rparr> \<rparr>))"

text \<open>Periodic maintenance on the in-memory storage: expire, prune, forget decisions.\<close>

definition storage_maintenance :: "clock \<Rightarrow> duration \<Rightarrow> duration \<Rightarrow> feedback_storage \<Rightarrow> feedback_storage" where
  "storage_maintenance ck message_ttl prune_age s =
     prune_feedback (ck_now ck) prune_age
       (snd (prune_terminal (ck_now ck) prune_age (snd (expire_old ck message_ttl s))))"

section \<open>Administration (admin/server.rs, admin/handlers.rs)\<close>

record 'p admin_state =
  am_start_time :: instant
  am_healthy :: bool
  am_ready :: bool
  am_active_connections :: u64
  am_total_connections :: u64
  am_bound_connections :: u64
  am_messages_submitted :: u64
  am_messages_delivered :: u64
  am_messages_failed :: u64
  am_config_path :: string
  am_gateway_state :: "'p gateway_state"
  am_config :: config
  am_reload_count :: u64

definition admin_state_new :: "instant \<Rightarrow> string \<Rightarrow> config \<Rightarrow> 'p gateway_state \<Rightarrow> 'p admin_state" where
  "admin_state_new now path cfg g =
     \<lparr> am_start_time = now, am_healthy = True, am_ready = False, am_active_connections = 0, am_total_connections = 0,
       am_bound_connections = 0, am_messages_submitted = 0, am_messages_delivered = 0, am_messages_failed = 0,
       am_config_path = path, am_gateway_state = g, am_config = cfg, am_reload_count = 0 \<rparr>"

definition admin_uptime :: "instant \<Rightarrow> 'p admin_state \<Rightarrow> duration" where
  "admin_uptime now a = elapsed now (am_start_time a)"

definition set_healthy :: "bool \<Rightarrow> 'p admin_state \<Rightarrow> 'p admin_state" where
  "set_healthy b a = a \<lparr> am_healthy := b \<rparr>"

definition set_ready :: "bool \<Rightarrow> 'p admin_state \<Rightarrow> 'p admin_state" where
  "set_ready b a = a \<lparr> am_ready := b \<rparr>"

definition inc_active_connections :: "'p admin_state \<Rightarrow> 'p admin_state" where
  "inc_active_connections a =
     a \<lparr> am_active_connections := am_active_connections a + 1, am_total_connections := am_total_connections a + 1 \<rparr>"

definition dec_active_connections :: "'p admin_state \<Rightarrow> 'p admin_state" where
  "dec_active_connections a = a \<lparr> am_active_connections := am_active_connections a - 1 \<rparr>"

definition inc_bound_connections :: "'p admin_state \<Rightarrow> 'p admin_state" where
  "inc_bound_connections a = a \<lparr> am_bound_connections := am_bound_connections a + 1 \<rparr>"

definition dec_bound_connections :: "'p admin_state \<Rightarrow> 'p admin_state" where
  "dec_bound_connections a = a \<lparr> am_bound_connections := am_bound_connections a - 1 \<rparr>"

definition inc_messages_submitted :: "'p admin_state \<Rightarrow> 'p admin_state" where
  "inc_messages_submitted a = a \<lparr> am_messages_submitted := am_messages_submitted a + 1 \<rparr>"

definition inc_messages_delivered :: "'p admin_state \<Rightarrow> 'p admin_state" where
  "inc_messages_delivered a = a \<lparr> am_messages_delivered := am_messages_delivered a + 1 \<rparr>"

definition inc_messages_failed :: "'p admin_state \<Rightarrow> 'p admin_state" where
  "inc_messages_failed a = a \<lparr> am_messages_failed := am_messages_failed a + 1 \<rparr>"

record cluster_stats =
  ck_name :: string
  ck_endpoints :: nat
  ck_healthy_endpoints :: nat
  ck_active_connections :: u64

definition admin_cluster_stats :: "'p admin_state \<Rightarrow> cluster_stats list" where
  "admin_cluster_stats a =
     List.map_filter
       (\<lambda>name. map_option (\<lambda>c. \<lparr> ck_name = name, ck_endpoints = length (cl_endpoints c),
            ck_healthy_endpoints = healthy_count c, ck_active_connections = cluster_active_connections c \<rparr>)
          (clusters_get name (gs_clusters (am_gateway_state a))))
       (map fst (gs_clusters (am_gateway_state a)))"

record reload_result =
  rr_success :: bool
  rr_message :: string
  rr_reload_count :: u64
  rr_listeners :: nat
  rr_clusters :: nat
  rr_routes :: nat

datatype reload_error = ReloadLoad load_error | ReloadState router_error

definition admin_reload_config ::
  "codec \<Rightarrow> regex_engine \<Rightarrow> (string, string) alist \<Rightarrow> 'p admin_state \<Rightarrow>
   (reload_error + reload_result) \<times> 'p admin_state" where
  "admin_reload_config K R files a =
     (case config_load K (am_config_path a) files of
        Inl e \<Rightarrow> (Inl (ReloadLoad e), a)
      | Inr cfg \<Rightarrow>
          (case gateway_reload R cfg (am_gateway_state a) of
             (Inl e, g) \<Rightarrow> (Inl (ReloadState e), a \<lparr> am_gateway_state := g \<rparr>)
           | (Inr _, g) \<Rightarrow>
               let count = am_reload_count a + 1 in
               (Inr \<lparr> rr_success = True, rr_message = ''Configuration reloaded successfully'', rr_reload_count = count,
                      rr_listeners = length (cg_listeners cfg), rr_clusters = length (cg_clusters cfg),
                      rr_routes = length (cg_routes cfg) \<rparr>,
                a \<lparr> am_gateway_state := g, am_config := cfg, am_reload_count := count \<rparr>)))"

definition message_rate :: "instant \<Rightarrow> 'p admin_state \<Rightarrow> f64" where
  "message_rate now a =
     (let elapsed = as_secs_f64 (admin_uptime now a)
      in if fless (Fin 0) elapsed then fdiv (f64_of_int (uint (am_messages_submitted a))) elapsed else Fin 0)"

record stats_response =
  sr_uptime_seconds :: u64
  sr_active :: u64
  sr_total :: u64
  sr_bound :: u64
  sr_submitted :: u64
  sr_delivered :: u64
  sr_failed :: u64
  sr_rate_per_second :: f64
  sr_clusters :: "cluster_stats list"

definition stats_handler :: "instant \<Rightarrow> 'p admin_state \<Rightarrow> stats_response" where
  "stats_handler now a =
     \<lparr> sr_uptime_seconds = of_nat (admin_uptime now a div nanos_per_sec), sr_active = am_active_connections a,
       sr_total = am_total_connections a, sr_bound = am_bound_connections a, sr_submitted = am_messages_submitted a,
       sr_delivered = am_messages_delivered a, sr_failed = am_messages_failed a,
       sr_rate_per_second = message_rate now a, sr_clusters = admin_cluster_stats a \<rparr>"

definition health_handler :: "string \<Rightarrow> 'p admin_state \<Rightarrow> nat \<times> string \<times> string" where
  "health_handler version a =
     (if am_healthy a then (200, ''healthy'', version) else (503, ''unhealthy'', version))"

definition ready_handler :: "'p admin_state \<Rightarrow> nat" where
  "ready_handler a = (if am_ready a then 200 else 503)"

definition live_handler :: nat where
  "live_handler = 200"

definition reload_handler ::
  "(reload_error \<Rightarrow> string) \<Rightarrow> codec \<Rightarrow> regex_engine \<Rightarrow> (string, string) alist \<Rightarrow> 'p admin_state \<Rightarrow>
   (nat \<times> reload_result) \<times> 'p admin_state" where
  "reload_handler error_text K R files a =
     (case admin_reload_config K R files a of
        (Inr res, a') \<Rightarrow> ((200, res), a')
      | (Inl e, a') \<Rightarrow>
          ((500, \<lparr> rr_success = False, rr_message = error_text e, rr_reload_count = am_reload_count a',
                  rr_listeners = 0, rr_clusters = 0, rr_routes = 0 \<rparr>), a'))"

text \<open>The statistics of the storage behind the trait object; \<open>stats\<close> and \<open>targets\<close> are those of the persistent storage.\<close>

definition gateway_store_stats :: "('p \<Rightarrow> store_stats) \<Rightarrow> 'p gateway_state \<Rightarrow> store_stats" where
  "gateway_store_stats stats g =
     (case gs_storage g of MemoryStorage s \<Rightarrow> message_stats s | PersistentStorage p \<Rightarrow> stats p)"

definition gateway_feedback_stats ::
  "('p \<Rightarrow> (string \<times> target_stats) list) \<Rightarrow> 'p gateway_state \<Rightarrow> (string \<times> target_stats) list" where
  "gateway_feedback_stats targets g =
     (case gs_storage g of MemoryStorage s \<Rightarrow> all_target_stats s | PersistentStorage p \<Rightarrow> targets p)"

record store_stats_response =
  sp_total :: nat
  sp_pending :: nat
  sp_in_flight :: nat
  sp_delivered :: nat
  sp_failed :: nat
  sp_expired :: nat
  sp_retrying :: nat

definition store_stats_handler :: "('p \<Rightarrow> store_stats) \<Rightarrow> 'p admin_state \<Rightarrow> store_stats_response" where
  "store_stats_handler stats a =
     (let st = gateway_store_stats stats (am_gateway_state a)
      in \<lparr> sp_total = ss_total st, sp_pending = ss_pending st, sp_in_flight = ss_in_flight st,
           sp_delivered = ss_delivered st, sp_failed = ss_failed st, sp_expired = ss_expired st,
           sp_retrying = ss_retrying st \<rparr>)"

record target_feedback_stats =
  tf_target :: string
  tf_total :: u64
  tf_successes :: u64
  tf_failures :: u64
  tf_success_rate :: f64
  tf_avg_latency_us :: u64
  tf_ema_latency_us :: u64
  tf_score :: f64

definition feedback_stats_handler ::
  "('p \<Rightarrow> (string \<times> target_stats) list) \<Rightarrow> 'p admin_state \<Rightarrow> target_feedback_stats list" where
  "feedback_stats_handler targets a =
     map (\<lambda>(target, st).
            \<lparr> tf_target = target, tf_total = tt_total st, tf_successes = tt_successes st, tf_failures = tt_failures st,
              tf_success_rate = success_rate st, tf_avg_latency_us = tt_avg_latency_us st,
              tf_ema_latency_us = tt_ema_latency_us st, tf_score = score st \<rparr>)
       (gateway_feedback_stats targets (am_gateway_state a))"

section \<open>Clusters named by a route\<close>

fun target_clusters :: "route_target \<Rightarrow> string list" where
  "target_clusters (Single c) = [c]"
| "target_clusters (Split s) = map fst (ws_clusters s)"

definition route_clusters :: "route \<Rightarrow> string set" where
  "route_clusters r = set (target_clusters (ro_target r)) \<union> set (ro_fallback r)"

lemma cumulate_clusters: "map fst (fst (cumulate acc cs)) = map fst cs"
  by (induction acc cs rule: cumulate.induct) (auto simp: Let_def split: prod.splits)

lemma split_new_clusters: "map fst (ws_clusters (weighted_split_new cs)) = map fst cs"
  using cumulate_clusters [of 0 cs] by (simp add: weighted_split_new_def case_prod_unfold Let_def)

lemma split_select_clusters:
  assumes "split_select s = (r, s')"
  shows "ws_clusters s' = ws_clusters s" "r = Some c \<Longrightarrow> c \<in> set (map fst (ws_clusters s))"
  using assms
  by (auto simp: split_select_def Let_def find_Some_iff split: if_splits option.splits)
     (metis image_eqI last_in_set nth_mem fst_conv)+

lemma target_select_clusters:
  assumes "target_select t = (r, t')"
  shows "target_clusters t' = target_clusters t" "r = Some c \<Longrightarrow> c \<in> set (target_clusters t)"
proof -
  show "target_clusters t' = target_clusters t"
    using assms split_select_clusters(1)
    by (cases t) (auto simp: target_select_def split: prod.splits)
  show "c \<in> set (target_clusters t)" if "r = Some c"
    using assms split_select_clusters(2) that
    by (cases t) (auto simp: target_select_def split: prod.splits)
qed

lemma compile_route_clusters:
  assumes "compile_route R rc = Inr r" "route_ok names rc"
  shows "route_clusters r \<subseteq> set names"
proof -
  have "set (map fst (ws_clusters (weighted_split_new cs))) = fst ` set cs" for cs
    by (simp only: split_new_clusters list.set_map)
  then show ?thesis
    using assms
    by (auto simp: compile_route_def route_ok_def route_clusters_def Let_def split: sum.splits option.splits)
qed

lemma route_context_clusters:
  assumes "\<forall>r \<in> set rs. route_clusters r \<subseteq> N" "route_context R tz ctx rs = (Some x, rs')"
  shows "(\<forall>r \<in> set rs'. route_clusters r \<subseteq> N) \<and> rr_cluster_name x \<in> N \<and> set (rr_fallback x) \<subseteq> N"
proof -
  obtain pre r post t where h: "rs = pre @ r # post" "rr_fallback x = ro_fallback r"
    "target_select (ro_target r) = (Some (rr_cluster_name x), t)" "rs' = pre @ r \<lparr> ro_target := t \<rparr> # post"
    using route_context_hit [OF assms(2)] by blast
  have "route_clusters (r \<lparr> ro_target := t \<rparr>) = route_clusters r"
    using target_select_clusters(1) [OF h(3)] by (simp add: route_clusters_def)
  moreover have "rr_cluster_name x \<in> route_clusters r"
    using target_select_clusters(2) [OF h(3)] by (simp add: route_clusters_def)
  moreover have "set (rr_fallback x) \<subseteq> route_clusters r" using h(2) by (simp add: route_clusters_def)
  ultimately show ?thesis using assms(1) h(1,4) by auto
qed

lemma route_context_keeps_clusters: "map route_clusters (snd (route_context R tz ctx rs)) = map route_clusters rs"
proof (induction rs)
  case (Cons r rs)
  obtain c t where t: "target_select (ro_target r) = (c, t)" by fastforce
  have "route_clusters (r \<lparr> ro_target := t \<rparr>) = route_clusters r"
    using target_select_clusters(1) [OF t] by (simp add: route_clusters_def)
  then show ?case using Cons t by (cases c) (auto split: prod.splits)
qed simp

lemma clusters_new_dom: "map_of (clusters_new cs) n \<noteq> None \<longleftrightarrow> n \<in> kc_name ` set cs"
proof -
  have "map_of (fold (\<lambda>c m. AList.update (kc_name c) (cluster_new c) m) cs m) n \<noteq> None \<longleftrightarrow>
      n \<in> kc_name ` set cs \<or> map_of m n \<noteq> None" for m
    by (induction cs arbitrary: m) (auto simp: update_conv')
  from this [of "[]"] show ?thesis by (simp add: clusters_new_def)
qed

section \<open>Routing decisions and clusters\<close>

inductive gateway_routed :: "regex_engine \<Rightarrow> tz_database \<Rightarrow> 'p gateway_state \<Rightarrow> 'p gateway_state \<Rightarrow> bool" for R tz where
  routed_start: "gateway_routed R tz g g"
| routed_step: "gateway_routed R tz g0 g \<Longrightarrow> gateway_routed R tz g0 (snd (gateway_route R tz ctx g))"

lemma gateway_routed_frame:
  "gateway_routed R tz g0 g \<Longrightarrow> gs_clusters g = gs_clusters g0 \<and>
     map route_clusters (rt_routes (gs_router g)) = map route_clusters (rt_routes (gs_router g0))"
proof (induction rule: gateway_routed.induct)
  case (routed_step g0 g ctx)
  then show ?case
    using route_context_keeps_clusters [of R tz ctx "rt_routes (gs_router g)"]
    by (auto simp: gateway_route_def split: prod.splits)
qed simp

lemma build_router_clusters:
  assumes "config_ok cfg" "build_router R cfg = Inr rt"
  shows "\<forall>r \<in> set (rt_routes rt). route_clusters r \<subseteq> kc_name ` set (cg_clusters cfg)"
    and "rt_clusters rt = clusters_new (cg_clusters cfg)"
proof -
  obtain rs where rs: "router_new R (cg_routes cfg) = Inr rs" "rt = \<lparr> rt_routes = rs, rt_clusters = clusters_new (cg_clusters cfg) \<rparr>"
    using assms(2) by (auto simp: build_router_def split: sum.splits)
  then show "rt_clusters rt = clusters_new (cg_clusters cfg)" by simp
  show "\<forall>r \<in> set (rt_routes rt). route_clusters r \<subseteq> kc_name ` set (cg_clusters cfg)"
    using router_new_mem(1) [OF rs(1)] assms(1) compile_route_clusters rs(2)
    by (fastforce simp: config_ok_def)
qed

lemma routed_resolves:
  assumes "map route_clusters rs = map route_clusters rs0" "\<forall>r \<in> set rs0. route_clusters r \<subseteq> N"
    and "route_context R tz ctx rs = (Some x, rs')" "c = rr_cluster_name x \<or> c \<in> set (rr_fallback x)"
  shows "c \<in> N"
proof -
  have "route_clusters ` set rs = route_clusters ` set rs0" using assms(1) by (metis list.set_map)
  then have "\<forall>r \<in> set rs. route_clusters r \<subseteq> N" using assms(2) by (metis image_iff)
  then show ?thesis using route_context_clusters [OF _ assms(3)] assms(4) by blast
qed

text \<open>C12: Validation, clusters and router fit together: on a gateway started from a configuration that passed validation,
  after any number of routing decisions, the next one names only clusters the gateway has, as its target and as its
  fallbacks, so that no message fails for want of a cluster.\<close>

theorem validated_routes_resolve:
  assumes "validate cfg = Inr ()" "gateway_state_new R ev mkdir_ok open_storage cfg = Inr g0"
    and "gateway_routed R tz g0 g" "fst (gateway_route R tz ctx g) = Some res"
    and "c = rr_cluster_name res \<or> c \<in> set (rr_fallback res)"
  shows "\<exists>cl. clusters_get c (gs_clusters g) = Some cl"
proof -
  have ok: "config_ok cfg" using assms(1) by (simp add: validate_Inr)
  obtain rt where rt: "build_router R cfg = Inr rt" "gs_router g0 = rt" "gs_clusters g0 = rt_clusters rt"
    using assms(2) by (auto simp: gateway_state_new_def split: sum.splits)
  note fr = gateway_routed_frame [OF assms(3)]
  obtain rs' where x: "route_context R tz ctx (rt_routes (gs_router g)) = (Some res, rs')"
    using assms(4) by (auto simp: gateway_route_def split: prod.splits)
  have "c \<in> kc_name ` set (cg_clusters cfg)"
    using routed_resolves [OF _ build_router_clusters(1) [OF ok rt(1)] x assms(5)] fr rt(2) by simp
  then have "map_of (gs_clusters g) c \<noteq> None"
    using clusters_new_dom build_router_clusters(2) [OF ok rt(1)] fr rt(3) by metis
  then show ?thesis by (auto simp: clusters_get_def)
qed

text \<open>After a reload the new routes meet the old clusters: the gateway's own table never changes, so a route to a
  cluster only the new configuration has finds none.\<close>

theorem reload_keeps_old_clusters:
  assumes "validate cfg = Inr ()" "gateway_state_new R ev mkdir_ok open_storage cfg = Inr g0"
    and "gateway_reload R cfg' g0 = (Inr (), g)" "gateway_routed R tz g g1" "c \<notin> kc_name ` set (cg_clusters cfg)"
  shows "clusters_get c (gs_clusters g1) = None"
proof -
  have ok: "config_ok cfg" using assms(1) by (simp add: validate_Inr)
  obtain rt where rt: "build_router R cfg = Inr rt" "gs_clusters g0 = rt_clusters rt"
    using assms(2) by (auto simp: gateway_state_new_def split: sum.splits)
  have "gs_clusters g = gs_clusters g0"
    using assms(3) by (auto simp: gateway_reload_def split: sum.splits)
  then show ?thesis
    using gateway_routed_frame [OF assms(4)] build_router_clusters(2) [OF ok rt(1)] rt(2) clusters_new_dom assms(5)
    by (metis clusters_get_def)
qed

text \<open>A failed administrative reload changes nothing and a successful one takes effect everywhere the state is
  read from, the clusters excepted.\<close>

theorem admin_reload_all_or_nothing:
  "(case admin_reload_config K R files a of
      (Inl e, a') \<Rightarrow> a' = a
    | (Inr res, a') \<Rightarrow> config_ok (am_config a') \<and> rr_reload_count res = am_reload_count a' \<and>
        am_reload_count a' = am_reload_count a + 1 \<and>
        build_router R (am_config a') = Inr (gs_router (am_gateway_state a')))"
proof (cases "config_load K (am_config_path a) files")
  case (Inr cfg)
  then have "config_ok cfg"
    by (auto simp: config_load_def config_from_text_def validate_Inr split: option.splits sum.splits)
  with Inr show ?thesis
    by (cases "build_router R cfg") (auto simp: admin_reload_config_def gateway_reload_def Let_def)
qed (simp add: admin_reload_config_def)

section \<open>Examples\<close>

definition no_regex :: regex_engine where
  "no_regex = \<lparr> re_valid = (\<lambda>_. False), re_is_match = (\<lambda>_ _. False) \<rparr>"

definition sample_env :: environment where
  "sample_env = \<lparr> ev_current_dir = None, ev_is_root = True, ev_data_dir = None, ev_home_dir = None \<rparr>"

definition sample_gateway :: "unit gateway_state" where
  "sample_gateway = projr (gateway_state_new no_regex sample_env (\<lambda>_. True) (\<lambda>_. Inr ()) sample_cfg)"

lemma sample_gateway_new:
  "gateway_state_new no_regex sample_env (\<lambda>_. True) (\<lambda>_. Inr ()) sample_cfg = Inr sample_gateway"
proof -
  have "\<exists>g. gateway_state_new no_regex sample_env (\<lambda>_. True) (\<lambda>_. Inr ()) sample_cfg = Inr g"
    by (simp add: gateway_state_new_def build_router_def router_new_def sample_cfg_def compile_route_def
        destination_kind_def condition_any_def kind_from_condition_def build_kind_def compiled_matcher_new_def
        create_storage_def settings_default_def store_config_default_def)
  then show ?thesis by (auto simp: sample_gateway_def)
qed

theorem validated_routes_resolve_witness:
  "\<exists>cl. clusters_get ''mock'' (gs_clusters sample_gateway) = Some cl"
proof -
  have v: "validate sample_cfg = Inr ()" using sample_cfg_ok by (simp add: validate_Inr)
  obtain rt st where b: "build_router no_regex sample_cfg = Inr rt"
    and e: "\<lparr>gs_storage = st, gs_router = rt, gs_clusters = rt_clusters rt, gs_config = sample_cfg\<rparr> = sample_gateway"
    using sample_gateway_new by (auto simp: gateway_state_new_def split: sum.splits)
  have "gs_router sample_gateway = projr (build_router no_regex sample_cfg)" unfolding e [symmetric] b by simp
  then have r: "\<exists>res. fst (gateway_route no_regex undefined (match_context_new ''1'') sample_gateway) = Some res \<and>
      ''mock'' = rr_cluster_name res"
    by (simp add: gateway_route_def build_router_def router_new_def sample_cfg_def compile_route_def
        destination_kind_def condition_any_def kind_from_condition_def build_kind_def compiled_matcher_new_def
        matches_context_def match_context_new_def opt_check_def target_select_def split: prod.splits)
  then obtain res where "fst (gateway_route no_regex undefined (match_context_new ''1'') sample_gateway) = Some res"
    "''mock'' = rr_cluster_name res" by blast
  then show ?thesis
    using validated_routes_resolve [OF v sample_gateway_new routed_start, of undefined "match_context_new ''1''" res "''mock''"]
    by blast
qed

end
