(* ===== verification/Pipeline.thy ===== *)
theory Pipeline
  imports Forwarder Session
begin

text \<open>
  The event-driven message pipeline (\<^verbatim>\<open>src/src/pipeline\<close>): filter, router, forwarder and response
  processors connected by the broadcast bus of \<^verbatim>\<open>src/src/bootstrap/events.rs\<close>.  Events of the bus
  are a multiset and any of them may be handled next, so the theorems hold for every interleaving of
  the processors and of the forwarding tasks.  Every processor sees every event; exactly one reacts to
  each kind and the others ignore it.  The model assumes that no receiver lags behind the capacity of
  the broadcast channel (the source then drops events with a warning).
\<close>

section \<open>Events of the message flow\<close>

datatype flow_event =
    MessageSubmitRequest message_envelope
  | MessageAccepted message_envelope
  | MessageRejected message_envelope string u32
  | MessageRouted message_envelope string string "string list"
  | MessageForwarding message_id string string u32
  | MessageDelivered message_id session_id u32 string u64
  | MessageFailed message_id session_id u32 "u32 option" string bool
  | MessageRetryScheduled message_id u32 u64 string
  | MessageRetryReady message_id
  | ResponseReady response_envelope

section \<open>Filter processor (pipeline/filter.rs)\<close>

definition reject_message :: "message_envelope \<Rightarrow> string \<Rightarrow> u32 \<Rightarrow> flow_event list" where
  "reject_message env reason status =
     [MessageRejected env reason status,
      ResponseReady (response_error (en_session_id env) (en_sequence_number env)
        (show_message_id (en_message_id env)) status)]"

definition process_message :: "message_envelope \<Rightarrow> flow_event list" where
  "process_message env =
     (if sm_dest_addr (en_submit_sm env) = [] then reject_message env ''empty destination address'' 0xB
      else if sm_source_addr (en_submit_sm env) = [] then reject_message env ''empty source address'' 0xA
      else [MessageAccepted env])"

section \<open>Router processor (pipeline/router.rs)\<close>

definition route_envelope ::
  "regex_engine \<Rightarrow> tz_database \<Rightarrow> clock \<Rightarrow> message_envelope \<Rightarrow> gateway \<Rightarrow> flow_event list \<times> gateway" where
  "route_envelope R tz ck env g =
     (let sm = en_submit_sm env;
          (mid, counter) = message_id_new (gw_next_message g);
          stored = new_message ck mid sm (en_system_id env) (en_sequence_number env);
          g1 = g \<lparr> gw_next_message := counter, gw_storage := snd (store stored (gw_storage g)) \<rparr>;
          (route, routes) = route_message R tz (sm_dest_addr sm) (Some (sm_source_addr sm)) None (gw_routes g1);
          g2 = g1 \<lparr> gw_routes := routes \<rparr>
      in case route of
           Some res \<Rightarrow>
             ([MessageRouted env (rr_route_name res) (rr_cluster_name res) (rr_fallback res)], g2)
         | None \<Rightarrow>
             ([MessageFailed (en_message_id env) (en_session_id env) (en_sequence_number env) (Some 0xB)
                 ''no route found'' True,
               ResponseReady (response_error (en_session_id env) (en_sequence_number env)
                 (show_message_id (en_message_id env)) 0xB)],
              gw_update (en_message_id env) (mark_failed ck (Some 0xB) ''no route found'') g2))"

section \<open>Forwarder processor (pipeline/forwarder.rs)\<close>

definition pipe_try_forward ::
  "attempt \<Rightarrow> string \<Rightarrow> message_envelope \<Rightarrow> gateway \<Rightarrow> (u32 option \<times> string + string) \<times> gateway" where
  "pipe_try_forward a name env g =
     (case cluster_call a name (en_submit_sm env) (gw_clusters g) of
        (NoSuchCluster, cs) \<Rightarrow> (Inl (None, ''cluster not found: '' @ name), g)
      | (MockCluster, cs) \<Rightarrow> (Inr (''MOCK-'' @ show_message_id (en_message_id env)), g)
      | (NoConn, cs) \<Rightarrow> (Inl (None, ''no healthy connection available''), g \<lparr> gw_clusters := cs \<rparr>)
      | (Replied r, cs) \<Rightarrow>
          ((case r of
              UpTimeout \<Rightarrow> Inl (Some 0x58, ''timeout waiting for response'')
            | UpIoError e \<Rightarrow> Inl (None, ''I/O error: '' @ e)
            | UpResp st up \<Rightarrow>
                if st = 0 then Inr up else Inl (Some st, ''SMSC error: status='' @ show_nat (unat st))
            | UpUnexpected s \<Rightarrow> Inl (None, ''unexpected response: '' @ s)), g \<lparr> gw_clusters := cs \<rparr>))"

text \<open>The loop over the clusters, with the events published on the way.\<close>

fun pipe_clusters ::
  "(nat \<Rightarrow> attempt) \<Rightarrow> nat \<Rightarrow> message_envelope \<Rightarrow> string list \<Rightarrow> u32 option \<times> string option \<Rightarrow> gateway \<Rightarrow>
   ((u32 option \<times> string option) + nat \<times> string \<times> string) \<times> flow_event list \<times> gateway" where
  "pipe_clusters ats i env [] last_err g = (Inl last_err, [], g)"
| "pipe_clusters ats i env (c # cs) last_err g =
     (let ev = MessageForwarding (en_message_id env) c ''pending'' (of_nat (i + 1)) in
      case pipe_try_forward (ats i) c env g of
        (Inr up, g1) \<Rightarrow> (Inr (i, c, up), [ev], g1)
      | (Inl (code, msg), g1) \<Rightarrow>
          (case pipe_clusters ats (Suc i) env cs (code, Some msg) g1 of
             (r, evs, g2) \<Rightarrow> (r, ev # evs, g2)))"

definition forward_message ::
  "clock \<Rightarrow> (nat \<Rightarrow> attempt) \<Rightarrow> clock \<Rightarrow> message_envelope \<Rightarrow> string \<Rightarrow> string list \<Rightarrow> gateway \<Rightarrow>
   flow_event list \<times> gateway" where
  "forward_message ck ats ck' env cluster fallbacks g =
     (let mid = en_message_id env; sid = en_session_id env; sn = en_sequence_number env in
      case pipe_clusters ats 0 env (cluster # fallbacks) (None, None) g of
        (Inr (i, c, up), evs, g1) \<Rightarrow>
          let now = at_clock (ats i)
          in (evs @ [MessageDelivered mid sid sn up (of_nat (as_micros (elapsed (ck_now now) (ck_now ck)))),
                     ResponseReady (response_success sid sn up)],
              gw_update mid (sent_upstream now c up) g1)
      | (Inl (code, err), evs, g1) \<Rightarrow>
          let msg = (case err of Some e \<Rightarrow> e | None \<Rightarrow> ''all clusters failed'');
              code = (case code of Some c \<Rightarrow> c | None \<Rightarrow> 0x58);
              can = (case get mid (gw_storage g1) of Some m \<Rightarrow> can_retry (ck_now ck') m | None \<Rightarrow> False)
          in if can then
               (evs @ [MessageRetryScheduled mid 1 (of_nat (as_millis (from_secs 1))) msg,
                       ResponseReady (response_success sid sn (show_message_id mid))],
                gw_update mid (mark_retry ck' (from_secs 1) (Some code) msg) g1)
             else
               (evs @ [MessageFailed mid sid sn (Some code) msg True,
                       ResponseReady (response_error sid sn (show_message_id mid) code)],
                gw_update mid (mark_failed ck' (Some code) msg) g1))"

section \<open>The whole pipeline\<close>

text \<open>One iteration of the receive loop of each processor on an event of the bus.\<close>

definition filter_run :: "flow_event \<Rightarrow> flow_event list" where
  "filter_run ev = (case ev of MessageSubmitRequest env \<Rightarrow> process_message env | _ \<Rightarrow> [])"

definition router_run ::
  "regex_engine \<Rightarrow> tz_database \<Rightarrow> clock \<Rightarrow> flow_event \<Rightarrow> gateway \<Rightarrow> flow_event list \<times> gateway" where
  "router_run R tz ck ev g = (case ev of MessageAccepted env \<Rightarrow> route_envelope R tz ck env g | _ \<Rightarrow> ([], g))"

text \<open>\<^verbatim>\<open>handle_retry\<close> only writes a log line.\<close>

definition forwarder_run ::
  "clock \<Rightarrow> (nat \<Rightarrow> attempt) \<Rightarrow> clock \<Rightarrow> flow_event \<Rightarrow> gateway \<Rightarrow> flow_event list \<times> gateway" where
  "forwarder_run ck ats ck' ev g =
     (case ev of
        MessageRouted env route cluster fallbacks \<Rightarrow> forward_message ck ats ck' env cluster fallbacks g
      | MessageRetryReady mid \<Rightarrow> ([], g)
      | _ \<Rightarrow> ([], g))"

definition response_run :: "flow_event \<Rightarrow> session_registry \<Rightarrow> session_registry" where
  "response_run ev reg = (case ev of ResponseReady r \<Rightarrow> snd (send_response r reg) | _ \<Rightarrow> reg)"

text \<open>What the four processors together do with one event: each event is of interest to one of them.\<close>

definition handle_event ::
  "regex_engine \<Rightarrow> tz_database \<Rightarrow> clock \<Rightarrow> (nat \<Rightarrow> attempt) \<Rightarrow> clock \<Rightarrow> flow_event \<Rightarrow> gateway \<Rightarrow> session_registry \<Rightarrow>
   flow_event list \<times> gateway \<times> session_registry" where
  "handle_event R tz ck ats ck' ev g reg =
     (let evs1 = filter_run ev;
          (evs2, g1) = router_run R tz ck ev g;
          (evs3, g2) = forwarder_run ck ats ck' ev g1
      in (evs1 @ evs2 @ evs3, g2, response_run ev reg))"

lemma handle_event_cases:
  "handle_event R tz ck ats ck' ev g reg =
     (case ev of
        MessageSubmitRequest env \<Rightarrow> (process_message env, g, reg)
      | MessageAccepted env \<Rightarrow> (case route_envelope R tz ck env g of (evs, g1) \<Rightarrow> (evs, g1, reg))
      | MessageRouted env route cluster fallbacks \<Rightarrow>
          (case forward_message ck ats ck' env cluster fallbacks g of (evs, g1) \<Rightarrow> (evs, g1, reg))
      | ResponseReady r \<Rightarrow> ([], g, snd (send_response r reg))
      | _ \<Rightarrow> ([], g, reg))"
  by (cases ev)
     (simp_all add: handle_event_def filter_run_def router_run_def forwarder_run_def response_run_def split: prod.splits)

text \<open>The state of the running pipeline, with the envelopes submitted and the responses handed to the
  session registry so far.\<close>

record pipeline =
  pl_gateway :: gateway
  pl_registry :: session_registry
  pl_events :: "flow_event multiset"
  pl_submitted :: "message_envelope list"
  pl_answered :: "response_envelope list"

definition pipeline_new :: "gateway \<Rightarrow> session_registry \<Rightarrow> pipeline" where
  "pipeline_new g reg = \<lparr> pl_gateway = g, pl_registry = reg, pl_events = {#}, pl_submitted = [], pl_answered = [] \<rparr>"

definition answered_by :: "flow_event \<Rightarrow> response_envelope list" where
  "answered_by ev = (case ev of ResponseReady r \<Rightarrow> [r] | _ \<Rightarrow> [])"

definition handled :: "flow_event \<Rightarrow> flow_event list \<times> gateway \<times> session_registry \<Rightarrow> pipeline \<Rightarrow> pipeline" where
  "handled ev res p =
     p \<lparr> pl_gateway := fst (snd res), pl_registry := snd (snd res),
         pl_events := pl_events p - {#ev#} + mset (fst res), pl_answered := pl_answered p @ answered_by ev \<rparr>"

inductive handle_step :: "pipeline \<Rightarrow> pipeline \<Rightarrow> bool" where
  handle: "ev \<in># pl_events p \<Longrightarrow>
    handle_step p (handled ev (handle_event R tz ck ats ck' ev (pl_gateway p) (pl_registry p)) p)"

text \<open>A session publishes a new envelope (\<^verbatim>\<open>MessageEnvelope::new\<close> draws its id from the global
  counter), a session registers or unregisters, or a processor handles an event.  The rules describe
  executions before the 64-bit message counter wraps around.\<close>

inductive pipe_step :: "pipeline \<Rightarrow> pipeline \<Rightarrow> bool" where
  submit: "envelope_new now (gw_next_message (pl_gateway p)) sid sn sys sm = (env, counter) \<Longrightarrow>
    unat (gw_next_message (pl_gateway p)) < 2 ^ 64 - 1 \<Longrightarrow>
    pipe_step p (p \<lparr> pl_gateway := (pl_gateway p) \<lparr> gw_next_message := counter \<rparr>,
      pl_events := add_mset (MessageSubmitRequest env) (pl_events p), pl_submitted := pl_submitted p @ [env] \<rparr>)"
| sessions: "pipe_step p (p \<lparr> pl_registry := reg \<rparr>)"
| process: "handle_step p q \<Longrightarrow> unat (gw_next_message (pl_gateway p)) < 2 ^ 64 - 1 \<Longrightarrow> pipe_step p q"

inductive_cases handle_stepE: "handle_step p q"
inductive_cases pipe_stepE: "pipe_step p q"

section \<open>Every request gets exactly one response\<close>

definition env_key :: "message_envelope \<Rightarrow> session_id \<times> u32" where
  "env_key env = (en_session_id env, en_sequence_number env)"

definition resp_key :: "response_envelope \<Rightarrow> session_id \<times> u32" where
  "resp_key r = (re_session_id r, re_sequence_number r)"

text \<open>The response an event still owes.\<close>

fun credit :: "flow_event \<Rightarrow> (session_id \<times> u32) multiset" where
  "credit (MessageSubmitRequest env) = {#env_key env#}"
| "credit (MessageAccepted env) = {#env_key env#}"
| "credit (MessageRouted env _ _ _) = {#env_key env#}"
| "credit (ResponseReady r) = {#resp_key r#}"
| "credit _ = {#}"

definition credits :: "flow_event multiset \<Rightarrow> (session_id \<times> u32) multiset" where
  "credits evs = sum_mset (image_mset credit evs)"

lemma credits_simps [simp]:
  "credits {#} = {#}" "credits (add_mset e es) = credit e + credits es" "credits (A + B) = credits A + credits B"
  by (simp_all add: credits_def)

lemma credits_remove: "e \<in># A \<Longrightarrow> credits A = credit e + credits (A - {#e#})"
  by (metis credits_simps(2) insert_DiffM)

lemma resp_key_simps [simp]:
  "resp_key (response_error sid sn mid st) = (sid, sn)" "resp_key (response_success sid sn mid) = (sid, sn)"
  by (simp_all add: resp_key_def response_error_def response_success_def)

lemma pipe_clusters_quiet:
  "pipe_clusters ats i env cs le g = (r, evs, g') \<Longrightarrow> credits (mset evs) = {#} \<and> gw_storage g' = gw_storage g \<and>
     gw_next_message g' = gw_next_message g \<and> (\<forall>e \<in> set evs. \<exists>m c n x. e = MessageForwarding m c n x)"
proof (induction cs arbitrary: i le g r evs)
  case (Cons c cs)
  obtain r1 g1 where t: "pipe_try_forward (ats i) c env g = (r1, g1)" by fastforce
  have g1: "gw_storage g1 = gw_storage g \<and> gw_next_message g1 = gw_next_message g"
    using t by (auto simp: pipe_try_forward_def split: prod.splits call_result.splits)
  show ?case
  proof (cases r1)
    case (Inl x)
    obtain code msg where "x = (code, msg)" by (cases x)
    then show ?thesis
      using Cons t Inl g1
      by (cases "pipe_clusters ats (Suc i) env cs (code, Some msg) g1") (auto simp: Let_def)
  next
    case (Inr up)
    then show ?thesis using Cons.prems t g1 by (auto simp: Let_def)
  qed
qed simp

lemma forward_message_credit:
  "credits (mset (fst (forward_message ck ats ck' env c fs g))) = {#env_key env#}"
proof -
  obtain r evs g1 where pc: "pipe_clusters ats 0 env (c # fs) (None, None) g = (r, evs, g1)"
    using prod_cases3 by blast
  note q = pipe_clusters_quiet [OF pc]
  show ?thesis
    using pc q
    by (cases r) (auto simp: forward_message_def Let_def env_key_def simp del: pipe_clusters.simps)
qed

lemma route_envelope_credit: "credits (mset (fst (route_envelope R tz ck env g))) = {#env_key env#}"
  by (auto simp: route_envelope_def Let_def env_key_def case_prod_unfold split: option.splits)

lemma process_message_credit: "credits (mset (process_message env)) = {#env_key env#}"
  by (simp add: process_message_def reject_message_def env_key_def)

lemma handle_event_credit:
  "credits (mset (fst (handle_event R tz ck ats ck' ev g reg))) + mset (map resp_key (answered_by ev)) = credit ev"
  using forward_message_credit route_envelope_credit process_message_credit
  by (cases ev) (simp_all add: handle_event_cases answered_by_def case_prod_unfold)

definition owed_ok :: "pipeline \<Rightarrow> bool" where
  "owed_ok p = (image_mset env_key (mset (pl_submitted p)) = mset (map resp_key (pl_answered p)) + credits (pl_events p))"

lemma owed_handle:
  assumes "handle_step p q" "owed_ok p"
  shows "owed_ok q"
  using assms
proof (cases rule: handle_step.cases)
  case (handle ev R tz ck ats ck')
  let ?evs = "fst (handle_event R tz ck ats ck' ev (pl_gateway p) (pl_registry p))"
  have "credits (pl_events p) =
      credits (mset ?evs) + mset (map resp_key (answered_by ev)) + credits (pl_events p - {#ev#})"
    using credits_remove [OF handle(2)] handle_event_credit by metis
  then show ?thesis
    using assms(2) handle(1) by (simp add: owed_ok_def handled_def)
qed

lemma owed_step: "pipe_step p q \<Longrightarrow> owed_ok p \<Longrightarrow> owed_ok q"
  by (erule pipe_stepE) (auto simp: owed_ok_def envelope_new_def Let_def case_prod_unfold dest: owed_handle)


section \<open>The pipeline comes to rest\<close>

fun stage :: "flow_event \<Rightarrow> nat" where
  "stage (MessageSubmitRequest _) = 3"
| "stage (MessageAccepted _) = 2"
| "stage (MessageRouted _ _ _ _) = 1"
| "stage _ = 0"

lemma handle_event_stage:
  assumes "e \<in> set (fst (handle_event R tz ck ats ck' ev g reg))"
  shows "stage e < stage ev"
proof (cases ev)
  case (MessageRouted env rn c fs)
  obtain r evs g1 where pc: "pipe_clusters ats 0 env (c # fs) (None, None) g = (r, evs, g1)"
    using prod_cases3 by blast
  have "stage x = 0" if "x \<in> set evs" for x using pipe_clusters_quiet [OF pc] that by fastforce
  then show ?thesis
    using assms MessageRouted pc
    by (cases r) (auto simp: handle_event_cases forward_message_def Let_def simp del: pipe_clusters.simps split: if_splits)
qed (use assms in \<open>auto simp: handle_event_cases process_message_def reject_message_def route_envelope_def Let_def
      case_prod_unfold split: if_splits option.splits\<close>)

text \<open>C15: Handling events terminates.  However the events are chosen and whatever the upstream SMSCs do, only
  finitely many handling steps follow each other without a new submission, and as long as an event is
  pending a further step is possible; so the pipeline always drains.\<close>

theorem pipeline_terminates:
  "wfP (\<lambda>q p. handle_step p q) \<and> (pl_events p \<noteq> {#} \<longleftrightarrow> (\<exists>q. handle_step p q))"
proof -
  have "(image_mset stage (pl_events q), image_mset stage (pl_events p)) \<in> mult less_than" if "handle_step p q" for p q
    using that
  proof (cases rule: handle_step.cases)
    case (handle ev R tz ck ats ck')
    let ?evs = "fst (handle_event R tz ck ats ck' ev (pl_gateway p) (pl_registry p))"
    have "(image_mset stage (pl_events p - {#ev#}) + image_mset stage (mset ?evs),
           image_mset stage (pl_events p - {#ev#}) + {#stage ev#}) \<in> mult less_than"
      using handle_event_stage by (intro one_step_implies_mult) auto
    moreover have "image_mset stage (pl_events p - {#ev#}) + {#stage ev#} = image_mset stage (pl_events p)"
      using handle(2) by (metis image_mset_add_mset insert_DiffM union_mset_add_mset_right add.right_neutral)
    ultimately show ?thesis using handle(1) by (simp add: handled_def)
  qed
  then have "{(q, p). handle_step p q} \<subseteq> inv_image (mult less_than) (\<lambda>p. image_mset stage (pl_events p))"
    by auto
  then have "wf {(q, p). handle_step p q}"
    by (rule wf_subset [rotated]) (simp add: wf_mult)
  moreover have "\<exists>q. handle_step p q" if "pl_events p \<noteq> {#}" for p
    using that by (meson handle multiset_nonemptyE)
  ultimately show ?thesis by (auto simp: wfp_def elim: handle_stepE)
qed

section \<open>The stored message is never updated\<close>

text \<open>The router processor stores the message under a fresh id instead of the id of the envelope, while
  router and forwarder processor update the store by the id of the envelope.\<close>

fun carried :: "flow_event \<Rightarrow> message_envelope list" where
  "carried (MessageSubmitRequest env) = [env]"
| "carried (MessageAccepted env) = [env]"
| "carried (MessageRouted env _ _ _) = [env]"
| "carried _ = []"

definition below :: "message_id \<Rightarrow> gateway \<Rightarrow> bool" where
  "below i g = (unat (as_u64 i) < unat (gw_next_message g))"

definition detached :: "gateway \<Rightarrow> message_envelope \<Rightarrow> bool" where
  "detached g env = (below (en_message_id env) g \<and> get (en_message_id env) (gw_storage g) = None)"

definition all_pending :: "gateway \<Rightarrow> bool" where
  "all_pending g =
     (store_inv (gw_storage g) \<and>
      (\<forall>i m. get i (gw_storage g) = Some m \<longrightarrow> m_state m = Pending \<and> below i g))"

lemma next_message_Suc:
  "unat (gw_next_message g) < 2 ^ 64 - 1 \<Longrightarrow> unat (gw_next_message g + 1) = Suc (unat (gw_next_message g))"
  using unat_add_lem [of "gw_next_message g" 1] by simp

lemma gw_update_absent: "get i (gw_storage g) = None \<Longrightarrow> gw_update i f g = g"
  by (simp add: gw_update_def update_def get_def)

lemma forward_detached:
  assumes "detached g env"
  shows "gw_storage (snd (forward_message ck ats ck' env c fs g)) = gw_storage g \<and>
    gw_next_message (snd (forward_message ck ats ck' env c fs g)) = gw_next_message g \<and>
    (\<forall>mid a d r. MessageRetryScheduled mid a d r \<notin> set (fst (forward_message ck ats ck' env c fs g)))"
proof -
  obtain r evs g1 where pc: "pipe_clusters ats 0 env (c # fs) (None, None) g = (r, evs, g1)"
    using prod_cases3 by blast
  note q = pipe_clusters_quiet [OF pc]
  have none: "get (en_message_id env) (gw_storage g1) = None" using assms q by (simp add: detached_def)
  have upd: "gw_update (en_message_id env) f g1 = g1" for f using none by (rule gw_update_absent)
  have no: "MessageRetryScheduled mid a d x \<notin> set evs" for mid a d x using q by fastforce
  show ?thesis
    using pc q none upd no
    by (cases r) (auto simp: forward_message_def Let_def simp del: pipe_clusters.simps)
qed

lemma route_detached:
  assumes "all_pending g" "detached g env" "unat (gw_next_message g) < 2 ^ 64 - 1"
    "g' = snd (route_envelope R tz ck env g)"
  shows "all_pending g' \<and> (\<forall>x. detached g x \<longrightarrow> detached g' x)"
proof -
  define m where "m = new_message ck (MessageId (gw_next_message g)) (en_submit_sm env) (en_system_id env) (en_sequence_number env)"
  define s1 where "s1 = snd (store m (gw_storage g))"
  have inv: "store_inv (gw_storage g)" using assms(1) by (simp add: all_pending_def)
  have mid: "m_id m = MessageId (gw_next_message g)" "m_state m = Pending" by (simp_all add: m_def)
  have old: "k = m_id m \<and> x = m \<or> k \<noteq> m_id m \<and> get k (gw_storage g) = Some x" if "get k s1 = Some x" for k x
    using that get_store [OF inv, of k m] prune_no_new by (auto simp: s1_def split: if_splits)
  have fresh: "get k s1 = None" if "get k (gw_storage g) = None" "k \<noteq> m_id m" for k
  proof (cases "get k s1")
    case (Some x)
    from old [OF Some] that show ?thesis by simp
  qed
  have env: "get (en_message_id env) s1 = None"
    using assms(2) mid by (intro fresh) (auto simp: detached_def below_def)
  obtain rt routes where r: "route_message R tz (sm_dest_addr (en_submit_sm env)) (Some (sm_source_addr (en_submit_sm env)))
      None (gw_routes g) = (rt, routes)" by fastforce
  have g': "gw_storage g' = s1 \<and> gw_next_message g' = gw_next_message g + 1"
  proof (cases rt)
    case None
    then show ?thesis
      using r env gw_update_absent [of "en_message_id env" "g \<lparr> gw_next_message := gw_next_message g + 1, gw_storage := s1, gw_routes := routes \<rparr>"]
      by (simp add: assms(4) route_envelope_def Let_def message_id_new_def m_def [symmetric] s1_def [symmetric])
  next
    case (Some res)
    then show ?thesis
      using r by (simp add: assms(4) route_envelope_def Let_def message_id_new_def m_def [symmetric] s1_def [symmetric])
  qed
  have "all_pending g'"
    using g' old mid assms(1) inv_store [OF inv, of m] next_message_Suc [OF assms(3)]
    by (fastforce simp: all_pending_def below_def s1_def [symmetric])
  moreover have "detached g' x" if "detached g x" for x
  proof -
    have "en_message_id x \<noteq> m_id m" using that mid by (auto simp: detached_def below_def)
    then show ?thesis
      using that g' fresh [of "en_message_id x"] next_message_Suc [OF assms(3)] by (simp add: detached_def below_def)
  qed
  ultimately show ?thesis by blast
qed

definition track_inv :: "pipeline \<Rightarrow> bool" where
  "track_inv p = (all_pending (pl_gateway p) \<and>
     (\<forall>ev \<in># pl_events p. \<forall>env \<in> set (carried ev). detached (pl_gateway p) env))"

lemma handle_event_carried:
  "e \<in> set (fst (handle_event R tz ck ats ck' ev g reg)) \<Longrightarrow> set (carried e) \<subseteq> set (carried ev)"
proof (cases ev)
  case (MessageRouted env rn c fs)
  assume e: "e \<in> set (fst (handle_event R tz ck ats ck' ev g reg))"
  obtain r evs g1 where pc: "pipe_clusters ats 0 env (c # fs) (None, None) g = (r, evs, g1)"
    using prod_cases3 by blast
  have "carried x = []" if "x \<in> set evs" for x using pipe_clusters_quiet [OF pc] that by fastforce
  then show ?thesis
    using e MessageRouted pc
    by (cases r) (auto simp: handle_event_cases forward_message_def Let_def simp del: pipe_clusters.simps split: if_splits)
qed (auto simp: handle_event_cases process_message_def reject_message_def route_envelope_def Let_def
      case_prod_unfold split: if_splits option.splits)

lemma handle_event_gateway:
  assumes "all_pending g" "\<forall>env \<in> set (carried ev). detached g env" "unat (gw_next_message g) < 2 ^ 64 - 1"
    "g' = fst (snd (handle_event R tz ck ats ck' ev g reg))"
  shows "all_pending g' \<and> (\<forall>x. detached g x \<longrightarrow> detached g' x)"
proof (cases ev)
  case (MessageAccepted env)
  then show ?thesis
    using route_detached [OF assms(1) _ assms(3) refl, of env R tz ck] assms(2)
    by (simp add: assms(4) handle_event_cases case_prod_unfold)
next
  case (MessageRouted env rn c fs)
  then show ?thesis
    using forward_detached [of g env ck ats ck' c fs] assms(1,2)
    by (simp add: assms(4) handle_event_cases case_prod_unfold all_pending_def detached_def below_def)
qed (use assms(1) in \<open>simp_all add: assms(4) handle_event_cases\<close>)

lemma track_step:
  assumes "pipe_step p q" "track_inv p"
  shows "track_inv q"
  using assms(1)
proof (cases rule: pipe_step.cases)
  case (submit now sid sn sys sm env counter)
  then have env: "en_message_id env = MessageId (gw_next_message (pl_gateway p))"
    and c: "counter = gw_next_message (pl_gateway p) + 1"
    by (auto simp: envelope_new_def message_id_new_def)
  have "get (en_message_id env) (gw_storage (pl_gateway p)) = None"
  proof (cases "get (en_message_id env) (gw_storage (pl_gateway p))")
    case (Some x)
    then have "below (en_message_id env) (pl_gateway p)"
      using assms(2) unfolding track_inv_def all_pending_def by blast
    then show ?thesis by (simp add: env below_def)
  qed
  then show ?thesis
    using assms(2) submit(1) env c next_message_Suc [OF submit(3)]
    by (auto simp: track_inv_def all_pending_def below_def detached_def less_Suc_eq)
next
  case (process)
  then obtain ev R tz ck ats ck' where ev: "ev \<in># pl_events p"
    and q: "q = handled ev (handle_event R tz ck ats ck' ev (pl_gateway p) (pl_registry p)) p"
    by (auto elim: handle_stepE)
  have g: "all_pending (pl_gateway p)" "\<forall>env \<in> set (carried ev). detached (pl_gateway p) env"
    using assms(2) ev by (auto simp: track_inv_def)
  note eff = handle_event_gateway [OF g process(2) refl, of R tz ck ats ck' "pl_registry p"]
  have "detached (pl_gateway q) env" if "x \<in># pl_events q" "env \<in> set (carried x)" for x env
  proof -
    from that(1) consider "x \<in># pl_events p" | "x \<in> set (fst (handle_event R tz ck ats ck' ev (pl_gateway p) (pl_registry p)))"
      by (auto simp: q handled_def dest: in_diffD)
    then have "detached (pl_gateway p) env"
      using that(2) assms(2) g(2) handle_event_carried by cases (fastforce simp: track_inv_def)+
    then show ?thesis using eff by (simp add: q handled_def)
  qed
  then show ?thesis using eff by (simp add: track_inv_def q handled_def)
qed (use assms(2) in \<open>simp add: track_inv_def\<close>)

text \<open>The storage never learns what became of a message.  Starting from an empty storage, every stored
  message is still pending in every reachable state, whatever was delivered, rejected or failed
  upstream, and no retry is ever scheduled: when all clusters fail the message is reported as
  permanently failed although its attempts are not used up.\<close>

theorem pipeline_never_updates_storage:
  assumes "pipe_step\<^sup>*\<^sup>* (pipeline_new g reg) p" "messages (gw_storage g) = []" "retry_queue (gw_storage g) = []"
  shows "(\<forall>i m. get i (gw_storage (pl_gateway p)) = Some m \<longrightarrow> m_state m = Pending) \<and>
    (\<forall>env rn c fs ck ats ck'. MessageRouted env rn c fs \<in># pl_events p \<longrightarrow>
       (\<forall>mid a d r. MessageRetryScheduled mid a d r \<notin> set (fst (forward_message ck ats ck' env c fs (pl_gateway p)))))"
proof -
  have "track_inv p"
    using assms(1)
  proof (induction rule: rtranclp_induct)
    case base
    then show ?case
      using assms(2,3) by (simp add: track_inv_def all_pending_def pipeline_new_def store_inv_def get_def)
  next
    case (step y z)
    then show ?case by (blast intro: track_step)
  qed
  then show ?thesis
    using forward_detached by (fastforce simp: track_inv_def all_pending_def)
qed

section \<open>Witnesses\<close>

definition sample_env :: message_envelope where
  "sample_env = fst (envelope_new 0 0 (SessionId 1) 7 ''esme'' (fq_submit_sm sample_forward_request))"

definition submitted_pipeline :: pipeline where
  "submitted_pipeline = (pipeline_new sample_gateway [])
     \<lparr> pl_gateway := sample_gateway \<lparr> gw_next_message := 1 \<rparr>,
       pl_events := add_mset (MessageSubmitRequest sample_env) {#}, pl_submitted := [sample_env] \<rparr>"

lemma submitted_pipeline_reachable: "pipe_step\<^sup>*\<^sup>* (pipeline_new sample_gateway []) submitted_pipeline"
proof (rule r_into_rtranclp)
  have "envelope_new 0 (gw_next_message (pl_gateway (pipeline_new sample_gateway []))) (SessionId 1) 7 ''esme''
      (fq_submit_sm sample_forward_request) = (sample_env, 1)"
    by (simp add: sample_env_def envelope_new_def message_id_new_def pipeline_new_def sample_gateway_def)
  from submit [OF this]
  show "pipe_step (pipeline_new sample_gateway []) submitted_pipeline"
    by (simp add: submitted_pipeline_def pipeline_new_def sample_gateway_def)
qed


text \<open>The filter and the router stage handle the envelope; without routes the message fails.\<close>

definition run_sample :: "flow_event \<Rightarrow> pipeline \<Rightarrow> pipeline" where
  "run_sample ev p =
     handled ev (handle_event sample_regex sample_tz \<lparr> ck_now = 1, ck_wall = 1 \<rparr> sample_attempts \<lparr> ck_now = 2, ck_wall = 2 \<rparr> ev
       (pl_gateway p) (pl_registry p)) p"

definition failed_pipeline :: pipeline where
  "failed_pipeline = run_sample (MessageAccepted sample_env) (run_sample (MessageSubmitRequest sample_env) submitted_pipeline)"

lemma run_sample_step:
  "ev \<in># pl_events p \<Longrightarrow> unat (gw_next_message (pl_gateway p)) < 2 ^ 64 - 1 \<Longrightarrow> pipe_step p (run_sample ev p)"
  unfolding run_sample_def by (intro process handle)

lemma sample_accepted:
  "pl_events (run_sample (MessageSubmitRequest sample_env) submitted_pipeline) = {#MessageAccepted sample_env#}"
  "pl_gateway (run_sample (MessageSubmitRequest sample_env) submitted_pipeline) = sample_gateway \<lparr> gw_next_message := 1 \<rparr>"
  by (simp_all add: run_sample_def handled_def handle_event_cases submitted_pipeline_def process_message_def sample_env_def
      envelope_new_def message_id_new_def sample_forward_request_def)

lemma failed_pipeline_reachable: "pipe_step\<^sup>*\<^sup>* (pipeline_new sample_gateway []) failed_pipeline"
proof -
  have "pipe_step submitted_pipeline (run_sample (MessageSubmitRequest sample_env) submitted_pipeline)"
    by (rule run_sample_step) (simp_all add: submitted_pipeline_def)
  moreover have "pipe_step (run_sample (MessageSubmitRequest sample_env) submitted_pipeline) failed_pipeline"
    unfolding failed_pipeline_def by (rule run_sample_step) (simp_all add: sample_accepted)
  ultimately show ?thesis
    using submitted_pipeline_reachable by (meson rtranclp.rtrancl_into_rtrancl)
qed

lemma failed_pipeline_stored: "get (MessageId 1) (gw_storage (pl_gateway failed_pipeline)) \<noteq> None"
  by (simp add: failed_pipeline_def run_sample_def [of "MessageAccepted sample_env"] handled_def handle_event_cases sample_accepted route_envelope_def Let_def
      message_id_new_def route_message_def sample_gateway_def get_gw_update get_store store_inv_def
      new_message_fields case_prod_unfold split: option.splits)

theorem pipeline_never_updates_storage_witness:
  "map_option m_state (get (MessageId 1) (gw_storage (pl_gateway failed_pipeline))) = Some Pending"
proof -
  obtain m where "get (MessageId 1) (gw_storage (pl_gateway failed_pipeline)) = Some m"
    using failed_pipeline_stored by blast
  then show ?thesis
    using pipeline_never_updates_storage [OF failed_pipeline_reachable] by (simp add: sample_gateway_def)
qed

end
