(* ===== verification/Acceptor.thy ===== *)
theory Acceptor
  imports Configuration Session
begin

text \<open>
  The listeners and their accept loops (\<^verbatim>\<open>src/src/listener/acceptor.rs\<close>).  A connection object holds a permit of
  its listener's semaphore and is referenced by its task, by the table of connections and by the channel through which
  every connection is offered to \<^verbatim>\<open>Listeners::accept\<close>; the permit is released when the last reference is gone.  The
  accept loop, the tasks and the receiver interleave as a step relation.  Sockets, TLS handshakes and the sessions
  themselves (theory \<open>Session\<close>) are outcomes.

  The number of concurrent connections respects the limit.  As \<^verbatim>\<open>Server::run\<close> never calls \<^verbatim>\<open>accept\<close>, the second
  theorem shows what follows: a listener starts at most as many sessions, over its whole life, as its limit.
\<close>

section \<open>State\<close>

datatype session_event = SessionRegistered session_id string ip | SessionUnregistered session_id

record listener =
  le_name :: string
  le_tls :: bool
  le_max_connections :: nat
  le_next_connection_id :: nat
  le_connections :: "(nat, connection) alist"
  le_active_connections :: nat
  le_idle_timeout :: duration
  le_request_timeout :: duration
  le_tasks :: "(nat \<times> session_id) list"
  le_sending :: "(nat \<times> ip) option"
  le_stopped :: bool

text \<open>\<open>load_tls\<close> is the outcome of reading the certificate and the key.  Connection numbers are naturals: \<open>2^64\<close> of them
  are never used up.\<close>

definition listener_new :: "(tls_config \<Rightarrow> bool) \<Rightarrow> listener_config \<Rightarrow> listener option" where
  "listener_new load_tls c =
     map_option
       (\<lambda>tls. \<lparr> le_name = ln_name c, le_tls = tls, le_max_connections = cn_max_connections (ln_limits c),
          le_next_connection_id = 1, le_connections = [], le_active_connections = 0,
          le_idle_timeout = connection_limits.cn_idle_timeout (ln_limits c),
          le_request_timeout = connection_limits.cn_request_timeout (ln_limits c),
          le_tasks = [], le_sending = None, le_stopped = False \<rparr>)
       (case ln_tls c of Some t \<Rightarrow> if load_tls t then Some True else None | None \<Rightarrow> Some False)"

text \<open>All listeners with the channel they share, the session registry and the published events.\<close>

record listeners =
  ls_listeners :: "listener list"
  ls_queue :: "(nat \<times> nat) list"
  ls_registry :: session_registry
  ls_session_counter :: u64
  ls_events :: "session_event list"

definition accept_capacity :: nat where
  "accept_capacity = 1024"

fun listeners_build :: "(tls_config \<Rightarrow> bool) \<Rightarrow> listener_config list \<Rightarrow> listener list option" where
  "listeners_build load_tls [] = Some []"
| "listeners_build load_tls (c # cs) =
     (case listener_new load_tls c of
        None \<Rightarrow> None
      | Some l \<Rightarrow> map_option (\<lambda>ls. l # ls) (listeners_build load_tls cs))"

definition listeners_new :: "(tls_config \<Rightarrow> bool) \<Rightarrow> listener_config list \<Rightarrow> u64 \<Rightarrow> listeners option" where
  "listeners_new load_tls cs counter =
     map_option (\<lambda>ls. \<lparr> ls_listeners = ls, ls_queue = [], ls_registry = [], ls_session_counter = counter, ls_events = [] \<rparr>)
       (listeners_build load_tls cs)"

section \<open>The accept loop\<close>

text \<open>The connection objects of a listener that are still referenced, each holding a permit.\<close>

definition held :: "listener \<Rightarrow> nat list" where
  "held l = map fst (le_tasks l) @ (case le_sending l of None \<Rightarrow> [] | Some (c, _) \<Rightarrow> [c])"

definition live_ids :: "nat \<Rightarrow> listeners \<Rightarrow> nat list" where
  "live_ids i s =
     remdups (held (ls_listeners s ! i) @ map snd (filter (\<lambda>e. fst e = i) (ls_queue s)))"

definition on_listener :: "nat \<Rightarrow> (listener \<Rightarrow> listener) \<Rightarrow> listeners \<Rightarrow> listeners" where
  "on_listener i f s = s \<lparr> ls_listeners := (ls_listeners s)[i := f (ls_listeners s ! i)] \<rparr>"

text \<open>The first part of the spawned task: a session id, its registration and the announcement.\<close>

definition spawn_task :: "nat \<Rightarrow> nat \<Rightarrow> ip \<Rightarrow> listeners \<Rightarrow> listeners" where
  "spawn_task i c peer s =
     (let (sid, counter) = session_id_new (ls_session_counter s); name = le_name (ls_listeners s ! i)
      in on_listener i (\<lambda>l. l \<lparr> le_tasks := le_tasks l @ [(c, sid)] \<rparr>)
           (s \<lparr> ls_session_counter := counter, ls_registry := register sid name (ls_registry s),
                ls_events := ls_events s @ [SessionRegistered sid name peer] \<rparr>))"

text \<open>Sending on the shared channel waits for room.\<close>

definition offer :: "nat \<Rightarrow> nat \<Rightarrow> ip \<Rightarrow> listeners \<Rightarrow> listeners" where
  "offer i c peer s =
     (if length (ls_queue s) < accept_capacity then
        spawn_task i c peer (on_listener i (\<lambda>l. l \<lparr> le_sending := None \<rparr>) (s \<lparr> ls_queue := ls_queue s @ [(i, c)] \<rparr>))
      else on_listener i (\<lambda>l. l \<lparr> le_sending := Some (c, peer) \<rparr>) s)"

definition handle_accept :: "bool \<Rightarrow> bool \<Rightarrow> instant \<Rightarrow> ip \<Rightarrow> nat \<Rightarrow> listeners \<Rightarrow> listeners" where
  "handle_accept socket_ok tls_ok now peer i s =
     (let l = ls_listeners s ! i in
      if le_max_connections l \<le> length (live_ids i s) then s
      else
        let c = le_next_connection_id l; s1 = on_listener i (\<lambda>l. l \<lparr> le_next_connection_id := c + 1 \<rparr>) s in
        if \<not> socket_ok then s1
        else if le_tls l \<and> \<not> tls_ok then s1
        else
          offer i c peer
            (on_listener i
               (\<lambda>l. l \<lparr> le_active_connections := le_active_connections l + 1,
                     le_connections := AList.update c
                       (connection_new now (of_nat c) (le_name l) peer (le_idle_timeout l) (le_request_timeout l))
                       (le_connections l) \<rparr>) s1))"

text \<open>The rest of the task, after its session has ended.\<close>

definition end_task :: "nat \<Rightarrow> nat \<times> session_id \<Rightarrow> listeners \<Rightarrow> listeners" where
  "end_task i t s =
     on_listener i
       (\<lambda>l. l \<lparr> le_tasks := remove1 t (le_tasks l), le_connections := AList.delete (fst t) (le_connections l),
             le_active_connections := le_active_connections l - 1 \<rparr>)
       (s \<lparr> ls_registry := unregister (snd t) (ls_registry s), ls_events := ls_events s @ [SessionUnregistered (snd t)] \<rparr>)"

definition drain_connections :: "listener \<Rightarrow> listener" where
  "drain_connections l = l \<lparr> le_connections := map (\<lambda>(c, conn). (c, initiate_close conn)) (le_connections l) \<rparr>"

definition stop_listener :: "nat \<Rightarrow> listeners \<Rightarrow> listeners" where
  "stop_listener i s = on_listener i (\<lambda>l. drain_connections (l \<lparr> le_stopped := True \<rparr>)) s"

text \<open>\<^verbatim>\<open>Listeners::accept\<close>; the caller drops the connection it receives.\<close>

definition accept_connection :: "listeners \<Rightarrow> (nat \<times> nat) option \<times> listeners" where
  "accept_connection s = (case ls_queue s of [] \<Rightarrow> (None, s) | e # q \<Rightarrow> (Some e, s \<lparr> ls_queue := q \<rparr>))"

text \<open>One step of any of the tasks.  The accept loop handles one connection at a time and does not continue while it
  waits for room in the channel; the flag says whether anyone receives from it.\<close>

inductive listeners_step :: "bool \<Rightarrow> listeners \<Rightarrow> listeners \<Rightarrow> bool" for received where
  accept: "i < length (ls_listeners s) \<Longrightarrow> \<not> le_stopped (ls_listeners s ! i) \<Longrightarrow> le_sending (ls_listeners s ! i) = None \<Longrightarrow>
    listeners_step received s (handle_accept socket_ok tls_ok now peer i s)"
| sent: "i < length (ls_listeners s) \<Longrightarrow> le_sending (ls_listeners s ! i) = Some (c, peer) \<Longrightarrow>
    length (ls_queue s) < accept_capacity \<Longrightarrow> listeners_step received s (offer i c peer s)"
| ended: "i < length (ls_listeners s) \<Longrightarrow> t \<in> set (le_tasks (ls_listeners s ! i)) \<Longrightarrow> listeners_step received s (end_task i t s)"
| stopped: "i < length (ls_listeners s) \<Longrightarrow> le_sending (ls_listeners s ! i) = None \<Longrightarrow>
    listeners_step received s (stop_listener i s)"
| taken: "received \<Longrightarrow> listeners_step received s (snd (accept_connection s))"

inductive listeners_reach :: "bool \<Rightarrow> listeners \<Rightarrow> listeners \<Rightarrow> bool" for received s0 where
  start: "listeners_reach received s0 s0"
| step: "listeners_reach received s0 s \<Longrightarrow> listeners_step received s s' \<Longrightarrow> listeners_reach received s0 s'"

section \<open>The connection limit\<close>

definition queued :: "nat \<Rightarrow> listeners \<Rightarrow> nat set" where
  "queued i s = {c. (i, c) \<in> set (ls_queue s)}"

lemma finite_queued [simp]: "finite (queued i s)"
proof -
  have "queued i s \<subseteq> snd ` set (ls_queue s)" by (force simp: queued_def)
  then show ?thesis by (rule finite_subset) simp
qed

lemma live_card: "length (live_ids i s) = card (set (held (ls_listeners s ! i)) \<union> queued i s)"
proof -
  have "set (live_ids i s) = set (held (ls_listeners s ! i)) \<union> queued i s" by (force simp: live_ids_def queued_def)
  then show ?thesis by (metis distinct_card distinct_remdups live_ids_def)
qed

text \<open>A listener and the set of its connections in the channel agree.\<close>

definition listener_ok :: "listener \<Rightarrow> nat set \<Rightarrow> bool" where
  "listener_ok l Q =
     (distinct (held l) \<and> le_active_connections l = length (held l) \<and> fst ` set (le_connections l) = set (held l) \<and>
      (\<forall>c \<in> set (held l) \<union> Q. c < le_next_connection_id l) \<and> card (set (held l) \<union> Q) \<le> le_max_connections l)"

definition listeners_ok :: "listeners \<Rightarrow> bool" where
  "listeners_ok s = (\<forall>i < length (ls_listeners s). listener_ok (ls_listeners s ! i) (queued i s))"

lemma on_listener_nth [simp]:
  "length (ls_listeners (on_listener i f s)) = length (ls_listeners s)"
  "i < length (ls_listeners s) \<Longrightarrow>
     ls_listeners (on_listener i f s) ! j = (if j = i then f (ls_listeners s ! i) else ls_listeners s ! j)"
  "ls_queue (on_listener i f s) = ls_queue s" "ls_events (on_listener i f s) = ls_events s"
  "queued j (on_listener i f s) = queued j s"
  by (simp_all add: on_listener_def queued_def)

lemma listeners_okI:
  assumes "listeners_ok s" "length (ls_listeners s') = length (ls_listeners s)"
    and "\<And>j. j < length (ls_listeners s) \<Longrightarrow> j \<noteq> i \<Longrightarrow> ls_listeners s' ! j = ls_listeners s ! j \<and> queued j s' = queued j s"
    and "i < length (ls_listeners s) \<Longrightarrow> listener_ok (ls_listeners s ! i) (queued i s) \<Longrightarrow> listener_ok (ls_listeners s' ! i) (queued i s')"
  shows "listeners_ok s'"
  using assms unfolding listeners_ok_def by metis

text \<open>The parts of the state after an offer.\<close>

lemma offer_room:
  assumes "i < length (ls_listeners s)" "length (ls_queue s) < accept_capacity"
  shows "ls_listeners (offer i c peer s) ! j =
      (if j = i then (ls_listeners s ! i) \<lparr> le_sending := None,
          le_tasks := le_tasks (ls_listeners s ! i) @ [(c, SessionId (ls_session_counter s))] \<rparr> else ls_listeners s ! j)"
    "length (ls_listeners (offer i c peer s)) = length (ls_listeners s)"
    "ls_queue (offer i c peer s) = ls_queue s @ [(i, c)]"
    "ls_events (offer i c peer s) = ls_events s @ [SessionRegistered (SessionId (ls_session_counter s)) (le_name (ls_listeners s ! i)) peer]"
  using assms by (simp_all add: offer_def spawn_task_def session_id_new_def on_listener_def Let_def)

lemma offer_full:
  assumes "i < length (ls_listeners s)" "accept_capacity \<le> length (ls_queue s)"
  shows "ls_listeners (offer i c peer s) ! j =
      (if j = i then (ls_listeners s ! i) \<lparr> le_sending := Some (c, peer) \<rparr> else ls_listeners s ! j)"
    "length (ls_listeners (offer i c peer s)) = length (ls_listeners s)"
    "ls_queue (offer i c peer s) = ls_queue s" "ls_events (offer i c peer s) = ls_events s"
  using assms by (simp_all add: offer_def on_listener_def)

lemma queued_append: "ls_queue s' = ls_queue s @ [(i, c)] \<Longrightarrow> queued j s' = (if j = i then insert c (queued i s) else queued j s)"
  by (auto simp: queued_def)

text \<open>Offering a connection that is held by nobody else yet, or by the sending accept loop.\<close>

lemma offer_ok:
  assumes "i < length (ls_listeners s)"
    and l: "listener_ok l (queued i s)" "le_sending l = None" "card (set (held l) \<union> queued i s) < le_max_connections l"
    and s: "ls_listeners s ! i = l \<lparr> le_next_connection_id := Suc (le_next_connection_id l),
        le_active_connections := Suc (le_active_connections l), le_connections := conns \<rparr>"
      "fst ` set conns = insert (le_next_connection_id l) (fst ` set (le_connections l))"
    and rest: "\<And>j. j < length (ls_listeners s) \<Longrightarrow> j \<noteq> i \<Longrightarrow> listener_ok (ls_listeners s ! j) (queued j s)"
  shows "listeners_ok (offer i (le_next_connection_id l) peer s)"
proof -
  let ?c = "le_next_connection_id l" and ?s' = "offer i (le_next_connection_id l) peer s"
  have new: "?c \<notin> set (held l) \<union> queued i s" using l(1) by (auto simp: listener_ok_def)
  have card: "card (insert ?c (set (held l) \<union> queued i s)) \<le> le_max_connections l" using l(3) new by simp
  have "listener_ok (ls_listeners ?s' ! j) (queued j ?s')" if "j < length (ls_listeners s)" for j
  proof (cases "length (ls_queue s) < accept_capacity")
    case True
    note o = offer_room [OF assms(1) True, of ?c peer]
    show ?thesis
    proof (cases "j = i")
      case True
      then show ?thesis using l(1,2) s new card unfolding o(1) queued_append [OF o(3)]
        by (auto simp: listener_ok_def held_def insert_commute less_Suc_eq)
    qed (use rest that in \<open>simp add: o(1) queued_append [OF o(3)]\<close>)
  next
    case False
    then have full: "accept_capacity \<le> length (ls_queue s)" by simp
    note o = offer_full [OF assms(1) full, of ?c peer]
    have q: "queued j ?s' = queued j s" by (simp add: queued_def o(3))
    show ?thesis
    proof (cases "j = i")
      case True
      then show ?thesis using l(1,2) s new card unfolding o(1) q
        by (auto simp: listener_ok_def held_def less_Suc_eq)
    qed (use rest that q in \<open>simp add: o(1)\<close>)
  qed
  moreover have "length (ls_listeners ?s') = length (ls_listeners s)"
    using offer_room(2) [OF assms(1)] offer_full(2) [OF assms(1)] by (metis linorder_not_le)
  ultimately show ?thesis by (simp add: listeners_ok_def)
qed

lemma accept_ok:
  assumes "listeners_ok s" "i < length (ls_listeners s)" "le_sending (ls_listeners s ! i) = None"
  shows "listeners_ok (handle_accept socket_ok tls_ok now peer i s)"
proof -
  let ?l = "ls_listeners s ! i" and ?skip = "on_listener i (\<lambda>l. l \<lparr> le_next_connection_id := le_next_connection_id (ls_listeners s ! i) + 1 \<rparr>) s"
  have l: "listener_ok ?l (queued i s)" using assms by (simp add: listeners_ok_def)
  have skip: "listeners_ok ?skip"
    by (rule listeners_okI [OF assms(1), where i = i]) (use assms(2) in \<open>auto simp: listener_ok_def held_def less_Suc_eq\<close>)
  show ?thesis
  proof (cases "le_max_connections ?l \<le> length (live_ids i s)")
    case True
    then show ?thesis using assms(1) by (simp add: handle_accept_def Let_def)
  next
    case False
    then have card: "card (set (held ?l) \<union> queued i s) < le_max_connections ?l" by (simp add: live_card)
    show ?thesis
    proof (cases "socket_ok \<and> (le_tls ?l \<longrightarrow> tls_ok)")
      case ok: True
      let ?conns = "AList.update (le_next_connection_id ?l)
          (connection_new now (of_nat (le_next_connection_id ?l)) (le_name ?l) peer (le_idle_timeout ?l) (le_request_timeout ?l))
          (le_connections ?l)"
      let ?s1 = "on_listener i (\<lambda>l. l \<lparr> le_active_connections := le_active_connections l + 1, le_connections :=
          AList.update (le_next_connection_id ?l)
            (connection_new now (of_nat (le_next_connection_id ?l)) (le_name l) peer (le_idle_timeout l) (le_request_timeout l))
            (le_connections l) \<rparr>) ?skip"
      have "handle_accept socket_ok tls_ok now peer i s = offer i (le_next_connection_id ?l) peer ?s1"
        using False ok by (cases "le_tls ?l") (simp_all add: handle_accept_def Let_def)
      also have "listeners_ok \<dots>"
      proof (rule offer_ok [where conns = ?conns])
        show "listener_ok ?l (queued i ?s1)" using l by simp
        show "card (set (held ?l) \<union> queued i ?s1) < le_max_connections ?l" using card by simp
        show "fst ` set ?conns = insert (le_next_connection_id ?l) (fst ` set (le_connections ?l))"
          by (simp add: dom_update)
        show "listener_ok (ls_listeners ?s1 ! j) (queued j ?s1)" if "j < length (ls_listeners ?s1)" "j \<noteq> i" for j
          using that assms(1,2) by (simp add: listeners_ok_def)
      qed (use assms(2,3) in simp_all)
      finally show ?thesis .
    next
      case bad: False
      then show ?thesis using False skip by (auto simp: handle_accept_def Let_def)
    qed
  qed
qed

lemma sent_ok:
  assumes "listeners_ok s" "i < length (ls_listeners s)" "le_sending (ls_listeners s ! i) = Some (c, peer)"
    "length (ls_queue s) < accept_capacity"
  shows "listeners_ok (offer i c peer s)"
proof -
  note o = offer_room [OF assms(2,4), of c peer]
  show ?thesis
  proof (rule listeners_okI [OF assms(1), where i = i])
    assume "listener_ok (ls_listeners s ! i) (queued i s)"
    then show "listener_ok (ls_listeners (offer i c peer s) ! i) (queued i (offer i c peer s))"
      using assms(3) unfolding o(1) queued_append [OF o(3)] by (auto simp: listener_ok_def held_def insert_absorb)
  qed (use o(1,2) queued_append [OF o(3)] in simp_all)
qed

lemma remove1_task:
  assumes "distinct (map fst ts)" "(c, x) \<in> set ts"
  shows "set (map fst (remove1 (c, x) ts)) = set (map fst ts) - {c}" "distinct (map fst (remove1 (c, x) ts))"
    "length (remove1 (c, x) ts) = length ts - 1"
proof -
  have d: "distinct ts" using assms(1) by (rule distinct_map [THEN iffD1, THEN conjunct1])
  have "inj_on fst (set ts)" using assms(1) by (simp add: distinct_map)
  from inj_on_image_set_diff [OF this, of "set ts" "{(c, x)}"]
  show "set (map fst (remove1 (c, x) ts)) = set (map fst ts) - {c}" using d assms(2) by (simp add: set_remove1_eq)
  show "distinct (map fst (remove1 (c, x) ts))" using assms(1) d by (simp add: distinct_map inj_on_def set_remove1_eq)
  show "length (remove1 (c, x) ts) = length ts - 1" using assms(2) by (simp add: length_remove1)
qed

lemma ended_ok:
  assumes "listeners_ok s" "i < length (ls_listeners s)" "t \<in> set (le_tasks (ls_listeners s ! i))"
  shows "listeners_ok (end_task i t s)"
proof (rule listeners_okI [OF assms(1), where i = i])
  let ?l = "ls_listeners s ! i"
  assume ok: "listener_ok ?l (queued i s)"
  obtain c x where t: "t = (c, x)" by (cases t)
  have d: "distinct (map fst (le_tasks ?l))" using ok by (simp add: listener_ok_def held_def)
  note r = remove1_task [OF d assms(3) [unfolded t]]
  let ?l' = "ls_listeners (end_task i t s) ! i"
  have l': "?l' = ?l \<lparr> le_tasks := remove1 t (le_tasks ?l), le_connections := AList.delete c (le_connections ?l),
      le_active_connections := le_active_connections ?l - 1 \<rparr>" "queued i (end_task i t s) = queued i s"
    using assms(2) t by (simp_all add: end_task_def on_listener_def queued_def)
  have h: "set (held ?l') = set (held ?l) - {c}" "distinct (held ?l')" "length (held ?l') = length (held ?l) - 1"
    using ok r assms(3) t length_pos_if_in_set [OF assms(3)] unfolding l'(1)
    by (auto simp: held_def listener_ok_def split: option.splits)
  have "card (set (held ?l') \<union> queued i s) \<le> card (set (held ?l) \<union> queued i s)" unfolding h(1) by (intro card_mono) auto
  then show "listener_ok ?l' (queued i (end_task i t s))"
    using ok h unfolding l'(2) listener_ok_def by (auto simp: l'(1) delete_keys set_map [symmetric] simp del: set_map)
qed (use assms(2) in \<open>simp_all add: end_task_def on_listener_def queued_def\<close>)

lemma stopped_ok:
  assumes "listeners_ok s" "i < length (ls_listeners s)"
  shows "listeners_ok (stop_listener i s)"
  by (rule listeners_okI [OF assms(1), where i = i])
     (use assms(2) in \<open>auto simp: stop_listener_def listener_ok_def drain_connections_def held_def image_image case_prod_unfold\<close>)

lemma taken_ok:
  assumes "listeners_ok s"
  shows "listeners_ok (snd (accept_connection s))"
proof -
  have q: "queued i (snd (accept_connection s)) \<subseteq> queued i s" for i
    by (auto simp: accept_connection_def queued_def split: list.splits)
  have l: "ls_listeners (snd (accept_connection s)) = ls_listeners s" by (simp add: accept_connection_def split: list.splits)
  have "card (set (held l) \<union> queued i (snd (accept_connection s))) \<le> card (set (held l) \<union> queued i s)" for i l
    using q by (intro card_mono) auto
  then have "listener_ok l (queued i s) \<Longrightarrow> listener_ok l (queued i (snd (accept_connection s)))" for i l
    using q [of i] unfolding listener_ok_def by (meson Un_iff order.trans subsetD)
  then show ?thesis using assms unfolding listeners_ok_def l by simp
qed

lemmas step_ok = accept_ok sent_ok ended_ok stopped_ok taken_ok

lemma listeners_step_ok: "listeners_step received s s' \<Longrightarrow> listeners_ok s \<Longrightarrow> listeners_ok s'"
  by (induction rule: listeners_step.induct) (simp_all add: step_ok)

lemma listeners_build_nth:
  "listeners_build load_tls cs = Some ls \<Longrightarrow>
     length ls = length cs \<and> (\<forall>i < length cs. listener_new load_tls (cs ! i) = Some (ls ! i))"
  by (induction cs arbitrary: ls) (auto simp: nth_Cons' split: option.splits)

lemma listener_new_ok: "listener_new load_tls c = Some l \<Longrightarrow> listener_ok l {}"
  by (auto simp: listener_new_def listener_ok_def held_def)

lemma listeners_new_ok:
  assumes "listeners_new load_tls cs k = Some s"
  shows "listeners_ok s"
proof -
  obtain ls where ls: "listeners_build load_tls cs = Some ls" "ls_listeners s = ls" "ls_queue s = []"
    using assms by (auto simp: listeners_new_def)
  from listeners_build_nth [OF ls(1)] show ?thesis
    by (auto simp: listeners_ok_def ls(2) queued_def ls(3) intro: listener_new_ok)
qed

lemma reach_ok: "listeners_reach received s0 s \<Longrightarrow> listeners_ok s0 \<Longrightarrow> listeners_ok s"
  by (induction rule: listeners_reach.induct) (auto intro: listeners_step_ok)

lemma offer_frame:
  assumes "i < length (ls_listeners s)"
  shows "length (ls_listeners (offer i c peer s)) = length (ls_listeners s)"
    "le_max_connections (ls_listeners (offer i c peer s) ! j) = le_max_connections (ls_listeners s ! j)"
  using assms by (cases "j = i"; simp add: offer_def spawn_task_def session_id_new_def on_listener_def Let_def)+

lemma step_frame:
  assumes "listeners_step received s s'"
  shows "length (ls_listeners s') = length (ls_listeners s) \<and>
    le_max_connections (ls_listeners s' ! j) = le_max_connections (ls_listeners s ! j)"
  using assms
proof cases
  case accept
  then show ?thesis by (auto simp: handle_accept_def Let_def offer_frame)
next
  case sent
  then show ?thesis by (simp add: offer_frame)
next
  case (ended i t)
  then show ?thesis by (cases "j = i") (simp_all add: end_task_def on_listener_def)
next
  case (stopped i)
  then show ?thesis by (simp add: stop_listener_def drain_connections_def)
next
  case taken
  then show ?thesis by (simp add: accept_connection_def split: list.splits)
qed

lemma reach_frame:
  "listeners_reach received s0 s \<Longrightarrow> length (ls_listeners s) = length (ls_listeners s0) \<and>
     le_max_connections (ls_listeners s ! j) = le_max_connections (ls_listeners s0 ! j)"
  by (induction rule: listeners_reach.induct) (auto simp: step_frame)

lemma listener_new_max: "listener_new load_tls c = Some l \<Longrightarrow> le_max_connections l = cn_max_connections (ln_limits c)"
  by (auto simp: listener_new_def)

lemma listeners_new_limits:
  assumes "listeners_new load_tls cs k = Some s" "i < length cs"
  shows "length (ls_listeners s) = length cs" "le_max_connections (ls_listeners s ! i) = cn_max_connections (ln_limits (cs ! i))"
proof -
  obtain ls where ls: "listeners_build load_tls cs = Some ls" "ls_listeners s = ls" using assms by (auto simp: listeners_new_def)
  note n = listeners_build_nth [OF ls(1)]
  then show "length (ls_listeners s) = length cs" using ls(2) by simp
  show "le_max_connections (ls_listeners s ! i) = cn_max_connections (ln_limits (cs ! i))"
    using n assms(2) unfolding ls(2) by (auto intro: listener_new_max)
qed

text \<open>C13: the limit on connections holds.  However accepting, ending sessions, stopping and receiving interleave, a listener
  never has more open connections than the configured maximum, its counter is the number of its entries in the table,
  and no two open connections share a number.\<close>

theorem connections_within_limit:
  assumes "listeners_new load_tls cs k = Some s0" "listeners_reach received s0 s" "i < length cs"
  shows "le_active_connections (ls_listeners s ! i) \<le> cn_max_connections (ln_limits (cs ! i)) \<and>
    le_active_connections (ls_listeners s ! i) = card (fst ` set (le_connections (ls_listeners s ! i)))"
proof -
  let ?l = "ls_listeners s ! i"
  have "listeners_ok s" using reach_ok [OF assms(2) listeners_new_ok [OF assms(1)]] .
  then have ok: "listener_ok ?l (queued i s)"
    using listeners_new_limits [OF assms(1,3)] reach_frame [OF assms(2)] assms(3) by (simp add: listeners_ok_def)
  have "card (set (held ?l)) \<le> card (set (held ?l) \<union> queued i s)" by (intro card_mono) auto
  then have "length (held ?l) \<le> le_max_connections ?l" using ok by (simp add: listener_ok_def distinct_card)
  moreover have "le_max_connections ?l = cn_max_connections (ln_limits (cs ! i))"
    using listeners_new_limits [OF assms(1,3)] reach_frame [OF assms(2), of i] by simp
  ultimately show ?thesis using ok by (simp add: listener_ok_def distinct_card)
qed

section \<open>Connections nobody receives\<close>

fun is_registered :: "session_event \<Rightarrow> bool" where
  "is_registered (SessionRegistered _ _ _) = True"
| "is_registered _ = False"

definition started :: "listeners \<Rightarrow> nat" where
  "started s = length (filter is_registered (ls_events s))"

definition unreceived :: "listeners \<Rightarrow> bool" where
  "unreceived s =
     (distinct (ls_queue s) \<and> (\<forall>e \<in> set (ls_queue s). fst e < length (ls_listeners s)) \<and>
      (\<forall>i < length (ls_listeners s). \<forall>c p. le_sending (ls_listeners s ! i) = Some (c, p) \<longrightarrow> (i, c) \<notin> set (ls_queue s)) \<and>
      started s = length (ls_queue s) \<and> length (ls_queue s) \<le> accept_capacity)"

lemma unreceived_offer:
  assumes "unreceived s" "i < length (ls_listeners s)" "(i, c) \<notin> set (ls_queue s)"
  shows "unreceived (offer i c peer s)"
proof (cases "length (ls_queue s) < accept_capacity")
  case True
  note o = offer_room [OF assms(2) True, of c peer]
  then show ?thesis using assms True by (auto simp: unreceived_def started_def)
next
  case False
  then have "accept_capacity \<le> length (ls_queue s)" by simp
  note o = offer_full [OF assms(2) this, of c peer]
  then show ?thesis using assms by (auto simp: unreceived_def started_def)
qed

lemma unreceived_frame:
  assumes "unreceived s" "i < length (ls_listeners s)" "\<And>l. le_sending (f l) = le_sending l"
  shows "unreceived (on_listener i f s)"
  using assms by (auto simp: unreceived_def started_def)

lemma unreceived_accept:
  assumes "unreceived s" "listeners_ok s" "i < length (ls_listeners s)"
  shows "unreceived (handle_accept socket_ok tls_ok now peer i s)"
proof -
  let ?c = "le_next_connection_id (ls_listeners s ! i)"
  have new: "(i, ?c) \<notin> set (ls_queue s)" using assms(2,3) by (auto simp: listeners_ok_def listener_ok_def queued_def)
  have skip: "unreceived (on_listener i (\<lambda>l. l \<lparr> le_next_connection_id := ?c + 1 \<rparr>) s)"
    using assms by (intro unreceived_frame) simp_all
  show ?thesis unfolding handle_accept_def Let_def
  proof (simp only: if_split, intro conjI impI)
    show "unreceived (offer i ?c peer (on_listener i (\<lambda>l. l \<lparr> le_active_connections := le_active_connections l + 1,
        le_connections := AList.update ?c (connection_new now (of_nat ?c) (le_name l) peer (le_idle_timeout l) (le_request_timeout l))
          (le_connections l) \<rparr>) (on_listener i (\<lambda>l. l \<lparr> le_next_connection_id := ?c + 1 \<rparr>) s)))"
      using assms new by (intro unreceived_offer unreceived_frame) simp_all
  qed (use assms(1) skip in simp_all)
qed

lemma unreceived_step:
  assumes "listeners_step False s s'" "unreceived s" "listeners_ok s"
  shows "unreceived s'"
  using assms(1)
proof cases
  case accept
  then show ?thesis using unreceived_accept [OF assms(2,3)] by simp
next
  case (sent i c peer)
  moreover from this have "(i, c) \<notin> set (ls_queue s)" using assms(2) by (simp add: unreceived_def)
  ultimately show ?thesis using unreceived_offer [OF assms(2)] by simp
next
  case (ended i t)
  have "unreceived (s \<lparr> ls_registry := unregister (snd t) (ls_registry s), ls_events := ls_events s @ [SessionUnregistered (snd t)] \<rparr>)"
    using assms(2) by (auto simp: unreceived_def started_def)
  then show ?thesis using ended unfolding end_task_def by (auto intro!: unreceived_frame)
next
  case (stopped i)
  then show ?thesis using assms(2) unfolding stop_listener_def by (auto intro!: unreceived_frame simp: drain_connections_def)
qed simp

lemma reach_unreceived: "listeners_reach False s0 s \<Longrightarrow> listeners_ok s0 \<Longrightarrow> unreceived s0 \<Longrightarrow> unreceived s \<and> listeners_ok s"
  by (induction rule: listeners_reach.induct) (auto intro: unreceived_step listeners_step_ok)

lemma queued_one:
  assumes "unreceived s" "length (ls_listeners s) = 1"
  shows "card (queued 0 s) = started s"
proof -
  have f: "\<forall>e \<in> set (ls_queue s). fst e = 0" using assms by (simp add: unreceived_def)
  then have "queued 0 s = snd ` set (ls_queue s)" by (force simp: queued_def)
  moreover have "inj_on snd (set (ls_queue s))" using f by (auto simp: inj_on_def prod_eq_iff)
  ultimately show ?thesis using assms(1) by (simp add: card_image distinct_card unreceived_def)
qed

text \<open>C14: as long as nobody calls \<^verbatim>\<open>Listeners::accept\<close>, which no code of the server does, a listener starts at most
  \<^verbatim>\<open>max_connections\<close> sessions (and at most 1024) over its whole life: the connections that stay in the channel keep
  their permits.  Once it has started \<^verbatim>\<open>max_connections\<close> sessions it refuses every further connection, also when
  all of those sessions have ended.\<close>

theorem unreceived_connections_exhaust_listener:
  assumes "listeners_new load_tls [c] k = Some s0" "listeners_reach False s0 s"
  shows "started s \<le> min accept_capacity (cn_max_connections (ln_limits c)) \<and>
    (started s = cn_max_connections (ln_limits c) \<longrightarrow> handle_accept socket_ok tls_ok now peer 0 s = s)"
proof -
  have n: "length (ls_listeners s) = 1" "le_max_connections (ls_listeners s ! 0) = cn_max_connections (ln_limits c)"
    using listeners_new_limits [OF assms(1), of 0] reach_frame [OF assms(2), of 0] by simp_all
  have "unreceived s0" using assms(1) by (auto simp: listeners_new_def unreceived_def started_def listener_new_def split: option.splits)
  then have u: "unreceived s" "listeners_ok s" using reach_unreceived [OF assms(2) listeners_new_ok [OF assms(1)]] by simp_all
  then have ok: "listener_ok (ls_listeners s ! 0) (queued 0 s)" using n(1) by (simp add: listeners_ok_def)
  have le: "started s \<le> card (set (held (ls_listeners s ! 0)) \<union> queued 0 s)"
    unfolding queued_one [OF u(1) n(1), symmetric] by (intro card_mono) auto
  moreover have "started s \<le> accept_capacity" using u(1) by (simp add: unreceived_def)
  moreover have "handle_accept socket_ok tls_ok now peer 0 s = s" if "started s = cn_max_connections (ln_limits c)"
    using le that n(2) by (simp add: handle_accept_def Let_def live_card)
  ultimately show ?thesis using ok n(2) by (auto simp: listener_ok_def)
qed

section \<open>Witnesses\<close>

text \<open>A listener for one connection: a client connects and its session ends.\<close>

definition small_listener :: listener_config where
  "small_listener =
     \<lparr> ln_name = ''l'', ln_address = ''0.0.0.0:2775'', ln_protocol = PrSmpp, ln_tls = None, ln_filters = [],
       ln_limits = connection_limits_default \<lparr> cn_max_connections := 1 \<rparr> \<rparr>"

definition fresh_listeners :: listeners where
  "fresh_listeners =
     \<lparr> ls_listeners = [\<lparr> le_name = ''l'', le_tls = False, le_max_connections = 1, le_next_connection_id = 1,
          le_connections = [], le_active_connections = 0, le_idle_timeout = from_secs 60, le_request_timeout = from_secs 30,
          le_tasks = [], le_sending = None, le_stopped = False \<rparr>],
       ls_queue = [], ls_registry = [], ls_session_counter = 0, ls_events = [] \<rparr>"

definition busy_listeners :: listeners where
  "busy_listeners = handle_accept True True 0 ''10.0.0.1'' 0 fresh_listeners"

definition idle_listeners :: listeners where
  "idle_listeners = end_task 0 (1, SessionId 0) busy_listeners"

lemma fresh_listeners_new: "listeners_new (\<lambda>_. True) [small_listener] 0 = Some fresh_listeners"
  by (simp add: listeners_new_def listener_new_def small_listener_def fresh_listeners_def connection_limits_default_def)

lemma busy_listeners_parts:
  "length (ls_listeners busy_listeners) = 1" "le_tasks (ls_listeners busy_listeners ! 0) = [(1, SessionId 0)]"
  "le_active_connections (ls_listeners busy_listeners ! 0) = 1" "started busy_listeners = 1"
  by (simp_all add: busy_listeners_def fresh_listeners_def handle_accept_def live_ids_def held_def offer_def
      accept_capacity_def spawn_task_def session_id_new_def on_listener_def started_def Let_def)

lemma busy_reached: "listeners_reach received fresh_listeners busy_listeners"
  unfolding busy_listeners_def
  by (rule listeners_reach.step [OF listeners_reach.start]) (rule listeners_step.accept; simp add: fresh_listeners_def)

lemma idle_reached: "listeners_reach received fresh_listeners idle_listeners"
  unfolding idle_listeners_def
  by (rule listeners_reach.step [OF busy_reached]) (rule listeners_step.ended; simp add: busy_listeners_parts)

lemma idle_listeners_parts: "started idle_listeners = 1" "le_tasks (ls_listeners idle_listeners ! 0) = []"
  using busy_listeners_parts by (simp_all add: idle_listeners_def end_task_def on_listener_def started_def)

theorem connections_within_limit_witness:
  "le_active_connections (ls_listeners busy_listeners ! 0) \<le> 1 \<and>
   card (fst ` set (le_connections (ls_listeners busy_listeners ! 0))) = 1"
  using connections_within_limit [OF fresh_listeners_new busy_reached, of 0] busy_listeners_parts(3) by simp

theorem unreceived_connections_exhaust_listener_witness:
  "started idle_listeners = 1 \<and> le_tasks (ls_listeners idle_listeners ! 0) = [] \<and>
   handle_accept True True 9 ''10.0.0.2'' 0 idle_listeners = idle_listeners"
  using unreceived_connections_exhaust_listener [OF fresh_listeners_new idle_reached, where socket_ok = True and tls_ok = True
      and now = 9 and peer = "''10.0.0.2''"] idle_listeners_parts
  by (simp add: small_listener_def)

end
