(* ===== verification/Bus.thy ===== *)
theory Bus
  imports Pipeline Acceptor
begin

text \<open>
  The event bus (\<^verbatim>\<open>src/src/bootstrap/events.rs\<close>): all events with their categories, publishing with the statistics,
  filtered subscriptions, the reactor that dispatches to handlers, and the receive loops of the pipeline's processors on the
  results of their subscriptions.  The broadcast channel is foreign code: \<open>send\<close> is its answer to a publication, and a
  receiver is the list of results it will yield, events and lag reports.

  Theory \<open>Pipeline\<close> treats the bus as delivering every event; here the lemmas say what a subscriber gets of what its receiver
  yields, and that an event lost to lag is never answered.
\<close>

section \<open>Events\<close>

datatype storage_event =
    MessageStored message_id
  | StateChanged message_id string string
  | MessageDeleted message_id
  | MaintenanceCompleted u64 u64

text \<open>The two session announcements are those of \<open>Acceptor\<close>, the ten events of the message flow those of \<open>Pipeline\<close>.\<close>

datatype event =
    EvConfigReloaded config
  | EvStarting
  | EvReady
  | EvShutdownStarted
  | EvDrainStarted
  | EvShutdownComplete
  | EvListenerStarted string string
  | EvListenerStopped string
  | EvClusterHealthChanged string usize usize
  | EvEndpointUp string string
  | EvEndpointDown string string string
  | EvCircuitBreakerOpened string string
  | EvCircuitBreakerClosed string string
  | EvSession session_event
  | EvConnectionOpened string string
  | EvConnectionClosed string string
  | EvSessionBound session_id string string string
  | EvSessionUnbound session_id string string
  | EvSessionAuthFailed string string string
  | EvFlow flow_event
  | EvMessageReceived message_id string string
  | EvMessageSubmitted message_id string string u32
  | EvMessageRetrying message_id u32 u64
  | EvDeliveryReceiptReceived string string string string
  | EvDeliveryReceiptReady session_id message_id string "u32 option"
  | EvStorage storage_event
  | EvThroughputSnapshot f64 u64 u64

datatype event_category = CatLifecycle | CatListener | CatCluster | CatSession | CatMessage | CatStorage | CatMetrics

fun event_category_of :: "event \<Rightarrow> event_category" where
  "event_category_of EvStarting = CatLifecycle"
| "event_category_of EvReady = CatLifecycle"
| "event_category_of EvShutdownStarted = CatLifecycle"
| "event_category_of EvDrainStarted = CatLifecycle"
| "event_category_of EvShutdownComplete = CatLifecycle"
| "event_category_of (EvConfigReloaded _) = CatLifecycle"
| "event_category_of (EvListenerStarted _ _) = CatListener"
| "event_category_of (EvListenerStopped _) = CatListener"
| "event_category_of (EvClusterHealthChanged _ _ _) = CatCluster"
| "event_category_of (EvEndpointUp _ _) = CatCluster"
| "event_category_of (EvEndpointDown _ _ _) = CatCluster"
| "event_category_of (EvCircuitBreakerOpened _ _) = CatCluster"
| "event_category_of (EvCircuitBreakerClosed _ _) = CatCluster"
| "event_category_of (EvSession _) = CatSession"
| "event_category_of (EvConnectionOpened _ _) = CatSession"
| "event_category_of (EvConnectionClosed _ _) = CatSession"
| "event_category_of (EvSessionBound _ _ _ _) = CatSession"
| "event_category_of (EvSessionUnbound _ _ _) = CatSession"
| "event_category_of (EvSessionAuthFailed _ _ _) = CatSession"
| "event_category_of (EvFlow _) = CatMessage"
| "event_category_of (EvMessageReceived _ _ _) = CatMessage"
| "event_category_of (EvMessageSubmitted _ _ _ _) = CatMessage"
| "event_category_of (EvMessageRetrying _ _ _) = CatMessage"
| "event_category_of (EvDeliveryReceiptReceived _ _ _ _) = CatMessage"
| "event_category_of (EvDeliveryReceiptReady _ _ _ _) = CatMessage"
| "event_category_of (EvStorage _) = CatStorage"
| "event_category_of (EvThroughputSnapshot _ _ _) = CatMetrics"

definition is_critical :: "event \<Rightarrow> bool" where
  "is_critical e =
     (case e of
        EvShutdownStarted \<Rightarrow> True
      | EvConfigReloaded _ \<Rightarrow> True
      | EvEndpointDown _ _ _ \<Rightarrow> True
      | EvCircuitBreakerOpened _ _ \<Rightarrow> True
      | EvFlow (MessageSubmitRequest _) \<Rightarrow> True
      | EvFlow (ResponseReady _) \<Rightarrow> True
      | _ \<Rightarrow> False)"

text \<open>\<^verbatim>\<open>category as usize\<close>.\<close>

fun category_index :: "event_category \<Rightarrow> nat" where
  "category_index CatLifecycle = 0"
| "category_index CatListener = 1"
| "category_index CatCluster = 2"
| "category_index CatSession = 3"
| "category_index CatMessage = 4"
| "category_index CatStorage = 5"
| "category_index CatMetrics = 6"

section \<open>The bus\<close>

record event_stats =
  es_published :: u64
  es_dropped :: u64
  es_by_category :: "u64 list"

record 'w event_handler =
  eh_categories :: "event_category list"
  eh_handle :: "event \<Rightarrow> 'w \<Rightarrow> 'w"

record ('c, 'w) bus =
  bu_channel :: 'c
  bu_handlers :: "'w event_handler list"
  bu_stats :: event_stats

definition bus_new :: "(nat \<Rightarrow> 'c) \<Rightarrow> nat \<Rightarrow> ('c, 'w) bus" where
  "bus_new channel capacity =
     \<lparr> bu_channel = channel capacity, bu_handlers = [],
       bu_stats = \<lparr> es_published = 0, es_dropped = 0, es_by_category = replicate 7 0 \<rparr> \<rparr>"

definition bus_default :: "(nat \<Rightarrow> 'c) \<Rightarrow> ('c, 'w) bus" where
  "bus_default channel = bus_new channel 4096"

definition publish :: "(event \<Rightarrow> 'c \<Rightarrow> bool \<times> 'c) \<Rightarrow> event \<Rightarrow> ('c, 'w) bus \<Rightarrow> ('c, 'w) bus" where
  "publish send e b =
     (let st = bu_stats b;
          st = st \<lparr> es_published := es_published st + 1 \<rparr>;
          i = category_index (event_category_of e);
          st = (if i < 7 then st \<lparr> es_by_category := (es_by_category st)[i := es_by_category st ! i + 1] \<rparr> else st);
          (ok, ch) = send e (bu_channel b);
          st = (if ok then st else st \<lparr> es_dropped := es_dropped st + 1 \<rparr>)
      in b \<lparr> bu_channel := ch, bu_stats := st \<rparr>)"

definition publish_storage :: "(event \<Rightarrow> 'c \<Rightarrow> bool \<times> 'c) \<Rightarrow> storage_event \<Rightarrow> ('c, 'w) bus \<Rightarrow> ('c, 'w) bus" where
  "publish_storage send e b = publish send (EvStorage e) b"

definition register_handler :: "'w event_handler \<Rightarrow> ('c, 'w) bus \<Rightarrow> ('c, 'w) bus" where
  "register_handler h b = b \<lparr> bu_handlers := bu_handlers b @ [h] \<rparr>"

section \<open>Receivers\<close>

datatype recv_error = RecvClosed | RecvLagged nat | RecvEmpty

definition wanted :: "event_category list \<Rightarrow> event \<Rightarrow> bool" where
  "wanted cats e = (cats = [] \<or> event_category_of e \<in> set cats)"

text \<open>\<^verbatim>\<open>FilteredSubscription::try_recv\<close>: the results still to come are returned; a receiver with nothing to yield is empty.\<close>

fun filtered_try_recv ::
  "event_category list \<Rightarrow> (recv_error + event) list \<Rightarrow> (recv_error + event) \<times> (recv_error + event) list" where
  "filtered_try_recv cats [] = (Inl RecvEmpty, [])"
| "filtered_try_recv cats (Inl e # rs) = (Inl e, rs)"
| "filtered_try_recv cats (Inr ev # rs) = (if wanted cats ev then (Inr ev, rs) else filtered_try_recv cats rs)"

text \<open>\<^verbatim>\<open>FilteredSubscription::recv\<close>: \<open>None\<close> when it would wait.\<close>

fun filtered_recv ::
  "event_category list \<Rightarrow> (recv_error + event) list \<Rightarrow> ((recv_error + event) \<times> (recv_error + event) list) option" where
  "filtered_recv cats [] = None"
| "filtered_recv cats (Inl e # rs) = Some (Inl e, rs)"
| "filtered_recv cats (Inr ev # rs) = (if wanted cats ev then Some (Inr ev, rs) else filtered_recv cats rs)"

text \<open>The reactor task and the bridge of storage events.\<close>

definition dispatch :: "'w event_handler list \<Rightarrow> event \<Rightarrow> 'w \<Rightarrow> 'w" where
  "dispatch hs e w = fold (\<lambda>h w. if wanted (eh_categories h) e then eh_handle h e w else w) hs w"

fun reactor :: "'w event_handler list \<Rightarrow> (recv_error + event) list \<Rightarrow> 'w \<Rightarrow> 'w" where
  "reactor hs [] w = w"
| "reactor hs (Inr e # rs) w = reactor hs rs (dispatch hs e w)"
| "reactor hs (Inl RecvClosed # rs) w = w"
| "reactor hs (Inl (RecvLagged n) # rs) w = reactor hs rs w"
| "reactor hs (Inl RecvEmpty # rs) w = reactor hs rs w"

fun storage_bridge ::
  "(event \<Rightarrow> 'c \<Rightarrow> bool \<times> 'c) \<Rightarrow> (recv_error + storage_event) list \<Rightarrow> ('c, 'w) bus \<Rightarrow> ('c, 'w) bus" where
  "storage_bridge send [] b = b"
| "storage_bridge send (Inr e # rs) b = storage_bridge send rs (publish_storage send e b)"
| "storage_bridge send (Inl RecvClosed # rs) b = b"
| "storage_bridge send (Inl (RecvLagged n) # rs) b = storage_bridge send rs b"
| "storage_bridge send (Inl RecvEmpty # rs) b = storage_bridge send rs b"

section \<open>Receive loops of the processors\<close>

text \<open>
  The loop of a processor subscribed to the message events: it ends when the channel is closed, goes on after a lag report,
  and lets \<open>react\<close> handle every event of the flow.
\<close>

function processor_loop ::
  "(flow_event \<Rightarrow> 's \<Rightarrow> flow_event list \<times> 's) \<Rightarrow> (recv_error + event) list \<Rightarrow> 's \<Rightarrow> flow_event list \<times> 's" where
  "processor_loop react rs s =
     (case filtered_recv [CatMessage] rs of
        None \<Rightarrow> ([], s)
      | Some (Inl RecvClosed, rest) \<Rightarrow> ([], s)
      | Some (Inl _, rest) \<Rightarrow> processor_loop react rest s
      | Some (Inr (EvFlow ev), rest) \<Rightarrow>
          (let (out, s1) = react ev s; (outs, s2) = processor_loop react rest s1 in (out @ outs, s2))
      | Some (Inr _, rest) \<Rightarrow> processor_loop react rest s)"
  by pat_completeness auto

lemma filtered_recv_shorter: "filtered_recv cats rs = Some (r, rest) \<Longrightarrow> length rest < length rs"
  by (induction cats rs rule: filtered_recv.induct) (auto split: if_splits)

termination processor_loop
  by (relation "measure (\<lambda>(_, rs, _). length rs)") (auto dest: filtered_recv_shorter)

definition filter_processor :: "(recv_error + event) list \<Rightarrow> flow_event list" where
  "filter_processor rs = fst (processor_loop (\<lambda>ev s. (filter_run ev, s)) rs ())"

definition router_processor ::
  "regex_engine \<Rightarrow> tz_database \<Rightarrow> clock \<Rightarrow> (recv_error + event) list \<Rightarrow> gateway \<Rightarrow> flow_event list \<times> gateway" where
  "router_processor R tz ck = processor_loop (router_run R tz ck)"

definition response_processor :: "(recv_error + event) list \<Rightarrow> session_registry \<Rightarrow> session_registry" where
  "response_processor rs reg = snd (processor_loop (\<lambda>ev reg. ([], response_run ev reg)) rs reg)"

section \<open>Statistics\<close>

fun dropped_sends :: "(event \<Rightarrow> 'c \<Rightarrow> bool \<times> 'c) \<Rightarrow> event list \<Rightarrow> 'c \<Rightarrow> nat" where
  "dropped_sends send [] ch = 0"
| "dropped_sends send (e # es) ch =
     (if fst (send e ch) then 0 else 1) + dropped_sends send es (snd (send e ch))"

lemma category_index_less: "category_index c < 7"
  by (cases c) auto

lemma publish_stats:
  "bu_stats (publish send e b) =
     (bu_stats b) \<lparr> es_published := es_published (bu_stats b) + 1,
        es_dropped := es_dropped (bu_stats b) + (if fst (send e (bu_channel b)) then 0 else 1),
        es_by_category := (es_by_category (bu_stats b))
          [category_index (event_category_of e) := es_by_category (bu_stats b) ! category_index (event_category_of e) + 1] \<rparr>"
  by (simp add: publish_def Let_def category_index_less split: prod.splits)

lemma publish_channel: "bu_channel (publish send e b) = snd (send e (bu_channel b))"
  by (simp add: publish_def Let_def split: prod.splits)

lemma publish_handlers: "bu_handlers (publish send e b) = bu_handlers b"
  by (simp add: publish_def Let_def split: prod.splits)

lemma sum_list_update_incr: "i < length xs \<Longrightarrow> sum_list (xs[i := xs ! i + a]) = sum_list xs + (a :: u64)"
  by (induction xs arbitrary: i) (auto simp: algebra_simps split: nat.splits)

text \<open>The statistics after a sequence of publications, relative to those before.\<close>

definition stats_after :: "(event \<Rightarrow> 'c \<Rightarrow> bool \<times> 'c) \<Rightarrow> event list \<Rightarrow> ('c, 'w) bus \<Rightarrow> event_stats \<Rightarrow> bool" where
  "stats_after send es b st =
     (es_published st = es_published (bu_stats b) + of_nat (length es)
      \<and> es_dropped st = es_dropped (bu_stats b) + of_nat (dropped_sends send es (bu_channel b))
      \<and> length (es_by_category st) = length (es_by_category (bu_stats b))
      \<and> (\<forall>i < 7. es_by_category st ! i =
            es_by_category (bu_stats b) ! i + of_nat (length (filter (\<lambda>e. category_index (event_category_of e) = i) es))))"

lemma publish_many:
  assumes "length (es_by_category (bu_stats b)) = 7"
  shows "stats_after send es b (bu_stats (fold (publish send) es b))"
  using assms
proof (induction es arbitrary: b)
  case (Cons e es)
  let ?b = "publish send e b" and ?i = "category_index (event_category_of e)"
  have "length (es_by_category (bu_stats ?b)) = 7" using Cons.prems by (simp add: publish_stats)
  from Cons.IH [OF this] Cons.prems category_index_less [of "event_category_of e"] show ?case
    by (auto simp: stats_after_def publish_stats publish_channel nth_list_update)
qed (simp add: stats_after_def)

lemma sum_by_category:
  "length (es_by_category (bu_stats b)) = 7 \<Longrightarrow>
   sum_list (es_by_category (bu_stats (fold (publish send) es b))) = sum_list (es_by_category (bu_stats b)) + of_nat (length es)"
  by (induction es arbitrary: b) (simp_all add: publish_stats sum_list_update_incr category_index_less)

text \<open>The statistics of a new bus count every publication once in the total and once in its category, and
  count as dropped exactly the publications the channel refused.\<close>

theorem bus_statistics_exact:
  "let st = bu_stats (fold (publish send) es (bus_new channel capacity :: ('c, 'w) bus))
   in es_published st = of_nat (length es)
      \<and> es_dropped st = of_nat (dropped_sends send es (channel capacity))
      \<and> map (\<lambda>i. es_by_category st ! i) [0 ..< 7] =
          map (\<lambda>i. of_nat (length (filter (\<lambda>e. category_index (event_category_of e) = i) es))) [0 ..< 7]
      \<and> sum_list (es_by_category st) = es_published st"
proof -
  let ?b = "bus_new channel capacity :: ('c, 'w) bus"
  have len: "length (es_by_category (bu_stats ?b)) = 7" by (simp add: bus_new_def)
  show ?thesis
    using publish_many [OF len, of send es] sum_by_category [OF len, of send es]
    by (auto simp: stats_after_def bus_new_def Let_def sum_list_replicate simp del: upt_Suc)
qed

section \<open>What a processor handles\<close>

definition flow_of :: "recv_error + event \<Rightarrow> flow_event option" where
  "flow_of r = (case r of Inr (EvFlow ev) \<Rightarrow> Some ev | _ \<Rightarrow> None)"

text \<open>The events of the message flow a receiver yields before its channel closes.\<close>

definition delivered :: "(recv_error + event) list \<Rightarrow> flow_event list" where
  "delivered rs = List.map_filter flow_of (takeWhile (\<lambda>r. r \<noteq> Inl RecvClosed) rs)"

fun run_flow :: "(flow_event \<Rightarrow> 's \<Rightarrow> flow_event list \<times> 's) \<Rightarrow> flow_event list \<Rightarrow> 's \<Rightarrow> flow_event list \<times> 's" where
  "run_flow react [] s = ([], s)"
| "run_flow react (ev # evs) s = (let (out, s1) = react ev s; (outs, s2) = run_flow react evs s1 in (out @ outs, s2))"

lemma delivered_simps [simp]:
  "delivered [] = []"
  "delivered (Inl e # rs) = (if e = RecvClosed then [] else delivered rs)"
  "delivered (Inr (EvFlow ev) # rs) = ev # delivered rs"
  by (simp_all add: delivered_def flow_of_def map_filter_simps)

lemma delivered_other: "(\<And>ev. e \<noteq> EvFlow ev) \<Longrightarrow> delivered (Inr e # rs) = delivered rs"
  by (cases e) (auto simp: delivered_def flow_of_def map_filter_simps)

lemma recv_delivered:
  "case filtered_recv [CatMessage] rs of
     None \<Rightarrow> delivered rs = []
   | Some (r, rest) \<Rightarrow> delivered rs = delivered (r # rest)"
proof (induction rs)
  case (Cons r rs)
  show ?case
  proof (cases r)
    case (Inr e)
    show ?thesis
    proof (cases "wanted [CatMessage] e")
      case False
      then have "delivered (Inr e # rs) = delivered rs"
        by (intro delivered_other) (auto simp: wanted_def)
      with Cons.IH False Inr show ?thesis by (simp split: option.splits prod.splits)
    qed (simp add: Inr)
  qed simp
qed simp

lemma processor_loop_run_flow: "processor_loop react rs s = run_flow react (delivered rs) s"
proof (induction "length rs" arbitrary: rs s rule: less_induct)
  case less
  show ?case
  proof (cases "filtered_recv [CatMessage] rs")
    case None
    then show ?thesis using recv_delivered [of rs] by simp
  next
    case (Some p)
    obtain r rest where p: "p = (r, rest)" by (cases p)
    have IH: "processor_loop react rest s' = run_flow react (delivered rest) s'" for s'
      using filtered_recv_shorter [of _ rs r rest] Some p by (intro less) simp
    have del: "delivered rs = delivered (r # rest)" using recv_delivered [of rs] Some p by simp
    show ?thesis
    proof (cases r)
      case (Inl e)
      then show ?thesis using Some p IH del by (cases e) simp_all
    next
      case (Inr e)
      then show ?thesis using Some p IH del by (cases e) (simp_all add: delivered_other)
    qed
  qed
qed

lemma run_flow_stateless: "fst (run_flow (\<lambda>ev s. (f ev, s)) evs s) = concat (map f evs)"
  by (induction evs) (simp_all add: Let_def case_prod_unfold)

text \<open>C21: The filter processor publishes, in order, what the submissions its receiver yields call for, and
  nothing for a submission the receiver lost: lag reports only shorten what it handles.\<close>

theorem filter_processor_exact:
  "filter_processor rs =
     concat (map process_message (List.map_filter (\<lambda>ev. case ev of MessageSubmitRequest env \<Rightarrow> Some env | _ \<Rightarrow> None) (delivered rs)))"
proof -
  have "concat (map filter_run evs) =
      concat (map process_message (List.map_filter (\<lambda>ev. case ev of MessageSubmitRequest env \<Rightarrow> Some env | _ \<Rightarrow> None) evs))" for evs
    by (induction evs) (simp_all add: filter_run_def map_filter_simps split: flow_event.splits)
  then show ?thesis by (simp add: filter_processor_def processor_loop_run_flow run_flow_stateless del: processor_loop.simps)
qed

theorem lost_submission_unanswered:
  "filter_processor [Inl (RecvLagged n)] = [] \<and> is_critical (EvFlow (MessageSubmitRequest env))"
  by (simp add: filter_processor_def processor_loop_run_flow is_critical_def del: processor_loop.simps)

end
