(* ===== verification/Shutdown.thy ===== *)
theory Shutdown
  imports Prelude
begin

text \<open>
  The graceful-shutdown coordinator (\<^verbatim>\<open>src/src/bootstrap/shutdown.rs\<close>).  The completion signal is a
  flag recording that it was sent.
\<close>

datatype shutdown_state = Running | Draining | Terminated

record shutdown =
  sd_state :: shutdown_state
  sd_drain_timeout :: duration
  sd_active_connections :: u64
  sd_completed :: bool

definition shutdown_new :: "duration \<Rightarrow> shutdown" where
  "shutdown_new t = \<lparr> sd_state = Running, sd_drain_timeout = t, sd_active_connections = 0, sd_completed = False \<rparr>"

definition start_drain :: "shutdown \<Rightarrow> shutdown" where
  "start_drain s = (if sd_state s \<noteq> Running then s else s \<lparr> sd_state := Draining \<rparr>)"

definition terminate :: "shutdown \<Rightarrow> shutdown" where
  "terminate s =
     (if sd_state s = Terminated then s else s \<lparr> sd_state := Terminated, sd_completed := True \<rparr>)"

definition connection_opened :: "shutdown \<Rightarrow> bool \<times> shutdown" where
  "connection_opened s =
     (if sd_state s \<noteq> Running then (False, s)
      else (True, s \<lparr> sd_active_connections := sd_active_connections s + 1 \<rparr>))"

definition connection_closed :: "shutdown \<Rightarrow> shutdown" where
  "connection_closed s =
     (let prev = sd_active_connections s;
          s1 = s \<lparr> sd_active_connections := prev - 1 \<rparr>
      in if sd_state s1 = Draining \<and> prev = 1 then terminate s1 else s1)"

definition is_accepting :: "shutdown \<Rightarrow> bool" where
  "is_accepting s = (sd_state s = Running)"

text \<open>The coordinator together with the number of connections really open: each admitted connection
  closes once.\<close>

inductive shut_step :: "shutdown \<times> nat \<Rightarrow> shutdown \<times> nat \<Rightarrow> bool" where
  drain: "shut_step (s, n) (start_drain s, n)"
| opened: "connection_opened s = (True, s') \<Longrightarrow> Suc n < 2 ^ 64 \<Longrightarrow> shut_step (s, n) (s', Suc n)"
| refused: "connection_opened s = (False, s') \<Longrightarrow> shut_step (s, n) (s', n)"
| closed: "shut_step (s, Suc n) (connection_closed s, n)"
| force: "shut_step (s, n) (terminate s, n)"

inductive_cases shut_stepE: "shut_step p q"

definition shut_inv :: "shutdown \<times> nat \<Rightarrow> bool" where
  "shut_inv p =
     (unat (sd_active_connections (fst p)) = snd p \<and>
      sd_completed (fst p) = (sd_state (fst p) = Terminated))"

lemma shut_inv_step: "shut_step p q \<Longrightarrow> shut_inv p \<Longrightarrow> shut_inv q"
proof (induction rule: shut_step.induct)
  case (opened s s' n)
  then have "unat (sd_active_connections s + 1) = Suc n"
    using unat_add_lem [of "sd_active_connections s" 1] by (simp add: shut_inv_def)
  with opened show ?case by (auto simp: shut_inv_def connection_opened_def split: if_splits)
next
  case (closed s n)
  then have "1 \<le> sd_active_connections s" by (simp add: shut_inv_def word_le_nat_alt)
  then have "unat (sd_active_connections s - 1) = n"
    using closed by (simp add: unat_sub shut_inv_def)
  with closed show ?case by (auto simp: shut_inv_def connection_closed_def terminate_def Let_def)
qed (auto simp: shut_inv_def start_drain_def terminate_def connection_opened_def split: if_splits)

text \<open>C39: graceful drain.  In every reachable state the counter is the number of open connections and
  completion was signalled exactly in the terminated state; closing the last connection of a
  draining server terminates it, a draining or terminated server admits no connection, and no step
  ever leads back to running.\<close>

theorem drain_terminates_on_last_close:
  assumes reach: "shut_step\<^sup>*\<^sup>* (shutdown_new t, 0) (s, n)"
  shows "unat (sd_active_connections s) = n \<and> (sd_completed s \<longleftrightarrow> sd_state s = Terminated) \<and>
    (sd_state s = Draining \<and> n = 1 \<longrightarrow> sd_state (connection_closed s) = Terminated) \<and>
    (sd_state s \<noteq> Running \<longrightarrow> connection_opened s = (False, s)) \<and>
    (\<forall>q. sd_state s \<noteq> Running \<and> shut_step (s, n) q \<longrightarrow> sd_state (fst q) \<noteq> Running)"
proof -
  have "shut_inv (s, n)"
    using reach
  proof (induction rule: rtranclp_induct)
    case base
    then show ?case by (simp add: shut_inv_def shutdown_new_def)
  qed (rule shut_inv_step)
  then have inv: "unat (sd_active_connections s) = n" "sd_completed s = (sd_state s = Terminated)"
    by (simp_all add: shut_inv_def)
  have last: "sd_state (connection_closed s) = Terminated" if "sd_state s = Draining" "n = 1"
  proof -
    have "sd_active_connections s = 1" using inv(1) that(2) by (metis unat_1 word_unat_eq_iff)
    then show ?thesis using that(1) by (simp add: connection_closed_def terminate_def)
  qed
  have "sd_state (fst q) \<noteq> Running" if "sd_state s \<noteq> Running" "shut_step (s, n) q" for q
    using that by (auto elim!: shut_stepE simp: start_drain_def terminate_def connection_opened_def
        connection_closed_def Let_def split: if_splits)
  with inv last show ?thesis by (auto simp: connection_opened_def)
qed

theorem drain_terminates_on_last_close_witness:
  "sd_state (connection_closed (start_drain (snd (connection_opened (shutdown_new 5))))) = Terminated"
proof -
  let ?s0 = "shutdown_new 5" and ?s1 = "snd (connection_opened (shutdown_new 5))"
  have "connection_opened ?s0 = (True, ?s1)" by (simp add: connection_opened_def shutdown_new_def)
  then have "shut_step (?s0, 0) (?s1, Suc 0)" by (rule opened) simp
  then have "shut_step\<^sup>*\<^sup>* (?s0, 0) (start_drain ?s1, Suc 0)"
    by (rule converse_rtranclp_into_rtranclp) (rule r_into_rtranclp, rule drain)
  from drain_terminates_on_last_close [OF this] show ?thesis
    by (simp add: start_drain_def connection_opened_def shutdown_new_def)
qed

end
