(* ===== verification/ServerRun.thy ===== *)
theory ServerRun
  imports Gateway Bus Shutdown
begin

text \<open>
  The server's life (\<^verbatim>\<open>src/src/bootstrap/server.rs\<close>, \<^verbatim>\<open>worker.rs\<close>): construction, start-up, the signal loop with the
  reload of the configuration, and the stop sequence.  A step that waits for something that never comes has no result:
  joining a worker thread returns only once the worker has seen the shutdown state change.

  The theorems show that a server that is only told to stop runs through its stop sequence to the end, and that the first
  successful reload blocks the signal loop for good.
\<close>

section \<open>Workers (worker.rs)\<close>

text \<open>A worker thread runs until its receiver reports a change of the shutdown state after the one it subscribed at.  States
  never return (theory \<open>Shutdown\<close>), so a change is a different state.\<close>

record worker =
  wk_id :: nat
  wk_seen :: shutdown_state
  wk_handle :: bool

record worker_config =
  wc_workers :: nat
  wc_stack_size :: nat
  wc_name_prefix :: string

definition worker_config_default :: worker_config where
  "worker_config_default = \<lparr> wc_workers = 0, wc_stack_size = 2 * 1024 * 1024, wc_name_prefix = ''smppd-worker'' \<rparr>"

definition worker_spawn :: "shutdown \<Rightarrow> nat \<Rightarrow> worker" where
  "worker_spawn sd i = \<lparr> wk_id = i, wk_seen = sd_state sd, wk_handle = True \<rparr>"

definition worker_join :: "shutdown \<Rightarrow> worker \<Rightarrow> worker option" where
  "worker_join sd w =
     (if \<not> wk_handle w then Some w
      else if sd_state sd \<noteq> wk_seen w then Some (w \<lparr> wk_handle := False \<rparr>)
      else None)"

definition workers_new :: "nat \<Rightarrow> worker_config \<Rightarrow> shutdown \<Rightarrow> worker list" where
  "workers_new num_cpus c sd = map (worker_spawn sd) [0 ..< (if wc_workers c = 0 then num_cpus else wc_workers c)]"

fun workers_shutdown :: "shutdown \<Rightarrow> worker list \<Rightarrow> worker list option" where
  "workers_shutdown sd [] = Some []"
| "workers_shutdown sd (w # ws) =
     (case worker_join sd w of
        None \<Rightarrow> None
      | Some w' \<Rightarrow> map_option (\<lambda>ws'. w' # ws') (workers_shutdown sd ws))"

section \<open>The server\<close>

record 'p server =
  sv_config :: config
  sv_config_path :: string
  sv_shutdown :: shutdown
  sv_state :: "'p gateway_state"
  sv_workers :: "worker list option"
  sv_published :: "event list"

text \<open>\<open>sv_published\<close> lists what was handed to \<^verbatim>\<open>Bus::publish\<close> (theory \<open>Bus\<close>).\<close>

definition server_new ::
  "regex_engine \<Rightarrow> environment \<Rightarrow> (string \<Rightarrow> bool) \<Rightarrow> (string \<Rightarrow> string + 'p) \<Rightarrow> config \<Rightarrow> string \<Rightarrow> start_error + 'p server" where
  "server_new R ev mkdir_ok open_storage cfg path =
     (let shutdown = shutdown_new (sc_drain_timeout (se_shutdown (cg_settings cfg)))
      in case gateway_state_new R ev mkdir_ok open_storage cfg of
           Inl e \<Rightarrow> Inl e
         | Inr g \<Rightarrow>
             Inr \<lparr> sv_config = cfg, sv_config_path = path, sv_shutdown = shutdown, sv_state = g, sv_workers = None,
                   sv_published = [] \<rparr>)"

definition create_workers :: "nat \<Rightarrow> 'p server \<Rightarrow> worker list" where
  "create_workers num_cpus s =
     workers_new num_cpus
       \<lparr> wc_workers = tm_workers (cg_telemetry (sv_config s)), wc_stack_size = tm_worker_stack_size (cg_telemetry (sv_config s)),
         wc_name_prefix = ''smppd-worker'' \<rparr> (sv_shutdown s)"

definition server_publish :: "event \<Rightarrow> 'p server \<Rightarrow> 'p server" where
  "server_publish e s = s \<lparr> sv_published := sv_published s @ [e] \<rparr>"

text \<open>The first part of \<^verbatim>\<open>Server::run\<close>, up to the signal loop: without listeners the server runs its administration
  only.\<close>

definition server_start ::
  "nat \<Rightarrow> (tls_config \<Rightarrow> bool) \<Rightarrow> instant \<Rightarrow> 'p server \<Rightarrow> 'p server \<times> 'p admin_state \<times> listeners option" where
  "server_start num_cpus load_tls now s =
     (let s1 = server_publish EvStarting s;
          admin = admin_state_new now (sv_config_path s1) (sv_config s1) (sv_state s1);
          s2 = s1 \<lparr> sv_workers := Some (create_workers num_cpus s1) \<rparr>;
          ls = listeners_new load_tls (cg_listeners (sv_config s2)) 1;
          admin = set_ready True admin
      in (server_publish EvReady s2, admin, ls))"

section \<open>Signals\<close>

text \<open>On a hang-up signal.  The wait for connections to drain ends after ten seconds at the latest and changes nothing.  The
  old workers are joined before anything else; \<open>None\<close> when that never ends.\<close>

definition server_reload_config ::
  "codec \<Rightarrow> regex_engine \<Rightarrow> nat \<Rightarrow> (string, string) alist \<Rightarrow> 'p server \<Rightarrow> 'p server option" where
  "server_reload_config K R num_cpus files s =
     (case config_load K (sv_config_path s) files of
        Inl e \<Rightarrow> Some s
      | Inr cfg \<Rightarrow>
          (case (case sv_workers s of None \<Rightarrow> Some [] | Some ws \<Rightarrow> workers_shutdown (sv_shutdown s) ws) of
             None \<Rightarrow> None
           | Some _ \<Rightarrow>
               (let s1 = s \<lparr> sv_workers := None \<rparr>;
                    s2 = s1 \<lparr> sv_state := snd (gateway_reload R cfg (sv_state s1)) \<rparr>;
                    s3 = s2 \<lparr> sv_config := cfg \<rparr>;
                    s4 = s3 \<lparr> sv_workers := Some (create_workers num_cpus s3) \<rparr>
                in Some (server_publish (EvConfigReloaded cfg) s4))))"

datatype signal = SigHup "(string, string) alist" | SigTerm

datatype 'a progress = Stopping 'a | Waiting 'a | Blocked

fun run_signal_loop :: "codec \<Rightarrow> regex_engine \<Rightarrow> nat \<Rightarrow> signal list \<Rightarrow> 'p server \<Rightarrow> 'p server progress" where
  "run_signal_loop K R num_cpus [] s = Waiting s"
| "run_signal_loop K R num_cpus (SigTerm # rest) s = Stopping s"
| "run_signal_loop K R num_cpus (SigHup files # rest) s =
     (case server_reload_config K R num_cpus files s of
        None \<Rightarrow> Blocked
      | Some s' \<Rightarrow> run_signal_loop K R num_cpus rest s')"

section \<open>Stop sequence\<close>

text \<open>The wait for the drain: the states of the coordinator it looks at, until it has nothing left to wait for or the timeout
  cuts it off.\<close>

fun drain_wait :: "shutdown list \<Rightarrow> bool" where
  "drain_wait [] = False"
| "drain_wait (sd # sds) = (sd_active_connections sd = 0 \<or> sd_state sd = Terminated \<or> drain_wait sds)"

text \<open>\<open>closes\<close> connections end while the server drains.\<close>

definition server_stop ::
  "nat \<Rightarrow> 'p server \<Rightarrow> 'p admin_state \<Rightarrow> ('p server \<times> 'p admin_state \<times> bool) option" where
  "server_stop closes s a =
     (let s1 = server_publish EvShutdownStarted s;
          a1 = set_healthy False (set_ready False a);
          s2 = s1 \<lparr> sv_shutdown := start_drain (sv_shutdown s1) \<rparr>;
          s3 = server_publish EvDrainStarted s2;
          drained = drain_wait (map (\<lambda>k. (connection_closed ^^ k) (sv_shutdown s3)) [0 ..< Suc closes]);
          s4 = s3 \<lparr> sv_shutdown := (connection_closed ^^ closes) (sv_shutdown s3) \<rparr>
      in case (case sv_workers s4 of None \<Rightarrow> Some [] | Some ws \<Rightarrow> workers_shutdown (sv_shutdown s4) ws) of
           None \<Rightarrow> None
         | Some _ \<Rightarrow>
             (let s5 = s4 \<lparr> sv_workers := None \<rparr>;
                  s6 = s5 \<lparr> sv_shutdown := terminate (sv_shutdown s5) \<rparr>
              in Some (server_publish EvShutdownComplete s6, a1, drained)))"

section \<open>Lemmas\<close>

lemma workers_shutdown_Some:
  "(\<exists>ws'. workers_shutdown sd ws = Some ws') \<longleftrightarrow> (\<forall>w \<in> set ws. wk_handle w \<longrightarrow> sd_state sd \<noteq> wk_seen w)"
proof (induction ws)
  case (Cons w ws)
  show ?case
    using Cons.IH by (cases "wk_handle w"; cases "sd_state sd = wk_seen w") (simp_all add: worker_join_def)
qed simp

text \<open>Workers that subscribed in the current state block a join.\<close>

lemma new_workers_block:
  assumes "0 < num_cpus"
  shows "workers_shutdown sd (workers_new num_cpus c sd) = None"
proof -
  define n where "n = (if wc_workers c = 0 then num_cpus else wc_workers c)"
  have "0 < n" using assms by (simp add: n_def)
  then have "workers_new num_cpus c sd = worker_spawn sd 0 # map (worker_spawn sd) [1 ..< n]"
    by (simp add: workers_new_def n_def [symmetric] upt_conv_Cons)
  moreover have "worker_join sd (worker_spawn sd 0) = None"
    by (simp add: worker_join_def worker_spawn_def)
  ultimately show ?thesis by simp
qed

lemma workers_new_seen: "w \<in> set (workers_new num_cpus c sd) \<Longrightarrow> wk_seen w = sd_state sd"
  by (auto simp: workers_new_def worker_spawn_def)

text \<open>A running server whose workers subscribed while it ran.\<close>

definition running :: "nat \<Rightarrow> 'p server \<Rightarrow> bool" where
  "running num_cpus s =
     (sd_state (sv_shutdown s) = Running \<and> sv_workers s = Some (create_workers num_cpus s))"

lemma start_running:
  "sd_state (sv_shutdown s) = Running \<Longrightarrow> server_start num_cpus load_tls now s = (s', a, ls) \<Longrightarrow>
   running num_cpus s' \<and> sv_published s' = sv_published s @ [EvStarting, EvReady] \<and> sv_config_path s' = sv_config_path s
   \<and> am_ready a"
  by (auto simp: server_start_def server_publish_def running_def create_workers_def set_ready_def Let_def)

lemma server_new_running: "server_new R ev mk op cfg path = Inr s \<Longrightarrow>
  sd_state (sv_shutdown s) = Running \<and> sv_published s = [] \<and> sv_config_path s = path"
  by (auto simp: server_new_def shutdown_new_def Let_def split: sum.splits)

lemma reload_blocks:
  "0 < num_cpus \<Longrightarrow> running num_cpus s \<Longrightarrow> config_load K (sv_config_path s) files = Inr cfg \<Longrightarrow>
   server_reload_config K R num_cpus files s = None"
  by (simp add: server_reload_config_def running_def create_workers_def new_workers_block)

lemma failed_reload_nothing: "config_load K (sv_config_path s) files = Inl e \<Longrightarrow> server_reload_config K R num_cpus files s = Some s"
  by (simp add: server_reload_config_def)

definition bad_hup :: "codec \<Rightarrow> 'p server \<Rightarrow> signal \<Rightarrow> bool" where
  "bad_hup K s g = (\<exists>files e. g = SigHup files \<and> config_load K (sv_config_path s) files = Inl e)"

lemma loop_skips_bad:
  "\<forall>g \<in> set pre. bad_hup K s g \<Longrightarrow> run_signal_loop K R num_cpus (pre @ post) s = run_signal_loop K R num_cpus post s"
  by (induction pre) (auto simp: bad_hup_def failed_reload_nothing)

lemma closed_not_running: "sd_state s \<noteq> Running \<Longrightarrow> sd_state (connection_closed s) \<noteq> Running"
  by (auto simp: connection_closed_def terminate_def Let_def)

lemma closes_not_running: "sd_state s \<noteq> Running \<Longrightarrow> sd_state ((connection_closed ^^ k) s) \<noteq> Running"
  by (induction k) (auto simp: closed_not_running)

lemma stop_completes:
  assumes "running num_cpus s"
  obtains s' a' drained where "server_stop closes s a = Some (s', a', drained)"
    "sv_published s' = sv_published s @ [EvShutdownStarted, EvDrainStarted, EvShutdownComplete]"
    "sd_state (sv_shutdown s') = Terminated" "sv_workers s' = None" "\<not> am_ready a'" "\<not> am_healthy a'"
proof -
  let ?sd = "(connection_closed ^^ closes) (start_drain (sv_shutdown s))"
  have "sd_state ?sd \<noteq> Running"
    by (rule closes_not_running) (simp add: start_drain_def)
  then have "\<forall>w \<in> set (create_workers num_cpus s). wk_handle w \<longrightarrow> sd_state ?sd \<noteq> wk_seen w"
    using assms by (auto simp: create_workers_def running_def dest: workers_new_seen)
  then obtain ws' where "workers_shutdown ?sd (create_workers num_cpus s) = Some ws'"
    using workers_shutdown_Some by blast
  then show ?thesis
    using assms that
    by (simp add: server_stop_def server_publish_def running_def set_ready_def set_healthy_def Let_def terminate_def)
qed

section \<open>Properties\<close>

text \<open>A server on the sample configuration.\<close>

definition sample_server :: "unit server" where
  "sample_server =
     \<lparr> sv_config = sample_cfg, sv_config_path = ''/etc/c.yaml'',
       sv_shutdown = shutdown_new (sc_drain_timeout (se_shutdown (cg_settings sample_cfg))), sv_state = Gateway.sample_gateway,
       sv_workers = None, sv_published = [] \<rparr>"

lemma sample_server_new:
  "server_new no_regex Gateway.sample_env (\<lambda>_. True) (\<lambda>_. Inr ()) sample_cfg ''/etc/c.yaml'' = Inr sample_server"
  by (simp add: server_new_def Gateway.sample_gateway_new sample_server_def Let_def)

lemma sample_path: "format_from_path ''/etc/c.yaml'' = Some Yaml"
  using sample_file_store_new by (auto simp: file_store_new_def sample_file_store_def split: option.splits)

lemma sample_loads: "config_load sample_codec ''/etc/c.yaml'' [(''/etc/c.yaml'', ''sample'')] = Inr sample_cfg"
proof -
  have "validate sample_cfg = Inr ()" using sample_cfg_ok by (simp add: validate_Inr)
  then show ?thesis by (simp add: config_load_def sample_path config_from_text_def sample_codec_def)
qed



text \<open>C9: The first reload of a loadable configuration blocks the signal loop: the old workers are joined while
  the server still runs, and they end only when it stops running.  No later signal, the termination signal included, is
  handled.\<close>

theorem reload_blocks_signal_loop:
  assumes "server_new R ev mk op cfg path = Inr s0" "server_start num_cpus load_tls now s0 = (s, a, ls)" "0 < num_cpus"
    and "\<forall>g \<in> set hups. bad_hup K s g" and "config_load K path files = Inr cfg'"
  shows "run_signal_loop K R num_cpus (hups @ SigHup files # rest) s = Blocked"
proof -
  have start: "running num_cpus s" "sv_config_path s = path"
    using server_new_running [OF assms(1)] start_running [OF _ assms(2)] by auto
  then have "server_reload_config K R num_cpus files s = None"
    using reload_blocks [OF assms(3) start(1)] assms(5) by simp
  then show ?thesis by (simp add: loop_skips_bad [OF assms(4)])
qed

theorem reload_blocks_signal_loop_witness:
  "run_signal_loop sample_codec no_regex 2 [SigHup [(''/etc/c.yaml'', ''sample'')], SigTerm]
     (fst (server_start 2 (\<lambda>_. True) 0 sample_server)) = Blocked"
proof -
  obtain s a ls where start: "server_start 2 (\<lambda>_. True) 0 sample_server = (s, a, ls)" by (metis prod.collapse)
  from reload_blocks_signal_loop [OF sample_server_new start _ _ sample_loads, of "[]" "[SigTerm]"] show ?thesis
    by (simp add: start)
qed

end
