(* ===== verification/Spec2Isabelle.thy ===== *)
theory Spec2Isabelle
  imports FirewallEngine Cluster Router Session RateLimit Scheduler Esme FirewallFilter Dlr StorageEquiv Records Pricing
    PluginManager ForeignPlugins Telemetry ServerRun
begin

text \<open>
  Verification library for \<^verbatim>\<open>smppd\<close>, a proxy between SMS clients (ESMEs) and message centres (SMSCs)
  that speak SMPP.

  \<^bold>\<open>How the program works.\<close>  A client binds to a listener session
  (\<^verbatim>\<open>listener/\<close>), which checks its credentials (\<^verbatim>\<open>filter/auth.rs\<close>) and publishes
  every \<^verbatim>\<open>submit_sm\<close> as an envelope on the event bus.  The pipeline (\<^verbatim>\<open>pipeline/\<close>)
  validates the message, routes it (\<^verbatim>\<open>router/\<close>), forwards it to a cluster of upstream endpoints
  (\<^verbatim>\<open>cluster/\<close>: load balancer, circuit breaker, connection pool) and publishes the response, which
  the session registry hands back to the session.  An older path, the forwarder (\<^verbatim>\<open>forwarder/\<close>), does the
  same work from a request queue, retries failed messages and correlates delivery receipts.  All of them keep
  messages and feedback statistics in a storage (\<^verbatim>\<open>store/memory.rs\<close> or
  \<^verbatim>\<open>store/persistent.rs\<close>).  Beside this path stand the filters (rate limit, firewall, ESME accounts), the
  message scheduler, the standalone firewall engine, plugins (Lua scripts and webhooks called at hook points) and
  telemetry.  The server starts all of this, reloads its configuration on a signal and stops it gracefully.

  \<^bold>\<open>Theories and the sources they model\<close> (paths below \<^verbatim>\<open>src/src\<close>).

  \<^item> \<open>Prelude\<close>, \<open>Decimal\<close>: word sizes, instants and durations, association lists as hash maps, saturating
    arithmetic; decimal printing and parsing and big-endian bytes with their round trips.
  \<^item> \<open>Float64\<close>: the double-precision arithmetic of the source on rationals with explicit rounding: exactness on
    integers, relative error, monotonicity, and stable sorting by a floating-point key.
  \<^item> \<open>Message\<close> (\<^verbatim>\<open>store/types.rs\<close>, \<^verbatim>\<open>feedback/types.rs\<close>): the message record, one definition per
    method that changes it, its event log.  Invariant: attempts, states and events of a reachable message agree.
  \<^item> \<open>MessageStore\<close>, \<open>Feedback\<close> (\<^verbatim>\<open>store/memory.rs\<close>): the in-memory collections, capacity and memory
    pruning, queries; decisions, outcomes and statistics.  Live messages are never evicted, pruning takes the oldest
    terminal ones, counters agree with the recorded history.
  \<^item> \<open>Persistent\<close>, \<open>PersistentRefine\<close>, \<open>StorageEquiv\<close> (\<^verbatim>\<open>store/persistent.rs\<close>): the key-value backed
    storage with its state index over a partition engine and a codec.  It refines a finite map from ids to messages,
    loads what it stored, recovers its messages and fresh ids after a restart and agrees with the in-memory storage on
    the target statistics.
  \<^item> \<open>Cdr\<close> (\<^verbatim>\<open>cdr/\<close>): call detail records, CSV, the rotating file writer, the memory writer, the processor.
    CSV lines are read back, the file of a day is complete and in order.
  \<^item> \<open>Records\<close> (\<^verbatim>\<open>store/types.rs\<close>, \<^verbatim>\<open>store/memory.rs\<close>, \<^verbatim>\<open>store/persistent.rs\<close>): the
    other stored collections (call detail records, schedules, rate limits, firewall settings and events) of both
    storages; bounded logs, exact queries and statistics, and agreement of the two storages through the locale
    \<open>keyed_store\<close>.
  \<^item> \<open>Circuit\<close>, \<open>Endpoint\<close>, \<open>LoadBalancer\<close>, \<open>Mock\<close>, \<open>Cluster\<close> (\<^verbatim>\<open>cluster/\<close>): breaker state machine, endpoints
    with pool and health, the seven balancing strategies, the mock message centre, connection acquisition.
  \<^item> \<open>Router\<close> (\<^verbatim>\<open>router/router.rs\<close>, \<^verbatim>\<open>router/matcher.rs\<close>): compilation of routes, matchers, time
    windows, traffic splits; priority order and exact shares.
  \<^item> \<open>Pricing\<close> (\<^verbatim>\<open>router/pricing.rs\<close>): price table, loading, double-precision scores, selection; the lookup order
    and that the cheapest route is selected.
  \<^item> \<open>Configuration\<close> (\<^verbatim>\<open>config/\<close>): every configuration type with its defaults, validation, loading, the file
    and the in-memory configuration store behind the locale \<open>config_store\<close>; validation is exactly well-formedness and a
    save is atomic.
  \<^item> \<open>Gateway\<close> (\<^verbatim>\<open>bootstrap/state.rs\<close>, \<^verbatim>\<open>store/factory.rs\<close>, \<^verbatim>\<open>admin/\<close>): start-up of the gateway state, reload, maintenance, the administration handlers; a validated
    configuration only routes to existing clusters.
  \<^item> \<open>Smpp\<close>, \<open>Auth\<close>, \<open>Session\<close> (\<^verbatim>\<open>bootstrap/events.rs\<close>, \<^verbatim>\<open>filter/request.rs\<close>,
    \<^verbatim>\<open>filter/auth.rs\<close>, \<^verbatim>\<open>listener/\<close>): envelopes, credential stores, every PDU handler, the session
    loop over a list of events, the registry.  Only authenticated sessions submit; each request has one answer.
  \<^item> \<open>RateLimit\<close>, \<open>FirewallFilter\<close>, \<open>Esme\<close>, \<open>Scheduler\<close>, \<open>Shutdown\<close> (\<^verbatim>\<open>filter/\<close>,
    \<^verbatim>\<open>store/scheduler.rs\<close>, \<^verbatim>\<open>bootstrap/shutdown.rs\<close>).
  \<^item> \<open>FirewallEngine\<close> (\<^verbatim>\<open>firewall/\<close>): compilation and evaluation of rule chains, equal to a direct
    interpretation of the configuration.
  \<^item> \<open>Forwarder\<close>, \<open>Dlr\<close> (\<^verbatim>\<open>forwarder/\<close>): the request processor, the retry processor, delivery receipts over the
    gateway state (storage, feedback, clusters, router).
  \<^item> \<open>Pipeline\<close> (\<^verbatim>\<open>pipeline/\<close>): the four processors as a step relation over a bus; every submitted message is
    answered exactly once, and the bus runs dry.
  \<^item> \<open>Acceptor\<close> (\<^verbatim>\<open>listener/acceptor.rs\<close>): listeners, accept loops, connection tasks and the channel they share
    as an interleaving step relation; the connection limit holds, and what follows from nobody receiving from the channel.
  \<^item> \<open>Bus\<close> (\<^verbatim>\<open>bootstrap/events.rs\<close>): every event with its category, publishing with statistics, filtered
    subscriptions, reactor and storage bridge, and the receive loops of the processors when their receiver lags; exact
    statistics, and what a processor makes of what it receives.
  \<^item> \<open>ServerRun\<close> (\<^verbatim>\<open>bootstrap/server.rs\<close>, \<^verbatim>\<open>bootstrap/worker.rs\<close>): construction, start-up, signal
    loop, reload and stop sequence; stopping completes, a successful reload blocks.
  \<^item> \<open>Plugins\<close>, \<open>Lua\<close>, \<open>PluginManager\<close> (\<^verbatim>\<open>plugins/\<close>): hook registry, contexts, webhook client, Lua sandbox and
    calls, the manager; the order of hooks, the number and length of webhook attempts, what the sandbox hides, which plugins
    a configuration leaves loaded.
  \<^item> \<open>ForeignPlugins\<close> (\<^verbatim>\<open>plugins/loader/wasm.rs\<close>, \<^verbatim>\<open>plugins/loader/native.rs\<close>): the host functions of WASM
    plugins and the buffers of native ones; the configuration lookup writes within its bounds, when either fails.
  \<^item> \<open>Telemetry\<close> (\<^verbatim>\<open>telemetry/metrics.rs\<close>): readiness state and endpoints, instruments, recording functions;
    readiness follows the reported health of the registered clusters.

  \<^bold>\<open>Conventions.\<close>  A method that changes \<^verbatim>\<open>self\<close> takes the state last and returns it, behind its
  result if it has one.  Results of Rust's \<^verbatim>\<open>Result\<close> are sums with the error on the left.  Machine integers are
  words; lengths (\<^verbatim>\<open>usize\<close>) that never come near \<open>2^64\<close> are naturals.  Times are integers (nanoseconds), read
  from a clock argument, never from the state.  A hash map is an association list; results that depend on its
  iteration order are stated for every order or name the order as the list's.  Answers of the network, regular
  expressions, Unicode tables, IP networks, the key-value engine and the JSON codec are arguments or fields of a
  record of functions; where a theorem needs a documented law of one of them it is a locale assumption or a named
  hypothesis, and a witness gives a concrete instance.

  \<^bold>\<open>Bounds and assumptions.\<close>  All functions are total: the loops run over finite lists.  The pipeline is a
  relation without fuel and its termination is proved by a measure on the events of the bus.  Three idealisations are
  made: in \<open>Pipeline\<close> a bus subscriber never lags behind (\<open>Bus\<close> says what happens then), a method that takes one
  lock is one step, and an evaluation reads each clock once.  Theorems about counters that could wrap state the bound
  they need.

  \<^bold>\<open>Not modelled.\<close>  Sockets, TLS and the SMPP codec (the \<^verbatim>\<open>smpp\<close> crate), the HTTP server and the
  Prometheus page, the OpenTelemetry exporter and tracing, the Lua interpreter, the WASM runtime and the code of loaded
  modules and libraries (the plugin manager refuses both kinds before it reaches them), file watching, the YAML, JSON and TOML libraries, the command
  line, and the installation of signal handlers.  The sign of a floating-point zero is not represented.
\<close>

end
